(* ===== verification/Prelude.thy ===== *)
theory Prelude
  imports Main "HOL-Library.Sublist"
begin

text \<open>
  What every component of the development shares: the model of JavaScript strings and of the
  standard-library operations the sources call on them (\<open>trim\<close>, \<open>split\<close>, \<open>join\<close>, \<open>startsWith\<close>,
  \<open>includes\<close>, \<open>padStart\<close>, decimal rendering), and the collections of simplification rules the
  component proofs use.

  A JavaScript string is a list of UTF-16 code units. Here it is a \<^typ>\<open>string\<close>: a code unit
  below 256 is the \<^typ>\<open>char\<close> of that number, so the model covers exactly the strings over
  Latin-1, which holds ASCII and the accented letters of the Portuguese literals. The few
  literals of the sources with a code unit above 255 (the em dash) are written as the bytes of
  their UTF-8 encoding. A JavaScript number that the code uses as an integer is an \<^typ>\<open>int\<close>,
  exact while its magnitude stays below 2 to the 53.
\<close>

named_theorems str_simps \<open>rules that evaluate string operations on closed terms\<close>

section \<open>Characters\<close>

text \<open>White space as \<open>String.prototype.trim\<close> and \<open>\s\<close> read it, below code unit 256.\<close>

definition js_ws :: "char \<Rightarrow> bool" where
  "js_ws c \<longleftrightarrow> c \<in> set [CHR 0x09, CHR 0x0A, CHR 0x0B, CHR 0x0C, CHR 0x0D, CHR 0x20, CHR 0xA0]"

definition is_digit :: "char \<Rightarrow> bool" where
  "is_digit c \<longleftrightarrow> 48 \<le> (of_char c :: nat) \<and> (of_char c :: nat) \<le> 57"

definition is_ascii_upper :: "char \<Rightarrow> bool" where
  "is_ascii_upper c \<longleftrightarrow> 65 \<le> (of_char c :: nat) \<and> (of_char c :: nat) \<le> 90"

definition is_ascii_lower :: "char \<Rightarrow> bool" where
  "is_ascii_lower c \<longleftrightarrow> 97 \<le> (of_char c :: nat) \<and> (of_char c :: nat) \<le> 122"

text \<open>Case mapping of one code unit, exact on ASCII; the sources map only handles, currency
  codes, references and host names.\<close>

definition upper_char :: "char \<Rightarrow> char" where
  "upper_char c = (if is_ascii_lower c then char_of ((of_char c :: nat) - 32) else c)"

definition lower_char :: "char \<Rightarrow> char" where
  "lower_char c = (if is_ascii_upper c then char_of ((of_char c :: nat) + 32) else c)"

definition js_upper :: "string \<Rightarrow> string" where "js_upper = map upper_char"

definition js_lower :: "string \<Rightarrow> string" where "js_lower = map lower_char"

text \<open>The case maps on the bits of a code unit, for evaluation.\<close>

lemma lower_char_code [code]:
  "lower_char (Char b0 b1 b2 b3 b4 b5 b6 b7) =
     (if \<not> b7 \<and> b6 \<and> \<not> b5 \<and> (b0 \<or> b1 \<or> b2 \<or> b3 \<or> b4) \<and> \<not> (b4 \<and> b3 \<and> (b2 \<or> b1 \<and> b0))
      then Char b0 b1 b2 b3 b4 True b6 b7 else Char b0 b1 b2 b3 b4 b5 b6 b7)"
  by (cases b0; cases b1; cases b2; cases b3; cases b4; cases b5; cases b6; cases b7)
    (simp_all add: lower_char_def is_ascii_upper_def char_of_def bit_0)

lemma upper_char_code [code]:
  "upper_char (Char b0 b1 b2 b3 b4 b5 b6 b7) =
     (if \<not> b7 \<and> b6 \<and> b5 \<and> (b0 \<or> b1 \<or> b2 \<or> b3 \<or> b4) \<and> \<not> (b4 \<and> b3 \<and> (b2 \<or> b1 \<and> b0))
      then Char b0 b1 b2 b3 b4 False b6 b7 else Char b0 b1 b2 b3 b4 b5 b6 b7)"
  by (cases b0; cases b1; cases b2; cases b3; cases b4; cases b5; cases b6; cases b7)
    (simp_all add: upper_char_def is_ascii_lower_def char_of_def bit_0)

definition digit_char :: "nat \<Rightarrow> char" where
  "digit_char n = char_of (48 + n)"

definition digit_val :: "char \<Rightarrow> nat" where
  "digit_val c = of_char c - 48"

lemma of_char_digit_char: "n < 10 \<Longrightarrow> (of_char (digit_char n) :: nat) = 48 + n"
  by (simp add: digit_char_def of_char_of)

lemma digit_char_zero: "digit_char 0 = CHR ''0''"
  by (simp add: digit_char_def) code_simp

lemma digit_chars [str_simps]:
  "digit_char 0 = CHR ''0''" "digit_char 1 = CHR ''1''" "digit_char (Suc 0) = CHR ''1''"
  "digit_char 2 = CHR ''2''" "digit_char 3 = CHR ''3''" "digit_char 4 = CHR ''4''"
  "digit_char 5 = CHR ''5''" "digit_char 6 = CHR ''6''" "digit_char 7 = CHR ''7''"
  "digit_char 8 = CHR ''8''" "digit_char 9 = CHR ''9''"
  by (simp_all add: digit_char_def) code_simp+

lemma digit_val_digit_char [simp]: "n < 10 \<Longrightarrow> digit_val (digit_char n) = n"
  by (simp add: digit_val_def of_char_digit_char)

lemma is_digit_digit_char [simp]: "n < 10 \<Longrightarrow> is_digit (digit_char n)"
  by (simp add: is_digit_def of_char_digit_char)

lemma digit_not_ws: "is_digit c \<Longrightarrow> \<not> js_ws c"
  by (auto simp: is_digit_def js_ws_def)

lemmas char_class_defs = js_ws_def is_digit_def is_ascii_upper_def is_ascii_lower_def

section \<open>Trimming\<close>

definition trim_start :: "string \<Rightarrow> string" where
  "trim_start = dropWhile js_ws"

definition js_trim :: "string \<Rightarrow> string" where
  "js_trim s = rev (dropWhile js_ws (rev (dropWhile js_ws s)))"

text \<open>Whether a string is blank: the sources' test \<open>s.trim() === ''\<close>.\<close>

definition blank :: "string \<Rightarrow> bool" where
  "blank s \<longleftrightarrow> js_trim s = []"

lemma blank_iff: "blank s \<longleftrightarrow> list_all js_ws s"
proof -
  have "dropWhile js_ws s = [] \<longleftrightarrow> list_all js_ws s"
    by (auto simp: dropWhile_eq_Nil_conv list_all_iff)
  moreover have "dropWhile js_ws (rev (dropWhile js_ws s)) = [] \<longleftrightarrow> dropWhile js_ws s = []"
    by (metis dropWhile_eq_Nil_conv hd_dropWhile hd_in_set set_rev list.size(3) set_empty empty_iff)
  ultimately show ?thesis by (simp add: blank_def js_trim_def)
qed

lemma blank_Nil [simp]: "blank []"
  by (simp add: blank_iff)

lemma js_trim_no_ws: "list_all (\<lambda>c. \<not> js_ws c) s \<Longrightarrow> js_trim s = s"
proof -
  assume h: "list_all (\<lambda>c. \<not> js_ws c) s"
  have *: "dropWhile js_ws t = t" if "set t = set s" for t
    using that h by (cases t) (auto simp: list_all_iff)
  show ?thesis by (simp add: js_trim_def *)
qed

lemma trim_start_no_ws: "s = [] \<or> \<not> js_ws (hd s) \<Longrightarrow> trim_start s = s"
  by (cases s) (auto simp: trim_start_def)

section \<open>Prefixes, suffixes, substrings\<close>

abbreviation startsWith :: "string \<Rightarrow> string \<Rightarrow> bool" where
  "startsWith s p \<equiv> prefix p s"

abbreviation has_sub :: "string \<Rightarrow> string \<Rightarrow> bool" where
  "has_sub s p \<equiv> sublist p s"

text \<open>\<open>s.replace(/\/$/, '')\<close>: one trailing slash is removed.\<close>

definition drop_slash :: "string \<Rightarrow> string" where
  "drop_slash s = (if s \<noteq> [] \<and> last s = CHR ''/'' then butlast s else s)"

lemma drop_slash_snoc [simp]: "drop_slash (s @ ''/'') = s"
  by (simp add: drop_slash_def)

lemma drop_slash_id [simp]: "s = [] \<or> last s \<noteq> CHR ''/'' \<Longrightarrow> drop_slash s = s"
  by (auto simp: drop_slash_def)

section \<open>Splitting and joining\<close>

text \<open>\<open>s.split(c)\<close> for a one-character separator.\<close>

fun split_on :: "char \<Rightarrow> string \<Rightarrow> string list" where
  "split_on c [] = [[]]"
| "split_on c (x # xs) =
     (if x = c then [] # split_on c xs
      else (case split_on c xs of [] \<Rightarrow> [[x]] | p # ps \<Rightarrow> (x # p) # ps))"

text \<open>\<open>xs.join(sep)\<close>.\<close>

fun join_with :: "string \<Rightarrow> string list \<Rightarrow> string" where
  "join_with sep [] = []"
| "join_with sep [x] = x"
| "join_with sep (x # y # ys) = x @ sep @ join_with sep (y # ys)"

lemma split_on_nonempty [simp]: "split_on c s \<noteq> []"
  by (induction s) (auto split: list.splits)

lemma split_on_no_sep [simp]: "c \<notin> set s \<Longrightarrow> split_on c s = [s]"
  by (induction s) auto

lemma split_on_append: "c \<notin> set p \<Longrightarrow> split_on c (p @ c # s) = p # split_on c s"
  by (induction p) auto

lemma split_on_parts: "p \<in> set (split_on c s) \<Longrightarrow> c \<notin> set p"
  by (induction s arbitrary: p) (auto split: if_splits list.splits)

lemma join_split: "join_with [c] (split_on c s) = s"
proof (induction s)
  case Nil
  show ?case by simp
next
  case (Cons x xs)
  obtain p ps where ps: "split_on c xs = p # ps" by (meson split_on_nonempty neq_Nil_conv)
  with Cons show ?case by (cases ps) auto
qed

lemma split_join:
  assumes "xs \<noteq> []" and "list_all (\<lambda>x. c \<notin> set x) xs"
  shows "split_on c (join_with [c] xs) = xs"
  using assms
proof (induction "[c]" xs rule: join_with.induct)
  case (3 x y ys)
  then show ?case by (simp add: split_on_append)
qed auto

text \<open>Position of the first occurrence of a character, as \<open>s.indexOf(c)\<close>; \<open>None\<close> is -1.\<close>

fun index_of :: "char \<Rightarrow> string \<Rightarrow> nat option" where
  "index_of c [] = None"
| "index_of c (x # xs) = (if x = c then Some 0 else map_option Suc (index_of c xs))"

lemma index_of_append [simp]: "c \<notin> set p \<Longrightarrow> index_of c (p @ c # s) = Some (length p)"
  by (induction p) auto

lemma index_of_None_iff: "index_of c s = None \<longleftrightarrow> c \<notin> set s"
  by (induction s) auto

text \<open>Two parts around a separator that neither first part holds.\<close>

lemma append_sep_inject:
  "c \<notin> set a \<Longrightarrow> c \<notin> set b \<Longrightarrow> a @ c # x = b @ c # y \<longleftrightarrow> a = b \<and> x = y"
proof (induction a arbitrary: b)
  case Nil
  then show ?case by (cases b) auto
next
  case (Cons d a)
  then show ?case by (cases b) auto
qed

section \<open>Decimal numerals\<close>

text \<open>\<open>n.toString()\<close> for a non-negative integer, and the value \<open>parseInt(s, 10)\<close> gives a string
  of digits.\<close>

fun nat_str :: "nat \<Rightarrow> string" where
  "nat_str n = (if n < 10 then [digit_char n] else nat_str (n div 10) @ [digit_char (n mod 10)])"

declare nat_str.simps [simp del]

definition int_str :: "int \<Rightarrow> string" where
  "int_str i = (if i < 0 then CHR ''-'' # nat_str (nat (- i)) else nat_str (nat i))"

definition dec_val :: "string \<Rightarrow> nat" where
  "dec_val s = foldl (\<lambda>n c. 10 * n + digit_val c) 0 s"

text \<open>\<open>String(n).padStart(2, '0')\<close>.\<close>

definition pad2 :: "nat \<Rightarrow> string" where
  "pad2 n = (let s = nat_str n in replicate (2 - length s) (CHR ''0'') @ s)"

lemma nat_str_small: "n < 10 \<Longrightarrow> nat_str n = [digit_char n]"
  by (simp add: nat_str.simps)

lemma nat_str_big: "10 \<le> n \<Longrightarrow> nat_str n = nat_str (n div 10) @ [digit_char (n mod 10)]"
  by (subst nat_str.simps) simp

lemma nat_str_nonempty [simp]: "nat_str n \<noteq> []"
  by (cases "n < 10") (simp_all add: nat_str_small nat_str_big)

lemma dec_val_snoc [simp]: "dec_val (s @ [c]) = 10 * dec_val s + digit_val c"
  by (simp add: dec_val_def)

lemma dec_val_Nil [simp]: "dec_val [] = 0"
  by (simp add: dec_val_def)

lemma dec_val_nat_str [simp]: "dec_val (nat_str n) = n"
proof (induction n rule: nat_str.induct)
  case (1 n)
  show ?case
  proof (cases "n < 10")
    case True
    then show ?thesis by (simp add: nat_str_small dec_val_def)
  next
    case False
    with 1 show ?thesis by (simp add: nat_str_big)
  qed
qed

lemma nat_str_inject [simp]: "nat_str m = nat_str n \<longleftrightarrow> m = n"
  by (metis dec_val_nat_str)

lemma nat_str_digits: "list_all is_digit (nat_str n)"
proof (induction n rule: nat_str.induct)
  case (1 n)
  then show ?case
    by (cases "n < 10") (simp_all add: nat_str_small nat_str_big)
qed

lemma nat_str_no_ws: "list_all (\<lambda>c. \<not> js_ws c) (nat_str n)"
  using nat_str_digits [of n] by (auto simp: list_all_iff digit_not_ws)

lemma nat_str_notin: "\<not> is_digit c \<Longrightarrow> c \<notin> set (nat_str n)"
  using nat_str_digits [of n] by (auto simp: list_all_iff)

lemma hd_nat_str_digit: "is_digit (hd (nat_str n))"
  using nat_str_digits [of n] by (cases "nat_str n") auto

lemma int_str_inject [simp]: "int_str i = int_str j \<longleftrightarrow> i = j"
proof -
  have neq: "nat_str k \<noteq> CHR ''-'' # t" for k t
    using hd_nat_str_digit [of k] by (auto simp: is_digit_def)
  show ?thesis
    by (auto simp: int_str_def neq neq [symmetric])
qed

lemma pad2_nat: "n < 100 \<Longrightarrow> pad2 n = [digit_char (n div 10), digit_char (n mod 10)]"
  by (cases "n < 10")
     (auto simp: pad2_def nat_str_small nat_str_big Let_def digit_char_zero)

lemma pad2_length: "n < 100 \<Longrightarrow> length (pad2 n) = 2"
  by (simp add: pad2_nat)

section \<open>Truncating division\<close>

text \<open>\<open>Math.trunc(a / b)\<close> and \<open>a % b\<close> of JavaScript, for a positive divisor: rounding towards
  zero, the remainder taking the sign of the dividend.\<close>

definition trunc_div :: "int \<Rightarrow> int \<Rightarrow> int" where
  "trunc_div a b = sgn a * (\<bar>a\<bar> div b)"

definition js_rem :: "int \<Rightarrow> int \<Rightarrow> int" where
  "js_rem a b = sgn a * (\<bar>a\<bar> mod b)"

lemma trunc_div_rem: "a = b * trunc_div a b + js_rem a b"
proof -
  have "b * trunc_div a b + js_rem a b = sgn a * (b * (\<bar>a\<bar> div b) + \<bar>a\<bar> mod b)"
    unfolding trunc_div_def js_rem_def by (simp only: ring_distribs mult.left_commute)
  also have "\<dots> = sgn a * \<bar>a\<bar>" by (simp only: mult_div_mod_eq)
  finally show ?thesis by (simp add: sgn_mult_abs)
qed

section \<open>Searching a list\<close>

text \<open>\<open>xs.find(p)\<close> is the library's \<^const>\<open>List.find\<close>. \<open>new Map(xs.map(x => [k(x), x]))\<close> keeps the
  last element of a key.\<close>

definition last_by :: "('a \<Rightarrow> 'k) \<Rightarrow> 'a list \<Rightarrow> ('k \<rightharpoonup> 'a)" where
  "last_by key xs = foldl (\<lambda>m x. m(key x \<mapsto> x)) Map.empty xs"

lemma last_by_snoc [simp]: "last_by key (xs @ [x]) = (last_by key xs)(key x \<mapsto> x)"
  by (simp add: last_by_def)

lemma last_by_Nil [simp]: "last_by key [] = Map.empty"
  by (simp add: last_by_def)

lemma last_by_SomeD: "last_by key xs k = Some x \<Longrightarrow> x \<in> set xs \<and> key x = k"
  by (induction xs rule: rev_induct) (auto split: if_splits)

lemma last_by_None_iff: "last_by key xs k = None \<longleftrightarrow> k \<notin> key ` set xs"
  by (induction xs rule: rev_induct) auto

lemma last_by_distinct:
  "distinct (map key xs) \<Longrightarrow> x \<in> set xs \<Longrightarrow> last_by key xs (key x) = Some x"
  by (induction xs rule: rev_induct) (auto simp: image_iff)

lemma replicate_numerals [str_simps]: "replicate 2 x = [x, x]" "replicate 3 x = [x, x, x]"
  by (simp_all add: numeral_eq_Suc)

lemmas [str_simps] = nat_str_small nat_str_big int_str_def js_ws_def is_digit_def

end
