(* ===== verification/Json.thy ===== *)
theory Json
  imports Prelude
begin

text \<open>
  \<open>JSON.stringify\<close> and \<open>JSON.parse\<close>, as the sources use them: request bodies, webhook payloads,
  realtime frames, and the canonical text the validation studio hashes and compares.

  A JSON number is kept as its token, so parsing loses nothing and integers are rendered by
  \<^const>\<open>int_str\<close>. An object keeps its members in order, duplicates included; reading a member
  takes the last one of that name, as the JavaScript object built by \<open>JSON.parse\<close> does. A
  property whose value is \<open>undefined\<close> is left out of an object, which \<open>opt_member\<close> writes out.
  The parser is a recursive descent with fuel; \<open>parse_fuel_enough\<close> shows that the fuel
  \<open>json_parse\<close> gives it never runs out, and \<open>json_roundtrip\<close> that it inverts rendering.
\<close>

datatype json =
    JNull
  | JBool bool
  | JNum string
  | JStr string
  | JArr "json list"
  | JObj "(string \<times> json) list"

section \<open>Rendering\<close>

definition hex_digit :: "nat \<Rightarrow> char" where
  "hex_digit n = (if n < 10 then digit_char n else char_of (87 + n))"

text \<open>The escape of one code unit inside a JSON string.\<close>

definition json_escape :: "char \<Rightarrow> string" where
  "json_escape c =
     (if c = CHR 0x22 then [CHR 0x5C, CHR 0x22]
      else if c = CHR 0x5C then [CHR 0x5C, CHR 0x5C]
      else if c = CHR 0x08 then [CHR 0x5C, CHR ''b'']
      else if c = CHR 0x0C then [CHR 0x5C, CHR ''f'']
      else if c = CHR 0x0A then [CHR 0x5C, CHR ''n'']
      else if c = CHR 0x0D then [CHR 0x5C, CHR ''r'']
      else if c = CHR 0x09 then [CHR 0x5C, CHR ''t'']
      else if (of_char c :: nat) < 32
        then [CHR 0x5C, CHR ''u'', CHR ''0'', CHR ''0'',
              hex_digit (of_char c div 16), hex_digit (of_char c mod 16)]
      else [c])"

definition json_quote :: "string \<Rightarrow> string" where
  "json_quote s = CHR 0x22 # concat (map json_escape s) @ [CHR 0x22]"

fun stringify :: "json \<Rightarrow> string"
  and stringify_elems :: "json list \<Rightarrow> string"
  and stringify_members :: "(string \<times> json) list \<Rightarrow> string"
where
  "stringify JNull = ''null''"
| "stringify (JBool True) = ''true''"
| "stringify (JBool False) = ''false''"
| "stringify (JNum tok) = tok"
| "stringify (JStr s) = json_quote s"
| "stringify (JArr xs) = CHR ''['' # stringify_elems xs @ '']''"
| "stringify (JObj ms) = CHR ''{'' # stringify_members ms @ ''}''"
| "stringify_elems [] = []"
| "stringify_elems [x] = stringify x"
| "stringify_elems (x # y # ys) = stringify x @ '','' @ stringify_elems (y # ys)"
| "stringify_members [] = []"
| "stringify_members [(k, v)] = json_quote k @ '':'' @ stringify v"
| "stringify_members ((k, v) # m # ms) =
     json_quote k @ '':'' @ stringify v @ '','' @ stringify_members (m # ms)"

text \<open>Values as the sources build them.\<close>

definition jint :: "int \<Rightarrow> json" where "jint i = JNum (int_str i)"

definition jstrs :: "string list \<Rightarrow> json" where "jstrs xs = JArr (map JStr xs)"

definition or_null :: "('a \<Rightarrow> json) \<Rightarrow> 'a option \<Rightarrow> json" where
  "or_null f x = (case x of None \<Rightarrow> JNull | Some v \<Rightarrow> f v)"

definition opt_member :: "string \<Rightarrow> ('a \<Rightarrow> json) \<Rightarrow> 'a option \<Rightarrow> (string \<times> json) list" where
  "opt_member k f x = (case x of None \<Rightarrow> [] | Some v \<Rightarrow> [(k, f v)])"

definition jget :: "string \<Rightarrow> json \<Rightarrow> json option" where
  "jget k v = (case v of JObj ms \<Rightarrow> map_of (rev ms) k | _ \<Rightarrow> None)"

text \<open>A string member of a response body, \<open>undefined\<close> and \<open>null\<close> both \<^const>\<open>None\<close>.\<close>

definition str_member :: "string \<Rightarrow> json \<Rightarrow> string option" where
  "str_member k v = (case jget k v of Some (JStr s) \<Rightarrow> Some s | _ \<Rightarrow> None)"

section \<open>Parsing\<close>

definition json_ws :: "char \<Rightarrow> bool" where
  "json_ws c \<longleftrightarrow> c = CHR 0x20 \<or> c = CHR 0x09 \<or> c = CHR 0x0A \<or> c = CHR 0x0D"

definition skip :: "string \<Rightarrow> string" where "skip = dropWhile json_ws"

definition hex_val :: "char \<Rightarrow> nat option" where
  "hex_val c =
     (let n = of_char c :: nat in
      if 48 \<le> n \<and> n \<le> 57 then Some (n - 48)
      else if 97 \<le> n \<and> n \<le> 102 then Some (n - 87)
      else if 65 \<le> n \<and> n \<le> 70 then Some (n - 55)
      else None)"

text \<open>The four hexadecimal digits of a \<open>\u\<close> escape, when they name a code unit below 256.\<close>

definition hex4 :: "char \<Rightarrow> char \<Rightarrow> char \<Rightarrow> char \<Rightarrow> char option" where
  "hex4 a b c d =
     (case (hex_val a, hex_val b, hex_val c, hex_val d) of
        (Some w, Some x, Some y, Some z) \<Rightarrow>
          (let n = ((w * 16 + x) * 16 + y) * 16 + z in
           if n < 256 then Some (char_of n) else None)
      | _ \<Rightarrow> None)"

definition unescape :: "char \<Rightarrow> char option" where
  "unescape c = map_of
     [(CHR 0x22, CHR 0x22), (CHR 0x5C, CHR 0x5C), (CHR ''/'', CHR ''/''), (CHR ''b'', CHR 0x08),
      (CHR ''f'', CHR 0x0C), (CHR ''n'', CHR 0x0A), (CHR ''r'', CHR 0x0D), (CHR ''t'', CHR 0x09)] c"

text \<open>The rest of a string, after its opening quotation mark.\<close>

fun pstr :: "string \<Rightarrow> (string \<times> string) option" where
  "pstr [] = None"
| "pstr (c # r) =
     (if c = CHR 0x22 then Some ([], r)
      else if c = CHR 0x5C then
        (case r of
           [] \<Rightarrow> None
         | e # r1 \<Rightarrow>
             (if e = CHR ''u'' then
                (case r1 of
                   h1 # h2 # h3 # h4 # r2 \<Rightarrow>
                     (case hex4 h1 h2 h3 h4 of
                        None \<Rightarrow> None
                      | Some x \<Rightarrow> map_option (\<lambda>(s, t). (x # s, t)) (pstr r2))
                 | _ \<Rightarrow> None)
              else
                (case unescape e of
                   None \<Rightarrow> None
                 | Some x \<Rightarrow> map_option (\<lambda>(s, t). (x # s, t)) (pstr r1))))
      else if (of_char c :: nat) < 32 then None
      else map_option (\<lambda>(s, t). (c # s, t)) (pstr r))"

text \<open>The longest prefix over the characters of a number, and whether it is a number token.\<close>

definition num_char :: "char \<Rightarrow> bool" where
  "num_char c \<longleftrightarrow> is_digit c \<or> c \<in> set ''+-.eE''"

definition int_token :: "string \<Rightarrow> bool" where
  "int_token s \<longleftrightarrow> s \<noteq> [] \<and> list_all is_digit s \<and> (hd s = CHR ''0'' \<longrightarrow> tl s = [])"

definition frac_exp_token :: "string \<Rightarrow> bool" where
  "frac_exp_token s =
     (let r = (case s of c # t \<Rightarrow> if c = CHR ''.'' then dropWhile is_digit t else s | [] \<Rightarrow> s);
          fracok = (case s of c # t \<Rightarrow> c = CHR ''.'' \<longrightarrow> (t \<noteq> [] \<and> is_digit (hd t)) | [] \<Rightarrow> True);
          expok = (case r of
              [] \<Rightarrow> True
            | c # t \<Rightarrow> (c = CHR ''e'' \<or> c = CHR ''E'') \<and>
                (let d = (case t of x # u \<Rightarrow> if x \<in> set ''+-'' then u else t | [] \<Rightarrow> t)
                 in d \<noteq> [] \<and> list_all is_digit d))
      in fracok \<and> expok)"

definition number_token :: "string \<Rightarrow> bool" where
  "number_token s =
     (let t = (case s of c # u \<Rightarrow> if c = CHR ''-'' then u else s | [] \<Rightarrow> s)
      in int_token (takeWhile is_digit t) \<and> frac_exp_token (dropWhile is_digit t))"

definition pnum :: "string \<Rightarrow> (json \<times> string) option" where
  "pnum s = (let t = takeWhile num_char s in
     if number_token t then Some (JNum t, dropWhile num_char s) else None)"

definition plit :: "string \<Rightarrow> (json \<times> string) option" where
  "plit s =
     (if prefix ''null'' s then Some (JNull, drop 4 s)
      else if prefix ''true'' s then Some (JBool True, drop 4 s)
      else if prefix ''false'' s then Some (JBool False, drop 5 s)
      else pnum s)"

text \<open>A value, the elements of an array up to its bracket, the members of an object up to its
  brace. Each call spends one unit of fuel.\<close>

fun pval :: "nat \<Rightarrow> string \<Rightarrow> (json \<times> string) option"
  and pelems :: "nat \<Rightarrow> string \<Rightarrow> (json list \<times> string) option"
  and pmembers :: "nat \<Rightarrow> string \<Rightarrow> ((string \<times> json) list \<times> string) option"
where
  "pval 0 s = None"
| "pval (Suc n) s =
     (case skip s of
        [] \<Rightarrow> None
      | c # r \<Rightarrow>
          (if c = CHR 0x22 then map_option (\<lambda>(x, t). (JStr x, t)) (pstr r)
           else if c = CHR ''['' then
             (if prefix '']'' (skip r) then Some (JArr [], tl (skip r))
              else map_option (\<lambda>(xs, t). (JArr xs, t)) (pelems n r))
           else if c = CHR ''{'' then
             (if prefix ''}'' (skip r) then Some (JObj [], tl (skip r))
              else map_option (\<lambda>(ms, t). (JObj ms, t)) (pmembers n r))
           else plit (c # r)))"
| "pelems 0 s = None"
| "pelems (Suc n) s =
     (case pval n s of
        None \<Rightarrow> None
      | Some (x, t) \<Rightarrow>
          (case skip t of
             [] \<Rightarrow> None
           | c # r \<Rightarrow>
               (if c = CHR '']'' then Some ([x], r)
                else if c = CHR '','' then map_option (\<lambda>(xs, u). (x # xs, u)) (pelems n r)
                else None)))"
| "pmembers 0 s = None"
| "pmembers (Suc n) s =
     (case skip s of
        [] \<Rightarrow> None
      | q # r \<Rightarrow>
          (if q \<noteq> CHR 0x22 then None
           else
             (case pstr r of
                None \<Rightarrow> None
              | Some (k, t) \<Rightarrow>
                  (case skip t of
                     [] \<Rightarrow> None
                   | c # u \<Rightarrow>
                       (if c \<noteq> CHR '':'' then None
                        else
                          (case pval n u of
                             None \<Rightarrow> None
                           | Some (x, t2) \<Rightarrow>
                               (case skip t2 of
                                  [] \<Rightarrow> None
                                | c2 # r2 \<Rightarrow>
                                    (if c2 = CHR ''}'' then Some ([(k, x)], r2)
                                     else if c2 = CHR '','' then
                                       map_option (\<lambda>(ms, z). ((k, x) # ms, z)) (pmembers n r2)
                                     else None)))))))) "

definition json_parse :: "string \<Rightarrow> json option" where
  "json_parse s =
     (case pval (2 * length s + 2) s of
        None \<Rightarrow> None
      | Some (v, r) \<Rightarrow> if skip r = [] then Some v else None)"

section \<open>The fuel is enough\<close>

lemma length_skip: "length (skip s) \<le> length s"
  by (simp add: skip_def length_dropWhile_le)

lemma skip_Cons: "skip s = c # r \<Longrightarrow> length r < length s"
  using length_skip [of s] by simp

lemma pstr_shrink: "pstr r = Some (s, t) \<Longrightarrow> length t < length r"
proof (induction r arbitrary: s t rule: length_induct)
  case (1 r)
  then have IH: "length t < length r'" if "length r' < length r" "pstr r' = Some (s, t)" for r' s t
    using that by blast
  show ?case
  proof (cases r)
    case Nil
    with "1.prems" show ?thesis by simp
  next
    case (Cons c r1)
    with "1.prems" show ?thesis
      by (auto split: if_splits list.splits option.splits dest!: IH [rotated])
  qed
qed

lemma pnum_shrink: "pnum s = Some (v, t) \<Longrightarrow> length t < length s"
proof -
  assume h: "pnum s = Some (v, t)"
  then have t: "t = dropWhile num_char s" and "number_token (takeWhile num_char s)"
    by (auto simp: pnum_def Let_def split: if_splits)
  then have "takeWhile num_char s \<noteq> []"
    by (auto simp: number_token_def int_token_def)
  then have "0 < length (takeWhile num_char s)" by simp
  moreover have "length s = length (takeWhile num_char s) + length t"
    unfolding t by (metis length_append takeWhile_dropWhile_id)
  ultimately show ?thesis by simp
qed

lemma plit_shrink: "plit s = Some (v, t) \<Longrightarrow> length t < length s"
  by (auto simp: plit_def prefix_def pnum_shrink split: if_splits)

lemma tl_shrink: "prefix [c] u \<Longrightarrow> length (tl u) < length u"
  by (cases u) auto

lemma parse_shrink:
  shows "pval n s = Some (v, t) \<Longrightarrow> length t < length s"
    and "pelems n s = Some (xs, t) \<Longrightarrow> length t < length s"
    and "pmembers n s = Some (ms, t) \<Longrightarrow> length t < length s"
proof (induction n s and n s and n s arbitrary: v t and xs t and ms t
    rule: pval_pelems_pmembers.induct)
  case (2 n s)
  from "2.prems" obtain c r where cr: "skip s = c # r" by (auto split: list.splits)
  have "length t \<le> length r"
    using "2.prems" "2.IH" cr length_skip [of r] plit_shrink [of "c # r" v t]
    by (auto split: if_splits dest!: pstr_shrink tl_shrink intro: less_imp_le)
  with skip_Cons [OF cr] show ?case by simp
next
  case (4 n s)
  from "4.prems" obtain x u where x: "pval n s = Some (x, u)" by (auto split: option.splits)
  moreover from "4.prems" x obtain c r where cr: "skip u = c # r"
    by (auto split: list.splits)
  ultimately have "length t \<le> length r"
    using "4.prems" "4.IH"(2) by (auto split: if_splits intro: less_imp_le)
  with skip_Cons [OF cr] "4.IH"(1) [OF x] show ?case by simp
next
  case (6 n s)
  from "6.prems" obtain q r where q: "skip s = q # r" "q = CHR 0x22"
    by (auto split: list.splits if_splits)
  with "6.prems" obtain k w where k: "pstr r = Some (k, w)" by (auto split: option.splits)
  with q "6.prems" obtain u where u: "skip w = CHR '':'' # u" by (auto split: list.splits if_splits)
  with q k "6.prems" obtain x t2 where x: "pval n u = Some (x, t2)" by (auto split: option.splits)
  with q k u "6.prems" obtain c r2 where cr: "skip t2 = c # r2" by (auto split: list.splits)
  have "length t2 < length u" using "6.IH"(1) q k u x by auto
  moreover have "length t \<le> length r2"
    using "6.prems" "6.IH"(2) q k u x cr by (auto split: if_splits intro: less_imp_le)
  ultimately show ?case
    using skip_Cons [OF q(1)] skip_Cons [OF u] skip_Cons [OF cr] pstr_shrink [OF k] by simp
qed simp_all

text \<open>One more unit of fuel changes nothing once there are two for every character left.\<close>

lemma pval_cong:
  assumes "\<And>c r. skip s = c # r \<Longrightarrow> pelems n r = pelems m r \<and> pmembers n r = pmembers m r"
  shows "pval (Suc n) s = pval (Suc m) s"
  using assms by (cases "skip s") simp_all

lemma pelems_cong:
  assumes "pval n s = pval m s"
    and "\<And>x t c r. pval m s = Some (x, t) \<Longrightarrow> skip t = c # r \<Longrightarrow> pelems n r = pelems m r"
  shows "pelems (Suc n) s = pelems (Suc m) s"
proof (cases "pval m s")
  case (Some xt)
  with assms show ?thesis by (cases xt; cases "skip (snd xt)") simp_all
qed (simp add: assms)

lemma pmembers_cong:
  assumes "\<And>q r k t c u. skip s = q # r \<Longrightarrow> pstr r = Some (k, t) \<Longrightarrow> skip t = c # u \<Longrightarrow>
      pval n u = pval m u \<and>
      (\<forall>x t2 c2 r2. pval m u = Some (x, t2) \<longrightarrow> skip t2 = c2 # r2 \<longrightarrow> pmembers n r2 = pmembers m r2)"
  shows "pmembers (Suc n) s = pmembers (Suc m) s"
proof (cases "skip s")
  case q: (Cons q r)
  show ?thesis
  proof (cases "pstr r")
    case (Some kt)
    then obtain k t where k: "pstr r = Some (k, t)" by (cases kt) auto
    show ?thesis
    proof (cases "skip t")
      case u: (Cons c u)
      note a = assms [OF q k u]
      show ?thesis
      proof (cases "pval m u")
        case (Some xt)
        then obtain x t2 where x: "pval m u = Some (x, t2)" by (cases xt) auto
        show ?thesis using a by (cases "skip t2") (simp_all add: q k u x)
      qed (use a in \<open>simp add: q k u\<close>)
    qed (simp add: q k)
  qed (simp add: q)
qed simp

declare pval.simps [simp del] pelems.simps [simp del] pmembers.simps [simp del]

lemma parse_stable:
  shows "2 * length s < n \<Longrightarrow> pval (Suc n) s = pval n s"
    and "2 * length s + 1 < n \<Longrightarrow> pelems (Suc n) s = pelems n s"
    and "2 * length s + 1 < n \<Longrightarrow> pmembers (Suc n) s = pmembers n s"
proof (induction n arbitrary: s)
  case (Suc m)
  { case 1
    show ?case
    proof (rule pval_cong)
      fix c r assume "skip s = c # r"
      then have "length r < length s" by (rule skip_Cons)
      with 1 Suc(2,3) [of r] show "pelems (Suc m) r = pelems m r \<and> pmembers (Suc m) r = pmembers m r"
        by simp
    qed
  next
    case 2
    show ?case
    proof (rule pelems_cong)
      show "pval (Suc m) s = pval m s" using Suc(1) [of s] 2 by simp
      fix x t c r assume "pval m s = Some (x, t)" and "skip t = c # r"
      then have "length t < length s" "length r < length t" by (auto dest: parse_shrink skip_Cons)
      with 2 Suc(2) [of r] show "pelems (Suc m) r = pelems m r" by simp
    qed
  next
    case 3
    show ?case
    proof (rule pmembers_cong)
      fix q r k t c u
      assume "skip s = q # r" and "pstr r = Some (k, t)" and "skip t = c # u"
      then have lu: "length u + 2 < length s"
        by (auto dest!: pstr_shrink skip_Cons)
      with 3 have "pval (Suc m) u = pval m u" using Suc(1) [of u] by simp
      moreover have "pmembers (Suc m) r2 = pmembers m r2"
        if "pval m u = Some (x, t2)" "skip t2 = c2 # r2" for x t2 c2 r2
      proof -
        have "length t2 < length u" "length r2 < length t2"
          using that by (auto dest: parse_shrink skip_Cons)
        with lu 3 show ?thesis using Suc(3) [of r2] by simp
      qed
      ultimately show "pval (Suc m) u = pval m u \<and> (\<forall>x t2 c2 r2. pval m u = Some (x, t2) \<longrightarrow>
        skip t2 = c2 # r2 \<longrightarrow> pmembers (Suc m) r2 = pmembers m r2)" by blast
    qed }
qed simp_all

lemma parse_fuel_enough: "2 * length s + 1 \<le> n \<Longrightarrow> pval n s = pval (2 * length s + 1) s"
proof (induction n rule: dec_induct)
  case base
  show ?case by simp
next
  case (step n)
  then show ?case using parse_stable(1) [of s n] by simp
qed

section \<open>Parsing inverts rendering\<close>

fun json_wf :: "json \<Rightarrow> bool" where
  "json_wf (JNum tok) \<longleftrightarrow> number_token tok \<and> list_all num_char tok"
| "json_wf (JArr xs) \<longleftrightarrow> (\<forall>x \<in> set xs. json_wf x)"
| "json_wf (JObj ms) \<longleftrightarrow> (\<forall>m \<in> set ms. json_wf (snd m))"
| "json_wf _ \<longleftrightarrow> True"

lemma hex_val_hex_digit: "k < 16 \<Longrightarrow> hex_val (hex_digit k) = Some k"
  by (auto simp: hex_digit_def hex_val_def of_char_digit_char of_char_of)

lemma hex_val_0: "hex_val (CHR ''0'') = Some 0"
  using hex_val_hex_digit [of 0] by (simp add: hex_digit_def digit_char_zero)

lemma hex4_control: "n < 32 \<Longrightarrow>
  hex4 (CHR ''0'') (CHR ''0'') (hex_digit (n div 16)) (hex_digit (n mod 16)) = Some (char_of n)"
  by (simp add: hex4_def hex_val_0 hex_val_hex_digit Let_def)

lemma pstr_escape: "pstr (json_escape c @ r) = map_option (\<lambda>(s, t). (c # s, t)) (pstr r)"
proof -
  have "hex4 (CHR ''0'') (CHR ''0'') (hex_digit (of_char c div 16)) (hex_digit (of_char c mod 16))
    = Some c" if "(of_char c :: nat) < 32"
    using hex4_control [OF that] by simp
  then show ?thesis
    by (auto simp: json_escape_def unescape_def)
qed

lemma pstr_quote: "pstr (concat (map json_escape s) @ CHR 0x22 # r) = Some (s, r)"
  by (induction s) (simp_all add: pstr_escape)

text \<open>What may follow a value: nothing, a comma or a closing bracket.\<close>

definition delim :: "string \<Rightarrow> bool" where
  "delim r \<longleftrightarrow> r = [] \<or> hd r \<in> set '',]}''"

lemma delim_num: "delim r \<Longrightarrow> takeWhile num_char r = [] \<and> dropWhile num_char r = r"
  by (cases r) (auto simp: delim_def num_char_def is_digit_def)

lemma pnum_token:
  "number_token tok \<Longrightarrow> list_all num_char tok \<Longrightarrow> delim r \<Longrightarrow> pnum (tok @ r) = Some (JNum tok, r)"
  by (auto simp: pnum_def takeWhile_append dropWhile_append list_all_iff delim_num)

lemma number_token_start: "number_token tok \<Longrightarrow> \<exists>c t. tok = c # t \<and> (is_digit c \<or> c = CHR ''-'')"
  by (cases tok) (auto simp: number_token_def int_token_def Let_def split: if_splits)

lemma skip_digit: "is_digit c \<or> c = CHR ''-'' \<Longrightarrow> \<not> json_ws c \<and> c \<noteq> CHR 0x22 \<and> c \<noteq> CHR ''['' \<and>
  c \<noteq> CHR ''{'' \<and> c \<noteq> CHR ''n'' \<and> c \<noteq> CHR ''t'' \<and> c \<noteq> CHR ''f''"
  by (auto simp: is_digit_def json_ws_def)

definition starter :: "char \<Rightarrow> bool" where
  "starter c \<longleftrightarrow> \<not> json_ws c \<and> c \<noteq> CHR '']''"

lemma starter_simps [simp]:
  "starter (CHR 0x22)" "starter (CHR ''['')" "starter (CHR ''{'')" "starter (CHR ''n'')"
  "starter (CHR ''t'')" "starter (CHR ''f'')"
  by (simp_all add: starter_def json_ws_def)

lemma stringify_start: "json_wf v \<Longrightarrow> \<exists>c t. stringify v = c # t \<and> starter c"
proof (cases v)
  case (JNum tok)
  assume "json_wf v"
  with JNum number_token_start [of tok] skip_digit show ?thesis
    by (fastforce simp: starter_def is_digit_def)
next
  case (JBool b)
  then show ?thesis by (cases b) simp_all
qed (simp_all add: json_quote_def)

lemma skip_starter [simp]: "starter c \<Longrightarrow> skip (c # t) = c # t"
  by (simp add: starter_def skip_def)

lemma skip_punct [simp]:
  "skip (CHR '']'' # t) = CHR '']'' # t" "skip (CHR ''}'' # t) = CHR ''}'' # t"
  "skip (CHR '','' # t) = CHR '','' # t" "skip (CHR '':'' # t) = CHR '':'' # t"
  by (simp_all add: skip_def json_ws_def)

lemma delim_simps [simp]:
  "delim []" "delim (CHR '']'' # t)" "delim (CHR ''}'' # t)" "delim (CHR '','' # t)"
  by (simp_all add: delim_def)

lemma pval_number:
  assumes "number_token tok" "list_all num_char tok" "delim r"
  shows "pval (Suc n) (tok @ r) = Some (JNum tok, r)"
proof -
  obtain c t where c: "tok = c # t" "is_digit c \<or> c = CHR ''-''"
    using number_token_start [OF assms(1)] by blast
  then have "plit (tok @ r) = pnum (tok @ r)"
    using skip_digit [of c] by (auto simp: plit_def)
  moreover have "skip (tok @ r) = c # t @ r"
    using c skip_digit [of c] by (auto simp: skip_def)
  ultimately show ?thesis
    using c skip_digit [of c] pnum_token [OF assms] by (simp add: pval.simps)
qed

lemma starter_not_bracket: "starter c \<Longrightarrow> \<not> prefix '']'' (skip (c # t))"
  by (auto simp: starter_def skip_def)

lemma parse_stringify:
  shows "json_wf v \<Longrightarrow> delim r \<Longrightarrow> 2 * length (stringify v @ r) < n \<Longrightarrow>
      pval n (stringify v @ r) = Some (v, r)"
    and "xs \<noteq> [] \<Longrightarrow> \<forall>x \<in> set xs. json_wf x \<Longrightarrow> 2 * length (stringify_elems xs @ '']'' @ r) + 1 < n \<Longrightarrow>
      pelems n (stringify_elems xs @ '']'' @ r) = Some (xs, r)"
    and "ms \<noteq> [] \<Longrightarrow> \<forall>m \<in> set ms. json_wf (snd m) \<Longrightarrow>
      2 * length (stringify_members ms @ ''}'' @ r) + 1 < n \<Longrightarrow>
      pmembers n (stringify_members ms @ ''}'' @ r) = Some (ms, r)"
proof (induction v and xs and ms arbitrary: n r and n r and n r
    rule: stringify_stringify_elems_stringify_members.induct)
  case 1
  then show ?case by (cases n) (simp_all add: pval.simps plit_def)
next
  case 2
  then show ?case by (cases n) (simp_all add: pval.simps plit_def)
next
  case 3
  then show ?case by (cases n) (simp_all add: pval.simps plit_def)
next
  case (4 tok)
  then show ?case by (cases n) (simp_all add: pval_number)
next
  case (5 s)
  then show ?case by (cases n) (simp_all add: pval.simps json_quote_def pstr_quote)
next
  case (6 xs)
  then obtain m where n: "n = Suc m" by (cases n) auto
  show ?case
  proof (cases xs)
    case Nil
    then show ?thesis by (simp add: n pval.simps)
  next
    case (Cons x ys)
    then obtain c t where c: "stringify_elems xs = c # t" "starter c"
      using stringify_start [of x] 6(2) by (cases ys) auto
    have "pelems m (stringify_elems xs @ '']'' @ r) = Some (xs, r)"
      using 6 Cons n by (intro "6.IH") simp_all
    with c starter_not_bracket [OF c(2), of "t @ '']'' @ r"] show ?thesis
      by (simp add: n pval.simps)
  qed
next
  case (7 ms)
  then obtain m where n: "n = Suc m" by (cases n) auto
  show ?case
  proof (cases ms)
    case Nil
    then show ?thesis by (simp add: n pval.simps)
  next
    case (Cons kv ns)
    then obtain t where c: "stringify_members ms = CHR 0x22 # t"
      by (cases kv; cases ns) (auto simp: json_quote_def)
    have "pmembers m (stringify_members ms @ ''}'' @ r) = Some (ms, r)"
      using 7 Cons n by (intro "7.IH") simp_all
    with c show ?thesis by (simp add: n pval.simps)
  qed
next
  case (9 x)
  then obtain m where n: "n = Suc m" by (cases n) auto
  with 9 have "pval m (stringify x @ '']'' @ r) = Some (x, '']'' @ r)"
    by (intro "9.IH") simp_all
  then show ?case by (simp add: n pelems.simps)
next
  case (10 x y ys)
  then obtain m where n: "n = Suc m" by (cases n) auto
  let ?rest = "stringify_elems (y # ys) @ '']'' @ r"
  from 10 n have "pval m (stringify x @ '','' @ ?rest) = Some (x, '','' @ ?rest)"
    by (intro "10.IH"(1)) simp_all
  moreover from 10 n have "pelems m ?rest = Some (y # ys, r)"
    by (intro "10.IH"(2)) simp_all
  ultimately show ?case by (simp add: n pelems.simps)
next
  case (12 k v)
  then obtain m where n: "n = Suc m" by (cases n) auto
  from 12 n have "pval m (stringify v @ ''}'' @ r) = Some (v, ''}'' @ r)"
    by (intro "12.IH") (simp_all add: json_quote_def)
  then show ?case by (simp add: n pmembers.simps json_quote_def pstr_quote)
next
  case (13 k v m' ms)
  then obtain m where n: "n = Suc m" by (cases n) auto
  let ?rest = "stringify_members (m' # ms) @ ''}'' @ r"
  from 13 n have "pval m (stringify v @ '','' @ ?rest) = Some (v, '','' @ ?rest)"
    by (intro "13.IH"(1)) (simp_all add: json_quote_def)
  moreover from 13 n have "pmembers m ?rest = Some (m' # ms, r)"
    by (intro "13.IH"(2)) (simp_all add: json_quote_def)
  ultimately show ?case by (simp add: n pmembers.simps json_quote_def pstr_quote)
qed simp_all

lemma json_roundtrip: "json_wf v \<Longrightarrow> json_parse (stringify v) = Some v"
  using parse_stringify(1) [of v "[]" "2 * length (stringify v) + 2"]
  by (simp add: json_parse_def skip_def)

lemma stringify_inj: "json_wf v \<Longrightarrow> json_wf w \<Longrightarrow> stringify v = stringify w \<longleftrightarrow> v = w"
  using json_roundtrip by (metis option.inject)

section \<open>The values the sources build are well formed\<close>

lemma digit_char_eq_0: "n < 10 \<Longrightarrow> digit_char n = CHR ''0'' \<longleftrightarrow> n = 0"
  by (metis digit_char_zero digit_val_digit_char zero_less_numeral)

lemma hd_nat_str_0: "hd (nat_str n) = CHR ''0'' \<longleftrightarrow> n = 0"
proof (induction n rule: nat_str.induct)
  case (1 n)
  then show ?case
    by (cases "n < 10") (auto simp: nat_str_small nat_str_big digit_char_eq_0)
qed

lemma int_token_nat_str: "int_token (nat_str n)"
  using nat_str_digits [of n] hd_nat_str_0 [of n]
  by (auto simp: int_token_def nat_str_small digit_char_zero)

lemma while_nat_str [simp]:
  "takeWhile is_digit (nat_str n) = nat_str n" "dropWhile is_digit (nat_str n) = []"
  using nat_str_digits [of n] by (auto simp: list_all_iff)

lemma number_token_nat_str: "number_token (nat_str n)"
proof -
  have "hd (nat_str n) \<noteq> CHR ''-''" using hd_nat_str_digit [of n] by (auto simp: is_digit_def)
  then show ?thesis
    using int_token_nat_str [of n] while_nat_str [of n]
    by (cases "nat_str n") (auto simp: number_token_def frac_exp_token_def Let_def)
qed

lemma json_wf_jint [simp]: "json_wf (jint i)"
proof -
  have "number_token (CHR ''-'' # nat_str n)" for n
    using int_token_nat_str [of n] by (simp add: number_token_def frac_exp_token_def Let_def)
  moreover have "list_all num_char (nat_str n)" for n
    using nat_str_digits [of n] by (auto simp: list_all_iff num_char_def)
  ultimately show ?thesis
    by (auto simp: jint_def int_str_def number_token_nat_str num_char_def)
qed

lemma json_wf_jstrs [simp]: "json_wf (jstrs xs)"
  by (simp add: jstrs_def)

lemma json_wf_or_null [simp]: "(\<And>v. x = Some v \<Longrightarrow> json_wf (f v)) \<Longrightarrow> json_wf (or_null f x)"
  by (cases x) (simp_all add: or_null_def)

lemma opt_member_wf: "(\<And>v. x = Some v \<Longrightarrow> json_wf (f v)) \<Longrightarrow> m \<in> set (opt_member k f x) \<Longrightarrow> json_wf (snd m)"
  by (cases x) (auto simp: opt_member_def)

lemma jint_inject [simp]: "jint i = jint j \<longleftrightarrow> i = j"
  by (simp add: jint_def)

lemma jstrs_inject [simp]: "jstrs xs = jstrs ys \<longleftrightarrow> xs = ys"
  by (simp add: jstrs_def inj_map_eq_map inj_on_def)

text \<open>What counts as true: not a missing value, null, false, the empty text, nor a number all of whose digits are zero
  (a number too small to be told from zero is not looked for).\<close>

definition json_truthy :: "json option \<Rightarrow> bool" where
  "json_truthy j \<longleftrightarrow> (case j of None \<Rightarrow> False | Some JNull \<Rightarrow> False | Some (JBool b) \<Rightarrow> b | Some (JStr s) \<Rightarrow> s \<noteq> []
     | Some (JNum n) \<Rightarrow> list_ex (\<lambda>c. c \<in> set ''123456789'') (takeWhile (\<lambda>c. c \<notin> set ''eE'') n) | Some _ \<Rightarrow> True)"

end
