(* ===== verification/SdkConfig.thy ===== *)
theory SdkConfig
  imports Json
begin

text \<open>
  The SDK's configuration surface (sdk/typescript/src): the error classes of errors.ts, the
  environments of types.ts, and the part of client.ts that classifies an API key, resolves the
  environment from the key, the option and the base URL, and constructs a client.

  An exception is a value of \<open>sdk_error\<close>; a call that may throw returns a sum with the error on
  the left. The key lemmas show that a constructed client never runs in an environment its key's
  prefix contradicts, and exactly when the constructor throws.
\<close>

section \<open>Errors (errors.ts)\<close>

text \<open>\<open>BanzamiConfigError\<close>, \<open>BanzamiAuthError\<close> and \<open>BanzamiApiError\<close>. \<open>JsError\<close> is any other
  \<open>Error\<close> (a rejected \<open>fetch\<close>, a \<open>SyntaxError\<close> from reading a body, a \<open>TypeError\<close>), and
  \<open>Undefined\<close> is the value thrown by \<open>throw lastErr!\<close> when no error was recorded.\<close>

datatype sdk_error =
    ConfigError string
  | AuthError string
  | ApiError (api_status: int) (api_code: string) (api_message: string)
  | JsError string
  | Undefined

definition is_api_error :: "sdk_error \<Rightarrow> bool" where
  "is_api_error e \<longleftrightarrow> (case e of ApiError _ _ _ \<Rightarrow> True | _ \<Rightarrow> False)"

definition isNotFound :: "sdk_error \<Rightarrow> bool" where
  "isNotFound e \<longleftrightarrow> is_api_error e \<and> api_status e = 404"

definition isUnauthorized :: "sdk_error \<Rightarrow> bool" where
  "isUnauthorized e \<longleftrightarrow> is_api_error e \<and> api_status e = 401"

definition isForbidden :: "sdk_error \<Rightarrow> bool" where
  "isForbidden e \<longleftrightarrow> is_api_error e \<and> api_status e = 403"

definition isConflict :: "sdk_error \<Rightarrow> bool" where
  "isConflict e \<longleftrightarrow> is_api_error e \<and> api_status e = 409"

definition isInsufficientFunds :: "sdk_error \<Rightarrow> bool" where
  "isInsufficientFunds e \<longleftrightarrow> is_api_error e \<and> api_code e = ''INSUFFICIENT_FUNDS''"

definition isHandleNotFound :: "sdk_error \<Rightarrow> bool" where
  "isHandleNotFound e \<longleftrightarrow> is_api_error e \<and> api_code e = ''HANDLE_NOT_FOUND''"

definition isHandleTaken :: "sdk_error \<Rightarrow> bool" where
  "isHandleTaken e \<longleftrightarrow> is_api_error e \<and> api_code e = ''HANDLE_TAKEN''"

definition isWalletNotFound :: "sdk_error \<Rightarrow> bool" where
  "isWalletNotFound e \<longleftrightarrow> is_api_error e \<and> api_code e = ''WALLET_NOT_FOUND''"

definition isWalletNotActive :: "sdk_error \<Rightarrow> bool" where
  "isWalletNotActive e \<longleftrightarrow> is_api_error e \<and> api_code e = ''WALLET_NOT_ACTIVE''"

section \<open>Environments and keys\<close>

datatype banzami_env = Live | Sandbox

definition env_name :: "banzami_env \<Rightarrow> string" where
  "env_name e = (case e of Live \<Rightarrow> ''live'' | Sandbox \<Rightarrow> ''sandbox'')"

definition default_base_url :: "banzami_env \<Rightarrow> string" where
  "default_base_url e =
     (case e of Live \<Rightarrow> ''https://api.banzami.com'' | Sandbox \<Rightarrow> ''https://sandbox-api.banzami.com'')"

definition default_pay_base_url :: "banzami_env \<Rightarrow> string" where
  "default_pay_base_url e =
     (case e of Live \<Rightarrow> ''https://pay.banzami.com'' | Sandbox \<Rightarrow> ''https://pay.banzami.com'')"

definition auth_token_path :: string where
  "auth_token_path = ''/v1/auth/token''"

text \<open>\<open>/^bz_(test|live)_(sk|pk)_/.test(apiKey)\<close>.\<close>

definition isDeveloperPlatformKey :: "string \<Rightarrow> bool" where
  "isDeveloperPlatformKey apiKey \<longleftrightarrow>
     list_ex (startsWith apiKey) [''bz_test_sk_'', ''bz_test_pk_'', ''bz_live_sk_'', ''bz_live_pk_'']"

definition token_refresh_skew_ms :: int where "token_refresh_skew_ms = 60000"

definition default_token_ttl_ms :: int where "default_token_ttl_ms = 23 * 60 * 60 * 1000"

definition environmentFromKey :: "string \<Rightarrow> banzami_env option" where
  "environmentFromKey apiKey =
     (if startsWith apiKey ''bz_test_'' then Some Sandbox
      else if startsWith apiKey ''bz_live_'' then Some Live
      else None)"

definition mismatch_message :: "banzami_env \<Rightarrow> banzami_env \<Rightarrow> string" where
  "mismatch_message environment keyEnv =
     (let pre = (if keyEnv = Sandbox then ''bz_test_'' else ''bz_live_'');
          expected = (if environment = Live then ''bz_live_'' else ''bz_test_'')
      in ''Banzami environment/key mismatch: '' @ env_name environment @ '' environment cannot use '' @
         env_name keyEnv @ '' key (key starts with '' @ [CHR 0x22] @ pre @ [CHR 0x22] @ ''). Use a '' @
         expected @ '' key for the '' @ env_name environment @ '' environment, or set environment: '' @
         [CHR 0x27] @ env_name keyEnv @ [CHR 0x27] @ ''.'')"

definition resolveEnvironment ::
  "string \<Rightarrow> banzami_env option \<Rightarrow> string option \<Rightarrow> sdk_error + banzami_env" where
  "resolveEnvironment apiKey environment baseUrl =
     (let keyEnv = environmentFromKey apiKey in
      case environment of
        Some env \<Rightarrow>
          (case keyEnv of
             Some k \<Rightarrow> if k \<noteq> env then Inl (ConfigError (mismatch_message env k)) else Inr env
           | None \<Rightarrow> Inr env)
      | None \<Rightarrow>
          (case keyEnv of
             Some k \<Rightarrow> Inr k
           | None \<Rightarrow>
               (case baseUrl of
                  Some u \<Rightarrow> if has_sub (js_lower u) ''sandbox'' then Inr Sandbox else Inr Live
                | None \<Rightarrow> Inr Live)))"

section \<open>The client object\<close>

record client_options =
  o_apiKey :: string
  o_environment :: "banzami_env option"
  o_baseUrl :: "string option"
  o_payBaseUrl :: "string option"
  o_maxRetries :: "int option"
  o_retryDelay :: "int option"
  o_webhookSecret :: "string option"

record client =
  c_base :: string
  c_payBase :: string
  c_apiKey :: string
  c_environment :: banzami_env
  c_maxRetries :: int
  c_retryDelay :: int
  c_webhookSecret :: "string option"

definition or_else :: "'a option \<Rightarrow> 'a \<Rightarrow> 'a" where
  "or_else x d = (case x of Some v \<Rightarrow> v | None \<Rightarrow> d)"

lemma or_else_simps [simp]: "or_else (Some v) d = v" "or_else None d = d"
  by (simp_all add: or_else_def)

definition newClient :: "client_options \<Rightarrow> sdk_error + client" where
  "newClient opts =
     (case resolveEnvironment (o_apiKey opts) (o_environment opts) (o_baseUrl opts) of
        Inl e \<Rightarrow> Inl e
      | Inr env \<Rightarrow> Inr
          \<lparr> c_base = drop_slash (or_else (o_baseUrl opts) (default_base_url env)),
            c_payBase = drop_slash (or_else (o_payBaseUrl opts) (default_pay_base_url env)),
            c_apiKey = o_apiKey opts,
            c_environment = env,
            c_maxRetries = or_else (o_maxRetries opts) 3,
            c_retryDelay = or_else (o_retryDelay opts) 500,
            c_webhookSecret = o_webhookSecret opts \<rparr>)"

definition isSandbox :: "client \<Rightarrow> bool" where
  "isSandbox c \<longleftrightarrow> c_environment c = Sandbox"

definition isProduction :: "client \<Rightarrow> bool" where
  "isProduction c \<longleftrightarrow> c_environment c = Live"

section \<open>Lemmas\<close>

lemma environmentFromKey_Some:
  "environmentFromKey k = Some Sandbox \<longleftrightarrow> startsWith k ''bz_test_''"
  "environmentFromKey k = Some Live \<longleftrightarrow> startsWith k ''bz_live_''"
  by (auto simp: environmentFromKey_def prefix_def)

text \<open>The resolved environment never contradicts the key, and the only error is a mismatch
  between an explicit environment and the key's prefix.\<close>

lemma resolve_agrees_with_key:
  "resolveEnvironment k e u = Inr env \<Longrightarrow> environmentFromKey k = Some k' \<Longrightarrow> env = k'"
  by (auto simp: resolveEnvironment_def Let_def split: option.splits if_splits)

lemma resolve_Inl_iff:
  "(\<exists>err. resolveEnvironment k e u = Inl err) \<longleftrightarrow>
     (\<exists>env k'. e = Some env \<and> environmentFromKey k = Some k' \<and> k' \<noteq> env)"
  by (auto simp: resolveEnvironment_def Let_def split: option.splits)

lemma resolve_explicit: "resolveEnvironment k (Some env) u = Inr env' \<Longrightarrow> env' = env"
  by (auto simp: resolveEnvironment_def Let_def split: option.splits if_splits)

lemma newClient_Inr_iff:
  "newClient opts = Inr c \<longleftrightarrow>
     (\<exists>env. resolveEnvironment (o_apiKey opts) (o_environment opts) (o_baseUrl opts) = Inr env \<and>
       c = \<lparr> c_base = drop_slash (or_else (o_baseUrl opts) (default_base_url env)),
             c_payBase = drop_slash (or_else (o_payBaseUrl opts) (default_pay_base_url env)),
             c_apiKey = o_apiKey opts, c_environment = env,
             c_maxRetries = or_else (o_maxRetries opts) 3, c_retryDelay = or_else (o_retryDelay opts) 500,
             c_webhookSecret = o_webhookSecret opts \<rparr>)"
  by (auto simp: newClient_def split: sum.splits)

lemma developer_key_environment:
  "isDeveloperPlatformKey k \<Longrightarrow> environmentFromKey k \<noteq> None"
  by (auto simp: isDeveloperPlatformKey_def environmentFromKey_def prefix_def)

lemma default_urls_no_slash [simp]:
  "drop_slash (default_base_url e) = default_base_url e"
  "drop_slash (default_pay_base_url e) = default_pay_base_url e"
  by (cases e; simp add: default_base_url_def default_pay_base_url_def drop_slash_def)+

text \<open>
  C1. A client that the constructor accepts runs in the environment its key's prefix names: a
  \<open>bz_test_\<close> key only in Sandbox and a \<open>bz_live_\<close> key only in Live; without an explicit base URL
  its requests go to that environment's API host. The constructor throws exactly when an explicit
  environment disagrees with the key's prefix, and then with a \<open>BanzamiConfigError\<close>.
\<close>

theorem client_environment_sound:
  "(\<forall>c. newClient opts = Inr c \<longrightarrow>
      (startsWith (o_apiKey opts) ''bz_test_'' \<longrightarrow> c_environment c = Sandbox) \<and>
      (startsWith (o_apiKey opts) ''bz_live_'' \<longrightarrow> c_environment c = Live) \<and>
      (o_baseUrl opts = None \<longrightarrow> c_base c = default_base_url (c_environment c))) \<and>
   (\<forall>err. newClient opts = Inl err \<longleftrightarrow>
      (\<exists>env k. o_environment opts = Some env \<and> environmentFromKey (o_apiKey opts) = Some k \<and>
        k \<noteq> env \<and> err = ConfigError (mismatch_message env k)))"
proof (intro conjI allI)
  fix c
  show "newClient opts = Inr c \<longrightarrow>
      (startsWith (o_apiKey opts) ''bz_test_'' \<longrightarrow> c_environment c = Sandbox) \<and>
      (startsWith (o_apiKey opts) ''bz_live_'' \<longrightarrow> c_environment c = Live) \<and>
      (o_baseUrl opts = None \<longrightarrow> c_base c = default_base_url (c_environment c))"
    by (auto simp: newClient_Inr_iff environmentFromKey_Some [symmetric]
        dest: resolve_agrees_with_key)
next
  fix err
  show "newClient opts = Inl err \<longleftrightarrow>
      (\<exists>env k. o_environment opts = Some env \<and> environmentFromKey (o_apiKey opts) = Some k \<and>
        k \<noteq> env \<and> err = ConfigError (mismatch_message env k))"
    by (auto simp: newClient_def resolveEnvironment_def Let_def split: option.splits sum.splits)
qed

theorem client_environment_sound_witness:
  "newClient \<lparr> o_apiKey = ''bz_test_sk_1'', o_environment = Some Live, o_baseUrl = None,
      o_payBaseUrl = None, o_maxRetries = None, o_retryDelay = None, o_webhookSecret = None \<rparr>
    = Inl (ConfigError (mismatch_message Live Sandbox))"
  using client_environment_sound
    [of "\<lparr> o_apiKey = ''bz_test_sk_1'', o_environment = Some Live, o_baseUrl = None,
      o_payBaseUrl = None, o_maxRetries = None, o_retryDelay = None, o_webhookSecret = None \<rparr>"]
  by (simp add: environmentFromKey_def)

end
