(* ===== verification/Retry.thy ===== *)
theory Retry
  imports Prelude
begin

text \<open>
  The contract of a bounded retry loop, as a locale: both API clients of the repository (the SDK
  and the Node plugin) run an attempt, ask a policy whether its error may be retried, wait, and
  try again up to a maximum. The laws are one unfolding of the loop and the policy's refusal of
  any retry at the last attempt; the lemmas say how such a loop ends and what its runs keep.
\<close>

locale retry_loop =
  fixes exec :: "int \<Rightarrow> 'w \<Rightarrow> ('e + 'a) \<times> 'w"
    and again :: "'e \<Rightarrow> int \<Rightarrow> bool"
    and wait :: "int \<Rightarrow> 'w \<Rightarrow> 'w"
    and give_up :: "int \<Rightarrow> 'e \<Rightarrow> 'w \<Rightarrow> 'w"
    and loop :: "int \<Rightarrow> 'e option \<Rightarrow> 'w \<Rightarrow> ('e + 'a) \<times> 'w"
    and max_retries :: int
  assumes loop_step: "n \<le> max_retries \<Longrightarrow> loop n l w =
      (case exec n (wait n w) of
         (Inr v, w1) \<Rightarrow> (Inr v, w1)
       | (Inl e, w1) \<Rightarrow> if again e n then loop (n + 1) (Some e) w1 else (Inl e, give_up n e w1))"
    and last_attempt: "max_retries \<le> n \<Longrightarrow> \<not> again e n"
begin

text \<open>Every run ends at some attempt within the bound, whose result it returns; the states before
  the attempts carry any indexed invariant that a retried attempt passes on.\<close>

lemma loop_exits:
  assumes "n \<le> max_retries" and "J n w"
    and step: "\<And>m w e w2. J m w \<Longrightarrow> m < max_retries \<Longrightarrow> exec m (wait m w) = (Inl e, w2) \<Longrightarrow>
      again e m \<Longrightarrow> J (m + 1) w2"
  shows "\<exists>m w1 r w2. n \<le> m \<and> m \<le> max_retries \<and> J m w1 \<and> exec m (wait m w1) = (r, w2) \<and>
      ((\<exists>v. r = Inr v \<and> loop n l w = (Inr v, w2)) \<or>
       (\<exists>e. r = Inl e \<and> \<not> again e m \<and> loop n l w = (Inl e, give_up m e w2)))"
  using assms(1,2)
proof (induction "nat (max_retries - n)" arbitrary: n l w)
  case 0
  then have n: "n = max_retries" by simp
  obtain r w2 where r: "exec n (wait n w) = (r, w2)" by fastforce
  have "\<not> again e n" for e by (rule last_attempt) (simp add: n)
  then show ?case
    using 0 r loop_step [of n l w]
    by (intro exI [of _ n] exI [of _ w] exI [of _ r] exI [of _ w2]) (cases r; simp)
next
  case (Suc k)
  obtain r w2 where r: "exec n (wait n w) = (r, w2)" by fastforce
  show ?case
  proof (cases "\<exists>e. r = Inl e \<and> again e n")
    case True
    then obtain e where e: "r = Inl e" "again e n" by blast
    from Suc(2) have lt: "n < max_retries" by simp
    then have "J (n + 1) w2" using step [of n w e w2] Suc.prems r e by simp
    moreover have "k = nat (max_retries - (n + 1))" using Suc(2) by simp
    ultimately obtain m w1 r' w3 where "n + 1 \<le> m" "m \<le> max_retries" "J m w1"
        "exec m (wait m w1) = (r', w3)"
        "(\<exists>v. r' = Inr v \<and> loop (n + 1) (Some e) w2 = (Inr v, w3)) \<or>
         (\<exists>e'. r' = Inl e' \<and> \<not> again e' m \<and> loop (n + 1) (Some e) w2 = (Inl e', give_up m e' w3))"
      using Suc(1) [of "n + 1" w2 "Some e"] lt by auto
    moreover have "loop n l w = loop (n + 1) (Some e) w2"
      using loop_step [OF Suc.prems(1), of l w] r e by simp
    ultimately show ?thesis
      by (intro exI [of _ m] exI [of _ w1] exI [of _ r'] exI [of _ w3]) auto
  next
    case False
    then show ?thesis
      using Suc.prems r loop_step [of n l w]
      by (intro exI [of _ n] exI [of _ w] exI [of _ r] exI [of _ w2]) (cases r; auto)
  qed
qed

lemma loop_invariant:
  assumes "n \<le> max_retries" and "I w"
    and ex: "\<And>m w. I w \<Longrightarrow> I (snd (exec m (wait m w)))"
    and gu: "\<And>m e w. I w \<Longrightarrow> I (give_up m e w)"
  shows "I (snd (loop n l w))"
proof -
  have "\<exists>m w1 r w2. n \<le> m \<and> m \<le> max_retries \<and> I w1 \<and> exec m (wait m w1) = (r, w2) \<and>
      ((\<exists>v. r = Inr v \<and> loop n l w = (Inr v, w2)) \<or>
       (\<exists>e. r = Inl e \<and> \<not> again e m \<and> loop n l w = (Inl e, give_up m e w2)))"
    by (rule loop_exits [where J = "\<lambda>_. I", OF assms(1,2)]) (use ex in \<open>metis snd_conv\<close>)
  then obtain m w1 r w2 where m: "I w1" "exec m (wait m w1) = (r, w2)"
      "(\<exists>v. r = Inr v \<and> loop n l w = (Inr v, w2)) \<or>
       (\<exists>e. r = Inl e \<and> \<not> again e m \<and> loop n l w = (Inl e, give_up m e w2))"
    by blast
  then have "I w2" using ex [OF m(1), of m] by simp
  with m(3) show ?thesis by (auto intro: gu)
qed

text \<open>A cost that each attempt raises by at most \<open>k\<close> stays below \<open>k\<close> times the attempts left.\<close>

lemma loop_cost:
  fixes cost :: "'w \<Rightarrow> nat"
  assumes "n \<le> max_retries"
    and ex: "\<And>m w. cost (snd (exec m (wait m w))) \<le> cost w + k"
    and gu: "\<And>m e w. cost (give_up m e w) = cost w"
  shows "cost (snd (loop n l w)) \<le> cost w + k * nat (max_retries + 1 - n)"
proof -
  let ?J = "\<lambda>m w'. n \<le> m \<and> cost w' \<le> cost w + k * nat (m - n)"
  have "\<exists>m w1 r w2. n \<le> m \<and> m \<le> max_retries \<and> ?J m w1 \<and> exec m (wait m w1) = (r, w2) \<and>
      ((\<exists>v. r = Inr v \<and> loop n l w = (Inr v, w2)) \<or>
       (\<exists>e. r = Inl e \<and> \<not> again e m \<and> loop n l w = (Inl e, give_up m e w2)))"
  proof (rule loop_exits [OF assms(1)])
    fix m w' e w2
    assume J: "?J m w'" and "exec m (wait m w') = (Inl e, w2)"
    then have "cost w2 \<le> cost w' + k" using ex [of m w'] by simp
    moreover from J have "nat (m + 1 - n) = Suc (nat (m - n))" by linarith
    ultimately show "?J (m + 1) w2" using J by simp
  qed simp
  then obtain m w1 r w2 where m: "m \<le> max_retries" "?J m w1" "exec m (wait m w1) = (r, w2)"
      "snd (loop n l w) = w2 \<or> (\<exists>e. snd (loop n l w) = give_up m e w2)"
    by fastforce
  have "cost w2 \<le> cost w1 + k" using ex [of m w1] m(3) by simp
  moreover have "nat (m + 1 - n) = Suc (nat (m - n))" using m(2) by linarith
  ultimately have "cost w2 \<le> cost w + k * nat (m + 1 - n)" using m(2) by simp
  also have "\<dots> \<le> cost w + k * nat (max_retries + 1 - n)" using m(1) by (simp add: nat_mono)
  finally show ?thesis using m(4) gu by auto
qed

end

end
