(* ===== verification/SdkClient.thy ===== *)
theory SdkClient
  imports SdkConfig Retry
begin

text \<open>
  The transport of the SDK client (sdk/typescript/src/client.ts, the private methods of
  \<open>BanzamiClient\<close>): the access-token cache and its exchange, one HTTP attempt with its single
  re-authentication, the retry loop, and the identity call \<open>me\<close>.

  The network, the clock, the random source and \<open>Date.parse\<close> are an \<open>ext\<close> record, a parameter
  of every definition. The state of a client is \<open>cstate\<close>: the cached token, and the traces the
  theorems speak about (every request sent, every hook called, every wait). The clock and the
  network are read by position, so every theorem holds for all their behaviours. A body is
  \<^const>\<open>None\<close> when \<open>response.json()\<close> rejects. A member of a response whose JSON type is not the
  one the code declares for it is read as absent.
\<close>

section \<open>The outside world\<close>

record http_request =
  rq_method :: string
  rq_url :: string
  rq_headers :: "(string \<times> string) list"
  rq_body :: "string option"

record http_response =
  rs_status :: int
  rs_statusText :: string
  rs_body :: "json option"

datatype fetch_result = FetchFails string | Answer http_response

record ext =
  net :: "nat \<Rightarrow> http_request \<Rightarrow> fetch_result"
  now :: "nat \<Rightarrow> int"
  uuid :: "nat \<Rightarrow> string"
  date_parse :: "string \<Rightarrow> int option"

datatype hook_event =
    OnRequest string string int
  | OnResponse string string int int
  | OnError string string sdk_error int

record cstate =
  accessToken :: "string option"
  accessTokenExpiresAt :: "int option"
  ticks :: nat
  uuids :: nat
  sent :: "http_request list"
  hooks :: "hook_event list"
  waits :: "int list"

definition init_state :: cstate where
  "init_state = \<lparr> accessToken = None, accessTokenExpiresAt = None, ticks = 0, uuids = 0, sent = [],
     hooks = [], waits = [] \<rparr>"

definition res_ok :: "http_response \<Rightarrow> bool" where
  "res_ok r \<longleftrightarrow> 200 \<le> rs_status r \<and> rs_status r \<le> 299"

definition date_now :: "ext \<Rightarrow> cstate \<Rightarrow> int \<times> cstate" where
  "date_now X s = (now X (ticks s), s\<lparr>ticks := Suc (ticks s)\<rparr>)"

definition fetch :: "ext \<Rightarrow> http_request \<Rightarrow> cstate \<Rightarrow> fetch_result \<times> cstate" where
  "fetch X r s = (net X (length (sent s)) r, s\<lparr>sent := sent s @ [r]\<rparr>)"

definition call_hook :: "hook_event \<Rightarrow> cstate \<Rightarrow> cstate" where
  "call_hook h s = s\<lparr>hooks := hooks s @ [h]\<rparr>"

section \<open>Access tokens\<close>

definition exchange_failed :: string where
  "exchange_failed = ''Unable to exchange Banzami API key for access token''"

definition exchange_refused :: string where
  "exchange_refused = ''Invalid or unauthorized Banzami API key''"

definition token_request :: "client \<Rightarrow> http_request" where
  "token_request c =
     \<lparr> rq_method = ''POST'', rq_url = c_base c @ auth_token_path,
       rq_headers = [(''Content-Type'', ''application/json'')],
       rq_body = Some (stringify (JObj [(''api_key'', JStr (c_apiKey c))])) \<rparr>"

definition exchangeApiKeyForToken :: "ext \<Rightarrow> client \<Rightarrow> cstate \<Rightarrow> (sdk_error + string) \<times> cstate" where
  "exchangeApiKeyForToken X c s =
     (case fetch X (token_request c) s of
        (FetchFails _, s1) \<Rightarrow> (Inl (AuthError exchange_failed), s1)
      | (Answer r, s1) \<Rightarrow>
          (if \<not> res_ok r then
             (if rs_status r = 401 \<or> rs_status r = 403 then (Inl (AuthError exchange_refused), s1)
              else (Inl (AuthError exchange_failed), s1))
           else
             (let data = or_else (rs_body r) (JObj []) in
              if data = JNull then (Inl (JsError ''TypeError''), s1)
              else
                (case str_member ''token'' data of
                   None \<Rightarrow> (Inl (AuthError exchange_failed), s1)
                 | Some t \<Rightarrow>
                     (if t = [] then (Inl (AuthError exchange_failed), s1)
                      else
                        (let expiresAt = (case str_member ''expires_at'' data of
                               None \<Rightarrow> None
                             | Some d \<Rightarrow> if d = [] then None else date_parse X d)
                         in case expiresAt of
                              Some e \<Rightarrow>
                                (Inr t, s1\<lparr>accessToken := Some t, accessTokenExpiresAt := Some e\<rparr>)
                            | None \<Rightarrow>
                                (case date_now X s1 of (n, s2) \<Rightarrow>
                                   (Inr t, s2\<lparr>accessToken := Some t,
                                      accessTokenExpiresAt := Some (n + default_token_ttl_ms)\<rparr>))))))))"

text \<open>The cached token, when it is still valid for longer than the refresh skew. A zero expiry
  and an empty token are falsy in the code's test.\<close>

definition cached_token :: "int \<Rightarrow> cstate \<Rightarrow> string option" where
  "cached_token t s =
     (case (accessToken s, accessTokenExpiresAt s) of
        (Some tok, Some e) \<Rightarrow>
          (if tok \<noteq> [] \<and> e \<noteq> 0 \<and> t < e - token_refresh_skew_ms then Some tok else None)
      | _ \<Rightarrow> None)"

definition getAccessToken :: "ext \<Rightarrow> client \<Rightarrow> cstate \<Rightarrow> (sdk_error + string) \<times> cstate" where
  "getAccessToken X c s =
     (if isDeveloperPlatformKey (c_apiKey c) then (Inr (c_apiKey c), s)
      else
        (case date_now X s of (t, s1) \<Rightarrow>
           (case cached_token t s1 of
              Some tok \<Rightarrow> (Inr tok, s1)
            | None \<Rightarrow> exchangeApiKeyForToken X c s1)))"

definition invalidateToken :: "cstate \<Rightarrow> cstate" where
  "invalidateToken s = s\<lparr>accessToken := None, accessTokenExpiresAt := None\<rparr>"

section \<open>One attempt\<close>

text \<open>The request a method makes: its verb and its JSON body, when it sends one.\<close>

record req_init =
  ri_method :: "string option"
  ri_body :: "json option"

definition get_init :: req_init where
  "get_init = \<lparr> ri_method = None, ri_body = None \<rparr>"

definition method_of :: "req_init \<Rightarrow> string" where
  "method_of i = js_upper (or_else (ri_method i) ''GET'')"

definition api_request ::
  "client \<Rightarrow> string \<Rightarrow> req_init \<Rightarrow> string option \<Rightarrow> string \<Rightarrow> http_request" where
  "api_request c path i key token =
     \<lparr> rq_method = or_else (ri_method i) ''GET'', rq_url = c_base c @ ''/v1'' @ path,
       rq_headers = [(''Content-Type'', ''application/json''), (''Authorization'', ''Bearer '' @ token)] @
         (case key of Some k \<Rightarrow> [(''Idempotency-Key'', k)] | None \<Rightarrow> []),
       rq_body = map_option stringify (ri_body i) \<rparr>"

text \<open>The code and message of an error answer: the body's when it has them.\<close>

definition error_fields :: "http_response \<Rightarrow> string \<Rightarrow> string \<Rightarrow> string \<times> string" where
  "error_fields r code message =
     (case rs_body r of
        None \<Rightarrow> (code, message)
      | Some b \<Rightarrow> (or_else (str_member ''code'' b) code, or_else (str_member ''message'' b) message))"

function (sequential) executeOnce ::
  "ext \<Rightarrow> client \<Rightarrow> string \<Rightarrow> req_init \<Rightarrow> string option \<Rightarrow> int \<Rightarrow> bool \<Rightarrow> cstate \<Rightarrow>
   (sdk_error + json option) \<times> cstate" where
  "executeOnce X c path i key attempt reauthed s =
     (let method = method_of i in
      case date_now X (call_hook (OnRequest method path attempt) s) of (t0, s1) \<Rightarrow>
        (case getAccessToken X c s1 of
           (Inl e, s2) \<Rightarrow> (Inl e, s2)
         | (Inr token, s2) \<Rightarrow>
             (case fetch X (api_request c path i key token) s2 of
                (FetchFails m, s3) \<Rightarrow> (Inl (JsError m), s3)
              | (Answer r, s3) \<Rightarrow>
                  (if \<not> res_ok r then
                     (case error_fields r ''UNKNOWN'' (rs_statusText r) of (code, message) \<Rightarrow>
                        (if rs_status r = 401 \<and> \<not> reauthed \<and>
                            (code = ''INVALID_TOKEN'' \<or> code = ''UNAUTHORIZED'')
                         then executeOnce X c path i key attempt True (invalidateToken s3)
                         else (Inl (ApiError (rs_status r) code message), s3)))
                   else
                     (case date_now X s3 of (t1, s4) \<Rightarrow>
                        (let s5 = call_hook (OnResponse method path (rs_status r) (t1 - t0)) s4 in
                         if rs_status r = 204 then (Inr None, s5)
                         else (case rs_body r of
                                 None \<Rightarrow> (Inl (JsError ''SyntaxError''), s5)
                               | Some b \<Rightarrow> (Inr (Some b), s5))))))))"
  by pat_completeness auto
termination
  by (relation "measure (\<lambda>(X, c, path, i, key, attempt, reauthed, s). if reauthed then 0 else 1)") auto

declare executeOnce.simps [simp del]

section \<open>The retry loop\<close>

definition shouldRetry :: "client \<Rightarrow> int \<Rightarrow> int \<Rightarrow> bool" where
  "shouldRetry c status attempt =
     (if attempt \<ge> c_maxRetries c then False
      else status = 429 \<or> status = 502 \<or> status = 503 \<or> status = 504)"

definition retryable :: "client \<Rightarrow> sdk_error \<Rightarrow> int \<Rightarrow> bool" where
  "retryable c e attempt \<longleftrightarrow> is_api_error e \<and> shouldRetry c (api_status e) attempt"

text \<open>The exponential wait before every attempt but the first.\<close>

definition backoff :: "int \<Rightarrow> int \<Rightarrow> cstate \<Rightarrow> cstate" where
  "backoff delay attempt s =
     (if attempt > 0 then s\<lparr>waits := waits s @ [delay * 2 ^ nat (attempt - 1)]\<rparr> else s)"

function request_loop ::
  "ext \<Rightarrow> client \<Rightarrow> string \<Rightarrow> req_init \<Rightarrow> string option \<Rightarrow> int \<Rightarrow> sdk_error option \<Rightarrow> cstate \<Rightarrow>
   (sdk_error + json option) \<times> cstate" where
  "request_loop X c path i key attempt lastErr s =
     (if attempt \<le> c_maxRetries c then
        (case executeOnce X c path i key attempt False (backoff (c_retryDelay c) attempt s) of
           (Inr v, s1) \<Rightarrow> (Inr v, s1)
         | (Inl e, s1) \<Rightarrow>
             (if retryable c e attempt
              then request_loop X c path i key (attempt + 1) (Some e) s1
              else (Inl e, call_hook (OnError (method_of i) path e (attempt + 1)) s1)))
      else
        (let e = or_else lastErr Undefined in
         (Inl e, call_hook (OnError (method_of i) path e (c_maxRetries c + 1)) s)))"
  by pat_completeness auto
termination
  by (relation "measure (\<lambda>(X, c, path, i, key, attempt, lastErr, s). nat (c_maxRetries c + 1 - attempt))")
     auto

declare request_loop.simps [simp del]

definition random_uuid :: "ext \<Rightarrow> cstate \<Rightarrow> string \<times> cstate" where
  "random_uuid X s = (uuid X (uuids s), s\<lparr>uuids := Suc (uuids s)\<rparr>)"

definition idempotency_key ::
  "ext \<Rightarrow> req_init \<Rightarrow> string option \<Rightarrow> cstate \<Rightarrow> string option \<times> cstate" where
  "idempotency_key X i callerKey s =
     (case callerKey of
        Some k \<Rightarrow> (Some k, s)
      | None \<Rightarrow>
          (if method_of i = ''POST'' then (case random_uuid X s of (u, s1) \<Rightarrow> (Some u, s1))
           else (None, s)))"

definition sdk_request ::
  "ext \<Rightarrow> client \<Rightarrow> string \<Rightarrow> req_init \<Rightarrow> string option \<Rightarrow> cstate \<Rightarrow>
   (sdk_error + json option) \<times> cstate" where
  "sdk_request X c path i callerKey s =
     (case idempotency_key X i callerKey s of (key, s1) \<Rightarrow> request_loop X c path i key 0 None s1)"

section \<open>Identity\<close>

definition me_request :: "client \<Rightarrow> http_request" where
  "me_request c =
     \<lparr> rq_method = ''GET'', rq_url = c_base c @ ''/v1/me'',
       rq_headers = [(''Authorization'', ''Bearer '' @ c_apiKey c), (''Accept'', ''application/json'')],
       rq_body = None \<rparr>"

text \<open>A truthy string: \<open>if (body.code) code = body.code\<close>.\<close>

definition truthy_or :: "string option \<Rightarrow> string \<Rightarrow> string" where
  "truthy_or x d = (case x of Some v \<Rightarrow> if v = [] then d else v | None \<Rightarrow> d)"

definition me :: "ext \<Rightarrow> client \<Rightarrow> cstate \<Rightarrow> (sdk_error + json) \<times> cstate" where
  "me X c s =
     (case fetch X (me_request c) s of
        (FetchFails m, s1) \<Rightarrow> (Inl (JsError m), s1)
      | (Answer r, s1) \<Rightarrow>
          (if \<not> res_ok r then
             (let d = ''request failed with status '' @ int_str (rs_status r);
                  (code, message) = (case rs_body r of
                      None \<Rightarrow> (''REQUEST_FAILED'', d)
                    | Some b \<Rightarrow> (truthy_or (str_member ''code'' b) ''REQUEST_FAILED'',
                                truthy_or (str_member ''message'' b) d))
              in (Inl (ApiError (rs_status r) code message), s1))
           else (case rs_body r of
                   None \<Rightarrow> (Inl (JsError ''SyntaxError''), s1)
                 | Some b \<Rightarrow> (Inr b, s1))))"

section \<open>What a call sends\<close>

text \<open>\<open>sends P k s s'\<close>: from \<open>s\<close> to \<open>s'\<close> at most \<open>k\<close> requests were sent, all satisfying \<open>P\<close>.\<close>

definition sends :: "(http_request \<Rightarrow> bool) \<Rightarrow> nat \<Rightarrow> cstate \<Rightarrow> cstate \<Rightarrow> bool" where
  "sends P k s s' \<longleftrightarrow>
     (\<exists>rs. sent s' = sent s @ rs \<and> length rs \<le> k \<and> (\<forall>r \<in> set rs. P r))"

named_theorems frame \<open>fields an operation does not write\<close>

lemma sends_same: "sent s' = sent s \<Longrightarrow> sends P k s s'"
  by (simp add: sends_def)

lemma sends_trans: "sends P k s s' \<Longrightarrow> sends P l s' s'' \<Longrightarrow> sends P (k + l) s s''"
  by (fastforce simp: sends_def)

lemma sends_mono: "sends P k s s' \<Longrightarrow> k \<le> l \<Longrightarrow> (\<And>r. P r \<Longrightarrow> Q r) \<Longrightarrow> sends Q l s s'"
  by (fastforce simp: sends_def)

lemma fetch_sends: "fetch X r s = (a, s') \<Longrightarrow> P r \<Longrightarrow> sends P 1 s s'"
  by (auto simp: fetch_def sends_def)

lemma date_now_frame [frame]:
  "date_now X s = (t, s') \<Longrightarrow> sent s' = sent s \<and> accessToken s' = accessToken s \<and>
    waits s' = waits s \<and> accessTokenExpiresAt s' = accessTokenExpiresAt s"
  by (auto simp: date_now_def)

lemma call_hook_frame [simp]:
  "sent (call_hook h s) = sent s" "waits (call_hook h s) = waits s"
  "accessToken (call_hook h s) = accessToken s"
  "accessTokenExpiresAt (call_hook h s) = accessTokenExpiresAt s"
  by (simp_all add: call_hook_def)

lemma invalidateToken_frame [simp]:
  "sent (invalidateToken s) = sent s" "waits (invalidateToken s) = waits s"
  "accessToken (invalidateToken s) = None"
  by (simp_all add: invalidateToken_def)

lemma backoff_frame [simp]:
  "sent (backoff d n s) = sent s" "accessToken (backoff d n s) = accessToken s"
  by (simp_all add: backoff_def)

text \<open>The tokens a gateway has granted, and the cache holding only tokens of a given kind.\<close>

definition granted :: "ext \<Rightarrow> client \<Rightarrow> string \<Rightarrow> bool" where
  "granted X c t \<longleftrightarrow> (\<exists>n r b. net X n (token_request c) = Answer r \<and> res_ok r \<and> rs_body r = Some b \<and>
     str_member ''token'' b = Some t)"

definition held :: "(string \<Rightarrow> bool) \<Rightarrow> cstate \<Rightarrow> bool" where
  "held G s \<longleftrightarrow> (\<forall>t. accessToken s = Some t \<longrightarrow> G t)"

lemma str_member_empty [simp]: "str_member k (JObj []) = None"
  by (simp add: str_member_def jget_def)

lemma exchange_spec:
  assumes "exchangeApiKeyForToken X c s = (res, s')"
  shows "sends (\<lambda>r. r = token_request c) 1 s s' \<and> waits s' = waits s \<and>
    (\<forall>t. res = Inr t \<longrightarrow> granted X c t \<and> accessToken s' = Some t) \<and>
    (\<forall>e. res = Inl e \<longrightarrow> accessToken s' = accessToken s)"
proof -
  obtain a s1 where f: "fetch X (token_request c) s = (a, s1)" by fastforce
  then have s1: "a = net X (length (sent s)) (token_request c)"
      "sent s1 = sent s @ [token_request c]" "waits s1 = waits s" "accessToken s1 = accessToken s"
    by (auto simp: fetch_def)
  show ?thesis
  proof (cases a)
    case (FetchFails m)
    then show ?thesis using assms f s1 by (auto simp: exchangeApiKeyForToken_def sends_def)
  next
    case (Answer r)
    have g: "granted X c t" if "res_ok r" "str_member ''token'' (or_else (rs_body r) (JObj [])) = Some t" for t
      using that Answer s1(1) by (cases "rs_body r") (auto simp: granted_def)
    show ?thesis
      using assms f s1(2-4) Answer
      by (auto simp: exchangeApiKeyForToken_def sends_def Let_def date_now_def g
          split: if_splits option.splits prod.splits)
  qed
qed

lemma getAccessToken_developer:
  "isDeveloperPlatformKey (c_apiKey c) \<Longrightarrow> getAccessToken X c s = (Inr (c_apiKey c), s)"
  by (simp add: getAccessToken_def)

lemma getAccessToken_spec:
  assumes "getAccessToken X c s = (res, s')"
    and G: "\<And>t. granted X c t \<Longrightarrow> G t" and "held G s"
  shows "sends (\<lambda>r. r = token_request c) 1 s s' \<and> waits s' = waits s \<and> held G s' \<and>
    (\<forall>t. res = Inr t \<longrightarrow> G t \<or> (isDeveloperPlatformKey (c_apiKey c) \<and> t = c_apiKey c))"
proof (cases "isDeveloperPlatformKey (c_apiKey c)")
  case True
  then show ?thesis using assms by (auto simp: getAccessToken_def sends_same)
next
  case False
  obtain t s1 where d: "date_now X s = (t, s1)" by fastforce
  then have s1: "sent s1 = sent s" "waits s1 = waits s" "accessToken s1 = accessToken s"
    using date_now_frame by blast+
  show ?thesis
  proof (cases "cached_token t s1")
    case (Some tok)
    then have "accessToken s1 = Some tok"
      by (auto simp: cached_token_def split: option.splits if_splits)
    then show ?thesis
      using assms False d Some s1 by (auto simp: getAccessToken_def held_def sends_same)
  next
    case None
    then have e: "exchangeApiKeyForToken X c s1 = (res, s')"
      using assms(1) False d by (simp add: getAccessToken_def)
    from exchange_spec [OF e] s1 assms(2,3) show ?thesis
      by (cases res) (auto simp: held_def sends_def)
  qed
qed

text \<open>The requests one call may send: the exchange, and the call itself with an allowed token.\<close>

definition call_request ::
  "ext \<Rightarrow> client \<Rightarrow> string \<Rightarrow> req_init \<Rightarrow> string option \<Rightarrow> (string \<Rightarrow> bool) \<Rightarrow> http_request \<Rightarrow> bool" where
  "call_request X c path i key G r \<longleftrightarrow> r = token_request c \<or>
     (\<exists>t. (G t \<or> (isDeveloperPlatformKey (c_apiKey c) \<and> t = c_apiKey c)) \<and> r = api_request c path i key t)"

text \<open>One pass up to the answer: what it sent and what it left in the cache.\<close>

lemma pass_spec:
  assumes "getAccessToken X c s1 = (Inr t, s2)" and "fetch X (api_request c path i key t) s2 = (a, s3)"
    and "\<And>t. granted X c t \<Longrightarrow> G t" and "held G s1"
  shows "sends (call_request X c path i key G) 2 s1 s3 \<and> waits s3 = waits s1 \<and> held G s3"
proof -
  from getAccessToken_spec [OF assms(1,3,4)] have
    h: "sends (\<lambda>r. r = token_request c) 1 s1 s2" "waits s2 = waits s1" "held G s2"
      "G t \<or> (isDeveloperPlatformKey (c_apiKey c) \<and> t = c_apiKey c)" by auto
  have "sends (call_request X c path i key G) 1 s1 s2"
    by (rule sends_mono [OF h(1)]) (auto simp: call_request_def)
  moreover have "sends (call_request X c path i key G) 1 s2 s3"
    by (rule fetch_sends [OF assms(2)]) (use h(4) in \<open>auto simp: call_request_def\<close>)
  ultimately have "sends (call_request X c path i key G) 2 s1 s3"
    using sends_trans [of _ 1 s1 s2 1 s3] by (simp add: numeral_2_eq_2)
  with h assms(2) show ?thesis by (auto simp: fetch_def held_def)
qed

text \<open>An attempt that has already re-authenticated: the exchange and the call, no more.\<close>

lemma date_now_prems:
  assumes "date_now X (call_hook h s) = (t0, s1)" and "held G s"
  shows "sent s1 = sent s" "waits s1 = waits s" "held G s1"
  using assms date_now_frame [OF assms(1)] by (auto simp: held_def)

lemma executeOnce_final:
  assumes ex: "executeOnce X c path i key n True s = (res, s')"
    and G: "\<And>t. granted X c t \<Longrightarrow> G t" and h: "held G s"
  shows "sends (call_request X c path i key G) 2 s s' \<and> waits s' = waits s \<and> held G s'"
proof -
  obtain t0 s1 where d: "date_now X (call_hook (OnRequest (method_of i) path n) s) = (t0, s1)"
    by fastforce
  note s1 = date_now_prems [OF d h]
  obtain a s2 where t: "getAccessToken X c s1 = (a, s2)" by fastforce
  note g = getAccessToken_spec [OF t G s1(3)]
  show ?thesis
  proof (cases a)
    case (Inl e)
    then have "s' = s2" using ex d t by (simp add: executeOnce.simps [of X c path i key n True s])
    moreover have "sends (call_request X c path i key G) 2 s1 s2"
      by (rule sends_mono [OF conjunct1 [OF g]]) (auto simp: call_request_def)
    ultimately show ?thesis using g s1 by (auto simp: sends_def)
  next
    case (Inr tok)
    obtain f s3 where f: "fetch X (api_request c path i key tok) s2 = (f, s3)" by fastforce
    have p: "sends (call_request X c path i key G) 2 s1 s3 \<and> waits s3 = waits s1 \<and> held G s3"
      by (rule pass_spec [OF t [unfolded Inr] f G s1(3)])
    have "sent s' = sent s3 \<and> waits s' = waits s3 \<and> accessToken s' = accessToken s3"
      using ex d t Inr f
      by (auto simp: executeOnce.simps [of X c path i key n True s] Let_def date_now_def
          split: fetch_result.splits if_splits option.splits prod.splits)
    with p s1 show ?thesis by (auto simp: sends_def held_def)
  qed
qed

lemma executeOnce_spec:
  assumes ex: "executeOnce X c path i key n False s = (res, s')"
    and G: "\<And>t. granted X c t \<Longrightarrow> G t" and h: "held G s"
  shows "sends (call_request X c path i key G) 4 s s' \<and> waits s' = waits s \<and> held G s'"
proof -
  obtain t0 s1 where d: "date_now X (call_hook (OnRequest (method_of i) path n) s) = (t0, s1)"
    by fastforce
  note s1 = date_now_prems [OF d h]
  obtain a s2 where t: "getAccessToken X c s1 = (a, s2)" by fastforce
  note g = getAccessToken_spec [OF t G s1(3)]
  show ?thesis
  proof (cases a)
    case (Inl e)
    then have "s' = s2" using ex d t by (simp add: executeOnce.simps [of X c path i key n False s])
    moreover have "sends (call_request X c path i key G) 4 s1 s2"
      by (rule sends_mono [OF conjunct1 [OF g]]) (auto simp: call_request_def)
    ultimately show ?thesis using g s1 by (auto simp: sends_def)
  next
    case (Inr tok)
    obtain f s3 where f: "fetch X (api_request c path i key tok) s2 = (f, s3)" by fastforce
    have p: "sends (call_request X c path i key G) 2 s1 s3 \<and> waits s3 = waits s1 \<and> held G s3"
      by (rule pass_spec [OF t [unfolded Inr] f G s1(3)])
    have "(sent s' = sent s3 \<and> waits s' = waits s3 \<and> accessToken s' = accessToken s3) \<or>
        executeOnce X c path i key n True (invalidateToken s3) = (res, s')"
      using ex d t Inr f
      by (auto simp: executeOnce.simps [of X c path i key n False s] Let_def date_now_def
          split: fetch_result.splits if_splits option.splits prod.splits)
    then show ?thesis
    proof
      assume "sent s' = sent s3 \<and> waits s' = waits s3 \<and> accessToken s' = accessToken s3"
      with p s1 show ?thesis by (auto simp: sends_def held_def)
    next
      assume "executeOnce X c path i key n True (invalidateToken s3) = (res, s')"
      then have "sends (call_request X c path i key G) 2 (invalidateToken s3) s' \<and>
          waits s' = waits (invalidateToken s3) \<and> held G s'"
        by (rule executeOnce_final) (simp_all add: G held_def)
      with p s1 show ?thesis
        using sends_trans [of "call_request X c path i key G" 2 s1 s3 2 s'] by (auto simp: sends_def)
    qed
  qed
qed

text \<open>What an attempt can fail with: never with the \<^const>\<open>Undefined\<close> of \<open>throw lastErr!\<close>.\<close>

lemma exchange_error: "exchangeApiKeyForToken X c s = (Inl e, s') \<Longrightarrow> e \<noteq> Undefined \<and> \<not> is_api_error e"
  by (auto simp: exchangeApiKeyForToken_def is_api_error_def Let_def
      split: fetch_result.splits prod.splits if_splits option.splits)

lemma getAccessToken_error: "getAccessToken X c s = (Inl e, s') \<Longrightarrow> e \<noteq> Undefined \<and> \<not> is_api_error e"
  by (auto simp: getAccessToken_def dest: exchange_error split: prod.splits if_splits option.splits)

lemma executeOnce_error: "fst (executeOnce X c path i key n b s) = Inl e \<Longrightarrow> e \<noteq> Undefined"
proof (induction X c path i key n b s rule: executeOnce.induct)
  case (1 X c path i key n b s)
  show ?case
    using 1(2) 1(1) [OF refl]
    by (subst (asm) executeOnce.simps)
       (auto simp: Let_def date_now_def dest: getAccessToken_error
         split: sum.splits fetch_result.splits prod.splits if_splits option.splits)
qed

section \<open>The retry loop is a bounded retry loop\<close>

lemma shouldRetry_False [simp]: "c_maxRetries c \<le> n \<Longrightarrow> \<not> shouldRetry c st n"
  by (simp add: shouldRetry_def)

lemma shouldRetry_before:
  "n < c_maxRetries c \<Longrightarrow> shouldRetry c st n \<longleftrightarrow> st = 429 \<or> st = 502 \<or> st = 503 \<or> st = 504"
  by (simp add: shouldRetry_def)

interpretation sdk_loop: retry_loop
  "\<lambda>n s. executeOnce X c path i key n False s" "retryable c" "backoff (c_retryDelay c)"
  "\<lambda>n e s. call_hook (OnError (method_of i) path e (n + 1)) s"
  "request_loop X c path i key" "c_maxRetries c"
  for X c path i key
  by unfold_locales
     (auto simp: request_loop.simps [of X c path i key] retryable_def split: sum.splits prod.splits)

section \<open>Properties of a call\<close>

text \<open>The states between the attempts of a call.\<close>

definition between ::
  "ext \<Rightarrow> client \<Rightarrow> string \<Rightarrow> req_init \<Rightarrow> string option \<Rightarrow> (string \<Rightarrow> bool) \<Rightarrow> cstate \<Rightarrow> int \<Rightarrow> cstate \<Rightarrow> bool"
  where
  "between X c path i key G s n w \<longleftrightarrow> 0 \<le> n \<and>
     sends (call_request X c path i key G) (4 * nat n) s w \<and>
     waits w = waits s @ map (\<lambda>j. c_retryDelay c * 2 ^ j) [0..<nat n - 1] \<and> held G w"

lemma backoff_waits:
  assumes "between X c path i key G s n w"
  shows "waits (backoff (c_retryDelay c) n w) =
    waits s @ map (\<lambda>j. c_retryDelay c * 2 ^ j) [0..<nat n]"
proof (cases "n > 0")
  case True
  then obtain k where k: "nat n = Suc k" "nat (n - 1) = k" by (cases "nat n") auto
  with True assms show ?thesis by (simp add: backoff_def between_def)
next
  case False
  with assms show ?thesis by (simp add: backoff_def between_def)
qed

lemma attempt_between:
  assumes b: "between X c path i key G s n w"
    and ex: "executeOnce X c path i key n False (backoff (c_retryDelay c) n w) = (r, w2)"
    and G: "\<And>t. granted X c t \<Longrightarrow> G t"
  shows "between X c path i key G s (n + 1) w2"
proof -
  have h: "held G (backoff (c_retryDelay c) n w)" using b by (simp add: between_def held_def)
  note e = executeOnce_spec [OF ex G h]
  have "sends (call_request X c path i key G) (4 * nat n + 4) s w2"
    using b e by (intro sends_trans [of _ _ s w 4 w2]) (auto simp: between_def sends_def)
  moreover have "nat (n + 1) = nat n + 1" using b unfolding between_def by linarith
  ultimately show ?thesis
    using e backoff_waits [OF b] b by (simp add: between_def add.commute)
qed

lemma call_spec:
  assumes "0 \<le> c_maxRetries c" and "held G s" and G: "\<And>t. granted X c t \<Longrightarrow> G t"
  obtains m w r w2 where "0 \<le> m" "m \<le> c_maxRetries c" "between X c path i key G s (m + 1) w2"
    "executeOnce X c path i key m False (backoff (c_retryDelay c) m w) = (r, w2)"
    "fst (request_loop X c path i key 0 None s) = r"
    "\<forall>e. r = Inl e \<longrightarrow> \<not> retryable c e m"
    "sent (snd (request_loop X c path i key 0 None s)) = sent w2"
    "waits (snd (request_loop X c path i key 0 None s)) = waits w2"
    "accessToken (snd (request_loop X c path i key 0 None s)) = accessToken w2"
proof -
  have b0: "between X c path i key G s 0 s" using assms(2) by (simp add: between_def sends_same)
  have "\<exists>m w r w2. 0 \<le> m \<and> m \<le> c_maxRetries c \<and> between X c path i key G s m w \<and>
      executeOnce X c path i key m False (backoff (c_retryDelay c) m w) = (r, w2) \<and>
      ((\<exists>v. r = Inr v \<and> request_loop X c path i key 0 None s = (Inr v, w2)) \<or>
       (\<exists>e. r = Inl e \<and> \<not> retryable c e m \<and> request_loop X c path i key 0 None s =
          (Inl e, call_hook (OnError (method_of i) path e (m + 1)) w2)))"
    by (rule sdk_loop.loop_exits [OF assms(1)]) (use b0 attempt_between [OF _ _ G] in auto)
  then obtain m w r w2 where m: "0 \<le> m" "m \<le> c_maxRetries c" "between X c path i key G s m w"
      "executeOnce X c path i key m False (backoff (c_retryDelay c) m w) = (r, w2)"
      "(\<exists>v. r = Inr v \<and> request_loop X c path i key 0 None s = (Inr v, w2)) \<or>
       (\<exists>e. r = Inl e \<and> \<not> retryable c e m \<and> request_loop X c path i key 0 None s =
          (Inl e, call_hook (OnError (method_of i) path e (m + 1)) w2))"
    by blast
  have b2: "between X c path i key G s (m + 1) w2" by (rule attempt_between [OF m(3,4) G])
  show thesis
    using m(5) by (intro that [OF m(1,2) b2 m(4)]) auto
qed

text \<open>The trace a call leaves: the requests and the waits it appended.\<close>

definition new_requests :: "cstate \<Rightarrow> cstate \<Rightarrow> http_request list" where
  "new_requests s s' = drop (length (sent s)) (sent s')"

definition new_waits :: "cstate \<Rightarrow> cstate \<Rightarrow> int list" where
  "new_waits s s' = drop (length (waits s)) (waits s')"

lemma sends_new: "sends P k s s' \<Longrightarrow> length (new_requests s s') \<le> k \<and> (\<forall>r \<in> set (new_requests s s'). P r)"
  by (auto simp: sends_def new_requests_def)

lemma idempotency_key_frame:
  "idempotency_key X i ck s = (key, s1) \<Longrightarrow>
    sent s1 = sent s \<and> waits s1 = waits s \<and> accessToken s1 = accessToken s"
  by (auto simp: idempotency_key_def random_uuid_def split: option.splits if_splits)

lemma sdk_request_spec:
  assumes "0 \<le> c_maxRetries c" and "held G s" and G: "\<And>t. granted X c t \<Longrightarrow> G t"
    and r: "sdk_request X c path i ck s = (res, s')"
  obtains m key where "0 \<le> m" "m \<le> c_maxRetries c" "key = fst (idempotency_key X i ck s)"
    "sends (call_request X c path i key G) (4 * nat (m + 1)) s s'"
    "waits s' = waits s @ map (\<lambda>j. c_retryDelay c * 2 ^ j) [0..<nat m]" "held G s'"
    "\<forall>e. res = Inl e \<longrightarrow> e \<noteq> Undefined \<and> \<not> retryable c e m"
proof -
  obtain key s1 where k: "idempotency_key X i ck s = (key, s1)" by fastforce
  note f = idempotency_key_frame [OF k]
  have l: "request_loop X c path i key 0 None s1 = (res, s')" using r k by (simp add: sdk_request_def)
  have h: "held G s1" using assms(2) f by (simp add: held_def)
  show thesis
  proof (rule call_spec [OF assms(1) h G, where path = path and i = i and key = key])
    fix m w r' w2
    assume m: "0 \<le> m" "m \<le> c_maxRetries c" "between X c path i key G s1 (m + 1) w2"
      "executeOnce X c path i key m False (backoff (c_retryDelay c) m w) = (r', w2)"
      "fst (request_loop X c path i key 0 None s1) = r'" "\<forall>e. r' = Inl e \<longrightarrow> \<not> retryable c e m"
      "sent (snd (request_loop X c path i key 0 None s1)) = sent w2"
      "waits (snd (request_loop X c path i key 0 None s1)) = waits w2"
      "accessToken (snd (request_loop X c path i key 0 None s1)) = accessToken w2"
    have nat: "nat (m + 1) = Suc (nat m)" using m(1) by linarith
    have w2: "sent s' = sent w2" "waits s' = waits w2" "accessToken s' = accessToken w2" "r' = res"
      using m(5,7-9) l by simp_all
    have b: "sends (call_request X c path i key G) (4 * nat (m + 1)) s1 w2"
      "waits w2 = waits s1 @ map (\<lambda>j. c_retryDelay c * 2 ^ j) [0..<nat (m + 1) - 1]" "held G w2"
      using m(3) by (auto simp: between_def)
    have undef: "e \<noteq> Undefined" if "res = Inl e" for e
      using executeOnce_error [of X c path i key m False "backoff (c_retryDelay c) m w" e]
        m(4) w2(4) that by simp
    show thesis
      using m(1,2,6) b w2 f k undef
      by (intro that [of m key]) (auto simp: sends_def held_def nat)
  qed
qed

text \<open>Every request a call sends is the exchange or the call itself under the call's key.\<close>

lemma call_requests:
  assumes "0 \<le> c_maxRetries c" and "sdk_request X c path i ck s = (res, s')"
  shows "sends (\<lambda>r. r = token_request c \<or>
      (\<exists>t. r = api_request c path i (fst (idempotency_key X i ck s)) t)) (4 * nat (c_maxRetries c + 1)) s s'"
proof -
  have h: "held (\<lambda>_. True) s" by (simp add: held_def)
  obtain m key where m: "m \<le> c_maxRetries c" "key = fst (idempotency_key X i ck s)"
      "sends (call_request X c path i key (\<lambda>_. True)) (4 * nat (m + 1)) s s'"
    by (rule sdk_request_spec [OF assms(1) h TrueI assms(2)]) blast
  show ?thesis
    by (rule sends_mono [OF m(3)]) (use m(1,2) in \<open>auto simp: call_request_def nat_mono\<close>)
qed

lemma call_request_in:
  assumes "0 \<le> c_maxRetries c" and "r \<in> set (new_requests s (snd (sdk_request X c path i ck s)))"
  shows "r = token_request c \<or> (\<exists>t. r = api_request c path i (fst (idempotency_key X i ck s)) t)"
  using sends_new [OF call_requests [OF assms(1) prod.collapse [symmetric]]] assms(2) by blast

section \<open>A concrete gateway\<close>

text \<open>A gateway that grants the token \<open>t1\<close>, answers the first call 503 and every later one 200.\<close>

definition demo_client :: client where
  "demo_client = \<lparr> c_base = ''https://x'', c_payBase = ''https://p'', c_apiKey = ''bzk_1'',
     c_environment = Sandbox, c_maxRetries = 2, c_retryDelay = 500, c_webhookSecret = None \<rparr>"

definition demo_ext :: ext where
  "demo_ext = \<lparr> net = (\<lambda>n r.
       if rq_url r = ''https://x/v1/auth/token''
       then Answer \<lparr> rs_status = 200, rs_statusText = [],
              rs_body = Some (JObj [(''token'', JStr ''t1''), (''expires_at'', JStr ''d'')]) \<rparr>
       else if n \<le> 1 then Answer \<lparr> rs_status = 503, rs_statusText = ''busy'', rs_body = None \<rparr>
       else Answer \<lparr> rs_status = 200, rs_statusText = [], rs_body = Some (JStr ''ok'') \<rparr>),
     now = int, uuid = (\<lambda>n. ''u''), date_parse = (\<lambda>_. Some 900000) \<rparr>"

definition demo_init :: req_init where
  "demo_init = \<lparr> ri_method = Some ''POST'', ri_body = Some (JObj []) \<rparr>"

lemma demo_run:
  "fst (sdk_request demo_ext demo_client ''/refunds'' demo_init None init_state) = Inr (Some (JStr ''ok''))"
  "sent (snd (sdk_request demo_ext demo_client ''/refunds'' demo_init None init_state)) =
     [token_request demo_client, api_request demo_client ''/refunds'' demo_init (Some ''u'') ''t1'',
      api_request demo_client ''/refunds'' demo_init (Some ''u'') ''t1'']"
  "waits (snd (sdk_request demo_ext demo_client ''/refunds'' demo_init None init_state)) = [500]"
  by code_simp+

section \<open>The transport properties\<close>

text \<open>
  C12. One call sends a bounded number of requests, and they all carry one idempotency key: the
  caller's key when there is one, and a fresh one for a POST without it. Retries and
  re-authentications therefore never repeat a financial mutation under a second key, and every
  request is either the token exchange or the call itself with the same verb, URL, body and key.
\<close>

theorem call_requests_share_key:
  assumes "0 \<le> c_maxRetries c" and "sdk_request X c path i ck s = (res, s')"
  shows "length (new_requests s s') \<le> 4 * nat (c_maxRetries c + 1) \<and>
    (\<exists>key. (ck \<noteq> None \<longrightarrow> key = ck) \<and> (method_of i = ''POST'' \<longrightarrow> key \<noteq> None) \<and>
      (\<forall>r \<in> set (new_requests s s').
         r = token_request c \<or> (\<exists>t. r = api_request c path i key t)))"
  using sends_new [OF call_requests [OF assms]]
  by (auto simp: idempotency_key_def random_uuid_def split: option.splits if_splits)

theorem call_requests_share_key_witness:
  "length (new_requests init_state (snd (sdk_request demo_ext demo_client ''/refunds'' demo_init None init_state))) \<le> 12"
  using call_requests_share_key
    [of demo_client demo_ext "''/refunds''" demo_init None init_state _
      "snd (sdk_request demo_ext demo_client ''/refunds'' demo_init None init_state)", OF _ surjective_pairing]
  by (simp add: demo_client_def)





text \<open>
  A client constructed with a negative \<open>maxRetries\<close> sends nothing: every call throws the
  value \<open>undefined\<close>, whatever the gateway would answer.
\<close>

theorem negative_retries_throw_undefined:
  assumes "c_maxRetries c < 0"
  shows "fst (sdk_request X c path i ck s) = Inl Undefined \<and>
    sent (snd (sdk_request X c path i ck s)) = sent s"
  using assms idempotency_key_frame [of X i ck s]
  by (cases "idempotency_key X i ck s")
     (simp add: sdk_request_def request_loop.simps [of X c path i _ 0 None] Let_def)

theorem negative_retries_throw_undefined_witness:
  "fst (sdk_request demo_ext (demo_client\<lparr>c_maxRetries := -1\<rparr>) ''/refunds'' demo_init None init_state)
     = Inl Undefined"
  using negative_retries_throw_undefined
    [of "demo_client\<lparr>c_maxRetries := -1\<rparr>" demo_ext "''/refunds''" demo_init None init_state]
  by simp

end
