(* ===== verification/JsStd.thy ===== *)
theory JsStd
  imports Prelude
begin

text \<open>
  The standard-library functions the sources build URLs and request bodies with:
  \<open>encodeURIComponent\<close>, the serialiser of \<open>URLSearchParams\<close>, and \<open>Date.prototype.toISOString\<close>. Both
  encoders work on the UTF-8 bytes of a string. Each is shown to be inverted by a decoder, so it
  is injective, and to produce none of the characters that delimit the parts of a URL.
\<close>

section \<open>UTF-8\<close>

definition unit_code :: "char \<Rightarrow> nat" where
  "unit_code c = of_char c"

lemma unit_code_bound [simp]: "unit_code c < 256"
  by (simp add: unit_code_def)

lemma char_of_unit [simp]: "char_of (unit_code c) = c"
  by (simp add: unit_code_def)

lemma unit_code_inject [simp]: "unit_code c = unit_code d \<longleftrightarrow> c = d"
  by (metis char_of_unit)

lemma unit_code_of [simp]: "n < 256 \<Longrightarrow> unit_code (char_of n) = n"
  by (simp add: unit_code_def of_char_of)

text \<open>The UTF-8 bytes of a code unit below 256.\<close>

definition utf8 :: "char \<Rightarrow> string" where
  "utf8 c = (if unit_code c < 128 then [c]
     else [char_of (192 + unit_code c div 64), char_of (128 + unit_code c mod 64)])"

fun utf8_decode :: "string \<Rightarrow> string" where
  "utf8_decode [] = []"
| "utf8_decode [b] = [b]"
| "utf8_decode (b # d # bs) =
     (if unit_code b < 192 then b # utf8_decode (d # bs)
      else char_of ((unit_code b - 192) * 64 + (unit_code d - 128)) # utf8_decode bs)"

lemma utf8_decode_ascii: "unit_code b < 192 \<Longrightarrow> utf8_decode (b # bs) = b # utf8_decode bs"
  by (cases bs) auto

lemma utf8_decode_char: "utf8_decode (utf8 c @ bs) = c # utf8_decode bs"
proof (cases "unit_code c < 128")
  case True
  then show ?thesis by (simp add: utf8_def utf8_decode_ascii)
next
  case False
  have "unit_code c div 64 < 4" using unit_code_bound [of c] by linarith
  then show ?thesis
    using False by (simp add: utf8_def mult.commute)
qed

lemma utf8_roundtrip: "utf8_decode (concat (map utf8 s)) = s"
  by (induction s) (simp_all add: utf8_decode_char)

section \<open>Percent encoding\<close>

definition is_alnum :: "char \<Rightarrow> bool" where
  "is_alnum c \<longleftrightarrow> is_digit c \<or> is_ascii_upper c \<or> is_ascii_lower c"

definition pct_digit :: "nat \<Rightarrow> char" where
  "pct_digit n = char_of (if n < 10 then 48 + n else 55 + n)"

definition pct_val :: "char \<Rightarrow> nat" where
  "pct_val c = (if unit_code c < 58 then unit_code c - 48 else unit_code c - 55)"

lemma pct_val_digit [simp]: "n < 16 \<Longrightarrow> pct_val (pct_digit n) = n"
  by (simp add: pct_val_def pct_digit_def)

definition pct :: "char \<Rightarrow> string" where
  "pct b = [CHR ''%'', pct_digit (unit_code b div 16), pct_digit (unit_code b mod 16)]"

text \<open>The bytes \<open>encodeURIComponent\<close> and the form serialiser leave as they are.\<close>

definition uri_unreserved :: "char \<Rightarrow> bool" where
  "uri_unreserved b \<longleftrightarrow> is_alnum b \<or> b \<in> set ''-_.!~*()'' \<or> b = CHR 0x27"

definition form_unreserved :: "char \<Rightarrow> bool" where
  "form_unreserved b \<longleftrightarrow> is_alnum b \<or> b \<in> set ''*-._''"

definition encodeURIComponent :: "string \<Rightarrow> string" where
  "encodeURIComponent s =
     concat (map (\<lambda>b. if uri_unreserved b then [b] else pct b) (concat (map utf8 s)))"

definition form_byte :: "char \<Rightarrow> string" where
  "form_byte b = (if b = CHR 0x20 then ''+'' else if form_unreserved b then [b] else pct b)"

definition form_encode :: "string \<Rightarrow> string" where
  "form_encode s = concat (map form_byte (concat (map utf8 s)))"

text \<open>\<open>URLSearchParams.toString()\<close> on a list of names and values.\<close>

definition query_string :: "(string \<times> string) list \<Rightarrow> string" where
  "query_string ps = join_with ''&'' (map (\<lambda>(k, v). form_encode k @ ''='' @ form_encode v) ps)"

fun pct_decode :: "string \<Rightarrow> string" where
  "pct_decode (c # s) =
     (if c = CHR ''%'' then
        (case s of
           a # b # r \<Rightarrow> char_of (16 * pct_val a + pct_val b) # pct_decode r
         | _ \<Rightarrow> c # s)
      else c # pct_decode s)"
| "pct_decode [] = []"

definition form_decode :: "string \<Rightarrow> string" where
  "form_decode s = utf8_decode (pct_decode (map (\<lambda>c. if c = CHR ''+'' then CHR 0x20 else c) s))"

definition uri_decode :: "string \<Rightarrow> string" where
  "uri_decode s = utf8_decode (pct_decode s)"

lemma pct_decode_pct: "pct_decode (pct b @ r) = b # pct_decode r"
proof -
  have "unit_code b div 16 < 16" using unit_code_bound [of b] by linarith
  then have "pct_val (pct_digit (unit_code b div 16)) = unit_code b div 16" by simp
  moreover have "16 * (unit_code b div 16) + unit_code b mod 16 = unit_code b" by simp
  ultimately show ?thesis by (simp add: pct_def)
qed

lemma uri_unreserved_pct: "uri_unreserved b \<Longrightarrow> b \<noteq> CHR ''%''"
  by (auto simp: uri_unreserved_def is_alnum_def char_class_defs)

lemma form_unreserved_special: "form_unreserved b \<Longrightarrow> b \<noteq> CHR ''%'' \<and> b \<noteq> CHR ''+''"
  by (auto simp: form_unreserved_def is_alnum_def char_class_defs)

lemma uri_roundtrip: "uri_decode (encodeURIComponent s) = s"
proof -
  have "pct_decode (concat (map (\<lambda>b. if uri_unreserved b then [b] else pct b) bs)) = bs" for bs
    by (induction bs) (auto simp: pct_decode_pct uri_unreserved_pct)
  then show ?thesis by (simp add: uri_decode_def encodeURIComponent_def utf8_roundtrip)
qed

lemma encodeURIComponent_inject [simp]: "encodeURIComponent s = encodeURIComponent t \<longleftrightarrow> s = t"
  by (metis uri_roundtrip)

lemma pct_digit_alnum: "n < 16 \<Longrightarrow> is_alnum (pct_digit n)"
  by (auto simp: pct_digit_def is_alnum_def char_class_defs of_char_of)

lemma pct_chars: "c \<in> set (pct b) \<Longrightarrow> c = CHR ''%'' \<or> is_alnum c"
proof -
  have "unit_code b div 16 < 16" using unit_code_bound [of b] by linarith
  then show "c \<in> set (pct b) \<Longrightarrow> c = CHR ''%'' \<or> is_alnum c"
    by (auto simp: pct_def pct_digit_alnum)
qed

text \<open>An encoded component stays inside its path segment, query value or fragment.\<close>

lemma encodeURIComponent_chars:
  "c \<in> set (encodeURIComponent s) \<Longrightarrow> uri_unreserved c \<or> c = CHR ''%''"
  by (auto simp: encodeURIComponent_def uri_unreserved_def dest: pct_chars split: if_splits)

lemma encodeURIComponent_no_delimiter:
  "CHR ''/'' \<notin> set (encodeURIComponent s)" "CHR ''?'' \<notin> set (encodeURIComponent s)"
  "CHR ''#'' \<notin> set (encodeURIComponent s)" "CHR ''&'' \<notin> set (encodeURIComponent s)"
  by (auto dest!: encodeURIComponent_chars simp: uri_unreserved_def is_alnum_def char_class_defs)

lemma form_chars: "c \<in> set (form_encode s) \<Longrightarrow> form_unreserved c \<or> c = CHR ''%'' \<or> c = CHR ''+''"
  by (auto simp: form_encode_def form_byte_def form_unreserved_def dest: pct_chars split: if_splits)

lemma form_no_delimiter:
  "CHR ''&'' \<notin> set (form_encode s)" "CHR ''='' \<notin> set (form_encode s)"
  by (auto dest!: form_chars simp: form_unreserved_def is_alnum_def char_class_defs)

lemma form_roundtrip: "form_decode (form_encode s) = s"
proof -
  let ?sp = "\<lambda>c. if c = CHR ''+'' then CHR 0x20 else c"
  have plus: "map ?sp (pct b) = pct b" for b
  proof (rule map_idI)
    fix c assume "c \<in> set (pct b)"
    then show "?sp c = c" using pct_chars [of c b] by (auto simp: is_alnum_def char_class_defs)
  qed
  have "pct_decode (map ?sp (form_byte b) @ r) = b # pct_decode r" for b r
    by (auto simp: form_byte_def plus pct_decode_pct dest: form_unreserved_special)
  then have "pct_decode (map ?sp (concat (map form_byte bs))) = bs" for bs
    by (induction bs) simp_all
  then show ?thesis by (simp add: form_decode_def form_encode_def utf8_roundtrip)
qed

lemma form_enunit_code_inject [simp]: "form_encode s = form_encode t \<longleftrightarrow> s = t"
  by (metis form_roundtrip)

text \<open>Reading a query string back, as \<open>new URLSearchParams(s)\<close> does.\<close>

definition parse_pair :: "string \<Rightarrow> string \<times> string" where
  "parse_pair p = (case index_of (CHR ''='') p of
     Some i \<Rightarrow> (form_decode (take i p), form_decode (drop (i + 1) p))
   | None \<Rightarrow> (form_decode p, []))"

definition parse_query :: "string \<Rightarrow> (string \<times> string) list" where
  "parse_query s = map parse_pair (filter (\<lambda>p. p \<noteq> []) (split_on (CHR ''&'') s))"

lemma query_roundtrip: "parse_query (query_string ps) = ps"
proof (cases "ps = []")
  case True
  then show ?thesis by (simp add: parse_query_def query_string_def)
next
  case False
  let ?f = "\<lambda>(k, v). form_encode k @ ''='' @ form_encode v"
  have "split_on (CHR ''&'') (join_with ''&'' (map ?f ps)) = map ?f ps"
    by (rule split_join) (use False in \<open>auto simp: list_all_iff form_no_delimiter\<close>)
  moreover have "parse_pair (?f kv) = kv" for kv
    by (cases kv) (simp add: parse_pair_def form_no_delimiter form_roundtrip)
  moreover have "filter (\<lambda>p. p \<noteq> []) (map ?f ps) = map ?f ps"
    by (auto simp: filter_id_conv)
  ultimately show ?thesis
    by (simp add: parse_query_def query_string_def map_idI)
qed

lemma query_string_inject [simp]: "query_string ps = query_string qs \<longleftrightarrow> ps = qs"
  by (metis query_roundtrip)

lemma query_string_Nil_iff [simp]: "query_string ps = [] \<longleftrightarrow> ps = []"
  by (metis query_string_inject query_string_def list.map(1) join_with.simps(1))

section \<open>Numeric literals\<close>

text \<open>
  \<open>Number(s)\<close> where the code then asks \<open>Number.isInteger\<close>: \<^term>\<open>Some n\<close> when the text is a
  numeric literal whose value is the integer \<open>n\<close>, \<^const>\<open>None\<close> when it is another number or not a
  number. Decimal literals may have a sign, a fraction and an exponent; hexadecimal, octal and
  binary ones a \<open>0x\<close>, \<open>0o\<close> or \<open>0b\<close> prefix; the empty text is zero. Values are exact below 2 to the
  53.
\<close>

definition digits :: "string \<Rightarrow> bool" where
  "digits s \<longleftrightarrow> s \<noteq> [] \<and> list_all is_digit s"

definition signed_digits :: "string \<Rightarrow> int option" where
  "signed_digits s =
     (if prefix ''-'' s \<and> digits (tl s) then Some (- int (dec_val (tl s)))
      else if prefix ''+'' s \<and> digits (tl s) then Some (int (dec_val (tl s)))
      else if digits s then Some (int (dec_val s)) else None)"

definition scaled :: "nat \<Rightarrow> int \<Rightarrow> int option" where
  "scaled n e =
     (if 0 \<le> e then Some (int n * 10 ^ nat e)
      else if 10 ^ nat (- e) dvd n then Some (int (n div 10 ^ nat (- e))) else None)"

definition unsigned_decimal :: "string \<Rightarrow> int option" where
  "unsigned_decimal s =
     (let mant = takeWhile (\<lambda>c. c \<noteq> CHR ''e'' \<and> c \<noteq> CHR ''E'') s;
          rest = dropWhile (\<lambda>c. c \<noteq> CHR ''e'' \<and> c \<noteq> CHR ''E'') s;
          whole = takeWhile (\<lambda>c. c \<noteq> CHR ''.'') mant;
          frac = drop 1 (dropWhile (\<lambda>c. c \<noteq> CHR ''.'') mant)
      in if list_all is_digit (whole @ frac) \<and> whole @ frac \<noteq> [] then
           (if rest = [] then scaled (dec_val (whole @ frac)) (- int (length frac))
            else (case signed_digits (tl rest) of
                    Some e \<Rightarrow> scaled (dec_val (whole @ frac)) (e - int (length frac))
                  | None \<Rightarrow> None))
         else None)"

definition radix_value :: "nat \<Rightarrow> string \<Rightarrow> int option" where
  "radix_value b s =
     (if s \<noteq> [] \<and> list_all (\<lambda>c. is_alnum c \<and> pct_val (upper_char c) < b) s
      then Some (int (foldl (\<lambda>n c. b * n + pct_val (upper_char c)) 0 s)) else None)"

definition js_number_int :: "string \<Rightarrow> int option" where
  "js_number_int t =
     (let s = js_trim t in
      if s = [] then Some 0
      else if prefix ''0x'' s \<or> prefix ''0X'' s then radix_value 16 (drop 2 s)
      else if prefix ''0o'' s \<or> prefix ''0O'' s then radix_value 8 (drop 2 s)
      else if prefix ''0b'' s \<or> prefix ''0B'' s then radix_value 2 (drop 2 s)
      else if prefix ''-'' s then map_option uminus (unsigned_decimal (tl s))
      else if prefix ''+'' s then unsigned_decimal (tl s)
      else unsigned_decimal s)"

lemma digit_not_letter: "is_digit c \<Longrightarrow> c \<noteq> CHR ''e'' \<and> c \<noteq> CHR ''E'' \<and> c \<noteq> CHR ''.'' \<and> c \<noteq> CHR ''x'' \<and>
    c \<noteq> CHR ''X'' \<and> c \<noteq> CHR ''o'' \<and> c \<noteq> CHR ''O'' \<and> c \<noteq> CHR ''b'' \<and> c \<noteq> CHR ''B'' \<and> c \<noteq> CHR ''-'' \<and> c \<noteq> CHR ''+''"
  by (auto simp: is_digit_def)

lemma unsigned_decimal_digits:
  assumes "digits s" shows "unsigned_decimal s = Some (int (dec_val s))"
proof -
  have d: "\<forall>c \<in> set s. is_digit c" and n: "s \<noteq> []" using assms by (auto simp: digits_def list_all_iff)
  have tw: "takeWhile (\<lambda>c. c \<noteq> CHR ''e'' \<and> c \<noteq> CHR ''E'') s = s"
    "dropWhile (\<lambda>c. c \<noteq> CHR ''e'' \<and> c \<noteq> CHR ''E'') s = []"
    "takeWhile (\<lambda>c. c \<noteq> CHR ''.'') s = s" "dropWhile (\<lambda>c. c \<noteq> CHR ''.'') s = []"
    using d digit_not_letter by (auto simp: takeWhile_eq_all_conv dropWhile_eq_Nil_conv)
  then show ?thesis
    unfolding unsigned_decimal_def Let_def tw using d n by (simp add: list_all_iff scaled_def)
qed

lemma js_number_int_digits:
  assumes "digits s" shows "js_number_int s = Some (int (dec_val s))"
proof -
  have d: "\<forall>c \<in> set s. is_digit c" and n: "s \<noteq> []" using assms by (auto simp: digits_def list_all_iff)
  then have t: "js_trim s = s" by (intro js_trim_no_ws) (auto simp: list_all_iff digit_not_ws)
  have "\<not> prefix [x, y] s" if "\<not> is_digit y" for x y
    using d that by (auto simp: prefix_def)
  moreover have "\<not> prefix [x] s" if "\<not> is_digit x" for x
    using d that by (auto simp: prefix_def)
  ultimately show ?thesis
    using n by (simp add: js_number_int_def t Let_def unsigned_decimal_digits [OF assms] is_digit_def)
qed

lemma js_number_int_str [simp]: "0 \<le> n \<Longrightarrow> js_number_int (int_str n) = Some n"
  by (simp add: int_str_def js_number_int_digits digits_def nat_str_digits)

section \<open>ISO dates\<close>

text \<open>The proleptic Gregorian date of a day counted from 1970-01-01: days are grouped in eras of
  400 years that start on the first of March.\<close>

definition year_of_era :: "int \<Rightarrow> int" where
  "year_of_era doe = (doe - doe div 1460 + doe div 36524 - doe div 146096) div 365"

definition day_of_year :: "int \<Rightarrow> int \<Rightarrow> int" where
  "day_of_year yoe doe = doe - (365 * yoe + yoe div 4 - yoe div 100)"

definition month_day :: "int \<Rightarrow> int \<Rightarrow> int \<times> nat \<times> nat" where
  "month_day y doy =
     (let mp = (5 * doy + 2) div 153; d = doy - (153 * mp + 2) div 5 + 1 in
      if mp < 10 then (y, nat (mp + 3), nat d) else (y + 1, nat (mp - 9), nat d))"

definition era_date :: "int \<Rightarrow> int \<Rightarrow> int \<times> nat \<times> nat" where
  "era_date era doe =
     month_day (year_of_era doe + era * 400) (day_of_year (year_of_era doe) doe)"

definition civil_from_days :: "int \<Rightarrow> int \<times> nat \<times> nat" where
  "civil_from_days days = era_date ((days + 719468) div 146097) ((days + 719468) mod 146097)"

definition pad_nat :: "nat \<Rightarrow> nat \<Rightarrow> string" where
  "pad_nat w n = (let s = nat_str n in replicate (w - length s) (CHR ''0'') @ s)"

definition iso_year :: "int \<Rightarrow> string" where
  "iso_year y = (if 0 \<le> y \<and> y \<le> 9999 then pad_nat 4 (nat y)
     else if y < 0 then ''-'' @ pad_nat 6 (nat (- y)) else ''+'' @ pad_nat 6 (nat y))"

definition iso_day :: "int \<Rightarrow> string" where
  "iso_day days = (case civil_from_days days of (y, m, d) \<Rightarrow>
     iso_year y @ ''-'' @ pad2 m @ ''-'' @ pad2 d)"

text \<open>\<open>new Date(ms).toISOString()\<close>, for a time value in the range of a valid \<open>Date\<close>.\<close>

definition toISOString :: "int \<Rightarrow> string" where
  "toISOString ms =
     (let t = nat (ms mod 86400000) in
      iso_day (ms div 86400000) @ ''T'' @ pad2 (t div 3600000) @ '':'' @
      pad2 (t div 60000 mod 60) @ '':'' @ pad2 (t div 1000 mod 60) @ ''.'' @
      pad_nat 3 (t mod 1000) @ ''Z'')"

lemmas date_defs = toISOString_def iso_day_def civil_from_days_def era_date_def month_day_def
  day_of_year_def year_of_era_def iso_year_def pad_nat_def pad2_nat

lemma toISOString_samples:
  "toISOString 0 = ''1970-01-01T00:00:00.000Z''"
  "toISOString 951825599999 = ''2000-02-29T11:59:59.999Z''"
  "toISOString (-1) = ''1969-12-31T23:59:59.999Z''"
  by (simp_all add: date_defs str_simps)

end
