(* ===== verification/SdkEndpoints.thy ===== *)
theory SdkEndpoints
  imports SdkClient JsStd
begin

text \<open>
  The public methods of the SDK client (sdk/typescript/src/client.ts) and the parameter types they
  take (types.ts). A method is its call of \<^const>\<open>sdk_request\<close>: a path, a verb, a JSON body and,
  where it passes one, the caller's idempotency key. A \<open>Date\<close> is its time value in milliseconds,
  an optional parameter an \<open>option\<close>, and a response the JSON the gateway sent (the code casts it).
\<close>

section \<open>Requests\<close>

type_synonym sdk_call = "cstate \<Rightarrow> (sdk_error + json option) \<times> cstate"

definition post_init :: "(string \<times> json) list \<Rightarrow> req_init" where
  "post_init body = \<lparr> ri_method = Some ''POST'', ri_body = Some (JObj body) \<rparr>"

definition post_bare :: req_init where
  "post_bare = \<lparr> ri_method = Some ''POST'', ri_body = None \<rparr>"

definition delete_init :: req_init where
  "delete_init = \<lparr> ri_method = Some ''DELETE'', ri_body = None \<rparr>"

text \<open>\<open>qs\<close>: the defined parameters, in order, form-encoded.\<close>

definition defined_params :: "(string \<times> string option) list \<Rightarrow> (string \<times> string) list" where
  "defined_params ps = concat (map (\<lambda>(k, v). case v of Some x \<Rightarrow> [(k, x)] | None \<Rightarrow> []) ps)"

definition qs :: "(string \<times> string option) list \<Rightarrow> string" where
  "qs ps = (let s = query_string (defined_params ps) in if s \<noteq> [] then ''?'' @ s else [])"

text \<open>A truthy optional string, as \<open>p ? { k: p } : {}\<close> spreads it.\<close>

definition truthy_member :: "string \<Rightarrow> string option \<Rightarrow> (string \<times> json) list" where
  "truthy_member k x = (case x of Some v \<Rightarrow> if v = [] then [] else [(k, JStr v)] | None \<Rightarrow> [])"

section \<open>Parameter types\<close>

datatype refund_source_type = ACQUIRING_PAYMENT | WALLET_PAYMENT

definition refund_source_name :: "refund_source_type \<Rightarrow> string" where
  "refund_source_name t =
     (case t of ACQUIRING_PAYMENT \<Rightarrow> ''ACQUIRING_PAYMENT'' | WALLET_PAYMENT \<Rightarrow> ''WALLET_PAYMENT'')"

datatype wallet_account_purpose =
  PRIMARY | CAMPAIGN | PROJECT | EVENT | STORE | ESCROW | RESERVE | SETTLEMENT | CUSTOM

definition purpose_name :: "wallet_account_purpose \<Rightarrow> string" where
  "purpose_name p = (case p of PRIMARY \<Rightarrow> ''PRIMARY'' | CAMPAIGN \<Rightarrow> ''CAMPAIGN'' | PROJECT \<Rightarrow> ''PROJECT''
     | EVENT \<Rightarrow> ''EVENT'' | STORE \<Rightarrow> ''STORE'' | ESCROW \<Rightarrow> ''ESCROW'' | RESERVE \<Rightarrow> ''RESERVE''
     | SETTLEMENT \<Rightarrow> ''SETTLEMENT'' | CUSTOM \<Rightarrow> ''CUSTOM'')"

datatype dispute_status = DS_OPEN | DS_UNDER_REVIEW | DS_WON_BY_CONSUMER | DS_WON_BY_MERCHANT | DS_CLOSED

definition dispute_status_name :: "dispute_status \<Rightarrow> string" where
  "dispute_status_name d = (case d of DS_OPEN \<Rightarrow> ''OPEN'' | DS_UNDER_REVIEW \<Rightarrow> ''UNDER_REVIEW''
     | DS_WON_BY_CONSUMER \<Rightarrow> ''WON_BY_CONSUMER'' | DS_WON_BY_MERCHANT \<Rightarrow> ''WON_BY_MERCHANT''
     | DS_CLOSED \<Rightarrow> ''CLOSED'')"

datatype sandbox_simulation = DECLINED | PROVIDER_UNAVAILABLE | TIMEOUT | DELAYED

definition simulation_name :: "sandbox_simulation \<Rightarrow> string" where
  "simulation_name s = (case s of DECLINED \<Rightarrow> ''DECLINED'' | PROVIDER_UNAVAILABLE \<Rightarrow> ''PROVIDER_UNAVAILABLE''
     | TIMEOUT \<Rightarrow> ''TIMEOUT'' | DELAYED \<Rightarrow> ''DELAYED'')"

datatype pay_via = LINK | QR

definition via_name :: "pay_via \<Rightarrow> string" where
  "via_name v = (case v of LINK \<Rightarrow> ''LINK'' | QR \<Rightarrow> ''QR'')"

datatype key_environment = KEY_LIVE | KEY_SANDBOX

definition key_environment_name :: "key_environment \<Rightarrow> string" where
  "key_environment_name e = (case e of KEY_LIVE \<Rightarrow> ''LIVE'' | KEY_SANDBOX \<Rightarrow> ''SANDBOX'')"

record create_refund_params =
  rf_source_type :: refund_source_type
  rf_source_id :: string
  rf_amount_minor :: int
  rf_currency :: string
  rf_reason :: "string option"
  rf_idempotency_key :: "string option"

record open_dispute_params =
  od_transaction_id :: string
  od_consumer_id :: "string option"
  od_amount_minor :: int
  od_currency :: string
  od_reason :: string
  od_evidence_deadline :: "string option"

record create_wallet_account_params =
  wa_walletId :: "string option"
  wa_purpose :: wallet_account_purpose
  wa_referenceType :: "string option"
  wa_referenceId :: "string option"
  wa_label :: "string option"

record create_transfer_params =
  tr_sourceWalletAccountId :: string
  tr_destinationWalletAccountId :: string
  tr_amountMinor :: int
  tr_currency :: string
  tr_idempotencyKey :: string
  tr_description :: "string option"

record create_business_settlement_params =
  bs_sourceAccountId :: string
  bs_beneficiaryBanzaName :: string
  bs_feeDestinationBanzaName :: "string option"
  bs_reason :: "string option"
  bs_referenceType :: "string option"
  bs_referenceId :: "string option"
  bs_idempotencyKey :: string

record create_application_settlement_params =
  as_idempotencyKey :: string
  as_ownerRef :: string
  as_sourceWalletId :: string
  as_beneficiaryWalletId :: string
  as_applicationFeeWalletId :: "string option"

record create_payment_session_params =
  ps_walletAccountId :: "string option"
  ps_purpose :: "string option"
  ps_referenceType :: "string option"
  ps_referenceId :: "string option"
  ps_amountMinor :: "int option"
  ps_currency :: "string option"
  ps_description :: "string option"
  ps_expiresAt :: "int option"
  ps_metadata :: "(string \<times> json) list option"

record create_payment_link_params =
  pl_merchantId :: "string option"
  pl_walletId :: "string option"
  pl_currency :: "string option"
  pl_amountMinor :: "int option"
  pl_description :: "string option"
  pl_expiresAt :: "int option"

record create_test_payer_params =
  tp_label :: "string option"
  tp_initialBalanceMinor :: "int option"

record pay_as_test_payer_params =
  pt_paymentSessionId :: "string option"
  pt_via :: "pay_via option"
  pt_paymentLinkId :: "string option"
  pt_amountMinor :: "int option"
  pt_simulate :: "sandbox_simulation option"
  pt_idempotencyKey :: "string option"

record create_transaction_params =
  tx_idempotencyKey :: string
  tx_amountMinor :: int
  tx_currency :: "string option"
  tx_description :: "string option"
  tx_walletId :: "string option"
  tx_transactionType :: "string option"

record create_dynamic_qr_params =
  qr_ownerId :: string
  qr_amountMinor :: int
  qr_currency :: "string option"
  qr_reference :: "string option"
  qr_expiresAt :: int

section \<open>Financial setup, consumers, QR codes\<close>

definition getFinancialSetup :: "ext \<Rightarrow> client \<Rightarrow> string option \<Rightarrow> sdk_call" where
  "getFinancialSetup X c feeDestination = sdk_request X c (''/financial-setup'' @ qs [(''fee_destination'', feeDestination)]) get_init None"

definition createConsumer :: "ext \<Rightarrow> client \<Rightarrow> string \<Rightarrow> string option \<Rightarrow> sdk_call" where
  "createConsumer X c handle displayName = sdk_request X c ''/consumers''
     (post_init [(''handle'', JStr handle),
       (''display_name'', or_null JStr displayName)]) None"

definition getConsumer :: "ext \<Rightarrow> client \<Rightarrow> string \<Rightarrow> sdk_call" where
  "getConsumer X c ident = sdk_request X c (''/consumers/'' @ ident) get_init None"

definition getConsumerByHandle :: "ext \<Rightarrow> client \<Rightarrow> string \<Rightarrow> sdk_call" where
  "getConsumerByHandle X c handle = sdk_request X c (''/consumers/handle/'' @ handle) get_init None"

definition resolveHandle :: "ext \<Rightarrow> client \<Rightarrow> string \<Rightarrow> sdk_call" where
  "resolveHandle X c handle = getConsumerByHandle X c handle"

definition createStaticQr :: "ext \<Rightarrow> client \<Rightarrow> string \<Rightarrow> sdk_call" where
  "createStaticQr X c ownerId = sdk_request X c ''/qr/static''
     (post_init [(''owner_id'', JStr ownerId),
       (''owner_type'', JStr ''MERCHANT''),
       (''currency'', JStr ''AOA'')]) None"

definition createDynamicQr :: "ext \<Rightarrow> client \<Rightarrow> create_dynamic_qr_params \<Rightarrow> sdk_call" where
  "createDynamicQr X c p = sdk_request X c ''/qr/dynamic''
     (post_init [(''owner_id'', JStr (qr_ownerId p)),
       (''owner_type'', JStr ''MERCHANT''),
       (''amount_minor'', jint (qr_amountMinor p)),
       (''currency'', JStr (or_else (qr_currency p) ''AOA'')),
       (''reference'', or_null JStr (qr_reference p)),
       (''expires_at'', JStr (toISOString (qr_expiresAt p)))]) None"

definition getQrCode :: "ext \<Rightarrow> client \<Rightarrow> string \<Rightarrow> sdk_call" where
  "getQrCode X c ident = sdk_request X c (''/qr/'' @ ident) get_init None"

definition decodeQrPayload :: "ext \<Rightarrow> client \<Rightarrow> string \<Rightarrow> sdk_call" where
  "decodeQrPayload X c payload = sdk_request X c ''/qr/decode''
     (post_init [(''payload'', JStr payload)]) None"

definition markQrUsed :: "ext \<Rightarrow> client \<Rightarrow> string \<Rightarrow> sdk_call" where
  "markQrUsed X c ident = sdk_request X c (''/qr/'' @ ident @ ''/use'') post_bare None"

section \<open>Transactions, wallets, payouts\<close>

definition createTransaction :: "ext \<Rightarrow> client \<Rightarrow> create_transaction_params \<Rightarrow> sdk_call" where
  "createTransaction X c p = sdk_request X c ''/transactions''
     (post_init [(''idempotency_key'', JStr (tx_idempotencyKey p)),
       (''amount_minor'', jint (tx_amountMinor p)),
       (''currency'', JStr (or_else (tx_currency p) ''AOA'')),
       (''description'', or_null JStr (tx_description p)),
       (''wallet_id'', or_null JStr (tx_walletId p)),
       (''transaction_type'', JStr (or_else (tx_transactionType p) ''payment''))]) None"

definition listTransactions :: "ext \<Rightarrow> client \<Rightarrow> int option \<Rightarrow> string option \<Rightarrow> string option \<Rightarrow> sdk_call" where
  "listTransactions X c limit cursor status = sdk_request X c (''/transactions'' @ qs [(''limit'', map_option int_str limit), (''cursor'', cursor), (''status'', status)]) get_init None"

definition getTransaction :: "ext \<Rightarrow> client \<Rightarrow> string \<Rightarrow> sdk_call" where
  "getTransaction X c ident = sdk_request X c (''/transactions/'' @ ident) get_init None"

definition getWallet :: "ext \<Rightarrow> client \<Rightarrow> string \<Rightarrow> sdk_call" where
  "getWallet X c ident = sdk_request X c (''/wallets/'' @ ident) get_init None"

definition getWalletBalance :: "ext \<Rightarrow> client \<Rightarrow> string \<Rightarrow> sdk_call" where
  "getWalletBalance X c ident = sdk_request X c (''/wallets/'' @ ident @ ''/balance'') get_init None"

definition listPayouts :: "ext \<Rightarrow> client \<Rightarrow> int option \<Rightarrow> string option \<Rightarrow> sdk_call" where
  "listPayouts X c limit cursor = sdk_request X c (''/payouts'' @ qs [(''limit'', map_option int_str limit), (''cursor'', cursor)]) get_init None"

definition createPayout :: "ext \<Rightarrow> client \<Rightarrow> string \<Rightarrow> int \<Rightarrow> string option \<Rightarrow> sdk_call" where
  "createPayout X c walletId amountMinor currency = sdk_request X c ''/payouts''
     (post_init [(''wallet_id'', JStr walletId),
       (''amount_minor'', jint amountMinor),
       (''currency'', JStr (or_else currency ''AOA''))]) None"

section \<open>Settlements, wallet accounts, transfers\<close>

definition retired_message :: string where
  "retired_message = ''createApplicationSettlement settled wallet to wallet, which the operator no longer accepts '' @
     [CHR 0xE2, CHR 0x80, CHR 0x94] @
     '' use createBusinessApplicationSettlement({ sourceAccountId, beneficiaryBanzaName, idempotencyKey })''"

definition createApplicationSettlement ::
  "ext \<Rightarrow> client \<Rightarrow> create_application_settlement_params \<Rightarrow> sdk_call" where
  "createApplicationSettlement X c p s = (Inl (ApiError 410 ''METHOD_RETIRED'' retired_message), s)"

definition getApplicationSettlement :: "ext \<Rightarrow> client \<Rightarrow> string \<Rightarrow> sdk_call" where
  "getApplicationSettlement X c ident = sdk_request X c (''/application-settlements/'' @ ident) get_init None"

definition createBusinessApplicationSettlement :: "ext \<Rightarrow> client \<Rightarrow> create_business_settlement_params \<Rightarrow> sdk_call" where
  "createBusinessApplicationSettlement X c p = sdk_request X c ''/application-settlements''
     (post_init [(''idempotency_key'', JStr (bs_idempotencyKey p)),
       (''source_account_id'', JStr (bs_sourceAccountId p)),
       (''beneficiary_banza_name'', JStr (bs_beneficiaryBanzaName p)),
       (''fee_destination_banza_name'', or_null JStr (bs_feeDestinationBanzaName p)),
       (''reason'', JStr (or_else (bs_reason p) ''CAMPAIGN_CLOSE'')),
       (''reference_type'', or_null JStr (bs_referenceType p)),
       (''reference_id'', or_null JStr (bs_referenceId p))]) None"

definition createWalletAccount :: "ext \<Rightarrow> client \<Rightarrow> create_wallet_account_params \<Rightarrow> sdk_call" where
  "createWalletAccount X c p = sdk_request X c ''/wallet-accounts''
     (post_init (truthy_member ''wallet_id'' (wa_walletId p) @
       [(''purpose'', JStr (purpose_name (wa_purpose p))),
       (''reference_type'', or_null JStr (wa_referenceType p)),
       (''reference_id'', or_null JStr (wa_referenceId p)),
       (''label'', or_null JStr (wa_label p))])) None"

definition listWalletAccounts :: "ext \<Rightarrow> client \<Rightarrow> string option \<Rightarrow> sdk_call" where
  "listWalletAccounts X c walletId = sdk_request X c (''/wallet-accounts'' @
     (case walletId of Some w \<Rightarrow> if w = [] then [] else qs [(''wallet_id'', Some w)] | None \<Rightarrow> [])) get_init None"

definition getWalletAccount :: "ext \<Rightarrow> client \<Rightarrow> string \<Rightarrow> sdk_call" where
  "getWalletAccount X c ident = sdk_request X c (''/wallet-accounts/'' @ ident) get_init None"

definition createTransfer :: "ext \<Rightarrow> client \<Rightarrow> create_transfer_params \<Rightarrow> sdk_call" where
  "createTransfer X c p = sdk_request X c ''/wallet-account-transfers''
     (post_init ([(''source_wallet_account_id'', JStr (tr_sourceWalletAccountId p)),
       (''destination_wallet_account_id'', JStr (tr_destinationWalletAccountId p)),
       (''amount_minor'', jint (tr_amountMinor p)),
       (''currency'', JStr (tr_currency p)),
       (''idempotency_key'', JStr (tr_idempotencyKey p))] @
       truthy_member ''description'' (tr_description p))) None"

section \<open>Webhook endpoints, sandbox data\<close>

definition createWebhookEndpoint :: "ext \<Rightarrow> client \<Rightarrow> string \<Rightarrow> string list \<Rightarrow> sdk_call" where
  "createWebhookEndpoint X c url events = sdk_request X c ''/webhooks/endpoints''
     (post_init [(''url'', JStr url),
       (''events'', jstrs events)]) None"

definition listWebhookEndpoints :: "ext \<Rightarrow> client \<Rightarrow> sdk_call" where
  "listWebhookEndpoints X c = sdk_request X c ''/webhooks/endpoints'' get_init None"

definition getWebhookEndpoint :: "ext \<Rightarrow> client \<Rightarrow> string \<Rightarrow> sdk_call" where
  "getWebhookEndpoint X c ident = sdk_request X c (''/webhooks/endpoints/'' @ ident) get_init None"

definition deactivateWebhookEndpoint :: "ext \<Rightarrow> client \<Rightarrow> string \<Rightarrow> sdk_call" where
  "deactivateWebhookEndpoint X c ident = sdk_request X c (''/webhooks/endpoints/'' @ ident) delete_init None"

definition rotateWebhookEndpointSecret :: "ext \<Rightarrow> client \<Rightarrow> string \<Rightarrow> sdk_call" where
  "rotateWebhookEndpointSecret X c ident = sdk_request X c (''/webhooks/endpoints/'' @ ident @ ''/rotate-secret'') post_bare None"

definition endpointHealth :: "ext \<Rightarrow> client \<Rightarrow> string \<Rightarrow> sdk_call" where
  "endpointHealth X c ident = sdk_request X c (''/webhooks/endpoints/'' @ ident @ ''/health'') get_init None"

definition listWebhookEvents :: "ext \<Rightarrow> client \<Rightarrow> int option \<Rightarrow> sdk_call" where
  "listWebhookEvents X c limit = sdk_request X c (''/webhooks/events'' @
     (case limit of Some n \<Rightarrow> if n = 0 then [] else qs [(''limit'', Some (int_str n))] | None \<Rightarrow> [])) get_init None"

definition listWebhookDeliveries :: "ext \<Rightarrow> client \<Rightarrow> string \<Rightarrow> sdk_call" where
  "listWebhookDeliveries X c eventId = sdk_request X c (''/webhooks/events/'' @ eventId @ ''/deliveries'') get_init None"

definition replayWebhookDelivery :: "ext \<Rightarrow> client \<Rightarrow> string \<Rightarrow> sdk_call" where
  "replayWebhookDelivery X c deliveryId = sdk_request X c (''/webhooks/deliveries/'' @ deliveryId @ ''/replay'') post_bare None"

definition sendWebhookTestEvent :: "ext \<Rightarrow> client \<Rightarrow> string \<Rightarrow> sdk_call" where
  "sendWebhookTestEvent X c endpointId = sdk_request X c (''/webhooks/endpoints/'' @ endpointId @ ''/test'') post_bare None"

definition registerWebhookEndpoint :: "ext \<Rightarrow> client \<Rightarrow> string \<Rightarrow> string list \<Rightarrow> sdk_call" where
  "registerWebhookEndpoint X c url events = createWebhookEndpoint X c url events"

definition deleteWebhookEndpoint :: "ext \<Rightarrow> client \<Rightarrow> string \<Rightarrow> sdk_call" where
  "deleteWebhookEndpoint X c ident = deactivateWebhookEndpoint X c ident"

definition listSandboxScenarios :: "ext \<Rightarrow> client \<Rightarrow> sdk_call" where
  "listSandboxScenarios X c = sdk_request X c ''/sandbox/scenarios'' get_init None"

definition createTestPayer :: "ext \<Rightarrow> client \<Rightarrow> create_test_payer_params \<Rightarrow> sdk_call" where
  "createTestPayer X c p = sdk_request X c ''/sandbox/test-payers''
     (post_init (opt_member ''label'' JStr (tp_label p) @
       opt_member ''initial_balance_minor'' jint (tp_initialBalanceMinor p))) None"

definition listTestPayers :: "ext \<Rightarrow> client \<Rightarrow> bool \<Rightarrow> sdk_call" where
  "listTestPayers X c includeRetired = sdk_request X c (''/sandbox/test-payers'' @
     (if includeRetired then qs [(''include_retired'', Some ''true'')] else [])) get_init None"

definition getTestPayer :: "ext \<Rightarrow> client \<Rightarrow> string \<Rightarrow> sdk_call" where
  "getTestPayer X c ident = sdk_request X c (''/sandbox/test-payers/'' @ ident) get_init None"

definition fundTestPayer :: "ext \<Rightarrow> client \<Rightarrow> string \<Rightarrow> int \<Rightarrow> string \<Rightarrow> sdk_call" where
  "fundTestPayer X c ident amountMinor idempotencyKey = sdk_request X c (''/sandbox/test-payers/'' @ ident @ ''/fund'')
     (post_init [(''amount_minor'', jint amountMinor)]) (Some idempotencyKey)"

definition payAsTestPayer :: "ext \<Rightarrow> client \<Rightarrow> string \<Rightarrow> pay_as_test_payer_params \<Rightarrow> sdk_call" where
  "payAsTestPayer X c ident p = sdk_request X c (''/sandbox/test-payers/'' @ ident @ ''/payments'')
     (post_init (truthy_member ''payment_session_id'' (pt_paymentSessionId p) @
       truthy_member ''payment_link_id'' (pt_paymentLinkId p) @
       opt_member ''via'' (\<lambda>v. JStr (via_name v)) (pt_via p) @
       opt_member ''amount_minor'' jint (pt_amountMinor p) @
       opt_member ''simulate'' (\<lambda>v. JStr (simulation_name v)) (pt_simulate p))) (pt_idempotencyKey p)"

definition retireTestPayer :: "ext \<Rightarrow> client \<Rightarrow> string \<Rightarrow> sdk_call" where
  "retireTestPayer X c ident = sdk_request X c (''/sandbox/test-payers/'' @ ident) delete_init None"

section \<open>Payment sessions, merchants, payment links\<close>

definition createPaymentSession :: "ext \<Rightarrow> client \<Rightarrow> create_payment_session_params \<Rightarrow> sdk_call" where
  "createPaymentSession X c p = sdk_request X c ''/payment-sessions''
     (post_init (opt_member ''wallet_account_id'' JStr (ps_walletAccountId p) @
       [(''purpose'', or_null JStr (ps_purpose p)),
       (''reference_type'', or_null JStr (ps_referenceType p)),
       (''reference_id'', or_null JStr (ps_referenceId p)),
       (''amount_minor'', or_null jint (ps_amountMinor p)),
       (''currency'', JStr (or_else (ps_currency p) ''AOA'')),
       (''description'', or_null JStr (ps_description p)),
       (''expires_at'', or_null (\<lambda>t. JStr (toISOString t)) (ps_expiresAt p)),
       (''metadata'', or_null JObj (ps_metadata p))])) None"

definition getPaymentSession :: "ext \<Rightarrow> client \<Rightarrow> string \<Rightarrow> sdk_call" where
  "getPaymentSession X c ident = sdk_request X c (''/payment-sessions/'' @ ident) get_init None"

definition listPaymentSessions :: "ext \<Rightarrow> client \<Rightarrow> string option \<Rightarrow> int option \<Rightarrow> sdk_call" where
  "listPaymentSessions X c status limit = sdk_request X c (''/payment-sessions'' @ qs [(''status'', status), (''limit'', map_option int_str limit)]) get_init None"

definition getMerchant :: "ext \<Rightarrow> client \<Rightarrow> string \<Rightarrow> sdk_call" where
  "getMerchant X c ident = sdk_request X c (''/merchants/'' @ ident) get_init None"

definition listApiKeys :: "ext \<Rightarrow> client \<Rightarrow> string \<Rightarrow> sdk_call" where
  "listApiKeys X c merchantId = sdk_request X c (''/merchants/'' @ merchantId @ ''/api-keys'') get_init None"

definition createApiKey :: "ext \<Rightarrow> client \<Rightarrow> string \<Rightarrow> string option \<Rightarrow> key_environment option \<Rightarrow> sdk_call" where
  "createApiKey X c merchantId label environment = sdk_request X c (''/merchants/'' @ merchantId @ ''/api-keys'')
     (post_init [(''label'', or_null JStr label),
       (''environment'', JStr (key_environment_name (or_else environment KEY_LIVE)))]) None"

definition revokeApiKey :: "ext \<Rightarrow> client \<Rightarrow> string \<Rightarrow> string \<Rightarrow> sdk_call" where
  "revokeApiKey X c merchantId keyId = sdk_request X c (''/merchants/'' @ merchantId @ ''/api-keys/'' @ keyId) delete_init None"

definition createPaymentLink :: "ext \<Rightarrow> client \<Rightarrow> create_payment_link_params \<Rightarrow> sdk_call" where
  "createPaymentLink X c p = sdk_request X c ''/payment-links''
     (post_init (truthy_member ''merchant_id'' (pl_merchantId p) @
       truthy_member ''wallet_id'' (pl_walletId p) @
       [(''currency'', JStr (or_else (pl_currency p) ''AOA'')),
       (''amount_minor'', or_null jint (pl_amountMinor p)),
       (''description'', or_null JStr (pl_description p)),
       (''expires_at'', or_null (\<lambda>t. JStr (toISOString t)) (pl_expiresAt p))])) None"

definition listPaymentLinks :: "ext \<Rightarrow> client \<Rightarrow> string option \<Rightarrow> int option \<Rightarrow> string option \<Rightarrow> sdk_call" where
  "listPaymentLinks X c merchantId limit cursor = sdk_request X c (''/payment-links'' @ qs [(''merchant_id'', merchantId), (''limit'', map_option int_str limit), (''cursor'', cursor)]) get_init None"

definition getPaymentLink :: "ext \<Rightarrow> client \<Rightarrow> string \<Rightarrow> sdk_call" where
  "getPaymentLink X c ident = sdk_request X c (''/payment-links/'' @ ident) get_init None"

definition cancelPaymentLink :: "ext \<Rightarrow> client \<Rightarrow> string \<Rightarrow> sdk_call" where
  "cancelPaymentLink X c ident = sdk_request X c (''/payment-links/'' @ ident) delete_init None"

definition getPublicPaymentLink :: "ext \<Rightarrow> client \<Rightarrow> string \<Rightarrow> sdk_call" where
  "getPublicPaymentLink X c slug = sdk_request X c (''/public/pay/'' @ slug) get_init None"

definition getPaymentLinkStatus :: "ext \<Rightarrow> client \<Rightarrow> string \<Rightarrow> sdk_call" where
  "getPaymentLinkStatus X c slug = sdk_request X c (''/public/pay/'' @ slug @ ''/status'') get_init None"

section \<open>Refunds and disputes\<close>

definition refund_key_message :: string where
  "refund_key_message = ''createRefund requires an explicit idempotency_key (a stable, server-generated key scoped to the refund intent). The SDK does not generate one for financial writes.''"

text \<open>A refund without a usable key is refused before anything is sent.\<close>

definition createRefund :: "ext \<Rightarrow> client \<Rightarrow> create_refund_params \<Rightarrow> sdk_call" where
  "createRefund X c p s =
     (case rf_idempotency_key p of
        None \<Rightarrow> (Inl (ConfigError refund_key_message), s)
      | Some key \<Rightarrow>
          if blank key then (Inl (ConfigError refund_key_message), s)
          else sdk_request X c ''/refunds''
            (post_init [(''source_type'', JStr (refund_source_name (rf_source_type p))),
               (''source_id'', JStr (rf_source_id p)),
               (''amount_minor'', jint (rf_amount_minor p)),
               (''currency'', JStr (rf_currency p)),
               (''reason'', or_null JStr (rf_reason p)),
               (''idempotency_key'', JStr key)]) None s)"

definition getRefund :: "ext \<Rightarrow> client \<Rightarrow> string \<Rightarrow> sdk_call" where
  "getRefund X c ident = sdk_request X c (''/refunds/'' @ ident) get_init None"

definition listRefunds :: "ext \<Rightarrow> client \<Rightarrow> string option \<Rightarrow> int option \<Rightarrow> sdk_call" where
  "listRefunds X c sourceId limit = sdk_request X c (''/refunds'' @ qs [(''source_id'', sourceId), (''limit'', map_option int_str limit)]) get_init None"

definition openDispute :: "ext \<Rightarrow> client \<Rightarrow> open_dispute_params \<Rightarrow> sdk_call" where
  "openDispute X c p = sdk_request X c ''/disputes''
     (post_init [(''transaction_id'', JStr (od_transaction_id p)),
       (''amount_minor'', jint (od_amount_minor p)),
       (''currency'', JStr (od_currency p)),
       (''reason'', JStr (od_reason p)),
       (''evidence_deadline'', or_null JStr (od_evidence_deadline p))]) None"

definition getDispute :: "ext \<Rightarrow> client \<Rightarrow> string \<Rightarrow> sdk_call" where
  "getDispute X c ident = sdk_request X c (''/disputes/'' @ ident) get_init None"

definition listDisputes :: "ext \<Rightarrow> client \<Rightarrow> dispute_status option \<Rightarrow> int option \<Rightarrow> sdk_call" where
  "listDisputes X c status limit = sdk_request X c (''/disputes'' @ qs [(''status'', map_option dispute_status_name status), (''limit'', map_option int_str limit)]) get_init None"

section \<open>Display interfaces and the payment QR\<close>

datatype interface_type = PAYMENT_LINK | DYNAMIC_QR | STATIC_QR | DEEP_LINK

record payment_session_interface =
  psi_type :: interface_type
  psi_value :: string
  psi_format :: "string option"
  psi_qr_url :: "string option"
  psi_expires_at :: "string option"
  psi_status :: "string option"

record payment_session =
  pss_session_id :: string
  pss_wallet_account_id :: string
  pss_currency :: string
  pss_amount_minor :: "int option"
  pss_purpose :: "string option"
  pss_reference_type :: "string option"
  pss_reference_id :: "string option"
  pss_status :: string
  pss_expires_at :: "string option"
  pss_created_at :: string
  pss_interfaces :: "payment_session_interface list"

definition paymentSessionInterface ::
  "payment_session \<Rightarrow> interface_type \<Rightarrow> payment_session_interface option" where
  "paymentSessionInterface session t = List.find (\<lambda>i. psi_type i = t) (pss_interfaces session)"

datatype payment_link_status = PL_ACTIVE | PL_USED | PL_CANCELLED | PL_EXPIRED

record payment_link =
  lk_id :: string
  lk_slug :: string
  lk_merchant_id :: "string option"
  lk_wallet_id :: string
  lk_amount_minor :: "int option"
  lk_currency :: string
  lk_description :: "string option"
  lk_status :: payment_link_status
  lk_expires_at :: "string option"
  lk_paid_at :: "string option"
  lk_created_at :: string
  lk_updated_at :: string

record payment_qr =
  pq_qrValue :: string
  pq_paymentUrl :: string
  pq_slug :: string
  pq_paymentLinkId :: string
  pq_amountMinor :: "int option"
  pq_currency :: string
  pq_description :: "string option"
  pq_recipientName :: "string option"
  pq_recipientHandle :: "string option"
  pq_environment :: banzami_env
  pq_isSandbox :: bool
  pq_status :: payment_link_status

definition paymentLinkQr ::
  "client \<Rightarrow> payment_link \<Rightarrow> string option \<Rightarrow> string option \<Rightarrow> payment_qr" where
  "paymentLinkQr c link recipientName recipientHandle =
     (let paymentUrl = c_payBase c @ ''/pay/'' @ lk_slug link in
      \<lparr> pq_qrValue = paymentUrl, pq_paymentUrl = paymentUrl, pq_slug = lk_slug link,
        pq_paymentLinkId = lk_id link, pq_amountMinor = lk_amount_minor link,
        pq_currency = lk_currency link, pq_description = lk_description link,
        pq_recipientName = recipientName, pq_recipientHandle = recipientHandle,
        pq_environment = c_environment c, pq_isSandbox = isSandbox c, pq_status = lk_status link \<rparr>)"

section \<open>Lemmas\<close>

lemma method_of_simps [simp]:
  "method_of get_init = ''GET''" "method_of (post_init b) = ''POST''"
  "method_of post_bare = ''POST''" "method_of delete_init = ''DELETE''"
  by (code_simp | simp add: method_of_def post_init_def; code_simp)+

lemma members_wf [simp]:
  "m \<in> set (truthy_member k x) \<Longrightarrow> json_wf (snd m)"
  by (auto simp: truthy_member_def split: option.splits if_splits)

text \<open>What a request with a JSON body carries: the gateway reads the body's members back.\<close>

definition body_member :: "http_request \<Rightarrow> string \<Rightarrow> json option" where
  "body_member r k = (case rq_body r of Some b \<Rightarrow>
      (case json_parse b of Some v \<Rightarrow> jget k v | None \<Rightarrow> None) | None \<Rightarrow> None)"

lemma body_member_post:
  "json_wf (JObj b) \<Longrightarrow> body_member (api_request c path (post_init b) key t) k = map_of (rev b) k"
  by (simp add: body_member_def api_request_def post_init_def json_roundtrip jget_def del: json_wf.simps stringify.simps)

lemma post_key: "idempotency_key X (post_init b) (Some k) s = (Some k, s)"
  by (simp add: idempotency_key_def)

lemma post_has_key: "fst (idempotency_key X (post_init b) ck s) \<noteq> None"
  by (cases ck) (simp_all add: idempotency_key_def random_uuid_def)

lemma body_member_token:
  "k \<noteq> ''api_key'' \<Longrightarrow> body_member (token_request c) k = None"
  by (simp add: body_member_def token_request_def json_roundtrip jget_def del: stringify.simps)

section \<open>Properties of the methods\<close>

text \<open>
  The query string \<open>qs\<close> builds reads back, by the rules of \<open>URLSearchParams\<close>, as exactly the
  defined parameters with their values, whatever characters those hold; it is empty exactly when
  no parameter is defined.
\<close>

theorem qs_roundtrip:
  "parse_query (drop 1 (qs ps)) = defined_params ps \<and> (qs ps = [] \<longleftrightarrow> defined_params ps = []) \<and>
   (\<forall>k v. (k, v) \<in> set (parse_query (drop 1 (qs ps))) \<longleftrightarrow> (k, Some v) \<in> set ps)"
proof -
  have "parse_query (drop 1 (qs ps)) = defined_params ps"
    by (cases "defined_params ps = []") (simp_all add: qs_def Let_def query_roundtrip, simp add: parse_query_def)
  moreover have "(k, v) \<in> set (defined_params ps) \<longleftrightarrow> (k, Some v) \<in> set ps" for k v
    by (force simp: defined_params_def split: option.splits)
  ultimately show ?thesis by (simp add: qs_def Let_def)
qed

text \<open>
  C23. A refund never moves money under a key the caller did not choose: without a non-blank
  idempotency key nothing is sent and nothing changes; with one, every request sent is the token
  exchange or a POST to \<open>/v1/refunds\<close> whose body names that key, the source and the amount.
\<close>

theorem refund_under_callers_key:
  assumes "0 \<le> c_maxRetries c"
  shows "((\<forall>k. rf_idempotency_key p = Some k \<longrightarrow> blank k) \<longrightarrow>
      createRefund X c p s = (Inl (ConfigError refund_key_message), s)) \<and>
    (\<forall>k. rf_idempotency_key p = Some k \<and> \<not> blank k \<longrightarrow>
      (\<forall>r \<in> set (new_requests s (snd (createRefund X c p s))). r = token_request c \<or>
        rq_method r = ''POST'' \<and> rq_url r = c_base c @ ''/v1/refunds'' \<and>
        body_member r ''idempotency_key'' = Some (JStr k) \<and>
        body_member r ''source_id'' = Some (JStr (rf_source_id p)) \<and>
        body_member r ''amount_minor'' = Some (jint (rf_amount_minor p))))"
proof (intro conjI allI impI ballI)
  assume "\<forall>k. rf_idempotency_key p = Some k \<longrightarrow> blank k"
  then show "createRefund X c p s = (Inl (ConfigError refund_key_message), s)"
    by (cases "rf_idempotency_key p") (simp_all add: createRefund_def)
next
  fix k r
  assume k: "rf_idempotency_key p = Some k \<and> \<not> blank k"
    and r: "r \<in> set (new_requests s (snd (createRefund X c p s)))"
  let ?b = "[(''source_type'', JStr (refund_source_name (rf_source_type p))),
    (''source_id'', JStr (rf_source_id p)), (''amount_minor'', jint (rf_amount_minor p)),
    (''currency'', JStr (rf_currency p)), (''reason'', or_null JStr (rf_reason p)),
    (''idempotency_key'', JStr k)]"
  from r k have "r \<in> set (new_requests s (snd (sdk_request X c ''/refunds'' (post_init ?b) None s)))"
    by (simp add: createRefund_def)
  from call_request_in [OF assms this] consider "r = token_request c"
    | key t where "r = api_request c ''/refunds'' (post_init ?b) key t" by blast
  then show "r = token_request c \<or> rq_method r = ''POST'' \<and> rq_url r = c_base c @ ''/v1/refunds'' \<and>
      body_member r ''idempotency_key'' = Some (JStr k) \<and>
      body_member r ''source_id'' = Some (JStr (rf_source_id p)) \<and>
      body_member r ''amount_minor'' = Some (jint (rf_amount_minor p))"
  proof cases
    case 2
    have "json_wf (JObj ?b)" by simp
    from body_member_post [OF this, of c "''/refunds''" key t] 2 show ?thesis
      by (simp add: api_request_def post_init_def)
  qed simp
qed

definition demo_refund :: create_refund_params where
  "demo_refund = \<lparr> rf_source_type = WALLET_PAYMENT, rf_source_id = ''p1'', rf_amount_minor = 500,
     rf_currency = ''AOA'', rf_reason = None, rf_idempotency_key = Some '' '' \<rparr>"

theorem refund_under_callers_key_witness:
  "createRefund demo_ext demo_client demo_refund init_state = (Inl (ConfigError refund_key_message), init_state)"
  using refund_under_callers_key [of demo_client demo_refund demo_ext init_state]
  by (simp add: demo_client_def demo_refund_def blank_iff js_ws_def)

text \<open>
  A method that takes the caller's idempotency key sends it: every request of \<open>fundTestPayer\<close>
  and of a keyed \<open>payAsTestPayer\<close>, in every attempt, is the token exchange or carries exactly the
  caller's key in its \<open>Idempotency-Key\<close> header.
\<close>

theorem caller_key_sent:
  assumes "0 \<le> c_maxRetries c"
  shows "(\<forall>r \<in> set (new_requests s (snd (fundTestPayer X c payer amount k s))).
      r = token_request c \<or> map_of (rq_headers r) ''Idempotency-Key'' = Some k) \<and>
    (\<forall>r \<in> set (new_requests s (snd (payAsTestPayer X c payer p s))).
      r = token_request c \<or> pt_idempotencyKey p = None \<or>
      map_of (rq_headers r) ''Idempotency-Key'' = pt_idempotencyKey p)"
proof (intro conjI ballI)
  fix r assume "r \<in> set (new_requests s (snd (fundTestPayer X c payer amount k s)))"
  from call_request_in [OF assms this [unfolded fundTestPayer_def]]
  show "r = token_request c \<or> map_of (rq_headers r) ''Idempotency-Key'' = Some k"
    by (auto simp: idempotency_key_def api_request_def)
next
  fix r assume "r \<in> set (new_requests s (snd (payAsTestPayer X c payer p s)))"
  from call_request_in [OF assms this [unfolded payAsTestPayer_def]]
  show "r = token_request c \<or> pt_idempotencyKey p = None \<or>
      map_of (rq_headers r) ''Idempotency-Key'' = pt_idempotencyKey p"
    by (cases "pt_idempotencyKey p") (auto simp: idempotency_key_def api_request_def)
qed

theorem caller_key_sent_witness:
  "list_all (\<lambda>r. r = token_request demo_client \<or> map_of (rq_headers r) ''Idempotency-Key'' = Some ''k'')
     (new_requests init_state (snd (fundTestPayer demo_ext demo_client ''tp'' 5 ''k'' init_state)))"
  unfolding list_all_iff
  using caller_key_sent [of demo_client init_state demo_ext "''tp''" 5 "''k''"]
  by (simp add: demo_client_def)

text \<open>
  A payment link created without a merchant and a wallet names no payee: no request of the
  call, in any attempt, has a \<open>merchant_id\<close> or \<open>wallet_id\<close> member in the body it sends, so a
  project key's link is never refused for naming one.
\<close>

theorem payment_link_names_no_payee:
  assumes "0 \<le> c_maxRetries c" and "pl_merchantId p \<in> {None, Some []}" and "pl_walletId p \<in> {None, Some []}"
  shows "\<forall>r \<in> set (new_requests s (snd (createPaymentLink X c p s))).
    body_member r ''merchant_id'' = None \<and> body_member r ''wallet_id'' = None"
proof
  fix r assume r: "r \<in> set (new_requests s (snd (createPaymentLink X c p s)))"
  let ?b = "truthy_member ''merchant_id'' (pl_merchantId p) @ truthy_member ''wallet_id'' (pl_walletId p) @
    [(''currency'', JStr (or_else (pl_currency p) ''AOA'')), (''amount_minor'', or_null jint (pl_amountMinor p)),
     (''description'', or_null JStr (pl_description p)),
     (''expires_at'', or_null (\<lambda>t. JStr (toISOString t)) (pl_expiresAt p))]"
  have wf: "json_wf (JObj ?b)" by (auto dest: members_wf)
  have none: "map_of (rev ?b) ''merchant_id'' = None \<and> map_of (rev ?b) ''wallet_id'' = None"
    using assms(2,3) by (auto simp: truthy_member_def)
  from call_request_in [OF assms(1) r [unfolded createPaymentLink_def]] consider "r = token_request c"
    | key t where "r = api_request c ''/payment-links'' (post_init ?b) key t" by blast
  then show "body_member r ''merchant_id'' = None \<and> body_member r ''wallet_id'' = None"
  proof cases
    case 2
    then show ?thesis by (simp only: body_member_post [OF wf] none simp_thms)
  qed (simp add: body_member_token)
qed

definition demo_link :: create_payment_link_params where
  "demo_link = \<lparr> pl_merchantId = None, pl_walletId = None, pl_currency = None, pl_amountMinor = Some 5,
     pl_description = None, pl_expiresAt = None \<rparr>"

theorem payment_link_names_no_payee_witness:
  "list_all (\<lambda>r. body_member r ''merchant_id'' = None \<and> body_member r ''wallet_id'' = None)
     (new_requests init_state (snd (createPaymentLink demo_ext demo_client demo_link init_state)))"
  unfolding list_all_iff
  using payment_link_names_no_payee [of demo_client demo_link init_state demo_ext]
  by (simp add: demo_client_def demo_link_def)

end
