(* ===== verification/Signed.thy ===== *)
theory Signed
  imports JsStd
begin

text \<open>
  The contract of a webhook verifier that authenticates a body with a keyed hash, as a locale:
  both verifiers of the repository (the SDK's and the Node plugin's) refuse a blank secret and
  accept only when a tag in the header equals the hash of a message made of the header and the
  body. The lemmas say what acceptance proves when the hash does not collide on the secret.
\<close>

definition collision_free :: "(string \<Rightarrow> string \<Rightarrow> string) \<Rightarrow> string \<Rightarrow> bool" where
  "collision_free hmac secret \<longleftrightarrow> (\<forall>m m'. hmac secret m = hmac secret m' \<longrightarrow> m = m')"

locale webhook_verifier =
  fixes hmac :: "string \<Rightarrow> string \<Rightarrow> string"
    and accepts :: "string \<Rightarrow> string \<Rightarrow> string \<Rightarrow> bool"
    and tag :: "string \<Rightarrow> string"
    and message :: "string \<Rightarrow> string \<Rightarrow> string"
  assumes blank_refused: "blank secret \<Longrightarrow> \<not> accepts secret header body"
    and tag_matches: "accepts secret header body \<Longrightarrow> tag header = hmac secret (message header body)"
    and message_body: "message header body = message header body' \<Longrightarrow> body = body'"
begin

text \<open>A header authenticates at most one body.\<close>

lemma one_body:
  assumes "collision_free hmac secret" and "accepts secret header body" and "accepts secret header body'"
  shows "body = body'"
proof -
  have "hmac secret (message header body) = hmac secret (message header body')"
    using tag_matches [OF assms(2)] tag_matches [OF assms(3)] by simp
  with assms(1) show ?thesis by (auto simp: collision_free_def intro: message_body)
qed

text \<open>An accepted tag that was issued for a message was issued for this message.\<close>

lemma issued_for:
  assumes "collision_free hmac secret" and "accepts secret header body" and "tag header = hmac secret m"
  shows "m = message header body"
  using assms tag_matches [OF assms(2)] by (simp add: collision_free_def)

end

end
