(* ===== verification/SdkWebhooks.thy ===== *)
theory SdkWebhooks
  imports Signed SdkConfig
begin

text \<open>
  Webhook verification of the SDK (sdk/typescript/src/webhooks.ts): the \<open>banza-signature\<close> header
  parser, \<open>verifySignature\<close>, \<open>constructEvent\<close>, the test helpers and the client wrapper.

  HMAC-SHA256 is node:crypto, so it is a parameter \<open>hmac key message\<close> giving the hexadecimal
  digest. A raw body is a string or a \<open>Uint8Array\<close>; bytes are a \<^typ>\<open>string\<close>. The clock is an
  argument in milliseconds. What throws returns an error on the left.
\<close>

section \<open>Header and errors\<close>

definition signature_header :: string where "signature_header = ''banza-signature''"

definition tolerance_seconds :: int where "tolerance_seconds = 300"

datatype webhook_error =
    InvalidTimestamp string
  | MalformedHeader
  | NoSecret
  | MissingHeader
  | TooOld int int
  | Mismatch
  | SecretRequired
  | BadJson

record parsed_header =
  ph_timestamp :: int
  ph_v1 :: string

text \<open>One comma-separated part of the header: its key and value, when it has an equals sign.\<close>

definition header_part :: "string \<Rightarrow> (string \<times> string) option" where
  "header_part part = map_option (\<lambda>eq. (js_trim (take eq part), js_trim (drop (eq + 1) part)))
     (index_of (CHR ''='') part)"

text \<open>The loop over the parts: the last \<open>t\<close> and the last \<open>v1\<close> are kept, and a bad \<open>t\<close> ends it.\<close>

fun parse_parts ::
  "string list \<Rightarrow> int option \<Rightarrow> string option \<Rightarrow> webhook_error + (int option \<times> string option)" where
  "parse_parts [] timestamp v1 = Inr (timestamp, v1)"
| "parse_parts (part # parts) timestamp v1 =
     (case header_part part of
        None \<Rightarrow> parse_parts parts timestamp v1
      | Some (key, val) \<Rightarrow>
          (if key = ''t'' then
             (case js_number_int val of
                Some n \<Rightarrow> if n \<le> 0 then Inl (InvalidTimestamp val) else parse_parts parts (Some n) v1
              | None \<Rightarrow> Inl (InvalidTimestamp val))
           else if key = ''v1'' then parse_parts parts timestamp (Some val)
           else parse_parts parts timestamp v1))"

definition parseSignatureHeader :: "string \<Rightarrow> webhook_error + parsed_header" where
  "parseSignatureHeader header =
     (case parse_parts (split_on (CHR '','') header) None None of
        Inl e \<Rightarrow> Inl e
      | Inr (Some t, Some v) \<Rightarrow>
          if v = [] then Inl MalformedHeader else Inr \<lparr> ph_timestamp = t, ph_v1 = v \<rparr>
      | Inr _ \<Rightarrow> Inl MalformedHeader)"

section \<open>Verification\<close>

datatype raw_body = Text string | Bytes string

definition utf8_bytes :: "string \<Rightarrow> string" where
  "utf8_bytes s = concat (map utf8 s)"

definition body_bytes :: "raw_body \<Rightarrow> string" where
  "body_bytes b = (case b of Text s \<Rightarrow> utf8_bytes s | Bytes bs \<Rightarrow> bs)"

definition body_text :: "raw_body \<Rightarrow> string" where
  "body_text b = (case b of Text s \<Rightarrow> s | Bytes bs \<Rightarrow> utf8_decode bs)"

record verify_options =
  vo_currentTimestamp :: "int option"
  vo_tolerance :: "int option"

definition no_options :: verify_options where
  "no_options = \<lparr> vo_currentTimestamp = None, vo_tolerance = None \<rparr>"

definition signed_message :: "int \<Rightarrow> string \<Rightarrow> string" where
  "signed_message timestamp body = int_str timestamp @ ''.'' @ body"

definition verifySignature ::
  "(string \<Rightarrow> string \<Rightarrow> string) \<Rightarrow> int \<Rightarrow> raw_body \<Rightarrow> string \<Rightarrow> string \<Rightarrow> verify_options \<Rightarrow> webhook_error option"
  where
  "verifySignature hmac now_ms rawBody header secret options =
     (if blank secret then Some NoSecret
      else if header = [] then Some MissingHeader
      else case parseSignatureHeader header of
          Inl e \<Rightarrow> Some e
        | Inr parsed \<Rightarrow>
            (let now = or_else (vo_currentTimestamp options) (now_ms div 1000);
                 tolerance = or_else (vo_tolerance options) tolerance_seconds;
                 age = \<bar>now - ph_timestamp parsed\<bar>;
                 expected = hmac secret (signed_message (ph_timestamp parsed) (body_bytes rawBody))
             in if tolerance > 0 \<and> age > tolerance then Some (TooOld age tolerance)
                else if length (utf8_bytes expected) \<noteq> length (utf8_bytes (ph_v1 parsed)) \<or>
                        utf8_bytes expected \<noteq> utf8_bytes (ph_v1 parsed) then Some Mismatch
                else None))"

definition constructEvent ::
  "(string \<Rightarrow> string \<Rightarrow> string) \<Rightarrow> int \<Rightarrow> raw_body \<Rightarrow> string \<Rightarrow> string \<Rightarrow> verify_options \<Rightarrow> webhook_error + json"
  where
  "constructEvent hmac now_ms rawBody header secret options =
     (case verifySignature hmac now_ms rawBody header secret options of
        Some e \<Rightarrow> Inl e
      | None \<Rightarrow> (case json_parse (body_text rawBody) of Some v \<Rightarrow> Inr v | None \<Rightarrow> Inl BadJson))"

section \<open>Test helpers\<close>

definition generateTestSignature ::
  "(string \<Rightarrow> string \<Rightarrow> string) \<Rightarrow> int \<Rightarrow> raw_body \<Rightarrow> string \<Rightarrow> int option \<Rightarrow> string" where
  "generateTestSignature hmac now_ms rawBody secret timestamp =
     (let ts = or_else timestamp (now_ms div 1000) in
      ''t='' @ int_str ts @ '',v1='' @ hmac secret (signed_message ts (body_bytes rawBody)))"

definition generateTestEvent ::
  "int \<Rightarrow> string \<Rightarrow> (string \<times> json) list \<Rightarrow> string option \<Rightarrow> json" where
  "generateTestEvent now_ms type data ident =
     JObj [(''id'', JStr (or_else ident (''evt_test_'' @ int_str now_ms))), (''type'', JStr type),
           (''data'', JObj data), (''created_at'', JStr (toISOString now_ms))]"

section \<open>The client wrapper\<close>

record webhooks_client =
  wc_webhookSecret :: "string option"

definition newWebhooksClient :: "string option \<Rightarrow> webhooks_client" where
  "newWebhooksClient webhookSecret = \<lparr> wc_webhookSecret = webhookSecret \<rparr>"

definition either_secret :: "string option \<Rightarrow> string option \<Rightarrow> string option" where
  "either_secret secret configured = (case secret of Some s \<Rightarrow> Some s | None \<Rightarrow> configured)"

definition client_constructEvent ::
  "(string \<Rightarrow> string \<Rightarrow> string) \<Rightarrow> int \<Rightarrow> webhooks_client \<Rightarrow> raw_body \<Rightarrow> string \<Rightarrow> string option \<Rightarrow>
   webhook_error + json" where
  "client_constructEvent hmac now_ms w rawBody header secret =
     (case either_secret secret (wc_webhookSecret w) of
        None \<Rightarrow> Inl SecretRequired
      | Some s \<Rightarrow> if s = [] then Inl SecretRequired
          else constructEvent hmac now_ms rawBody header s no_options)"

definition client_generateTestSignature ::
  "(string \<Rightarrow> string \<Rightarrow> string) \<Rightarrow> int \<Rightarrow> webhooks_client \<Rightarrow> raw_body \<Rightarrow> string option \<Rightarrow> int option \<Rightarrow> string" where
  "client_generateTestSignature hmac now_ms w rawBody secret timestamp =
     generateTestSignature hmac now_ms rawBody (or_else (either_secret secret (wc_webhookSecret w)) []) timestamp"

definition client_generateTestEvent ::
  "int \<Rightarrow> string \<Rightarrow> (string \<times> json) list \<Rightarrow> string option \<Rightarrow> json" where
  "client_generateTestEvent = generateTestEvent"

section \<open>Lemmas\<close>

lemma utf8_bytes_inject [simp]: "utf8_bytes s = utf8_bytes t \<longleftrightarrow> s = t"
  by (metis utf8_bytes_def utf8_roundtrip)

lemma body_text_Text: "body_bytes (Text s) = utf8_bytes s" "body_text (Text s) = s"
  by (simp_all add: body_bytes_def body_text_def)

lemma body_bytes_text: "utf8_bytes (body_text (Text s)) = body_bytes (Text s)"
  by (simp add: body_text_Text)

text \<open>The timestamp in the signed message has no point, so the message determines both parts.\<close>

lemma int_str_no_point: "CHR ''.'' \<notin> set (int_str n)"
  by (auto simp: int_str_def nat_str_notin is_digit_def)

lemma signed_message_inject: "signed_message t b = signed_message t' b' \<longleftrightarrow> t = t' \<and> b = b'"
  using append_sep_inject [OF int_str_no_point [of t] int_str_no_point [of t']]
  by (simp add: signed_message_def)

text \<open>Acceptance, as one equation.\<close>

lemma verifySignature_None_iff:
  "verifySignature hmac n body header secret opts = None \<longleftrightarrow>
     \<not> blank secret \<and> header \<noteq> [] \<and>
     (\<exists>p. parseSignatureHeader header = Inr p \<and>
        (or_else (vo_tolerance opts) tolerance_seconds > 0 \<longrightarrow>
           \<bar>or_else (vo_currentTimestamp opts) (n div 1000) - ph_timestamp p\<bar>
             \<le> or_else (vo_tolerance opts) tolerance_seconds) \<and>
        ph_v1 p = hmac secret (signed_message (ph_timestamp p) (body_bytes body)))"
  by (auto simp: verifySignature_def Let_def split: sum.splits)

text \<open>The fields of a parsed header are read off the header alone.\<close>

definition header_tag :: "string \<Rightarrow> string" where
  "header_tag h = (case parseSignatureHeader h of Inr p \<Rightarrow> ph_v1 p | Inl _ \<Rightarrow> [])"

definition header_message :: "string \<Rightarrow> string \<Rightarrow> string" where
  "header_message h body = (case parseSignatureHeader h of
     Inr p \<Rightarrow> signed_message (ph_timestamp p) body | Inl _ \<Rightarrow> signed_message 0 body)"

interpretation sdk_hook: webhook_verifier hmac
  "\<lambda>secret header body. verifySignature hmac n (Bytes body) header secret opts = None"
  header_tag header_message for hmac n opts
  by unfold_locales
     (auto simp: verifySignature_None_iff header_tag_def header_message_def body_bytes_def
       signed_message_inject split: sum.splits)

text \<open>What node's \<open>digest('hex')\<close> returns: lower-case hexadecimal digits.\<close>

definition hex_digest :: "string \<Rightarrow> bool" where
  "hex_digest d \<longleftrightarrow> d \<noteq> [] \<and> list_all (\<lambda>c. is_digit c \<or> c \<in> set ''abcdef'') d"

lemma hex_digest_chars:
  "hex_digest d \<Longrightarrow> CHR '','' \<notin> set d \<and> list_all (\<lambda>c. \<not> js_ws c) d"
  by (auto simp: hex_digest_def list_all_iff js_ws_def is_digit_def)

lemma int_str_chars: "0 \<le> n \<Longrightarrow> CHR '','' \<notin> set (int_str n) \<and> js_trim (int_str n) = int_str n"
  by (simp add: int_str_def nat_str_notin is_digit_def js_trim_no_ws nat_str_no_ws)

lemma parse_generated:
  assumes "0 < ts" and "hex_digest d"
  shows "parseSignatureHeader (''t='' @ int_str ts @ '',v1='' @ d) = Inr \<lparr> ph_timestamp = ts, ph_v1 = d \<rparr>"
proof -
  note d = hex_digest_chars [OF assms(2)] and t = int_str_chars [of ts]
  have tk: "js_trim ''t'' = ''t''" and vk: "js_trim ''v1'' = ''v1''"
    by (simp_all add: js_trim_no_ws js_ws_def)
  have td: "js_trim d = d" using d by (simp add: js_trim_no_ws)
  have "split_on (CHR '','') ((''t='' @ int_str ts) @ CHR '','' # ''v1='' @ d) = [''t='' @ int_str ts, ''v1='' @ d]"
    by (subst split_on_append) (use d t assms in simp_all)
  then have s: "split_on (CHR '','') (''t='' @ int_str ts @ '',v1='' @ d) = [''t='' @ int_str ts, ''v1='' @ d]"
    by simp
  have p: "header_part (''t='' @ int_str ts) = Some (''t'', int_str ts)" "header_part (''v1='' @ d) = Some (''v1'', d)"
    using t assms(1) by (simp_all add: header_part_def tk vk td)
  show ?thesis
    unfolding parseSignatureHeader_def s using assms p by (simp add: hex_digest_def)
qed

section \<open>Properties\<close>

text \<open>
  C29. An event is constructed only from an authentic, fresh delivery: the secret is not blank,
  the header parses to a timestamp and a tag, the tag is the keyed hash of that timestamp and the
  exact bytes received, the timestamp lies within the tolerance when one is set, and the event is
  the JSON value of the body.
\<close>

theorem event_authentic:
  "constructEvent hmac n body header secret opts = Inr v \<longleftrightarrow>
     \<not> blank secret \<and> header \<noteq> [] \<and>
     (\<exists>p. parseSignatureHeader header = Inr p \<and>
        ph_v1 p = hmac secret (signed_message (ph_timestamp p) (body_bytes body)) \<and>
        (or_else (vo_tolerance opts) 300 \<le> 0 \<or>
         \<bar>or_else (vo_currentTimestamp opts) (n div 1000) - ph_timestamp p\<bar> \<le> or_else (vo_tolerance opts) 300)) \<and>
     json_parse (body_text body) = Some v"
proof -
  have "constructEvent hmac n body header secret opts = Inr v \<longleftrightarrow>
      verifySignature hmac n body header secret opts = None \<and> json_parse (body_text body) = Some v"
    by (auto simp: constructEvent_def split: option.splits)
  then show ?thesis
    by (auto simp: verifySignature_None_iff tolerance_seconds_def not_less)
qed

text \<open>
  An accepted tag cannot be moved to another delivery: with a hash that does not collide
  under the secret, two accepted deliveries whose headers carry the same tag have the same
  timestamp and the same bytes, so neither the body nor the timestamp of a signed delivery can be
  changed.
\<close>

theorem tag_not_transferable:
  assumes "collision_free hmac secret"
    and "verifySignature hmac n (Bytes b) h secret opts = None"
    and "verifySignature hmac n' (Bytes b') h' secret opts' = None"
    and "header_tag h = header_tag h'"
  shows "b = b' \<and> map_sum id ph_timestamp (parseSignatureHeader h) = map_sum id ph_timestamp (parseSignatureHeader h')"
proof -
  have "hmac secret (header_message h b) = header_tag h"
    using sdk_hook.tag_matches [OF assms(2)] by simp
  moreover have "header_message h' b' = header_message h b"
    using sdk_hook.issued_for [OF assms(1,3), of "header_message h b"] assms(4) calculation by simp
  ultimately show ?thesis
    using assms(2,3) by (auto simp: verifySignature_None_iff header_message_def signed_message_inject)
qed

theorem tag_not_transferable_witness:
  "(''{}'' :: string) = ''{}'' \<and> map_sum id ph_timestamp (parseSignatureHeader ''t=5,v1=b5.{}'') = Inr 5"
proof -
  have p: "parseSignatureHeader ''t=5,v1=b5.{}'' = Inr \<lparr> ph_timestamp = 5, ph_v1 = ''b5.{}'' \<rparr>" by code_simp
  have v: "verifySignature (\<lambda>k m. CHR ''b'' # m) 5000 (Bytes ''{}'') ''t=5,v1=b5.{}'' ''s'' no_options = None"
    by (simp add: verifySignature_None_iff p no_options_def tolerance_seconds_def body_bytes_def
        signed_message_def blank_iff str_simps)
  show ?thesis
    using tag_not_transferable [OF _ v v refl] p by (simp add: collision_free_def)
qed

text \<open>
  A delivery signed with the test helper is accepted back: for a positive timestamp within
  the tolerance, a non-blank secret and a hash that yields hexadecimal digests, the event built
  from the generated header is exactly the JSON value that was signed.
\<close>

theorem generated_signature_roundtrip:
  assumes "0 < ts" and "\<bar>now - ts\<bar> \<le> tolerance" and "\<not> blank secret"
    and "\<And>m. hex_digest (hmac secret m)" and "json_wf v"
  shows "constructEvent hmac n (Text (stringify v))
      (generateTestSignature hmac n (Text (stringify v)) secret (Some ts)) secret
      \<lparr> vo_currentTimestamp = Some now, vo_tolerance = Some tolerance \<rparr> = Inr v"
proof -
  let ?o = "\<lparr> vo_currentTimestamp = Some now, vo_tolerance = Some tolerance \<rparr>"
  let ?b = "Text (stringify v)"
  have "verifySignature hmac n ?b (generateTestSignature hmac n ?b secret (Some ts)) secret ?o = None"
    unfolding verifySignature_None_iff
    using assms parse_generated [OF assms(1,4)]
    by (simp add: generateTestSignature_def Let_def body_text_Text del: stringify.simps)
  then show ?thesis
    by (simp add: constructEvent_def body_text_Text json_roundtrip [OF assms(5)] del: stringify.simps)
qed

theorem generated_signature_roundtrip_witness:
  "constructEvent (\<lambda>k m. ''ab'') 0 (Text (stringify (JStr ''x'')))
     (generateTestSignature (\<lambda>k m. ''ab'') 0 (Text (stringify (JStr ''x''))) ''s'' (Some 100)) ''s''
     \<lparr> vo_currentTimestamp = Some 160, vo_tolerance = Some 300 \<rparr> = Inr (JStr ''x'')"
  by (rule generated_signature_roundtrip) (simp_all add: hex_digest_def blank_iff js_ws_def)

end
