(* ===== verification/Money.thy ===== *)
theory Money
  imports JsStd
begin

text \<open>
  The Money Engine on every TypeScript surface: the display of integer minor units (the SDK's
  \<open>formatMinor\<close>, pay's, the website's and the admin's \<open>formatMoneyDisplay\<close> / \<open>formatMoney\<close>,
  checkout-web's \<open>formatAmount\<close>), the website's parser of typed amounts, its live input formatter
  and its even split. An amount is an \<^typ>\<open>int\<close>. \<open>Intl.NumberFormat\<close>, which the SDK uses outside
  kwanza, is a parameter.

  The display contract is the locale \<open>kwanza_display\<close>, which every surface's formatter satisfies:
  the lemmas proved in it (a display determines the amount, the surfaces agree) hold of them all.
\<close>

section \<open>Grouping thousands\<close>

text \<open>The loop of \<open>groupThousands\<close>: a space before every digit that starts a group of three, the
  first digit excepted. The number of digits left is \<open>s.length - i\<close>.\<close>

fun group_loop :: "bool \<Rightarrow> string \<Rightarrow> string" where
  "group_loop start [] = []"
| "group_loop start (c # s) =
     (if \<not> start \<and> length (c # s) mod 3 = 0 then [CHR 0x20] else []) @ c # group_loop False s"

definition abs_str :: "int \<Rightarrow> string" where
  "abs_str n = nat_str (nat \<bar>n\<bar>)"

definition pay_groupThousands :: "int \<Rightarrow> string" where
  "pay_groupThousands n = group_loop True (abs_str n)"

definition web_groupThousands :: "int \<Rightarrow> string" where
  "web_groupThousands n = (if n < 0 then ''-'' else []) @ group_loop True (abs_str n)"

text \<open>checkout-web groups by the expression \<open>\B(?=(\d{3})+(?!\d))\<close>: at a position that is not a word
  boundary and is followed by a positive multiple of three digits and then no digit, a space.\<close>

definition word_char :: "char \<Rightarrow> bool" where
  "word_char c \<longleftrightarrow> is_alnum c \<or> c = CHR ''_''"

definition triples_ahead :: "string \<Rightarrow> bool" where
  "triples_ahead s \<longleftrightarrow> (let k = length (takeWhile is_digit s) in k > 0 \<and> k mod 3 = 0)"

fun regex_group :: "char option \<Rightarrow> string \<Rightarrow> string" where
  "regex_group prev [] = []"
| "regex_group prev (c # s) =
     (let inside = (case prev of Some p \<Rightarrow> word_char p = word_char c | None \<Rightarrow> \<not> word_char c) in
      (if inside \<and> triples_ahead (c # s) then [CHR 0x20] else []) @ c # regex_group (Some c) s)"

lemma digit_word: "is_digit c \<Longrightarrow> word_char c"
  by (simp add: word_char_def is_alnum_def)

lemma regex_group_loop:
  "list_all is_digit s \<Longrightarrow> (\<forall>p. prev = Some p \<longrightarrow> is_digit p) \<Longrightarrow>
    regex_group prev s = group_loop (prev = None) s"
proof (induction s arbitrary: prev)
  case (Cons c s)
  have "takeWhile is_digit (c # s) = c # s"
    using Cons.prems by (simp add: takeWhile_eq_all_conv list_all_iff)
  then have t: "triples_ahead (c # s) \<longleftrightarrow> length (c # s) mod 3 = 0"
    by (simp only: triples_ahead_def Let_def) simp
  have "regex_group (Some c) s = group_loop False s"
    using Cons.IH [of "Some c"] Cons.prems by simp
  then show ?case
    using Cons.prems t by (cases prev) (auto simp: digit_word Let_def simp del: mod_Suc)
qed simp

section \<open>Displays\<close>

definition cents :: "int \<Rightarrow> string" where
  "cents mag = (if mag mod 100 \<noteq> 0 then '','' @ pad2 (nat (mag mod 100)) else [])"

text \<open>sdk/typescript/src/money.ts. The loop over \<open>major\<close> is written out in the function.\<close>

definition formatMinor :: "(string \<Rightarrow> int \<Rightarrow> string) \<Rightarrow> int \<Rightarrow> string \<Rightarrow> string" where
  "formatMinor intl amountMinor currency =
     (if currency = ''AOA'' then
        (let mag = \<bar>amountMinor\<bar>;
             grouped = group_loop True (nat_str (nat (mag div 100))) @ cents mag
         in (if amountMinor < 0 then ''-'' else []) @ grouped @ '' Kz'')
      else intl currency amountMinor)"

definition addMinor :: "int \<Rightarrow> int \<Rightarrow> int" where "addMinor a b = a + b"

definition subtractMinor :: "int \<Rightarrow> int \<Rightarrow> int" where "subtractMinor a b = a - b"

text \<open>A currency argument: the empty string falls back to AOA, and the code is upper-cased.\<close>

definition currency_code :: "string \<Rightarrow> string" where
  "currency_code c = js_upper (if c = [] then ''AOA'' else c)"

definition currency_word :: "string \<Rightarrow> string" where
  "currency_word ccy = (if ccy = ''AOA'' then ''Kz'' else ccy)"

text \<open>apps/pay/lib/money.ts.\<close>

definition pay_formatMoneyDisplay :: "int \<Rightarrow> string \<Rightarrow> string" where
  "pay_formatMoneyDisplay amountMinor currency =
     (let ccy = currency_code currency; mag = \<bar>amountMinor\<bar>; major = mag div 100;
          out = pay_groupThousands major @ cents mag;
          out = (if amountMinor < 0 then ''-'' @ out else out)
      in out @ '' '' @ currency_word ccy)"

text \<open>apps/website/lib/money.ts.\<close>

definition formatKwanza :: "int \<Rightarrow> string" where
  "formatKwanza kwanzas = web_groupThousands kwanzas @ '' Kz''"

definition web_formatMoneyDisplay :: "int option \<Rightarrow> string \<Rightarrow> string" where
  "web_formatMoneyDisplay amountMinor currency =
     (case amountMinor of
        None \<Rightarrow> ''n/d''
      | Some n \<Rightarrow>
          (let ccy = currency_code currency; mag = \<bar>n\<bar>; major = mag div 100;
               out = web_groupThousands major @ cents mag;
               out = (if n < 0 then ''-'' @ out else out)
           in out @ '' '' @ currency_word ccy))"

text \<open>apps/admin/lib/format.ts. The em dash stands for a missing amount.\<close>

definition em_dash :: string where
  "em_dash = [CHR 0xE2, CHR 0x80, CHR 0x94]"

definition formatAmountMinor :: "int option \<Rightarrow> string" where
  "formatAmountMinor amountMinor =
     (case amountMinor of
        None \<Rightarrow> em_dash
      | Some n \<Rightarrow>
          (let mag = \<bar>n\<bar>; major = mag div 100; out = web_groupThousands major @ cents mag
           in if n < 0 then ''-'' @ out else out))"

definition formatMoney :: "int option \<Rightarrow> string option \<Rightarrow> string" where
  "formatMoney amountMinor currency =
     (case amountMinor of
        None \<Rightarrow> em_dash
      | Some n \<Rightarrow> formatAmountMinor (Some n) @ '' '' @
          currency_word (currency_code (case currency of Some c \<Rightarrow> c | None \<Rightarrow> [])))"

definition formatKz :: "int option \<Rightarrow> string" where
  "formatKz amountMinor = formatMoney amountMinor (Some ''AOA'')"

text \<open>sdk/checkout-web/src/api.ts.\<close>

definition checkout_formatAmount :: "int \<Rightarrow> string \<Rightarrow> string" where
  "checkout_formatAmount amountMinor currency =
     (let mag = \<bar>amountMinor\<bar>;
          major = regex_group None (nat_str (nat (mag div 100)));
          unit = (if js_upper currency = ''AOA'' then ''Kz'' else js_upper currency)
      in (if amountMinor < 0 then ''-'' else []) @ major @ cents mag @ '' '' @ unit)"

section \<open>The display contract\<close>

definition kwanza_text :: "int \<Rightarrow> string" where
  "kwanza_text n = (if n < 0 then ''-'' else []) @ group_loop True (nat_str (nat (\<bar>n\<bar> div 100))) @
     cents \<bar>n\<bar> @ '' Kz''"

lemma group_loop_strip: "list_all P s \<Longrightarrow> \<not> P (CHR 0x20) \<Longrightarrow> filter P (group_loop b s) = s"
  by (induction s arbitrary: b) auto

lemma group_loop_set: "set (group_loop b s) \<subseteq> insert (CHR 0x20) (set s)"
  by (induction s arbitrary: b) auto

lemma nat_str_no_space: "CHR 0x20 \<notin> set (nat_str n)"
  by (simp add: nat_str_notin is_digit_def)

section \<open>Typed amounts (apps/website/lib/money.ts)\<close>

text \<open>\<open>replace(/Kz/gi, '')\<close>: every occurrence, left to right.\<close>

fun remove_kz :: "string \<Rightarrow> string" where
  "remove_kz [] = []"
| "remove_kz [c] = [c]"
| "remove_kz (c # d # s) =
     (if lower_char c = CHR ''k'' \<and> lower_char d = CHR ''z'' then remove_kz s else c # remove_kz (d # s))"

datatype money_error =
    IndiqueValor | Negativo | UseVirgula | ApenasUmaVirgula | ValorInvalido
  | CentimosEmFalta | CentimosInvalidos | Maximo2Casas

definition pad_end2 :: "string \<Rightarrow> string" where
  "pad_end2 s = s @ replicate (2 - length s) (CHR ''0'')"

definition parseMoneyInput :: "string \<Rightarrow> money_error + int" where
  "parseMoneyInput input =
     (let s = filter (\<lambda>c. \<not> js_ws c) (remove_kz (js_trim input)) in
      if s = [] then Inl IndiqueValor
      else if prefix ''-'' s then Inl Negativo
      else if CHR ''.'' \<in> set s then Inl UseVirgula
      else
        (let parts = split_on (CHR '','') s in
         if length parts > 2 then Inl ApenasUmaVirgula
         else
           (let intPart = (if parts ! 0 = [] then ''0'' else parts ! 0);
                fracPart = (if length parts = 2 then parts ! 1 else [])
            in if \<not> digits intPart then Inl ValorInvalido
               else if length parts = 2 \<and> fracPart = [] then Inl CentimosEmFalta
               else if fracPart \<noteq> [] \<and> \<not> digits fracPart then Inl CentimosInvalidos
               else if length fracPart > 2 then Inl Maximo2Casas
               else Inr (int (dec_val intPart) * 100 + int (dec_val (pad_end2 fracPart))))))"

definition tryParseMoneyInput :: "string \<Rightarrow> int option" where
  "tryParseMoneyInput input = (case parseMoneyInput input of Inr n \<Rightarrow> Some n | Inl _ \<Rightarrow> None)"

definition parseKwanzaInput :: "string \<Rightarrow> int" where
  "parseKwanzaInput raw =
     (let ds = filter is_digit (hd (split_on (CHR '','') raw)) in
      if ds = [] then 0 else int (dec_val ds))"

definition formatMoneyInput :: "string \<Rightarrow> string" where
  "formatMoneyInput raw =
     (let cleaned = filter (\<lambda>c. is_digit c \<or> c = CHR '','') raw in
      case index_of (CHR '','') cleaned of
        None \<Rightarrow> if cleaned = [] then [] else web_groupThousands (int (dec_val cleaned))
      | Some ci \<Rightarrow>
          (let intPart = filter (\<lambda>c. c \<noteq> CHR '','') (take ci cleaned);
               fracPart = filter (\<lambda>c. c \<noteq> CHR '','') (drop (ci + 1) cleaned);
               fracPart = (if length fracPart > 2 then take 2 fracPart else fracPart);
               intGrouped = (if intPart = [] then ''0'' else web_groupThousands (int (dec_val intPart)))
           in intGrouped @ '','' @ fracPart))"

definition splitEvenlyMinor :: "int \<Rightarrow> int \<Rightarrow> int list option" where
  "splitEvenlyMinor totalMinor people =
     (if people \<le> 0 then None
      else
        (let base = trunc_div totalMinor people; remainder = js_rem totalMinor people in
         Some (map (\<lambda>i. base + (if int i < remainder then 1 else 0)) [0..<nat people])))"

section \<open>Parsing a display back\<close>

text \<open>A text of digits, one optional comma with two digits, spaces and the word \<open>Kz\<close>.\<close>

lemma remove_kz_plain: "list_all (\<lambda>c. lower_char c \<noteq> CHR ''k'') s \<Longrightarrow> remove_kz (s @ t) = s @ remove_kz t"
proof (induction s)
  case C: (Cons c s)
  show ?case
  proof (cases "s @ t")
    case Nil
    then show ?thesis by simp
  next
    case (Cons d u)
    then have "remove_kz ((c # s) @ t) = c # remove_kz (s @ t)" using C.prems by simp
    then show ?thesis using C.IH C.prems by simp
  qed
qed simp

lemma digit_not_k: "is_digit c \<or> c = CHR '','' \<or> c = CHR 0x20 \<Longrightarrow> lower_char c \<noteq> CHR ''k''"
  by (auto simp: lower_char_def is_ascii_upper_def is_digit_def)

lemma cents_chars: "c \<in> set (cents k) \<Longrightarrow> is_digit c \<or> c = CHR '',''"
proof -
  have "nat (k mod 100) < 100" by (simp add: nat_less_iff)
  then show "c \<in> set (cents k) \<Longrightarrow> is_digit c \<or> c = CHR '',''"
    by (auto simp: cents_def pad2_nat split: if_splits)
qed

lemma kwanza_body_chars:
  "c \<in> set (group_loop True (nat_str m) @ cents k) \<Longrightarrow> is_digit c \<or> c = CHR '','' \<or> c = CHR 0x20"
  using group_loop_set [of True "nat_str m"] nat_str_digits [of m]
  by (auto simp: list_all_iff dest: cents_chars)

lemma dec_val_pad2: "n < 100 \<Longrightarrow> dec_val (pad2 n) = n"
  by (simp add: pad2_nat dec_val_def)

lemma js_trim_id: "s \<noteq> [] \<Longrightarrow> \<not> js_ws (hd s) \<Longrightarrow> \<not> js_ws (last s) \<Longrightarrow> js_trim s = s"
proof -
  assume a: "s \<noteq> []" "\<not> js_ws (hd s)" "\<not> js_ws (last s)"
  have "dropWhile js_ws t = t" if "t \<noteq> []" "\<not> js_ws (hd t)" for t
    using that by (cases t) simp_all
  with a show ?thesis by (simp add: js_trim_def hd_rev)
qed

lemma group_loop_hd: "s \<noteq> [] \<Longrightarrow> hd (group_loop True s) = hd s" "group_loop b s = [] \<longleftrightarrow> s = []"
  by (cases s; simp)+

lemma kwanza_stripped:
  assumes "0 \<le> n"
  shows "filter (\<lambda>c. \<not> js_ws c) (remove_kz (js_trim (kwanza_text n))) = nat_str (nat (n div 100)) @ cents n"
proof -
  let ?m = "nat (n div 100)" and ?body = "group_loop True (nat_str (nat (n div 100))) @ cents n"
  have k: "kwanza_text n = ?body @ '' Kz''" using assms by (simp add: kwanza_text_def)
  have "is_digit (hd ?body)" by (simp add: group_loop_hd hd_nat_str_digit)
  then have t: "js_trim (kwanza_text n) = ?body @ '' Kz''"
    unfolding k by (intro js_trim_id) (auto simp: group_loop_hd digit_not_ws, auto simp: js_ws_def)
  have "list_all (\<lambda>c. lower_char c \<noteq> CHR ''k'') ?body"
    using kwanza_body_chars by (auto simp: list_all_iff intro!: digit_not_k)
  then have "remove_kz (?body @ '' Kz'') = ?body @ remove_kz '' Kz''" by (rule remove_kz_plain)
  moreover have "remove_kz '' Kz'' = '' ''" by code_simp
  moreover have "filter (\<lambda>c. \<not> js_ws c) (group_loop True (nat_str ?m)) = nat_str ?m"
    by (rule group_loop_strip) (simp_all add: nat_str_no_ws, simp add: js_ws_def)
  moreover have "filter (\<lambda>c. \<not> js_ws c) (cents n) = cents n"
    using cents_chars by (auto simp: filter_id_conv js_ws_def is_digit_def dest!: cents_chars)
  ultimately show ?thesis by (simp add: t js_ws_def)
qed

lemma digits_nat_str [simp]: "digits (nat_str n)"
  by (simp add: digits_def nat_str_digits)

lemma parse_digits_cents:
  assumes "filter (\<lambda>c. \<not> js_ws c) (remove_kz (js_trim input)) = nat_str m @ cents k" and "0 \<le> k"
  shows "parseMoneyInput input = Inr (int m * 100 + k mod 100)"
proof -
  have nd: "CHR '','' \<notin> set (nat_str m)" "CHR ''.'' \<notin> set (nat_str m)" "\<not> prefix ''-'' (nat_str m @ u)" for u
    using hd_nat_str_digit [of m]
    by (simp_all add: nat_str_notin is_digit_def) (cases "nat_str m"; auto simp: is_digit_def)
  show ?thesis
  proof (cases "k mod 100 = 0")
    case True
    have z: "dec_val (pad_end2 []) = 0" by code_simp
    show ?thesis
      using nd nd(3) [of "[]"] True z by (simp add: parseMoneyInput_def assms(1) cents_def Let_def)
  next
    case False
    let ?f = "nat (k mod 100)"
    have f: "?f < 100" by (simp add: nat_less_iff)
    have p: "pad2 ?f = [digit_char (?f div 10), digit_char (?f mod 10)]" using f by (rule pad2_nat)
    have d: "is_digit (digit_char (?f div 10))" "is_digit (digit_char (?f mod 10))" using f by simp_all
    have s: "split_on (CHR '','') (nat_str m @ CHR '','' # pad2 ?f) = [nat_str m, pad2 ?f]"
      by (subst split_on_append) (use nd d p in \<open>auto simp: is_digit_def\<close>)
    have "\<not> is_digit (CHR ''.'')" by (simp add: is_digit_def)
    then have dot: "CHR ''.'' \<notin> set (pad2 ?f)" unfolding p using d by auto
    have "digits (pad2 ?f)" "length (pad2 ?f) = 2" "pad2 ?f \<noteq> []" "pad_end2 (pad2 ?f) = pad2 ?f"
      using p d by (simp_all add: digits_def pad_end2_def)
    moreover have "int (dec_val (pad2 ?f)) = k mod 100" using dec_val_pad2 [OF f] by simp
    ultimately show ?thesis
      using False nd dot s nd(3) [of "CHR '','' # pad2 ?f"]
      by (simp add: parseMoneyInput_def assms(1) cents_def Let_def)
  qed
qed

lemma parse_kwanza_text: "0 \<le> n \<Longrightarrow> parseMoneyInput (kwanza_text n) = Inr n"
  using parse_digits_cents [OF kwanza_stripped [of n]] by (simp add: pos_imp_zdiv_nonneg_iff)

text \<open>The contract: a formatter of kwanza amounts displays the canonical text.\<close>

lemma kwanza_text_negative: "n < 0 \<Longrightarrow> kwanza_text n = CHR ''-'' # kwanza_text (- n)"
  by (simp add: kwanza_text_def)

lemma kwanza_text_hd: "0 \<le> n \<Longrightarrow> hd (kwanza_text n) \<noteq> CHR ''-''"
  using hd_nat_str_digit [of "nat (n div 100)"]
  by (auto simp: kwanza_text_def group_loop_hd is_digit_def)

lemma kwanza_text_inject: "kwanza_text n = kwanza_text m \<longleftrightarrow> n = m"
proof
  assume e: "kwanza_text n = kwanza_text m"
  consider "0 \<le> n" "0 \<le> m" | "n < 0" "m < 0" | "0 \<le> n" "m < 0" | "n < 0" "0 \<le> m" by linarith
  then show "n = m"
  proof cases
    case 1
    then have "(Inr n :: money_error + int) = Inr m"
      using parse_kwanza_text [of n] parse_kwanza_text [of m] by (simp only: e)
    then show ?thesis by simp
  next
    case 2
    then have e': "kwanza_text (- n) = kwanza_text (- m)" using e by (simp add: kwanza_text_negative)
    have "parseMoneyInput (kwanza_text (- n)) = Inr (- n)" "parseMoneyInput (kwanza_text (- m)) = Inr (- m)"
      using 2 by (auto intro!: parse_kwanza_text)
    then have "(Inr (- n) :: money_error + int) = Inr (- m)" by (simp only: e')
    then show ?thesis by simp
  next
    case 3
    then show ?thesis using e kwanza_text_hd [of n] by (metis kwanza_text_negative list.sel(1))
  next
    case 4
    then show ?thesis using e kwanza_text_hd [of m] by (metis kwanza_text_negative list.sel(1))
  qed
qed simp

locale kwanza_display =
  fixes display :: "int \<Rightarrow> string"
  assumes displays: "display n = kwanza_text n"
begin

lemma display_inject: "display n = display m \<longleftrightarrow> n = m"
  by (simp add: displays kwanza_text_inject)

lemma display_parse: "0 \<le> n \<Longrightarrow> parseMoneyInput (display n) = Inr n"
  by (simp add: displays parse_kwanza_text)

end

lemma aoa_code [simp]: "currency_code ''AOA'' = ''AOA''" "js_upper ''AOA'' = ''AOA''"
  "currency_word ''AOA'' = ''Kz''"
  by code_simp+

lemma groupThousands_nonneg:
  "0 \<le> k \<Longrightarrow> pay_groupThousands k = group_loop True (nat_str (nat k))"
  "0 \<le> k \<Longrightarrow> web_groupThousands k = group_loop True (nat_str (nat k))"
  by (simp_all add: pay_groupThousands_def web_groupThousands_def abs_str_def)

interpretation sdk_money: kwanza_display "\<lambda>n. formatMinor intl n ''AOA''" for intl
  by unfold_locales (simp add: formatMinor_def kwanza_text_def Let_def)

interpretation pay_money: kwanza_display "\<lambda>n. pay_formatMoneyDisplay n ''AOA''"
  by unfold_locales (simp add: pay_formatMoneyDisplay_def kwanza_text_def Let_def groupThousands_nonneg pos_imp_zdiv_nonneg_iff)

interpretation web_money: kwanza_display "\<lambda>n. web_formatMoneyDisplay (Some n) ''AOA''"
  by unfold_locales (simp add: web_formatMoneyDisplay_def kwanza_text_def Let_def groupThousands_nonneg pos_imp_zdiv_nonneg_iff)

interpretation admin_money: kwanza_display "\<lambda>n. formatKz (Some n)"
  by unfold_locales
    (simp add: formatKz_def formatMoney_def formatAmountMinor_def kwanza_text_def Let_def
      groupThousands_nonneg pos_imp_zdiv_nonneg_iff)

interpretation checkout_money: kwanza_display "\<lambda>n. checkout_formatAmount n ''AOA''"
  by unfold_locales
    (simp add: checkout_formatAmount_def kwanza_text_def Let_def regex_group_loop nat_str_digits)

section \<open>Properties\<close>

text \<open>
  The five surfaces display a kwanza amount identically, and a display determines its amount:
  the SDK, pay, the website, the admin and checkout-web (which groups by a regular expression)
  print the same text for the same minor units, and different texts for different ones.
\<close>

theorem money_displays_agree:
  "formatMinor intl n ''AOA'' = pay_formatMoneyDisplay n ''AOA'' \<and>
   web_formatMoneyDisplay (Some n) ''AOA'' = pay_formatMoneyDisplay n ''AOA'' \<and>
   formatKz (Some n) = pay_formatMoneyDisplay n ''AOA'' \<and>
   checkout_formatAmount n ''AOA'' = pay_formatMoneyDisplay n ''AOA'' \<and>
   (pay_formatMoneyDisplay n ''AOA'' = pay_formatMoneyDisplay m ''AOA'' \<longleftrightarrow> n = m)"
  by (simp only: sdk_money.displays pay_money.displays web_money.displays admin_money.displays
      checkout_money.displays kwanza_text_inject simp_thms)

text \<open>
  A displayed non-negative amount typed back in is the same amount: the website's parser reads
  the display of every surface back to the minor units it came from.
\<close>

theorem money_display_parse:
  assumes "0 \<le> n"
  shows "parseMoneyInput (web_formatMoneyDisplay (Some n) ''AOA'') = Inr n \<and>
    tryParseMoneyInput (formatMinor intl n ''AOA'') = Some n"
  using web_money.display_parse [OF assms] sdk_money.display_parse [OF assms, of intl]
  by (simp add: tryParseMoneyInput_def)

theorem money_display_parse_witness:
  "parseMoneyInput (web_formatMoneyDisplay (Some 5000050) ''AOA'') = Inr 5000050"
  using money_display_parse [of 5000050] by simp

text \<open>The digits a typed text keeps, and the fixed point of the live formatter.\<close>

definition typed :: "char \<Rightarrow> bool" where
  "typed c \<longleftrightarrow> is_digit c \<or> c = CHR '',''"

lemma not_typed_space: "\<not> typed (CHR 0x20)" "\<not> is_digit (CHR '','')"
  by (simp_all add: typed_def is_digit_def)

lemma typed_group: "list_all is_digit s \<Longrightarrow> filter typed (group_loop True s) = s"
  by (rule group_loop_strip) (auto simp: list_all_iff typed_def not_typed_space is_digit_def)

lemma web_groupThousands_int: "web_groupThousands (int n) = group_loop True (nat_str n)"
  by (simp add: web_groupThousands_def abs_str_def)

lemma filter_no_comma: "list_all is_digit s \<Longrightarrow> filter (\<lambda>c. c \<noteq> CHR '','') s = s"
  by (auto simp: list_all_iff filter_id_conv is_digit_def)

text \<open>The formatter's result, given the whole and fractional digits it kept.\<close>

lemma formatMoneyInput_form:
  "formatMoneyInput raw = [] \<or> (\<exists>n. formatMoneyInput raw = group_loop True (nat_str n)) \<or>
   (\<exists>n f. formatMoneyInput raw = group_loop True (nat_str n) @ '','' @ f \<and> list_all is_digit f \<and> length f \<le> 2)"
proof -
  define t where "t = filter typed raw"
  have t: "filter (\<lambda>c. is_digit c \<or> c = CHR '','') raw = t" by (simp add: t_def typed_def [abs_def])
  have all: "\<forall>c \<in> set t. typed c" by (simp add: t_def)
  show ?thesis
  proof (cases "index_of (CHR '','') t")
    case None
    then show ?thesis by (auto simp: formatMoneyInput_def t Let_def web_groupThousands_int)
  next
    case (Some ci)
    define w where "w = filter (\<lambda>c. c \<noteq> CHR '','') (take ci t)"
    define g where "g = filter (\<lambda>c. c \<noteq> CHR '','') (drop (ci + 1) t)"
    define f where "f = (if length g > 2 then take 2 g else g)"
    have "\<forall>c \<in> set g. is_digit c" using all by (auto simp: g_def typed_def dest: in_set_dropD)
    then have f: "list_all is_digit f" "length f \<le> 2"
      by (auto simp: f_def list_all_iff dest: in_set_takeD)
    have "formatMoneyInput raw =
        (if w = [] then ''0'' else web_groupThousands (int (dec_val w))) @ '','' @ f"
      using Some by (simp add: formatMoneyInput_def t Let_def w_def g_def f_def)
    moreover have "''0'' = group_loop True (nat_str 0)" by (simp add: nat_str_small str_simps)
    ultimately have "\<exists>n. formatMoneyInput raw = group_loop True (nat_str n) @ '','' @ f"
      by (cases "w = []") (auto simp: web_groupThousands_int)
    with f show ?thesis by blast
  qed
qed

text \<open>Formatting a formatted text changes nothing.\<close>

lemma format_grouped: "formatMoneyInput (group_loop True (nat_str n)) = group_loop True (nat_str n)"
proof -
  have c: "CHR '','' \<notin> set (nat_str n)" by (simp add: nat_str_notin is_digit_def)
  show ?thesis
    using typed_group [OF nat_str_digits, of n] c
    by (simp add: formatMoneyInput_def Let_def typed_def [abs_def] index_of_None_iff [THEN iffD2]
        web_groupThousands_int)
qed

lemma format_grouped_cents:
  assumes "list_all is_digit f" and "length f \<le> 2"
  shows "formatMoneyInput (group_loop True (nat_str n) @ '','' @ f) = group_loop True (nat_str n) @ '','' @ f"
proof -
  have c: "CHR '','' \<notin> set (nat_str n)" by (simp add: nat_str_notin is_digit_def)
  have "filter typed (group_loop True (nat_str n) @ '','' @ f) = nat_str n @ CHR '','' # f"
    using typed_group [OF nat_str_digits, of n] assms(1)
    by (auto simp: typed_def filter_id_conv list_all_iff)
  moreover have "filter (\<lambda>c. c \<noteq> CHR '','') (nat_str n) = nat_str n"
    by (rule filter_no_comma) (rule nat_str_digits)
  ultimately show ?thesis
    using c assms filter_no_comma [OF assms(1)]
    by (simp add: formatMoneyInput_def Let_def typed_def [abs_def] web_groupThousands_int)
qed

text \<open>
  The live input formatter is idempotent: formatting what it displays changes nothing, so an
  input that re-renders its own value on every key stroke never drifts.
\<close>

theorem money_input_idempotent: "formatMoneyInput (formatMoneyInput raw) = formatMoneyInput raw"
proof -
  have "formatMoneyInput [] = []" by code_simp
  then show ?thesis
    using formatMoneyInput_form [of raw] format_grouped format_grouped_cents by auto
qed

lemma sum_split:
  "(\<Sum>i \<leftarrow> [0..<n]. b + (if int i < r then 1 else 0)) = int n * b + max 0 (min (int n) r)"
  by (induction n) (auto simp: algebra_simps)

text \<open>
  Splitting a non-negative total over a positive number of people loses and adds nothing: there
  is one share per person, the shares add up to the total, and any two differ by at most one minor
  unit. No people is refused. A negative total is split short: its shares add up to the total minus
  its remainder, so a debt that does not divide evenly changes.
\<close>

theorem split_even_exact:
  "(people \<le> 0 \<longrightarrow> splitEvenlyMinor tot people = None) \<and>
   (0 < people \<longrightarrow> (\<exists>shares. splitEvenlyMinor tot people = Some shares \<and>
      length shares = nat people \<and>
      set shares \<subseteq> {trunc_div tot people, trunc_div tot people + 1} \<and>
      sum_list shares = tot - (if tot < 0 then js_rem tot people else 0)))"
proof (intro conjI impI)
  assume p: "0 < people"
  let ?b = "trunc_div tot people" and ?r = "js_rem tot people"
  let ?s = "map (\<lambda>i. ?b + (if int i < ?r then 1 else 0)) [0..<nat people]"
  have sp: "splitEvenlyMinor tot people = Some ?s" using p by (simp add: splitEvenlyMinor_def Let_def)
  have lt: "?r < people" "tot < 0 \<Longrightarrow> ?r \<le> 0" "0 \<le> tot \<Longrightarrow> 0 \<le> ?r"
    using p pos_mod_bound [OF p, of "\<bar>tot\<bar>"] pos_mod_sign [OF p, of "\<bar>tot\<bar>"]
    by (auto simp: js_rem_def sgn_if)
  have "sum_list ?s = people * ?b + max 0 (min people ?r)" using p sum_split [of ?b ?r "nat people"] by simp
  also have "\<dots> = tot - (if tot < 0 then ?r else 0)"
    using lt trunc_div_rem [of tot people] by auto
  finally show "\<exists>shares. splitEvenlyMinor tot people = Some shares \<and> length shares = nat people \<and>
      set shares \<subseteq> {?b, ?b + 1} \<and> sum_list shares = tot - (if tot < 0 then ?r else 0)"
    using sp by (intro exI [of _ ?s]) (auto split: if_splits)
qed (simp add: splitEvenlyMinor_def)

theorem split_even_exact_witness:
  "splitEvenlyMinor 10 3 \<noteq> None \<and> splitEvenlyMinor 10 0 = None \<and>
   sum_list (the (splitEvenlyMinor (-10) 3)) = -9"
  using split_even_exact [of 3 10] split_even_exact [of 0 10] split_even_exact [of 3 "-10"]
  by (auto simp: js_rem_def)

end
