(* ===== verification/UrlPath.thy ===== *)
theory UrlPath
  imports JsStd
begin

text \<open>
  What the URL parser of the platform makes of a path on a web origin: it reads a backslash as a slash,
  resolves the segments \<open>.\<close> and \<open>..\<close> (which may be written with \<open>%2e\<close>), ends the path at a query or
  a fragment and percent-encodes the rest. Shared by the gateway of App Banzami Web, the checkout and the
  Developers Console.
\<close>

record url =
  u_origin :: string
  u_pathname :: string
  u_search :: string
  u_hash :: string

type_synonym url_parser = "string \<Rightarrow> url option"

section \<open>Segments\<close>

definition single_dot :: "string \<Rightarrow> bool" where
  "single_dot x \<longleftrightarrow> js_lower x \<in> set [''.'', ''%2e'']"

definition double_dot :: "string \<Rightarrow> bool" where
  "double_dot x \<longleftrightarrow> js_lower x \<in> set [''..'', ''.%2e'', ''%2e.'', ''%2e%2e'']"

fun resolve_segs :: "string list \<Rightarrow> string list \<Rightarrow> string list" where
  "resolve_segs out [] = rev out"
| "resolve_segs out (x # xs) =
     (if double_dot x then resolve_segs (if xs = [] then [] # tl out else tl out) xs
      else if single_dot x then resolve_segs (if xs = [] then [] # out else out) xs
      else resolve_segs (x # out) xs)"

definition url_segs :: "string \<Rightarrow> string list" where
  "url_segs p = tl (split_on (CHR ''/'')
     (map (\<lambda>c. if c = CHR 0x5C then CHR ''/'' else c) (takeWhile (\<lambda>c. c \<noteq> CHR ''#'' \<and> c \<noteq> CHR ''?'') p)))"

definition fetch_path :: "string \<Rightarrow> string" where
  "fetch_path p = concat (map (\<lambda>x. CHR ''/'' # x) (resolve_segs [] (url_segs p)))"

lemma resolve_plain:
  "list_all (\<lambda>x. \<not> single_dot x \<and> \<not> double_dot x) xs \<Longrightarrow> resolve_segs out xs = rev out @ xs"
  by (induction xs arbitrary: out) auto

lemma concat_slash: "concat (map (\<lambda>x. c # x) xs) = (if xs = [] then [] else c # join_with [c] xs)"
  by (induction xs rule: induct_list012) auto

section \<open>A path on an origin\<close>

text \<open>What is percent-encoded, as UTF-8, in a path, in a query and in a fragment.\<close>

definition url_control :: "char \<Rightarrow> bool" where
  "url_control c \<longleftrightarrow> unit_code c < 0x20 \<or> 0x7E < unit_code c"

definition in_path :: "char \<Rightarrow> bool" where
  "in_path c \<longleftrightarrow> url_control c \<or> c \<in> set [CHR 0x20, CHR 0x22, CHR ''#'', CHR ''<'', CHR ''>'', CHR ''?'', CHR ''^'', CHR 0x60, CHR ''{'', CHR ''}'']"

definition in_query :: "char \<Rightarrow> bool" where
  "in_query c \<longleftrightarrow> url_control c \<or> c \<in> set [CHR 0x20, CHR 0x22, CHR ''#'', CHR ''<'', CHR ''>'', CHR 0x27]"

definition in_fragment :: "char \<Rightarrow> bool" where
  "in_fragment c \<longleftrightarrow> url_control c \<or> c \<in> set [CHR 0x20, CHR 0x22, CHR ''<'', CHR ''>'', CHR 0x60]"

definition pct_unit :: "(char \<Rightarrow> bool) \<Rightarrow> char \<Rightarrow> string" where
  "pct_unit special c = (if special c then concat (map pct (utf8 c)) else [c])"

definition pct_encode :: "(char \<Rightarrow> bool) \<Rightarrow> string \<Rightarrow> string" where
  "pct_encode special s = concat (map (pct_unit special) s)"

text \<open>The text the parser reads: without tabs and line ends, and without controls and spaces at its end.\<close>

definition url_input :: "string \<Rightarrow> string" where
  "url_input s = rev (dropWhile (\<lambda>c. unit_code c \<le> 0x20) (rev (filter (\<lambda>c. c \<notin> set [CHR 0x09, CHR 0x0A, CHR 0x0D]) s)))"

text \<open>\<open>new URL(raw, origin)\<close> for a text that starts with one slash: the origin stays, and the path, the query
  and the fragment are the text's.\<close>

definition path_url :: "string \<Rightarrow> string \<Rightarrow> url" where
  "path_url origin raw =
     (let s = url_input raw;
          rest = dropWhile (\<lambda>c. c \<noteq> CHR ''#'' \<and> c \<noteq> CHR ''?'') s;
          query = takeWhile (\<lambda>c. c \<noteq> CHR ''#'') rest;
          fragment = dropWhile (\<lambda>c. c \<noteq> CHR ''#'') rest
      in \<lparr> u_origin = origin, u_pathname = pct_encode in_path (fetch_path s),
           u_search = (if length query \<le> 1 then [] else CHR ''?'' # pct_encode in_query (tl query)),
           u_hash = (if length fragment \<le> 1 then [] else CHR ''#'' # pct_encode in_fragment (tl fragment)) \<rparr>)"

lemma pct_encode_plain: "list_all (\<lambda>c. \<not> special c) s \<Longrightarrow> pct_encode special s = s"
  by (induction s) (simp_all add: pct_encode_def pct_unit_def)

lemma pct_encode_simps [simp]:
  "pct_encode special [] = []"
  "pct_encode special (c # s) = pct_unit special c @ pct_encode special s"
  "pct_encode special (s @ t) = pct_encode special s @ pct_encode special t"
  by (simp_all add: pct_encode_def)

end
