(* ===== verification/CheckoutWeb.thy ===== *)
theory CheckoutWeb
  imports Money UrlPath "HOL-Library.Multiset"
begin

text \<open>
  The browser checkout (sdk/checkout-web/src): payment-link references and the hosted page
  (api.ts, qrScheme.ts), the refusal of credentials, \<open>BanzamiCheckout\<close> (checkout.ts), and the modal
  with its polling (modal.ts) as a state machine whose steps are the browser's events.

  The browser's \<open>URL\<close> parser is a parameter \<open>parse_url\<close>: the origin, path, query and fragment of a
  text, or \<^const>\<open>None\<close> when the constructor throws.
\<close>

section \<open>Payment links (api.ts)\<close>

definition hex_lower :: "char \<Rightarrow> bool" where
  "hex_lower c \<longleftrightarrow> is_digit c \<or> c \<in> set ''abcdef''"

definition is_slug :: "string \<Rightarrow> bool" where
  "is_slug s \<longleftrightarrow> length s = 12 \<and> list_all hex_lower s"

definition default_pay_url :: string where
  "default_pay_url = ''https://pay.banzami.com''"

datatype checkout_error = NotALink string | InvalidUrl | Credential string

definition link_message :: string where
  "link_message = ''Not a Banzami payment link: pass the slug or the pay.banzami.com URL your server received.''"

definition expected_message :: "string \<Rightarrow> string" where
  "expected_message origin = ''Not a Banzami payment link: expected '' @ origin @ ''/pay/<slug>.''"

text \<open>The slug a path names: \<open>/pay/<slug>\<close>, or the bare \<open>/<slug>\<close>.\<close>

definition path_slug :: "string \<Rightarrow> string" where
  "path_slug pathname =
     (case filter (\<lambda>p. p \<noteq> []) (split_on (CHR ''/'') pathname) of
        [a, b] \<Rightarrow> if a = ''pay'' then b else []
      | [a] \<Rightarrow> a
      | _ \<Rightarrow> [])"

definition paymentLinkSlug :: "url_parser \<Rightarrow> string \<Rightarrow> string \<Rightarrow> checkout_error + string" where
  "paymentLinkSlug parse_url link payUrl =
     (if is_slug link then Inr link
      else case parse_url link of
          None \<Rightarrow> Inl (NotALink link_message)
        | Some u \<Rightarrow>
            (case parse_url payUrl of
               None \<Rightarrow> Inl InvalidUrl
             | Some p \<Rightarrow>
                 (let slug = path_slug (u_pathname u) in
                  if u_origin u \<noteq> u_origin p \<or> u_search u \<noteq> [] \<or> u_hash u \<noteq> [] \<or> \<not> is_slug slug
                  then Inl (NotALink (expected_message (u_origin p))) else Inr slug)))"

definition payPageUrl :: "url_parser \<Rightarrow> string \<Rightarrow> string \<Rightarrow> checkout_error + string" where
  "payPageUrl parse_url link payUrl =
     (case parse_url payUrl of
        None \<Rightarrow> Inl InvalidUrl
      | Some p \<Rightarrow>
          (case paymentLinkSlug parse_url link payUrl of
             Inl e \<Rightarrow> Inl e
           | Inr slug \<Rightarrow> Inr (u_origin p @ ''/pay/'' @ slug)))"

text \<open>A configuration is the list of its keys, or undefined.\<close>

definition credential_keys :: "string list" where
  "credential_keys = [''apiKey'', ''secretKey'', ''api_key'', ''token'']"

definition assertNoCredential :: "string list option \<Rightarrow> checkout_error option" where
  "assertNoCredential config =
     (case config of
        None \<Rightarrow> None
      | Some keys \<Rightarrow> map_option Credential (List.find (\<lambda>k. k \<in> set keys) credential_keys))"

section \<open>Deep links (qrScheme.ts)\<close>

definition scheme_live :: string where "scheme_live = ''banzami''"

definition scheme_sandbox :: string where "scheme_sandbox = ''banzami-sandbox''"

definition payLink :: "string \<Rightarrow> string" where
  "payLink slug = scheme_live @ ''://pay/link/'' @ slug"

section \<open>The checkout (checkout.ts)\<close>

record checkout_config =
  cfg_keys :: "string list"
  cfg_payUrl :: "string option"

record open_options =
  oo_link :: string
  oo_amountMinor :: "int option"
  oo_currency :: "string option"
  oo_description :: "string option"
  oo_checkPaid :: bool

record modal_link =
  ml_slug :: string
  ml_pageUrl :: string
  ml_amountMinor :: "int option"
  ml_currency :: string
  ml_description :: "string option"

record checkout =
  co_payUrl :: string

definition newCheckout :: "checkout_config \<Rightarrow> checkout_error + checkout" where
  "newCheckout cfg =
     (case assertNoCredential (Some (cfg_keys cfg)) of
        Some e \<Rightarrow> Inl e
      | None \<Rightarrow> Inr \<lparr> co_payUrl = (case cfg_payUrl cfg of Some u \<Rightarrow> u | None \<Rightarrow> default_pay_url) \<rparr>)"

text \<open>What \<open>open\<close> hands the modal.\<close>

definition checkout_open :: "url_parser \<Rightarrow> checkout \<Rightarrow> open_options \<Rightarrow> checkout_error + modal_link" where
  "checkout_open parse_url co opts =
     (case paymentLinkSlug parse_url (oo_link opts) (co_payUrl co) of
        Inl e \<Rightarrow> Inl e
      | Inr slug \<Rightarrow>
          (case payPageUrl parse_url slug (co_payUrl co) of
             Inl e \<Rightarrow> Inl e
           | Inr pageUrl \<Rightarrow> Inr \<lparr> ml_slug = slug, ml_pageUrl = pageUrl,
               ml_amountMinor = oo_amountMinor opts,
               ml_currency = (case oo_currency opts of Some c \<Rightarrow> c | None \<Rightarrow> ''AOA''),
               ml_description = oo_description opts \<rparr>))"

text \<open>The location \<open>redirect\<close> assigns.\<close>

definition checkout_redirect :: "url_parser \<Rightarrow> checkout \<Rightarrow> string \<Rightarrow> checkout_error + string" where
  "checkout_redirect parse_url co link = payPageUrl parse_url link (co_payUrl co)"

definition openCheckout ::
  "url_parser \<Rightarrow> open_options \<Rightarrow> checkout_config \<Rightarrow> checkout_error + modal_link" where
  "openCheckout parse_url opts cfg =
     (case newCheckout cfg of Inl e \<Rightarrow> Inl e | Inr co \<Rightarrow> checkout_open parse_url co opts)"

definition redirectToPayment ::
  "url_parser \<Rightarrow> string \<Rightarrow> checkout_config \<Rightarrow> checkout_error + string" where
  "redirectToPayment parse_url link cfg =
     (case newCheckout cfg of Inl e \<Rightarrow> Inl e | Inr co \<Rightarrow> checkout_redirect parse_url co link)"

section \<open>The modal (modal.ts)\<close>

text \<open>
  One \<open>CheckoutModal\<close> object. A call of \<open>open\<close> is a session, numbered. The state holds the current
  overlay and poll timer, the overlays still in the document, the polls whose \<open>checkPaid\<close> has not
  answered, the 1.8 s closing timers that have not fired, and the callbacks called so far.
\<close>

datatype modal_callback = OnSuccess nat | OnCancel nat

record modal =
  overlay :: "nat option"
  pollTimer :: "nat option"
  document_overlays :: "nat list"
  polls :: "nat list"
  closers :: "nat list"
  called :: "modal_callback list"
  sessions :: nat
  paid_answers :: "nat list"

definition new_modal :: modal where
  "new_modal = \<lparr> overlay = None, pollTimer = None, document_overlays = [], polls = [], closers = [],
     called = [], sessions = 0, paid_answers = [] \<rparr>"

definition cleanup :: "modal \<Rightarrow> modal" where
  "cleanup m = m\<lparr>pollTimer := None\<rparr>"

definition modal_close :: "modal \<Rightarrow> modal" where
  "modal_close m0 =
     (let m = cleanup m0 in
      case overlay m of
        None \<Rightarrow> m
      | Some k \<Rightarrow> m\<lparr>document_overlays := removeAll k (document_overlays m), overlay := None\<rparr>)"

definition modal_open :: "bool \<Rightarrow> modal \<Rightarrow> modal" where
  "modal_open checkPaid m0 =
     (let m = cleanup m0; k = sessions m in
      m\<lparr>sessions := Suc k, overlay := Some k, document_overlays := document_overlays m @ [k],
        pollTimer := (if checkPaid then Some k else None)\<rparr>)"

definition showSuccess :: "modal \<Rightarrow> modal" where
  "showSuccess m = (if overlay m = None then m else m\<lparr>pollTimer := None\<rparr>)"

text \<open>What a session's overlay shows.\<close>

record modal_view =
  mv_label :: string
  mv_amount :: string
  mv_deepLink :: string
  mv_pageUrl :: string
  mv_waiting :: bool

definition modal_show :: "modal_link \<Rightarrow> bool \<Rightarrow> modal_view" where
  "modal_show link checkPaid =
     \<lparr> mv_label = (case ml_description link of Some d \<Rightarrow> d | None \<Rightarrow> ''Valor a pagar''),
       mv_amount = (case ml_amountMinor link of
          Some n \<Rightarrow> checkout_formatAmount n (ml_currency link) | None \<Rightarrow> ''Valor livre''),
       mv_deepLink = payLink (ml_slug link), mv_pageUrl = ml_pageUrl link, mv_waiting = checkPaid \<rparr>"

text \<open>The browser's events: a call of \<open>open\<close>, a call of \<open>close\<close>, a click that dismisses an overlay
  in the document, the poll timer, the answer of a poll, and a closing timer.\<close>

datatype modal_event =
    Open bool
  | Close
  | Dismiss nat
  | PollTick
  | PollAnswer nat bool
  | CloserFires nat

fun modal_step :: "modal \<Rightarrow> modal_event \<Rightarrow> modal option" where
  "modal_step m (Open checkPaid) = Some (modal_open checkPaid m)"
| "modal_step m Close = Some (modal_close m)"
| "modal_step m (Dismiss k) =
     (if k \<in> set (document_overlays m)
      then (let m1 = modal_close m in Some (m1\<lparr>called := called m1 @ [OnCancel k]\<rparr>)) else None)"
| "modal_step m PollTick =
     (case pollTimer m of Some k \<Rightarrow> Some (m\<lparr>polls := polls m @ [k]\<rparr>) | None \<Rightarrow> None)"
| "modal_step m (PollAnswer k paid) =
     (if k \<in> set (polls m) then
        (let m1 = m\<lparr>polls := remove1 k (polls m)\<rparr> in
         Some (if paid then (showSuccess m1)\<lparr>closers := closers m1 @ [k], paid_answers := paid_answers m1 @ [k]\<rparr>
               else m1))
      else None)"
| "modal_step m (CloserFires k) =
     (if k \<in> set (closers m) then
        (let m1 = modal_close (m\<lparr>closers := remove1 k (closers m)\<rparr>) in
         Some (m1\<lparr>called := called m1 @ [OnSuccess k]\<rparr>))
      else None)"

inductive modal_reachable :: "modal \<Rightarrow> bool" where
  start: "modal_reachable new_modal"
| step: "modal_reachable m \<Longrightarrow> modal_step m e = Some m' \<Longrightarrow> modal_reachable m'"

fun modal_run :: "modal \<Rightarrow> modal_event list \<Rightarrow> modal option" where
  "modal_run m [] = Some m"
| "modal_run m (e # es) = (case modal_step m e of Some m' \<Rightarrow> modal_run m' es | None \<Rightarrow> None)"

lemma modal_run_reachable: "modal_reachable m \<Longrightarrow> modal_run m es = Some m' \<Longrightarrow> modal_reachable m'"
  by (induction es arbitrary: m) (auto split: option.splits intro: modal_reachable.step)

section \<open>Lemmas\<close>

lemma paymentLinkSlug_Inr:
  "paymentLinkSlug pu link payUrl = Inr slug \<Longrightarrow> is_slug slug \<and>
     (slug = link \<or> (\<exists>u p. pu link = Some u \<and> pu payUrl = Some p \<and> u_origin u = u_origin p \<and>
        u_search u = [] \<and> u_hash u = [] \<and> slug = path_slug (u_pathname u)))"
  by (auto simp: paymentLinkSlug_def Let_def split: if_splits option.splits)

lemma payPageUrl_Inr:
  "payPageUrl pu link payUrl = Inr t \<Longrightarrow>
    \<exists>p slug. pu payUrl = Some p \<and> is_slug slug \<and> t = u_origin p @ ''/pay/'' @ slug"
  by (auto simp: payPageUrl_def dest: paymentLinkSlug_Inr split: option.splits sum.splits)

lemma slug_no_slash: "is_slug s \<Longrightarrow> CHR ''/'' \<notin> set s"
  by (auto simp: is_slug_def list_all_iff hex_lower_def is_digit_def)

lemma path_slug_pay: "is_slug s \<Longrightarrow> path_slug (''/pay/'' @ s) = s"
proof -
  assume s: "is_slug s"
  then have "s \<noteq> []" by (auto simp: is_slug_def)
  moreover have "split_on (CHR ''/'') (''/pay/'' @ s) = [[], ''pay'', s]"
    using slug_no_slash [OF s] by simp
  ultimately show ?thesis by (simp add: path_slug_def)
qed

text \<open>Success is called back at most once per answer that said paid, and the poll timer is the
  current overlay's.\<close>

definition success_list :: "modal \<Rightarrow> nat list" where
  "success_list m = concat (map (\<lambda>c. case c of OnSuccess k \<Rightarrow> [k] | OnCancel _ \<Rightarrow> []) (called m))"

definition modal_ok :: "modal \<Rightarrow> bool" where
  "modal_ok m \<longleftrightarrow>
     (\<forall>k. pollTimer m = Some k \<longrightarrow> overlay m = Some k) \<and>
     (\<forall>k. overlay m = Some k \<longrightarrow> k \<in> set (document_overlays m)) \<and>
     mset (success_list m) + mset (closers m) = mset (paid_answers m)"

lemma modal_close_frame [simp]:
  "pollTimer (modal_close m) = None" "overlay (modal_close m) = None"
  "called (modal_close m) = called m" "closers (modal_close m) = closers m"
  "paid_answers (modal_close m) = paid_answers m" "polls (modal_close m) = polls m"
  by (simp_all add: modal_close_def cleanup_def Let_def split: option.splits)

lemma success_list_snoc [simp]:
  "success_list (m\<lparr>called := called m @ [OnSuccess k]\<rparr>) = success_list m @ [k]"
  "success_list (m\<lparr>called := called m @ [OnCancel k]\<rparr>) = success_list m"
  by (simp_all add: success_list_def)

lemma success_list_close [simp]: "success_list (modal_close m) = success_list m"
  by (simp add: success_list_def)

inductive_cases modal_reachableE: "modal_reachable m"

lemma modal_step_ok: "modal_ok m \<Longrightarrow> modal_step m e = Some m' \<Longrightarrow> modal_ok m'"
proof (cases e)
  case (CloserFires k)
  assume ok: "modal_ok m" and st: "modal_step m e = Some m'"
  have k: "k \<in> set (closers m)" using st CloserFires by (auto split: if_splits)
  let ?m = "modal_close (m\<lparr>closers := remove1 k (closers m)\<rparr>)"
  have m': "m' = ?m\<lparr>called := called ?m @ [OnSuccess k]\<rparr>" using st CloserFires k by (simp add: Let_def)
  have "mset (success_list m') = add_mset k (mset (success_list m))"
    unfolding m' success_list_snoc by (simp add: success_list_def)
  moreover have "mset (success_list m) + mset (closers m) = mset (paid_answers m)"
    using ok by (simp add: modal_ok_def)
  then have "k \<in> set (paid_answers m)" using k by (metis set_mset_mset union_iff)
  ultimately show ?thesis
    using ok k by (simp add: m' modal_ok_def)
qed (auto simp: modal_ok_def modal_open_def cleanup_def Let_def showSuccess_def success_list_def
      split: if_splits option.splits)

lemma modal_reachable_ok: "modal_reachable m \<Longrightarrow> modal_ok m"
proof (induction rule: modal_reachable.induct)
  case start
  show ?case by (simp add: modal_ok_def new_modal_def success_list_def)
qed (rule modal_step_ok)

section \<open>Properties\<close>

text \<open>
  The browser never sends a payer anywhere but a Banzami payment page: what \<open>redirect\<close> assigns
  is the configured origin's \<open>/pay/\<close> followed by twelve lower-case hexadecimal characters, and a
  full URL is accepted as a link only when its origin is the configured one and it has no query
  and no fragment.
\<close>

theorem checkout_stays_on_pay_page:
  "(\<forall>t. checkout_redirect pu co link = Inr t \<longrightarrow>
      (\<exists>p slug. pu (co_payUrl co) = Some p \<and> is_slug slug \<and> t = u_origin p @ ''/pay/'' @ slug)) \<and>
   (\<forall>slug. paymentLinkSlug pu link (co_payUrl co) = Inr slug \<and> slug \<noteq> link \<longrightarrow>
      (\<exists>u p. pu link = Some u \<and> pu (co_payUrl co) = Some p \<and> u_origin u = u_origin p \<and>
         u_search u = [] \<and> u_hash u = []))"
  using payPageUrl_Inr [of pu link "co_payUrl co"]
  by (auto simp: checkout_redirect_def dest!: paymentLinkSlug_Inr)

definition demo_url :: url_parser where
  "demo_url t = (if t = ''https://p'' then Some \<lparr> u_origin = ''https://p'', u_pathname = ''/'', u_search = [], u_hash = [] \<rparr>
     else if t = ''https://p/pay/0123456789ab''
       then Some \<lparr> u_origin = ''https://p'', u_pathname = ''/pay/0123456789ab'', u_search = [], u_hash = [] \<rparr> else None)"

theorem checkout_stays_on_pay_page_witness:
  "checkout_redirect demo_url \<lparr> co_payUrl = ''https://p'' \<rparr> ''0123456789ab'' = Inr ''https://p/pay/0123456789ab'' \<and>
   (\<exists>slug. is_slug slug \<and> ''https://p/pay/0123456789ab'' = ''https://p'' @ ''/pay/'' @ slug)"
proof -
  have r: "checkout_redirect demo_url \<lparr> co_payUrl = ''https://p'' \<rparr> ''0123456789ab'' = Inr ''https://p/pay/0123456789ab''"
    by code_simp
  with checkout_stays_on_pay_page [of demo_url "\<lparr> co_payUrl = ''https://p'' \<rparr>" "''0123456789ab''"]
  show ?thesis by (auto simp: demo_url_def)
qed

text \<open>
  The page URL of a link reads back as that link: when the browser parses
  \<open>origin/pay/slug\<close> into that origin and path, the slug of the page URL built from a slug is the
  slug itself.
\<close>

theorem page_url_roundtrip:
  assumes "is_slug slug" and "pu payUrl = Some p"
    and "pu (u_origin p @ ''/pay/'' @ slug) =
      Some \<lparr> u_origin = u_origin p, u_pathname = ''/pay/'' @ slug, u_search = [], u_hash = [] \<rparr>"
  shows "payPageUrl pu slug payUrl = Inr (u_origin p @ ''/pay/'' @ slug) \<and>
    paymentLinkSlug pu (u_origin p @ ''/pay/'' @ slug) payUrl = Inr slug"
proof -
  have "\<not> is_slug (u_origin p @ ''/pay/'' @ slug)"
    using slug_no_slash [of "u_origin p @ ''/pay/'' @ slug"] by auto
  then show ?thesis
    using assms path_slug_pay [OF assms(1)] by (simp add: payPageUrl_def paymentLinkSlug_def)
qed

theorem page_url_roundtrip_witness:
  "paymentLinkSlug demo_url ''https://p/pay/0123456789ab'' ''https://p'' = Inr ''0123456789ab''"
  using page_url_roundtrip [of "''0123456789ab''" demo_url "''https://p''"
      "\<lparr> u_origin = ''https://p'', u_pathname = ''/'', u_search = [], u_hash = [] \<rparr>"]
  by (simp add: demo_url_def is_slug_def hex_lower_def is_digit_def)

text \<open>
  In every state the modal can reach, the successes it has called back and those it is about to
  call back are exactly the answers of \<open>checkPaid\<close> that said paid; no success comes from anything
  else, and a poll timer belongs to the overlay that is open.
\<close>

theorem modal_success_needs_paid:
  assumes "modal_reachable m"
  shows "mset (success_list m) + mset (closers m) = mset (paid_answers m) \<and>
    (\<forall>k. pollTimer m = Some k \<longrightarrow> overlay m = Some k)"
  using modal_reachable_ok [OF assms] by (simp add: modal_ok_def)

theorem modal_success_needs_paid_witness:
  "mset (success_list (modal_open True new_modal)) + mset (closers (modal_open True new_modal)) =
     mset (paid_answers (modal_open True new_modal))"
proof -
  have "modal_reachable (modal_open True new_modal)"
    by (rule modal_reachable.step [OF modal_reachable.start, of "Open True"]) simp
  from modal_success_needs_paid [OF this] show ?thesis by blast
qed

text \<open>
  One payment can be reported twice, and a cancelled checkout can be reported as a success: a
  slow \<open>checkPaid\<close> lets two polls be in flight, each of whose answers schedules its own
  \<open>onSuccess\<close>; and an overlay dismissed while a poll is in flight calls \<open>onCancel\<close> and then, when
  that poll answers paid, \<open>onSuccess\<close>.
\<close>

theorem modal_reports_twice:
  "(\<exists>m. modal_run new_modal [Open True, PollTick, PollTick, PollAnswer 0 True, PollAnswer 0 True,
        CloserFires 0, CloserFires 0] = Some m \<and> called m = [OnSuccess 0, OnSuccess 0]) \<and>
   (\<exists>m. modal_run new_modal [Open True, PollTick, Dismiss 0, PollAnswer 0 True, CloserFires 0] = Some m \<and>
        called m = [OnCancel 0, OnSuccess 0])"
  by (simp add: new_modal_def modal_open_def modal_close_def cleanup_def showSuccess_def Let_def)

end
