(* ===== verification/NodePlugin.thy ===== *)
theory NodePlugin
  imports Complex_Main SdkEndpoints SdkWebhooks Money
begin

text \<open>
  The Node plugin (plugins/generic-node/src): its API client with the retry loop and the endpoint
  methods (client.ts), its money helpers, and its webhook verification (client.ts, webhook.ts).

  The client runs on the same outside world and run state as the SDK client (\<^typ>\<open>ext\<close>,
  \<^typ>\<open>cstate\<close>); it has no access token, so the token fields of the state stay as they are. The
  abort timer only makes a \<open>fetch\<close> reject. An amount that may be fractional is a \<^typ>\<open>rat\<close>.
\<close>

section \<open>Errors and configuration\<close>

datatype node_error =
    NodeError (ne_message: string) (ne_code: string) (ne_status: int)
  | NodeJsError string
  | NodeUndefined

definition is_node_error :: "node_error \<Rightarrow> bool" where
  "is_node_error e \<longleftrightarrow> (case e of NodeError _ _ _ \<Rightarrow> True | _ \<Rightarrow> False)"

definition node_isNotFound :: "node_error \<Rightarrow> bool" where
  "node_isNotFound e \<longleftrightarrow> is_node_error e \<and> ne_status e = 404"

definition node_isUnauthorized :: "node_error \<Rightarrow> bool" where
  "node_isUnauthorized e \<longleftrightarrow> is_node_error e \<and> ne_status e = 401"

definition node_isConflict :: "node_error \<Rightarrow> bool" where
  "node_isConflict e \<longleftrightarrow> is_node_error e \<and> ne_status e = 409"

definition node_isForbidden :: "node_error \<Rightarrow> bool" where
  "node_isForbidden e \<longleftrightarrow> is_node_error e \<and> ne_status e = 403"

definition node_isInsufficientFunds :: "node_error \<Rightarrow> bool" where
  "node_isInsufficientFunds e \<longleftrightarrow> is_node_error e \<and> ne_code e = ''INSUFFICIENT_FUNDS''"

record node_config =
  nc_gatewayUrl :: string
  nc_apiKey :: string
  nc_timeout :: "int option"
  nc_maxRetries :: "int option"
  nc_retryDelay :: "int option"

record node_client =
  n_base :: string
  n_key :: string
  n_timeout :: int
  n_maxRetries :: int
  n_retryDelay :: int

definition newNodeClient :: "node_config \<Rightarrow> node_client" where
  "newNodeClient cfg =
     \<lparr> n_base = drop_slash (nc_gatewayUrl cfg), n_key = nc_apiKey cfg,
       n_timeout = or_else (nc_timeout cfg) 30000, n_maxRetries = or_else (nc_maxRetries cfg) 3,
       n_retryDelay = or_else (nc_retryDelay cfg) 500 \<rparr>"

section \<open>HTTP internals\<close>

definition node_http_request ::
  "node_client \<Rightarrow> string \<Rightarrow> string \<Rightarrow> json option \<Rightarrow> bool \<Rightarrow> string option \<Rightarrow> http_request" where
  "node_http_request c verb path body authenticated key =
     \<lparr> rq_method = verb, rq_url = n_base c @ path,
       rq_headers = [(''Content-Type'', ''application/json''), (''Accept'', ''application/json'')] @
         (if authenticated then [(''Authorization'', ''Bearer '' @ n_key c)] else []) @
         (case key of Some k \<Rightarrow> [(''Idempotency-Key'', k)] | None \<Rightarrow> []),
       rq_body = map_option stringify body \<rparr>"

text \<open>\<open>data?.error?.message\<close> and \<open>data?.error?.code\<close>.\<close>

definition node_error_member :: "string \<Rightarrow> json \<Rightarrow> string option" where
  "node_error_member k data = (case jget ''error'' data of Some e \<Rightarrow> str_member k e | None \<Rightarrow> None)"

definition executeRequest ::
  "ext \<Rightarrow> node_client \<Rightarrow> string \<Rightarrow> string \<Rightarrow> json option \<Rightarrow> bool \<Rightarrow> string option \<Rightarrow> cstate \<Rightarrow>
   (node_error + json) \<times> cstate" where
  "executeRequest X c verb path body authenticated key s =
     (case fetch X (node_http_request c verb path body authenticated key) s of
        (FetchFails m, s1) \<Rightarrow> (Inl (NodeJsError m), s1)
      | (Answer r, s1) \<Rightarrow>
          (case rs_body r of
             None \<Rightarrow> (Inl (NodeJsError ''SyntaxError''), s1)
           | Some data \<Rightarrow>
               (if \<not> res_ok r then
                  (Inl (NodeError (or_else (node_error_member ''message'' data) (''HTTP '' @ int_str (rs_status r)))
                     (or_else (node_error_member ''code'' data) ''UNKNOWN'') (rs_status r)), s1)
                else (Inr data, s1))))"

definition node_shouldRetry :: "node_client \<Rightarrow> int \<Rightarrow> int \<Rightarrow> bool" where
  "node_shouldRetry c status attempt =
     (if attempt \<ge> n_maxRetries c then False
      else status = 429 \<or> status = 502 \<or> status = 503 \<or> status = 504)"

definition node_retryable :: "node_client \<Rightarrow> node_error \<Rightarrow> int \<Rightarrow> bool" where
  "node_retryable c e attempt \<longleftrightarrow> is_node_error e \<and> node_shouldRetry c (ne_status e) attempt"

definition node_wait :: "int \<Rightarrow> int \<Rightarrow> cstate \<Rightarrow> cstate" where
  "node_wait delay attempt s =
     (if attempt > 0 then s\<lparr>waits := waits s @ [delay * 2 ^ nat (attempt - 1)]\<rparr> else s)"

text \<open>The hooks take errors of the SDK's type; an error is passed on as one.\<close>

definition hook_error :: "node_error \<Rightarrow> sdk_error" where
  "hook_error e = (case e of NodeError m code st \<Rightarrow> ApiError st code m | NodeJsError m \<Rightarrow> JsError m
     | NodeUndefined \<Rightarrow> Undefined)"

text \<open>The body of the loop: the request hook, the request, and the response hook.\<close>

definition node_attempt ::
  "ext \<Rightarrow> node_client \<Rightarrow> string \<Rightarrow> string \<Rightarrow> json option \<Rightarrow> bool \<Rightarrow> string option \<Rightarrow> int \<Rightarrow> cstate \<Rightarrow>
   (node_error + json) \<times> cstate" where
  "node_attempt X c verb path body authenticated key attempt s =
     (case date_now X (call_hook (OnRequest verb path attempt) s) of (t0, s1) \<Rightarrow>
        (case executeRequest X c verb path body authenticated key s1 of
           (Inl e, s2) \<Rightarrow> (Inl e, s2)
         | (Inr v, s2) \<Rightarrow>
             (case date_now X s2 of (t1, s3) \<Rightarrow>
                (Inr v, call_hook (OnResponse verb path 200 (t1 - t0)) s3))))"

function node_loop ::
  "ext \<Rightarrow> node_client \<Rightarrow> string \<Rightarrow> string \<Rightarrow> json option \<Rightarrow> bool \<Rightarrow> string option \<Rightarrow> int \<Rightarrow>
   node_error option \<Rightarrow> cstate \<Rightarrow> (node_error + json) \<times> cstate" where
  "node_loop X c verb path body authenticated key attempt lastError s =
     (if attempt \<le> n_maxRetries c then
        (case node_attempt X c verb path body authenticated key attempt
                (node_wait (n_retryDelay c) attempt s) of
           (Inr v, s1) \<Rightarrow> (Inr v, s1)
         | (Inl e, s1) \<Rightarrow>
             (if node_retryable c e attempt
              then node_loop X c verb path body authenticated key (attempt + 1) (Some e) s1
              else (Inl e, call_hook (OnError verb path (hook_error e) (attempt + 1)) s1)))
      else
        (let e = or_else lastError NodeUndefined in
         (Inl e, call_hook (OnError verb path (hook_error e) (n_maxRetries c + 1)) s)))"
  by pat_completeness auto
termination
  by (relation "measure (\<lambda>(X, c, m, p, b, a, k, attempt, l, s). nat (n_maxRetries c + 1 - attempt))")
     auto

declare node_loop.simps [simp del]

definition node_key :: "ext \<Rightarrow> string \<Rightarrow> cstate \<Rightarrow> string option \<times> cstate" where
  "node_key X verb s =
     (if verb = ''POST'' then (case random_uuid X s of (u, s1) \<Rightarrow> (Some u, s1)) else (None, s))"

definition node_request ::
  "ext \<Rightarrow> node_client \<Rightarrow> string \<Rightarrow> string \<Rightarrow> json option \<Rightarrow> bool \<Rightarrow> cstate \<Rightarrow>
   (node_error + json) \<times> cstate" where
  "node_request X c verb path body authenticated s =
     (case node_key X verb s of (key, s1) \<Rightarrow>
        node_loop X c verb path body authenticated key 0 None s1)"

type_synonym node_call = "cstate \<Rightarrow> (node_error + json) \<times> cstate"

definition node_post :: "ext \<Rightarrow> node_client \<Rightarrow> string \<Rightarrow> json \<Rightarrow> node_call" where
  "node_post X c path body = node_request X c ''POST'' path (Some body) True"

definition node_get :: "ext \<Rightarrow> node_client \<Rightarrow> string \<Rightarrow> node_call" where
  "node_get X c path = node_request X c ''GET'' path None True"

section \<open>Endpoints\<close>

record node_link_params =
  nl_merchant_id :: string
  nl_wallet_id :: string
  nl_amount_minor :: "int option"
  nl_currency :: string
  nl_description :: "string option"
  nl_expires_at :: "string option"

definition node_createPaymentLink :: "ext \<Rightarrow> node_client \<Rightarrow> node_link_params \<Rightarrow> node_call" where
  "node_createPaymentLink X c p = node_post X c ''/v1/payment-links'' (JObj
     ([(''merchant_id'', JStr (nl_merchant_id p)), (''wallet_id'', JStr (nl_wallet_id p))] @
      opt_member ''amount_minor'' jint (nl_amount_minor p) @ [(''currency'', JStr (nl_currency p))] @
      opt_member ''description'' JStr (nl_description p) @ opt_member ''expires_at'' JStr (nl_expires_at p)))"

text \<open>The listing query: merchant, limit (20 unless given), and a non-empty cursor.\<close>

definition node_list_query :: "string \<Rightarrow> int option \<Rightarrow> string option \<Rightarrow> string" where
  "node_list_query merchantId limit cursor =
     query_string ([(''merchant_id'', merchantId), (''limit'', int_str (or_else limit 20))] @
       (case cursor of Some c \<Rightarrow> if c = [] then [] else [(''cursor'', c)] | None \<Rightarrow> []))"

definition node_listPaymentLinks ::
  "ext \<Rightarrow> node_client \<Rightarrow> string \<Rightarrow> int option \<Rightarrow> string option \<Rightarrow> node_call" where
  "node_listPaymentLinks X c merchantId limit cursor =
     node_get X c (''/v1/payment-links?'' @ node_list_query merchantId limit cursor)"

definition node_getPaymentLink :: "ext \<Rightarrow> node_client \<Rightarrow> string \<Rightarrow> node_call" where
  "node_getPaymentLink X c ident = node_get X c (''/v1/payment-links/'' @ ident)"

definition node_cancelPaymentLink :: "ext \<Rightarrow> node_client \<Rightarrow> string \<Rightarrow> node_call" where
  "node_cancelPaymentLink X c ident = node_post X c (''/v1/payment-links/'' @ ident @ ''/cancel'') (JObj [])"

record node_transaction_params =
  nt_wallet_id :: string
  nt_amount_minor :: int
  nt_currency :: string
  nt_description :: "string option"
  nt_idempotency_key :: "string option"

definition node_createTransaction :: "ext \<Rightarrow> node_client \<Rightarrow> node_transaction_params \<Rightarrow> node_call" where
  "node_createTransaction X c p = node_post X c ''/v1/transactions'' (JObj
     ([(''wallet_id'', JStr (nt_wallet_id p)), (''amount_minor'', jint (nt_amount_minor p)),
       (''currency'', JStr (nt_currency p))] @ opt_member ''description'' JStr (nt_description p) @
      opt_member ''idempotency_key'' JStr (nt_idempotency_key p)))"

definition node_getTransaction :: "ext \<Rightarrow> node_client \<Rightarrow> string \<Rightarrow> node_call" where
  "node_getTransaction X c ident = node_get X c (''/v1/transactions/'' @ ident)"

definition node_listTransactions ::
  "ext \<Rightarrow> node_client \<Rightarrow> string \<Rightarrow> int option \<Rightarrow> string option \<Rightarrow> node_call" where
  "node_listTransactions X c merchantId limit cursor =
     node_get X c (''/v1/transactions?'' @ node_list_query merchantId limit cursor)"

definition node_provisionWallet :: "ext \<Rightarrow> node_client \<Rightarrow> string \<Rightarrow> string \<Rightarrow> node_call" where
  "node_provisionWallet X c merchantId currency = node_post X c ''/v1/wallets''
     (JObj [(''merchant_id'', JStr merchantId), (''currency'', JStr currency)])"

definition node_getWallet :: "ext \<Rightarrow> node_client \<Rightarrow> string \<Rightarrow> node_call" where
  "node_getWallet X c ident = node_get X c (''/v1/wallets/'' @ ident)"

definition node_getWalletBalance :: "ext \<Rightarrow> node_client \<Rightarrow> string \<Rightarrow> node_call" where
  "node_getWalletBalance X c ident = node_get X c (''/v1/wallets/'' @ ident @ ''/balance'')"

record node_payout_params =
  np_wallet_id :: string
  np_amount_minor :: int
  np_currency :: string
  np_destination_bank_account :: string
  np_idempotency_key :: "string option"

definition node_createPayout :: "ext \<Rightarrow> node_client \<Rightarrow> node_payout_params \<Rightarrow> node_call" where
  "node_createPayout X c p = node_post X c ''/v1/payouts'' (JObj
     ([(''wallet_id'', JStr (np_wallet_id p)), (''amount_minor'', jint (np_amount_minor p)),
       (''currency'', JStr (np_currency p)),
       (''destination_bank_account'', JStr (np_destination_bank_account p))] @
      opt_member ''idempotency_key'' JStr (np_idempotency_key p)))"

definition node_listPayouts ::
  "ext \<Rightarrow> node_client \<Rightarrow> string \<Rightarrow> int option \<Rightarrow> string option \<Rightarrow> node_call" where
  "node_listPayouts X c merchantId limit cursor =
     node_get X c (''/v1/payouts?'' @ node_list_query merchantId limit cursor)"

definition node_getPayout :: "ext \<Rightarrow> node_client \<Rightarrow> string \<Rightarrow> node_call" where
  "node_getPayout X c ident = node_get X c (''/v1/payouts/'' @ ident)"

definition node_getMerchant :: "ext \<Rightarrow> node_client \<Rightarrow> string \<Rightarrow> node_call" where
  "node_getMerchant X c ident = node_get X c (''/v1/merchants/'' @ ident)"

definition node_resolvePaymentLink :: "ext \<Rightarrow> node_client \<Rightarrow> string \<Rightarrow> node_call" where
  "node_resolvePaymentLink X c slug = node_request X c ''GET'' (''/v1/public/pay/'' @ slug) None False"

section \<open>Money helpers\<close>

text \<open>\<open>Math.round\<close>: half a unit rounds up.\<close>

definition js_round :: "rat \<Rightarrow> int" where
  "js_round x = \<lfloor>x + 1 / 2\<rfloor>"

definition node_formatAmount ::
  "(int \<Rightarrow> string) \<Rightarrow> (string \<Rightarrow> rat \<Rightarrow> string) \<Rightarrow> int \<Rightarrow> string \<Rightarrow> string" where
  "node_formatAmount toLocale intl amountMinor currency =
     (if js_upper currency = ''AOA'' then toLocale amountMinor @ '' Kz''
      else intl currency (of_int amountMinor / 100))"

definition node_toMinorUnits :: "rat \<Rightarrow> string \<Rightarrow> int" where
  "node_toMinorUnits major currency =
     (if js_upper currency = ''AOA'' then js_round major else js_round (major * 100))"

section \<open>Webhooks\<close>

definition node_verifyWebhook ::
  "(string \<Rightarrow> string \<Rightarrow> string) \<Rightarrow> raw_body \<Rightarrow> string \<Rightarrow> string \<Rightarrow> bool" where
  "node_verifyWebhook hmac rawBody signature secret =
     (if signature = [] \<or> blank secret then False
      else
        (let expected = ''sha256='' @ hmac secret (body_bytes rawBody);
             sigBuf = utf8_bytes signature; expBuf = utf8_bytes expected
         in if length sigBuf \<noteq> length expBuf then False else sigBuf = expBuf))"

datatype signature_value = NoSignature | OneSignature string | Signatures "string list"

definition node_parseWebhook ::
  "(string \<Rightarrow> string \<Rightarrow> string) \<Rightarrow> raw_body \<Rightarrow> signature_value \<Rightarrow> string \<Rightarrow> json option" where
  "node_parseWebhook hmac rawBody signature secret =
     (let sig = (case signature of NoSignature \<Rightarrow> [] | OneSignature s \<Rightarrow> s
                 | Signatures ss \<Rightarrow> (case ss of [] \<Rightarrow> [] | s # _ \<Rightarrow> s))
      in if \<not> node_verifyWebhook hmac rawBody sig secret then None else json_parse (body_text rawBody))"

section \<open>Lemmas\<close>

interpretation node_retry: retry_loop
  "\<lambda>n s. node_attempt X c verb path body authenticated key n s" "node_retryable c" "node_wait (n_retryDelay c)"
  "\<lambda>n e s. call_hook (OnError verb path (hook_error e) (n + 1)) s"
  "node_loop X c verb path body authenticated key" "n_maxRetries c"
  for X c verb path body authenticated key
  by unfold_locales
     (auto simp: node_loop.simps [of X c verb path body authenticated key] node_retryable_def
       node_shouldRetry_def split: sum.splits prod.splits)

lemma node_attempt_sent:
  "sent (snd (node_attempt X c verb path body authenticated key n s)) =
     sent s @ [node_http_request c verb path body authenticated key]"
  by (auto simp: node_attempt_def executeRequest_def fetch_def date_now_def
      split: fetch_result.splits option.splits sum.splits prod.splits if_splits)

lemma node_wait_sent [simp]: "sent (node_wait d n s) = sent s"
  by (simp add: node_wait_def)

lemma node_key_frame: "node_key X verb s = (key, s1) \<Longrightarrow> sent s1 = sent s"
  by (auto simp: node_key_def random_uuid_def split: if_splits)

interpretation node_hook: webhook_verifier hmac
  "\<lambda>secret header body. node_verifyWebhook hmac (Bytes body) header secret" "drop 7" "\<lambda>header body. body"
  for hmac
  by unfold_locales (auto simp: node_verifyWebhook_def body_bytes_def Let_def split: if_splits)

section \<open>Properties\<close>

text \<open>
  A call of the plugin sends one request, repeated: every request of a call is the same request
  (verb, URL, body, headers), at most one more time than there are retries, and it carries an
  idempotency key exactly when it is a POST.
\<close>

theorem node_repeats_one_request:
  assumes "0 \<le> n_maxRetries c" and "node_request X c verb path body authenticated s = (res, s')"
  shows "\<exists>n key. n \<le> nat (n_maxRetries c + 1) \<and> (key \<noteq> None \<longleftrightarrow> verb = ''POST'') \<and>
    new_requests s s' = replicate n (node_http_request c verb path body authenticated key)"
proof -
  obtain key s1 where k: "node_key X verb s = (key, s1)" by fastforce
  let ?r = "node_http_request c verb path body authenticated key"
  let ?run = "node_loop X c verb path body authenticated key 0 None s1"
  have run: "snd ?run = s'" using assms(2) k by (simp add: node_request_def)
  have "\<exists>n. sent (snd ?run) = sent s1 @ replicate n ?r"
    by (rule node_retry.loop_invariant [OF assms(1)])
      (auto simp: node_attempt_sent replicate_append_same [symmetric] intro: exI [of _ 0] exI [of _ "Suc n" for n])
  then obtain n where n: "sent (snd ?run) = sent s1 @ replicate n ?r" by blast
  have "length (sent (snd ?run)) \<le> length (sent s1) + 1 * nat (n_maxRetries c + 1 - 0)"
    by (rule node_retry.loop_cost [OF assms(1)]) (simp_all add: node_attempt_sent)
  moreover have "sent s1 = sent s" "key \<noteq> None \<longleftrightarrow> verb = ''POST''"
    using node_key_frame [OF k] k by (auto simp: node_key_def random_uuid_def split: if_splits)
  ultimately show ?thesis
    using n unfolding run by (intro exI [of _ n] exI [of _ key]) (simp add: new_requests_def)
qed

definition demo_node :: node_client where
  "demo_node = \<lparr> n_base = ''https://x'', n_key = ''k'', n_timeout = 30000, n_maxRetries = 2, n_retryDelay = 500 \<rparr>"

theorem node_repeats_one_request_witness:
  "\<exists>n key. n \<le> 3 \<and> key \<noteq> None \<and>
     new_requests init_state (snd (node_request demo_ext demo_node ''POST'' ''/v1/x'' None True init_state)) =
       replicate n (node_http_request demo_node ''POST'' ''/v1/x'' None True key)"
  using node_repeats_one_request
    [of demo_node demo_ext "''POST''" "''/v1/x''" None True init_state _
      "snd (node_request demo_ext demo_node ''POST'' ''/v1/x'' None True init_state)", OF _ surjective_pairing]
  by (simp add: demo_node_def)

text \<open>
  The plugin does not retry a transient failure whose body is not JSON: an answer with status
  429, 502, 503 or 504 and a non-JSON body (what a proxy in front of the gateway sends) ends the
  call after that attempt with a syntax error, whatever the retry budget.
\<close>

theorem node_nonjson_not_retried:
  assumes "0 \<le> n_maxRetries c" and "net X (length (sent s)) = (\<lambda>_. Answer r)" and "rs_body r = None"
  shows "fst (node_request X c verb path body authenticated s) = Inl (NodeJsError ''SyntaxError'') \<and>
    length (new_requests s (snd (node_request X c verb path body authenticated s))) = 1"
proof -
  obtain key s1 where k: "node_key X verb s = (key, s1)" by fastforce
  have e: "fst (node_attempt X c verb path body authenticated key 0 (node_wait (n_retryDelay c) 0 s1)) =
      Inl (NodeJsError ''SyntaxError'')"
    using assms(2,3) node_key_frame [OF k]
    by (simp add: node_attempt_def executeRequest_def fetch_def date_now_def node_wait_def)
  obtain s2 where a: "node_attempt X c verb path body authenticated key 0 (node_wait (n_retryDelay c) 0 s1) =
      (Inl (NodeJsError ''SyntaxError''), s2)" using e by (metis prod.collapse)
  have "sent s2 = sent s @ [node_http_request c verb path body authenticated key]"
    using node_attempt_sent [of X c verb path body authenticated key 0 "node_wait (n_retryDelay c) 0 s1"]
      a node_key_frame [OF k] by simp
  then show ?thesis
    using assms(1) k a
    by (simp add: node_request_def node_loop.simps [of X c verb path body authenticated key 0 None]
        node_retryable_def is_node_error_def new_requests_def)
qed

theorem node_nonjson_not_retried_witness:
  "fst (node_request (demo_ext\<lparr>net := \<lambda>_ _. Answer \<lparr> rs_status = 503, rs_statusText = [], rs_body = None \<rparr>\<rparr>)
     demo_node ''GET'' ''/v1/x'' None True init_state) = Inl (NodeJsError ''SyntaxError'')"
  using node_nonjson_not_retried
    [of demo_node "demo_ext\<lparr>net := \<lambda>_ _. Answer \<lparr> rs_status = 503, rs_statusText = [], rs_body = None \<rparr>\<rparr>"
      init_state "\<lparr> rs_status = 503, rs_statusText = [], rs_body = None \<rparr>" "''GET''" "''/v1/x''" None True]
  by (simp add: demo_node_def)

text \<open>
  The plugin's webhook check and the platform's signature do not meet: it accepts exactly the
  header \<open>sha256=\<close> followed by the hash of the body, so it refuses every \<open>banza-signature\<close> header
  the SDK generates for that body and secret, which the SDK itself accepts; and under a
  collision-free hash a header it accepts authenticates one body only.
\<close>

theorem node_refuses_canonical_signature:
  "(node_verifyWebhook hmac body header secret \<longleftrightarrow>
      \<not> blank secret \<and> header = ''sha256='' @ hmac secret (body_bytes body)) \<and>
   \<not> node_verifyWebhook hmac body (generateTestSignature hmac n body secret ts) secret \<and>
   (collision_free hmac secret \<and> node_verifyWebhook hmac (Bytes b) header secret \<and>
      node_verifyWebhook hmac (Bytes b') header secret \<longrightarrow> b = b')"
proof (intro conjI)
  have iff: "node_verifyWebhook hmac body h secret \<longleftrightarrow> \<not> blank secret \<and> h = ''sha256='' @ hmac secret (body_bytes body)" for h
    by (auto simp: node_verifyWebhook_def Let_def)
  show "node_verifyWebhook hmac body header secret \<longleftrightarrow>
      \<not> blank secret \<and> header = ''sha256='' @ hmac secret (body_bytes body)" by (rule iff)
  show "\<not> node_verifyWebhook hmac body (generateTestSignature hmac n body secret ts) secret"
    by (simp add: iff generateTestSignature_def Let_def)
  show "collision_free hmac secret \<and> node_verifyWebhook hmac (Bytes b) header secret \<and>
      node_verifyWebhook hmac (Bytes b') header secret \<longrightarrow> b = b'"
    using node_hook.one_body by blast
qed

theorem node_refuses_canonical_signature_witness:
  "node_verifyWebhook (\<lambda>k m. ''ab'') (Text ''x'') ''sha256=ab'' ''s''"
  using node_refuses_canonical_signature
    [of "\<lambda>k m. ''ab''" "Text ''x''" "''sha256=ab''" "''s''" 0 None "''x''" "''x''"]
  by (simp add: blank_iff js_ws_def)

text \<open>
  The plugin's kwanza amounts are a hundred times too small for the platform: the minor units
  \<open>toMinorUnits\<close> gives for a whole number of kwanzas are displayed by every Banzami surface as the
  number of kwanzas asked for only when that number is zero. For other currencies the cents agree.
\<close>

theorem node_minor_units_disagree:
  "(pay_formatMoneyDisplay (node_toMinorUnits (of_int k) ''AOA'') ''AOA'' =
      pay_formatMoneyDisplay (100 * k) ''AOA'' \<longleftrightarrow> k = 0) \<and>
   node_toMinorUnits (of_int k) ''USD'' = 100 * k"
proof -
  have "js_upper ''USD'' = ''USD''" by code_simp
  moreover have r: "js_round (of_int j) = j" for j
    unfolding js_round_def by linarith
  moreover have "js_round (of_int k * 100) = 100 * k"
    using r [of "100 * k"] by (simp add: mult.commute)
  ultimately have "node_toMinorUnits (of_int k) ''AOA'' = k" "node_toMinorUnits (of_int k) ''USD'' = 100 * k"
    by (simp_all add: node_toMinorUnits_def)
  then show ?thesis by (simp add: pay_money.display_inject)
qed

end
