(* ===== verification/Realtime.thy ===== *)
theory Realtime
  imports Complex_Main JsStd SdkClient
begin

text \<open>
  Watching a Payment Session's status over a fetch stream of server-sent events: the SDK's
  \<open>watchPaymentSessionStatus\<close> (sdk/typescript/src/realtime.ts) and the pages' \<open>watchStatus\<close>
  (apps/pay/lib/realtime-status.ts; apps/website/lib/realtime-status.ts has the same code).

  Both are asynchronous loops. Each is a step function whose inputs are what resumes the loop (an
  answer, a chunk, the end or failure of the stream, the reconnect timer) and a call of the closing
  function, in any order; a step runs the code up to its next \<open>await\<close>. A chunk is the text the
  streaming decoder gives for it. The caller's \<open>onStatus\<close> may itself close the watch: \<open>closes\<close>
  says for which statuses it does.
\<close>

section \<open>Numbers\<close>

text \<open>\<open>Number(text)\<close>: \<^const>\<open>None\<close> is \<open>NaN\<close>; an infinity is read as it too.\<close>

definition unsigned_number :: "string \<Rightarrow> rat option" where
  "unsigned_number s =
     (let mant = takeWhile (\<lambda>c. c \<noteq> CHR ''e'' \<and> c \<noteq> CHR ''E'') s;
          rest = dropWhile (\<lambda>c. c \<noteq> CHR ''e'' \<and> c \<noteq> CHR ''E'') s;
          whole = takeWhile (\<lambda>c. c \<noteq> CHR ''.'') mant;
          frac = drop 1 (dropWhile (\<lambda>c. c \<noteq> CHR ''.'') mant)
      in if list_all is_digit (whole @ frac) \<and> whole @ frac \<noteq> [] then
           map_option (\<lambda>e. of_nat (dec_val (whole @ frac)) *
               (if e \<ge> int (length frac) then 10 ^ nat (e - int (length frac))
                else 1 / 10 ^ nat (int (length frac) - e)))
             (if rest = [] then Some 0 else signed_digits (tl rest))
         else None)"

definition js_number :: "string \<Rightarrow> rat option" where
  "js_number t =
     (let s = js_trim t in
      if s = [] then Some 0
      else if prefix ''0x'' s \<or> prefix ''0X'' s then map_option of_int (radix_value 16 (drop 2 s))
      else if prefix ''0o'' s \<or> prefix ''0O'' s then map_option of_int (radix_value 8 (drop 2 s))
      else if prefix ''0b'' s \<or> prefix ''0B'' s then map_option of_int (radix_value 2 (drop 2 s))
      else if prefix ''-'' s then map_option uminus (unsigned_number (tl s))
      else if prefix ''+'' s then unsigned_number (tl s)
      else unsigned_number s)"

definition truthy :: "json \<Rightarrow> bool" where
  "truthy v = (case v of JNull \<Rightarrow> False | JBool b \<Rightarrow> b | JNum t \<Rightarrow> js_number t \<noteq> Some 0
     | JStr s \<Rightarrow> s \<noteq> [] | _ \<Rightarrow> True)"

section \<open>Frames\<close>

definition nl :: char where
  "nl = CHR 0x0A"

text \<open>The text before the first empty line and the text after it.\<close>

fun frame_cut :: "string \<Rightarrow> (string \<times> string) option" where
  "frame_cut (x # y # s) =
     (if x = nl \<and> y = nl then Some ([], s)
      else map_option (\<lambda>(raw, r). (x # raw, r)) (frame_cut (y # s)))"
| "frame_cut s = None"

lemma frame_cut_shorter: "frame_cut s = Some (raw, r) \<Longrightarrow> length r < length s"
  by (induction s arbitrary: raw rule: frame_cut.induct) (fastforce split: if_splits)+

lemma frame_cut_append: "frame_cut s = Some (raw, r) \<Longrightarrow> frame_cut (s @ t) = Some (raw, r @ t)"
  by (induction s arbitrary: raw rule: frame_cut.induct) (fastforce split: if_splits)+

text \<open>One line of a frame of the SDK's reader: event name, data lines, reconnect delay.\<close>

definition sdk_line :: "string \<Rightarrow> string \<times> string list \<times> rat \<Rightarrow> string \<times> string list \<times> rat" where
  "sdk_line line st = (case st of (event, data, retryMs) \<Rightarrow>
     if startsWith line '':'' then st
     else if startsWith line ''retry:'' then
       (case js_number (js_trim (drop 6 line)) of
          Some n \<Rightarrow> if n > 0 then (event, data, n) else st
        | None \<Rightarrow> st)
     else if startsWith line ''event:'' then (js_trim (drop 6 line), data, retryMs)
     else if startsWith line ''data:'' then (event, data @ [trim_start (drop 5 line)], retryMs)
     else st)"

definition sdk_frame :: "string \<Rightarrow> rat \<Rightarrow> string \<times> string list \<times> rat" where
  "sdk_frame raw retryMs = fold sdk_line (split_on nl raw) (''message'', [], retryMs)"

text \<open>A frame of the pages' reader; its \<open>retry\<close> is \<^const>\<open>None\<close> when it is not a truthy number.\<close>

record page_frame =
  f_event :: string
  f_data :: "string list"
  f_retry :: "rat option"

definition page_line :: "string \<Rightarrow> page_frame \<Rightarrow> page_frame" where
  "page_line line f =
     (if startsWith line '':'' then f
      else if startsWith line ''retry:'' then
        f\<lparr>f_retry := (case js_number (js_trim (drop 6 line)) of
            Some n \<Rightarrow> if n = 0 then None else Some n | None \<Rightarrow> None)\<rparr>
      else if startsWith line ''event:'' then f\<lparr>f_event := js_trim (drop 6 line)\<rparr>
      else if startsWith line ''data:'' then f\<lparr>f_data := f_data f @ [trim_start (drop 5 line)]\<rparr>
      else f)"

definition page_frame_of :: "string \<Rightarrow> page_frame" where
  "page_frame_of raw =
     fold page_line (split_on nl raw) \<lparr> f_event = ''message'', f_data = [], f_retry = None \<rparr>"

definition frame_text :: "string list \<Rightarrow> string" where
  "frame_text data = join_with [nl] data"

function parseFrames :: "string \<Rightarrow> page_frame list \<times> string" where
  "parseFrames buffer =
     (case frame_cut buffer of
        None \<Rightarrow> ([], buffer)
      | Some (raw, rst) \<Rightarrow> (case parseFrames rst of (fs, r) \<Rightarrow> (page_frame_of raw # fs, r)))"
  by pat_completeness auto
termination by (relation "measure length") (auto dest: frame_cut_shorter)

declare parseFrames.simps [simp del]

section \<open>The loop's inputs, state and trace\<close>

record rt_response =
  rr_status :: int
  rr_statusText :: string
  rr_has_body :: bool
  rr_json :: "json option"

definition rr_ok :: "rt_response \<Rightarrow> bool" where
  "rr_ok r \<longleftrightarrow> 200 \<le> rr_status r \<and> rr_status r \<le> 299"

datatype rt_input =
    Responded rt_response
  | Chunk string
  | StreamEnd
  | Rejected string
  | TimerFired
  | CloseCalled

datatype rt_phase = Fetching | Reading string | Waiting | Stopped

datatype 'e rt_call = OnStatus json string | OnEnd 'e

record 'e watch =
  w_phase :: rt_phase
  w_saw :: bool
  w_failures :: int
  w_retry :: rat
  w_ended :: bool
  w_calls :: "'e rt_call list"
  w_requests :: "http_request list"
  w_sleeps :: "rat list"

datatype flow = Go | Return | Throw sdk_error

definition rt_request :: "string option \<Rightarrow> string \<Rightarrow> string \<Rightarrow> http_request" where
  "rt_request baseUrl sessionId token =
     \<lparr> rq_method = ''GET'',
       rq_url = drop_slash (or_else baseUrl ''https://sandbox-api.banzami.com'') @
         ''/v1/realtime/payment-sessions/'' @ encodeURIComponent sessionId,
       rq_headers = [(''Authorization'', ''Bearer '' @ token), (''Accept'', ''text/event-stream'')],
       rq_body = None \<rparr>"

definition new_watch :: "'e watch" where
  "new_watch = \<lparr> w_phase = Fetching, w_saw = False, w_failures = 0, w_retry = 3000, w_ended = False,
     w_calls = [], w_requests = [], w_sleeps = [] \<rparr>"

text \<open>\<open>finish\<close> and \<open>end\<close>: the first reason is reported, once.\<close>

definition rt_end :: "'e \<Rightarrow> 'e watch \<Rightarrow> 'e watch" where
  "rt_end e w = (if w_ended w then w else w\<lparr>w_ended := True, w_calls := w_calls w @ [OnEnd e]\<rparr>)"

definition rt_stop :: "'e watch \<Rightarrow> 'e watch" where
  "rt_stop w = w\<lparr>w_phase := Stopped\<rparr>"

text \<open>The top of the loop: \<open>while (!ended)\<close> and the request.\<close>

definition rt_connect :: "http_request \<Rightarrow> 'e watch \<Rightarrow> 'e watch" where
  "rt_connect rq w =
     (if w_ended w then rt_stop w
      else w\<lparr>w_phase := Fetching, w_saw := False, w_requests := w_requests w @ [rq]\<rparr>)"

text \<open>The end of the loop's body: the pause before the next connection.\<close>

definition rt_pause :: "'e watch \<Rightarrow> 'e watch" where
  "rt_pause w = w\<lparr>w_phase := Waiting,
     w_sleeps := w_sleeps w @ [w_retry w * of_int (max 1 (w_failures w))]\<rparr>"

text \<open>The caller's \<open>onStatus\<close>, which may close the watch with its reason for that.\<close>

definition rt_status :: "'e \<Rightarrow> (json \<Rightarrow> bool) \<Rightarrow> json \<Rightarrow> string \<Rightarrow> 'e watch \<Rightarrow> 'e watch" where
  "rt_status reason closes s kind w =
     (let w1 = w\<lparr>w_calls := w_calls w @ [OnStatus s kind]\<rparr>
      in if closes s then rt_end reason w1 else w1)"

definition is_terminal :: "json \<Rightarrow> bool" where
  "is_terminal s \<longleftrightarrow> (case jget ''terminal'' s of Some v \<Rightarrow> truthy v | None \<Rightarrow> False)"

section \<open>watchPaymentSessionStatus (the SDK)\<close>

datatype watch_end = Terminal json | TokenExpired | Closed | WatchError sdk_error

record watch_options =
  wo_sessionId :: string
  wo_token :: string
  wo_baseUrl :: "string option"
  wo_reconnect :: "bool option"
  wo_maxReconnects :: "int option"

definition no_reconnect :: "watch_options \<Rightarrow> bool" where
  "no_reconnect o1 \<longleftrightarrow> wo_reconnect o1 = Some False"

definition sdk_watch_request :: "watch_options \<Rightarrow> http_request" where
  "sdk_watch_request o1 = rt_request (wo_baseUrl o1) (wo_sessionId o1) (wo_token o1)"

text \<open>The pattern \<open>bz_(test|live)_(sk|pk)_\<close> at the start of the text.\<close>

definition looks_like_key :: "string \<Rightarrow> bool" where
  "looks_like_key t \<longleftrightarrow> list_ex (startsWith t)
     [''bz_test_sk_'', ''bz_test_pk_'', ''bz_live_sk_'', ''bz_live_pk_'']"

definition watchPaymentSessionStatus :: "watch_options \<Rightarrow> sdk_error + watch_end watch" where
  "watchPaymentSessionStatus o1 =
     (if looks_like_key (wo_token o1) \<or> \<not> startsWith (wo_token o1) ''bzst_''
      then Inl (ConfigError ''watchPaymentSessionStatus takes the session status token, never an API key.'')
      else Inr (rt_connect (sdk_watch_request o1) new_watch))"

text \<open>What follows an exhausted stream or a tolerated failure.\<close>

definition sdk_after :: "watch_options \<Rightarrow> watch_end watch \<Rightarrow> watch_end watch" where
  "sdk_after o1 w =
     (if w_ended w then rt_stop w
      else if no_reconnect o1 then rt_stop (rt_end Closed w)
      else rt_pause w)"

definition sdk_catch :: "watch_options \<Rightarrow> sdk_error \<Rightarrow> watch_end watch \<Rightarrow> watch_end watch" where
  "sdk_catch o1 e w =
     (if w_ended w then rt_stop w
      else
        (let w1 = (if \<not> w_saw w then w\<lparr>w_failures := w_failures w + 1\<rparr> else w)
         in if no_reconnect o1 \<or> w_failures w1 > or_else (wo_maxReconnects o1) 5
            then rt_stop (rt_end (WatchError e) w1)
            else sdk_after o1 w1))"

definition sdk_respond :: "watch_options \<Rightarrow> rt_response \<Rightarrow> watch_end watch \<Rightarrow> watch_end watch" where
  "sdk_respond o1 r w =
     (if \<not> rr_ok r \<or> \<not> rr_has_body r then
        (let code = or_else (Option.bind (rr_json r) (str_member ''code'')) ''UNKNOWN'';
             message = or_else (Option.bind (rr_json r) (str_member ''message'')) (rr_statusText r);
             err = ApiError (rr_status r) code message
         in if code = ''REALTIME_TOKEN_EXPIRED'' then rt_stop (rt_end TokenExpired w)
            else if rr_status r \<noteq> 429 \<and> rr_status r < 500 then rt_stop (rt_end (WatchError err) w)
            else sdk_catch o1 err w)
      else w\<lparr>w_phase := Reading []\<rparr>)"

text \<open>A frame, once its lines are read.\<close>

definition sdk_handle ::
  "(json \<Rightarrow> bool) \<Rightarrow> string \<Rightarrow> string list \<Rightarrow> watch_end watch \<Rightarrow> watch_end watch \<times> flow" where
  "sdk_handle closes event data w =
     (if event = ''expired'' then (rt_end TokenExpired w, Return)
      else if (event = ''snapshot'' \<or> event = ''status'') \<and> data \<noteq> [] then
        (case json_parse (frame_text data) of
           None \<Rightarrow> (w, Throw (JsError ''SyntaxError''))
         | Some status \<Rightarrow>
             (let w1 = rt_status Closed closes status event (w\<lparr>w_saw := True, w_failures := 0\<rparr>)
              in if status = JNull then (w1, Throw (JsError ''TypeError''))
                 else if is_terminal status then (rt_end (Terminal status) w1, Return)
                 else (w1, Go)))
      else (w, Go))"

text \<open>The frames of the buffer: what is left of it, and how the loop over them ends.\<close>

function sdk_frames ::
  "(json \<Rightarrow> bool) \<Rightarrow> string \<Rightarrow> watch_end watch \<Rightarrow> string \<times> watch_end watch \<times> flow" where
  "sdk_frames closes buffer w =
     (case frame_cut buffer of
        None \<Rightarrow> (buffer, w, Go)
      | Some (frame, rst) \<Rightarrow>
          (case sdk_frame frame (w_retry w) of
             (event, data, retryMs) \<Rightarrow>
               (case sdk_handle closes event data (w\<lparr>w_retry := retryMs\<rparr>) of
                  (w1, Go) \<Rightarrow> sdk_frames closes rst w1
                | (w1, fl) \<Rightarrow> (rst, w1, fl))))"
  by pat_completeness auto
termination
  by (relation "measure (\<lambda>(c, b, w). length b)") (auto dest: frame_cut_shorter)

declare sdk_frames.simps [simp del]

definition sdk_step ::
  "watch_options \<Rightarrow> (json \<Rightarrow> bool) \<Rightarrow> watch_end watch \<Rightarrow> rt_input \<Rightarrow> watch_end watch" where
  "sdk_step o1 closes w input =
     (case input of
        CloseCalled \<Rightarrow> rt_end Closed w
      | Responded r \<Rightarrow> if w_phase w = Fetching then sdk_respond o1 r w else w
      | Chunk text \<Rightarrow>
          (case w_phase w of
             Reading buffer \<Rightarrow>
               (case sdk_frames closes (buffer @ text) w of
                  (rst, w1, Go) \<Rightarrow> w1\<lparr>w_phase := Reading rst\<rparr>
                | (rst, w1, Return) \<Rightarrow> rt_stop w1
                | (rst, w1, Throw e) \<Rightarrow> sdk_catch o1 e w1)
           | _ \<Rightarrow> w)
      | StreamEnd \<Rightarrow> (case w_phase w of Reading _ \<Rightarrow> sdk_after o1 w | _ \<Rightarrow> w)
      | Rejected m \<Rightarrow>
          (case w_phase w of Fetching \<Rightarrow> sdk_catch o1 (JsError m) w
           | Reading _ \<Rightarrow> sdk_catch o1 (JsError m) w | _ \<Rightarrow> w)
      | TimerFired \<Rightarrow> if w_phase w = Waiting then rt_connect (sdk_watch_request o1) w else w)"

section \<open>watchStatus (the payment page and the Console)\<close>

datatype realtime_end = PageTerminal | PageTokenExpired | PageClosed | PageError string

record page_options =
  po_sessionId :: string
  po_token :: string
  po_baseUrl :: "string option"

definition page_request :: "page_options \<Rightarrow> http_request" where
  "page_request o1 = rt_request (po_baseUrl o1) (po_sessionId o1) (po_token o1)"

text \<open>A text that is not a status token ends the watch before anything is sent.\<close>

definition watchStatus :: "page_options \<Rightarrow> realtime_end watch" where
  "watchStatus o1 =
     (if \<not> startsWith (po_token o1) ''bzst_'' then rt_stop (rt_end (PageError ''not a status token'') new_watch)
      else rt_connect (page_request o1) new_watch)"

definition page_after :: "realtime_end watch \<Rightarrow> realtime_end watch" where
  "page_after w = (if w_ended w then rt_stop w else rt_pause w)"

definition page_catch :: "string \<Rightarrow> realtime_end watch \<Rightarrow> realtime_end watch" where
  "page_catch message w =
     (if w_ended w then rt_stop w
      else
        (let w1 = w\<lparr>w_failures := w_failures w + 1\<rparr>
         in if w_failures w1 > 5 then rt_stop (rt_end (PageError message) w1) else page_after w1))"

definition page_respond :: "rt_response \<Rightarrow> realtime_end watch \<Rightarrow> realtime_end watch" where
  "page_respond r w =
     (if \<not> rr_ok r \<or> \<not> rr_has_body r then
        (let code = or_else (Option.bind (rr_json r) (str_member ''code'')) [];
             reason = (if code = [] then int_str (rr_status r) else code)
         in if code = ''REALTIME_TOKEN_EXPIRED'' then rt_stop (rt_end PageTokenExpired w)
            else if rr_status r < 500 \<and> rr_status r \<noteq> 429 then rt_stop (rt_end (PageError reason) w)
            else page_catch reason w)
      else w\<lparr>w_phase := Reading []\<rparr>)"

definition page_handle ::
  "(json \<Rightarrow> bool) \<Rightarrow> page_frame \<Rightarrow> realtime_end watch \<Rightarrow> realtime_end watch \<times> flow" where
  "page_handle closes f w =
     (let w0 = (case f_retry f of Some n \<Rightarrow> w\<lparr>w_retry := n\<rparr> | None \<Rightarrow> w)
      in if f_event f = ''expired'' then (rt_end PageTokenExpired w0, Return)
         else if (f_event f = ''snapshot'' \<or> f_event f = ''status'') \<and> frame_text (f_data f) \<noteq> [] then
           (case json_parse (frame_text (f_data f)) of
              None \<Rightarrow> (w0, Throw (JsError ''SyntaxError''))
            | Some s \<Rightarrow>
                (let w1 = rt_status PageClosed closes s (f_event f) (w0\<lparr>w_failures := 0\<rparr>)
                 in if s = JNull then (w1, Throw (JsError ''TypeError''))
                    else if is_terminal s then (rt_end PageTerminal w1, Return)
                    else (w1, Go)))
         else (w0, Go))"

fun page_frames ::
  "(json \<Rightarrow> bool) \<Rightarrow> page_frame list \<Rightarrow> realtime_end watch \<Rightarrow> realtime_end watch \<times> flow" where
  "page_frames closes [] w = (w, Go)"
| "page_frames closes (f # fs) w =
     (case page_handle closes f w of
        (w1, Go) \<Rightarrow> page_frames closes fs w1
      | (w1, fl) \<Rightarrow> (w1, fl))"

text \<open>\<open>e.message\<close>; the thrown values here are errors with a message.\<close>

definition error_text :: "sdk_error \<Rightarrow> string" where
  "error_text e = (case e of ConfigError m \<Rightarrow> m | AuthError m \<Rightarrow> m | ApiError _ _ m \<Rightarrow> m
     | JsError m \<Rightarrow> m | Undefined \<Rightarrow> ''stream failed'')"

definition page_step ::
  "page_options \<Rightarrow> (json \<Rightarrow> bool) \<Rightarrow> realtime_end watch \<Rightarrow> rt_input \<Rightarrow> realtime_end watch" where
  "page_step o1 closes w input =
     (case input of
        CloseCalled \<Rightarrow> rt_end PageClosed w
      | Responded r \<Rightarrow> if w_phase w = Fetching then page_respond r w else w
      | Chunk text \<Rightarrow>
          (case w_phase w of
             Reading buffer \<Rightarrow>
               (case parseFrames (buffer @ text) of
                  (frames, rst) \<Rightarrow>
                    (case page_frames closes frames w of
                       (w1, Go) \<Rightarrow> w1\<lparr>w_phase := Reading rst\<rparr>
                     | (w1, Return) \<Rightarrow> rt_stop w1
                     | (w1, Throw e) \<Rightarrow> page_catch (error_text e) w1))
           | _ \<Rightarrow> w)
      | StreamEnd \<Rightarrow> (case w_phase w of Reading _ \<Rightarrow> page_after w | _ \<Rightarrow> w)
      | Rejected m \<Rightarrow>
          (case w_phase w of Fetching \<Rightarrow> page_catch m w | Reading _ \<Rightarrow> page_catch m w | _ \<Rightarrow> w)
      | TimerFired \<Rightarrow> if w_phase w = Waiting then rt_connect (page_request o1) w else w)"

section \<open>The contract of a watcher\<close>

text \<open>
  What both loops promise, as locales. The trace and the flag agree on whether the watch is over
  (\<open>owed\<close> is unchanged), every connection makes the same request, and a chunk boundary is not
  observable. A quiet watcher's callback never closes it: its trace is statuses, then one end.
\<close>

definition ends :: "'e rt_call list \<Rightarrow> nat" where
  "ends cs = length (filter (\<lambda>c. case c of OnEnd _ \<Rightarrow> True | OnStatus _ _ \<Rightarrow> False) cs)"

definition owed :: "'e watch \<Rightarrow> int" where
  "owed w = int (ends (w_calls w)) - (if w_ended w then 1 else 0)"

definition is_chunk :: "rt_input \<Rightarrow> bool" where
  "is_chunk i \<longleftrightarrow> (case i of Chunk _ \<Rightarrow> True | _ \<Rightarrow> False)"

definition statuses :: "(json \<times> string) list \<Rightarrow> 'e rt_call list" where
  "statuses ss = map (\<lambda>(s, k). OnStatus s k) ss"

text \<open>The calls added between two states: statuses, and an end when the watch ended between them.\<close>

definition grows :: "'e watch \<Rightarrow> 'e watch \<Rightarrow> bool" where
  "grows w w' \<longleftrightarrow> (w_ended w \<longrightarrow> w_ended w') \<and>
     (\<exists>ss es. w_calls w' = w_calls w @ statuses ss @ map OnEnd es \<and>
        length es = (if w_ended w' \<and> \<not> w_ended w then 1 else 0))"

text \<open>A run in which the aborted stream delivers nothing more once the watch is over.\<close>

definition aborting :: "('e watch \<Rightarrow> rt_input \<Rightarrow> 'e watch) \<Rightarrow> 'e watch \<Rightarrow> rt_input \<Rightarrow> 'e watch" where
  "aborting step w i = (if w_ended w \<and> is_chunk i then w else step w i)"

lemma ends_simps [simp]: "ends [] = 0" "ends (a @ b) = ends a + ends b"
  "ends (OnEnd e # a) = Suc (ends a)" "ends (OnStatus s k # a) = ends a"
  by (simp_all add: ends_def)

lemma statuses_simps [simp]: "statuses [] = []" "statuses (a @ b) = statuses a @ statuses b"
  "statuses [(s, k)] = [OnStatus s k]"
  by (simp_all add: statuses_def)

lemma grows_refl [simp]: "grows w w"
  unfolding grows_def by (rule conjI [OF impI], assumption, rule exI [of _ "[]"], rule exI [of _ "[]"]) simp

lemma grows_trans: "grows u v \<Longrightarrow> grows v w \<Longrightarrow> w_ended u = w_ended v \<or> w_calls v = w_calls w \<Longrightarrow> grows u w"
  unfolding grows_def
proof (elim conjE exE, intro conjI, blast)
  fix ss es ss' es'
  assume h: "w_ended u = w_ended v \<or> w_calls v = w_calls w" "w_ended v \<longrightarrow> w_ended w"
    "w_calls v = w_calls u @ statuses ss @ map OnEnd es" "length es = (if w_ended v \<and> \<not> w_ended u then 1 else 0)"
    "w_calls w = w_calls v @ statuses ss' @ map OnEnd es'" "length es' = (if w_ended w \<and> \<not> w_ended v then 1 else 0)"
  show "\<exists>ss es. w_calls w = w_calls u @ statuses ss @ map OnEnd es \<and>
      length es = (if w_ended w \<and> \<not> w_ended u then 1 else 0)"
  proof (cases "w_ended u = w_ended v")
    case True
    with h(4) have "es = []" by simp
    with h True show ?thesis by (intro exI [of _ "ss @ ss'"] exI [of _ es']) simp
  next
    case False
    with h(1,5) have "es' = []" by auto
    with h(2,6) False have "w_ended w = w_ended v" by auto
    moreover have "w_calls w = w_calls v" using h(1) False by simp
    ultimately show ?thesis using h(3,4) by (intro exI [of _ ss] exI [of _ es]) simp
  qed
qed

locale watcher =
  fixes step :: "'e watch \<Rightarrow> rt_input \<Rightarrow> 'e watch" and rq :: http_request
  assumes step_owed: "owed (step w i) = owed w"
    and step_requests: "set (w_requests (step w i)) \<subseteq> insert rq (set (w_requests w))"
    and step_cut: "step (step w (Chunk a)) (Chunk b) = step w (Chunk (a @ b))"
begin

lemma run_owed: "owed (foldl step w is) = owed w"
  by (induction "is" arbitrary: w) (simp_all add: step_owed)

lemma run_ends: "owed w = 0 \<Longrightarrow> ends (w_calls (foldl step w is)) = (if w_ended (foldl step w is) then 1 else 0)"
  using run_owed [of w "is"] by (auto simp: owed_def split: if_splits)

lemma run_requests: "set (w_requests (foldl step w is)) \<subseteq> insert rq (set (w_requests w))"
proof (induction "is" arbitrary: w)
  case (Cons i "is")
  then show ?case using step_requests [of w i] by (simp, blast)
qed (simp add: subset_insertI)

lemma run_cuts: "cs \<noteq> [] \<Longrightarrow> foldl step w (map Chunk cs) = step w (Chunk (concat cs))"
proof (induction cs arbitrary: w rule: list_nonempty_induct)
  case (cons c cs)
  then show ?case using step_cut by simp
qed simp

end

locale quiet_watcher = watcher +
  assumes step_grows: "\<not> (w_ended w \<and> is_chunk i) \<Longrightarrow> grows w (step w i)"
    and ended_silent: "w_ended w \<Longrightarrow> \<not> is_chunk i \<Longrightarrow> w_calls (step w i) = w_calls w"
begin

lemma aborting_grows: "grows w (aborting step w i)"
  using step_grows by (simp add: aborting_def)

lemma aborting_silent: "w_ended w \<Longrightarrow> w_calls (aborting step w i) = w_calls w"
  using ended_silent by (simp add: aborting_def)

lemma run_grows: "grows w (foldl (aborting step) w is)"
proof (induction "is" arbitrary: w rule: rev_induct)
  case (snoc i "is")
  let ?v = "foldl (aborting step) w is"
  have "w_ended w = w_ended ?v \<or> w_calls ?v = w_calls (aborting step ?v i)"
    using snoc [of w] aborting_silent [of ?v i] by (auto simp: grows_def)
  then show ?case using grows_trans [OF snoc aborting_grows] by simp
qed simp

lemma run_shape:
  assumes "w_calls w = []"
  shows "\<exists>ss es. w_calls (foldl (aborting step) w is) = statuses ss @ map OnEnd es \<and> length es \<le> 1"
proof -
  obtain ss es where "w_calls (foldl (aborting step) w is) = statuses ss @ map OnEnd es"
      "length es = (if w_ended (foldl (aborting step) w is) \<and> \<not> w_ended w then 1 else 0)"
    using run_grows [of w "is"] assms by (auto simp: grows_def)
  then show ?thesis by (intro exI [of _ ss] exI [of _ es]) simp
qed

end

locale reconnecting = watcher +
  fixes limit :: int and give_up :: "string \<Rightarrow> 'e"
  assumes rejected: "w_phase w = Fetching \<Longrightarrow> \<not> w_ended w \<Longrightarrow> \<not> w_saw w \<Longrightarrow>
      step w (Rejected m) =
        (let w1 = w\<lparr>w_failures := w_failures w + 1\<rparr>
         in if w_failures w + 1 > limit then rt_stop (rt_end (give_up m) w1) else rt_pause w1)"
    and drained: "w_phase w = Fetching \<Longrightarrow> \<not> w_ended w \<Longrightarrow> rr_ok r \<Longrightarrow> rr_has_body r \<Longrightarrow>
      step (step w (Responded r)) StreamEnd = rt_pause w"
    and timer: "w_phase w = Waiting \<Longrightarrow> step w TimerFired = rt_connect rq w"
    and limit_pos: "0 \<le> limit"
begin

lemma failing_run:
  assumes "w_phase w = Fetching" "\<not> w_ended w" "\<not> w_saw w" "w_failures w + int n \<le> limit"
  shows "\<exists>w'. foldl step w (concat (replicate n [Rejected m, TimerFired])) = w' \<and> w_phase w' = Fetching \<and>
    \<not> w_ended w' \<and> \<not> w_saw w' \<and> w_failures w' = w_failures w + int n \<and> w_calls w' = w_calls w \<and>
    w_requests w' = w_requests w @ replicate n rq"
  using assms
proof (induction n arbitrary: w)
  case (Suc n)
  let ?w = "step (step w (Rejected m)) TimerFired"
  have w: "?w = rt_connect rq (rt_pause (w\<lparr>w_failures := w_failures w + 1\<rparr>))"
    using Suc.prems by (simp add: rejected Let_def) (simp add: timer rt_pause_def)
  have "w_phase ?w = Fetching \<and> \<not> w_ended ?w \<and> \<not> w_saw ?w \<and> w_failures ?w = w_failures w + 1 \<and>
      w_calls ?w = w_calls w \<and> w_requests ?w = w_requests w @ [rq]"
    unfolding w using Suc.prems by (simp add: rt_connect_def rt_pause_def)
  with Suc.prems Suc.IH [of ?w] show ?case by simp
qed simp

lemma failing_ends:
  assumes "w_phase w = Fetching" "\<not> w_ended w" "\<not> w_saw w" "w_failures w = 0"
  shows "w_calls (foldl step w (concat (replicate (nat limit) [Rejected m, TimerFired]) @ [Rejected m])) =
    w_calls w @ [OnEnd (give_up m)]"
  using failing_run [of w "nat limit" m] assms limit_pos
  by (auto simp: rejected rt_stop_def rt_end_def)

lemma draining_run:
  assumes "w_phase w = Fetching" "\<not> w_ended w" "rr_ok r" "rr_has_body r"
  shows "\<exists>w'. foldl step w (concat (replicate n [Responded r, StreamEnd, TimerFired])) = w' \<and>
    w_phase w' = Fetching \<and> \<not> w_ended w' \<and> w_calls w' = w_calls w \<and>
    w_requests w' = w_requests w @ replicate n rq"
  using assms
proof (induction n arbitrary: w)
  case (Suc n)
  let ?w = "step (step (step w (Responded r)) StreamEnd) TimerFired"
  have w: "?w = rt_connect rq (rt_pause w)"
    using Suc.prems by (simp add: drained) (simp add: timer rt_pause_def)
  have "w_phase ?w = Fetching \<and> \<not> w_ended ?w \<and> w_calls ?w = w_calls w \<and> w_requests ?w = w_requests w @ [rq]"
    unfolding w using Suc.prems by (simp add: rt_connect_def rt_pause_def)
  with Suc.prems Suc.IH [of ?w] show ?case by simp
qed simp

end

section \<open>Both loops keep the contract\<close>

lemma owed_prims [simp]:
  "owed (rt_end e w) = owed w" "owed (rt_stop w) = owed w" "owed (rt_pause w) = owed w"
  "owed (rt_connect rq w) = owed w" "owed (rt_status e closes s k w) = owed w"
  "owed (w\<lparr>w_phase := p\<rparr>) = owed w" "owed (w\<lparr>w_saw := b\<rparr>) = owed w"
  "owed (w\<lparr>w_failures := f\<rparr>) = owed w" "owed (w\<lparr>w_retry := q\<rparr>) = owed w"
  by (simp_all add: owed_def rt_end_def rt_stop_def rt_pause_def rt_connect_def rt_status_def Let_def)

lemma requests_prims [simp]:
  "w_requests (rt_end e w) = w_requests w" "w_requests (rt_stop w) = w_requests w"
  "w_requests (rt_pause w) = w_requests w" "w_requests (rt_status e closes s k w) = w_requests w"
  by (simp_all add: rt_end_def rt_stop_def rt_pause_def rt_status_def Let_def)

lemma ended_prims [simp]:
  "w_ended (rt_end e w)" "w_ended (rt_stop w) = w_ended w" "w_ended (rt_pause w) = w_ended w"
  "w_ended (rt_connect rq w) = w_ended w"
  "w_ended (rt_status e closes s k w) \<longleftrightarrow> w_ended w \<or> closes s"
  by (simp_all add: rt_end_def rt_stop_def rt_pause_def rt_connect_def rt_status_def Let_def)

lemma calls_prims [simp]:
  "w_calls (rt_stop w) = w_calls w" "w_calls (rt_pause w) = w_calls w" "w_calls (rt_connect rq w) = w_calls w"
  "w_calls (rt_end e w) = w_calls w @ (if w_ended w then [] else [OnEnd e])"
  "w_calls (rt_status e (\<lambda>_. False) s k w) = w_calls w @ [OnStatus s k]"
  by (simp_all add: rt_end_def rt_stop_def rt_pause_def rt_connect_def rt_status_def Let_def)

text \<open>What a frame keeps, the loop over frames keeps: \<open>P\<close> as long as the loop goes on, \<open>Q\<close> at its end.\<close>

lemma sdk_frames_keeps:
  assumes step: "\<And>e d q v v' fl. P v \<Longrightarrow> sdk_handle closes e d (v\<lparr>w_retry := q\<rparr>) = (v', fl) \<Longrightarrow>
      Q v' fl \<and> (fl = Go \<longrightarrow> P v')"
    and "P w" and weak: "\<And>v. P v \<Longrightarrow> Q v Go" and "sdk_frames closes b w = (r, w', fl)"
  shows "Q w' fl \<and> (fl = Go \<longrightarrow> P w')"
  using assms(2,4)
proof (induction b arbitrary: w rule: measure_induct_rule [of length])
  case (less b)
  show ?case
  proof (cases "frame_cut b")
    case None
    then show ?thesis using less.prems weak by (simp add: sdk_frames.simps [of closes b])
  next
    case (Some p)
    obtain raw rst where p: "p = (raw, rst)" by fastforce
    obtain e d q where f: "sdk_frame raw (w_retry w) = (e, d, q)" by (metis prod_cases3)
    obtain w1 g where h: "sdk_handle closes e d (w\<lparr>w_retry := q\<rparr>) = (w1, g)" by fastforce
    note run = less.prems(2) Some p f h
    have one: "Q w1 g \<and> (g = Go \<longrightarrow> P w1)" using step less.prems(1) h by blast
    show ?thesis
    proof (cases "g = Go")
      case True
      have "sdk_frames closes rst w1 = (r, w', fl)"
        using run True by (simp add: sdk_frames.simps [of closes b])
      with less.IH [of rst w1] one True frame_cut_shorter [of b] Some p show ?thesis by blast
    next
      case False
      with run have "w' = w1 \<and> fl = g" by (cases g) (simp_all add: sdk_frames.simps [of closes b])
      with one show ?thesis by simp
    qed
  qed
qed

lemma page_frames_keeps:
  assumes step: "\<And>f v v' fl. P v \<Longrightarrow> page_handle closes f v = (v', fl) \<Longrightarrow> Q v' fl \<and> (fl = Go \<longrightarrow> P v')"
    and "P w" and weak: "\<And>v. P v \<Longrightarrow> Q v Go" and "page_frames closes fs w = (w', fl)"
  shows "Q w' fl \<and> (fl = Go \<longrightarrow> P w')"
  using assms(2,4)
proof (induction fs arbitrary: w)
  case Nil
  then show ?case using weak by simp
next
  case (Cons f fs)
  obtain w1 g where h: "page_handle closes f w = (w1, g)" by fastforce
  then have "Q w1 g \<and> (g = Go \<longrightarrow> P w1)" using step Cons.prems(1) by blast
  with Cons h show ?case by (cases g) auto
qed

lemma sdk_handle_frame:
  "sdk_handle closes e d w = (w', fl) \<Longrightarrow> owed w' = owed w \<and> w_requests w' = w_requests w"
  by (auto simp: sdk_handle_def Let_def split: if_splits option.splits)

lemma page_handle_frame:
  "page_handle closes f w = (w', fl) \<Longrightarrow> owed w' = owed w \<and> w_requests w' = w_requests w"
  by (auto simp: page_handle_def Let_def split: if_splits option.splits)

lemma sdk_frames_frame:
  assumes "sdk_frames closes b w = (r, w', fl)"
  shows "owed w' = owed w \<and> w_requests w' = w_requests w"
proof -
  let ?P = "\<lambda>v. owed v = owed w \<and> w_requests v = w_requests w"
  have "?P w' \<and> (fl = Go \<longrightarrow> ?P w')"
    by (rule sdk_frames_keeps [of ?P closes "\<lambda>v _. ?P v", OF _ _ _ assms]) (auto dest: sdk_handle_frame)
  then show ?thesis by blast
qed

lemma page_frames_frame:
  assumes "page_frames closes fs w = (w', fl)"
  shows "owed w' = owed w \<and> w_requests w' = w_requests w"
proof -
  let ?P = "\<lambda>v. owed v = owed w \<and> w_requests v = w_requests w"
  have "?P w' \<and> (fl = Go \<longrightarrow> ?P w')"
    by (rule page_frames_keeps [of ?P closes "\<lambda>v _. ?P v", OF _ _ _ assms]) (auto dest: page_handle_frame)
  then show ?thesis by blast
qed

lemma sdk_frames_append:
  "sdk_frames closes (a @ b) w =
     (case sdk_frames closes a w of
        (r, w', Go) \<Rightarrow> sdk_frames closes (r @ b) w' | (r, w', fl) \<Rightarrow> (r @ b, w', fl))"
proof (induction closes a w rule: sdk_frames.induct)
  case (1 closes a w)
  show ?case
  proof (cases "frame_cut a")
    case None
    then show ?thesis by (simp add: sdk_frames.simps [of closes a])
  next
    case (Some p)
    obtain raw rst where p: "p = (raw, rst)" by fastforce
    obtain e d q where f: "sdk_frame raw (w_retry w) = (e, d, q)" by (metis prod_cases3)
    obtain w1 fl where g: "sdk_handle closes e d (w\<lparr>w_retry := q\<rparr>) = (w1, fl)" by fastforce
    show ?thesis
      using Some p f g 1 frame_cut_append [of a raw rst b]
      by (cases fl) (simp_all add: sdk_frames.simps [of closes "a @ b"] sdk_frames.simps [of closes a])
  qed
qed

lemma parseFrames_append:
  "parseFrames (a @ b) = (case parseFrames a of (fs, r) \<Rightarrow> (case parseFrames (r @ b) of (gs, r') \<Rightarrow> (fs @ gs, r')))"
proof (induction a rule: parseFrames.induct)
  case (1 a)
  show ?case
  proof (cases "frame_cut a")
    case None
    then show ?thesis by (simp add: parseFrames.simps [of a])
  next
    case (Some p)
    obtain raw rst where p: "p = (raw, rst)" by fastforce
    show ?thesis
      using Some p 1 frame_cut_append [of a raw rst b]
      by (simp add: parseFrames.simps [of "a @ b"] parseFrames.simps [of a] split: prod.splits)
  qed
qed

lemma page_frames_append:
  "page_frames closes (fs @ gs) w =
     (case page_frames closes fs w of (w', Go) \<Rightarrow> page_frames closes gs w' | x \<Rightarrow> x)"
  by (induction fs arbitrary: w) (auto split: prod.splits flow.splits)

lemma loop_prims [simp]:
  "owed (sdk_after o1 w1) = owed w1" "w_requests (sdk_after o1 w1) = w_requests w1"
  "owed (sdk_catch o1 x w1) = owed w1" "w_requests (sdk_catch o1 x w1) = w_requests w1"
  "owed (sdk_respond o1 rs w1) = owed w1" "w_requests (sdk_respond o1 rs w1) = w_requests w1"
  "owed (page_after w2) = owed w2" "w_requests (page_after w2) = w_requests w2"
  "owed (page_catch m w2) = owed w2" "w_requests (page_catch m w2) = w_requests w2"
  "owed (page_respond rs w2) = owed w2" "w_requests (page_respond rs w2) = w_requests w2"
  by (simp_all add: sdk_after_def sdk_catch_def sdk_respond_def page_after_def page_catch_def
      page_respond_def Let_def)

lemma connect_requests: "set (w_requests (rt_connect rq w)) \<subseteq> insert rq (set (w_requests w))"
  by (auto simp: rt_connect_def rt_stop_def)

text \<open>The phase is the step function's own: the code of the frames neither reads nor sets it.\<close>

lemma prims_phase [simp]:
  "rt_end e (w\<lparr>w_phase := p\<rparr>) = (rt_end e w)\<lparr>w_phase := p\<rparr>"
  "rt_status e closes s k (w\<lparr>w_phase := p\<rparr>) = (rt_status e closes s k w)\<lparr>w_phase := p\<rparr>"
  "rt_stop (w\<lparr>w_phase := p\<rparr>) = rt_stop w" "rt_pause (w\<lparr>w_phase := p\<rparr>) = rt_pause w"
  by (simp_all add: rt_end_def rt_status_def rt_stop_def rt_pause_def Let_def)

lemma catch_phase [simp]:
  "sdk_catch o1 e (w\<lparr>w_phase := p\<rparr>) = sdk_catch o1 e w"
  "page_catch m (v\<lparr>w_phase := p\<rparr>) = page_catch m v"
  by (simp_all add: sdk_catch_def sdk_after_def page_catch_def page_after_def rt_stop_def rt_end_def
      rt_pause_def Let_def)

lemma handle_phase:
  "sdk_handle closes e d (w\<lparr>w_phase := p\<rparr>) = map_prod (\<lambda>w. w\<lparr>w_phase := p\<rparr>) (\<lambda>x. x) (sdk_handle closes e d w)"
  "page_handle closes f (v\<lparr>w_phase := p\<rparr>) = map_prod (\<lambda>w. w\<lparr>w_phase := p\<rparr>) (\<lambda>x. x) (page_handle closes f v)"
  by (auto simp: sdk_handle_def page_handle_def rt_status_def rt_end_def Let_def split: option.splits)

lemma sdk_frames_phase:
  "sdk_frames closes b (w\<lparr>w_phase := p\<rparr>) =
     (case sdk_frames closes b w of (r, w', fl) \<Rightarrow> (r, w'\<lparr>w_phase := p\<rparr>, fl))"
proof (induction closes b w rule: sdk_frames.induct)
  case (1 closes b w)
  show ?case
  proof (cases "frame_cut b")
    case None
    then show ?thesis by (simp add: sdk_frames.simps [of closes b])
  next
    case (Some q)
    obtain raw rst where q: "q = (raw, rst)" by fastforce
    obtain e d t where f: "sdk_frame raw (w_retry w) = (e, d, t)" by (metis prod_cases3)
    obtain w1 g where h: "sdk_handle closes e d (w\<lparr>w_retry := t\<rparr>) = (w1, g)" by fastforce
    have "w\<lparr>w_phase := p, w_retry := t\<rparr> = w\<lparr>w_retry := t, w_phase := p\<rparr>" by (cases w) simp
    then have "sdk_handle closes e d (w\<lparr>w_phase := p, w_retry := t\<rparr>) = (w1\<lparr>w_phase := p\<rparr>, g)"
      by (simp only: handle_phase h map_prod_simp)
    then show ?thesis
      using Some q f h 1 by (cases g) (simp_all add: sdk_frames.simps [of closes b])
  qed
qed

lemma page_frames_phase:
  "page_frames closes fs (w\<lparr>w_phase := p\<rparr>) = map_prod (\<lambda>w. w\<lparr>w_phase := p\<rparr>) (\<lambda>x. x) (page_frames closes fs w)"
  by (induction fs arbitrary: w) (auto simp: handle_phase split: prod.splits flow.splits)

lemma sdk_step_cut:
  "sdk_step o1 closes (sdk_step o1 closes w (Chunk a)) (Chunk b) = sdk_step o1 closes w (Chunk (a @ b))"
proof (cases "w_phase w")
  case (Reading buf)
  obtain r w1 fl where f: "sdk_frames closes (buf @ a) w = (r, w1, fl)" by (metis prod_cases3)
  have c: "sdk_frames closes (buf @ a @ b) w =
      (if fl = Go then sdk_frames closes (r @ b) w1 else (r @ b, w1, fl))"
    using sdk_frames_append [of closes "buf @ a" b w] f by (cases fl) simp_all
  have stuck: "sdk_step o1 closes v (Chunk b) = v" if "\<forall>q. w_phase v \<noteq> Reading q" for v
    using that by (auto simp: sdk_step_def split: rt_phase.splits)
  have nr: "\<forall>q. w_phase (sdk_catch o1 e v) \<noteq> Reading q" for e v
    by (simp add: sdk_catch_def sdk_after_def rt_stop_def rt_pause_def Let_def)
  show ?thesis
    using Reading f c stuck [of "rt_stop w1"] stuck [OF nr]
    by (cases fl)
      (auto simp: sdk_step_def sdk_frames_phase rt_stop_def split: prod.splits flow.splits)
qed (simp_all add: sdk_step_def)

lemma page_step_cut:
  "page_step o1 closes (page_step o1 closes w (Chunk a)) (Chunk b) = page_step o1 closes w (Chunk (a @ b))"
proof (cases "w_phase w")
  case (Reading buf)
  obtain fs r where f: "parseFrames (buf @ a) = (fs, r)" by fastforce
  obtain gs r' where g: "parseFrames (r @ b) = (gs, r')" by fastforce
  obtain w1 fl where h: "page_frames closes fs w = (w1, fl)" by fastforce
  have c: "parseFrames (buf @ a @ b) = (fs @ gs, r')"
    using parseFrames_append [of "buf @ a" b] f g by simp
  have stuck: "page_step o1 closes v (Chunk b) = v" if "\<forall>q. w_phase v \<noteq> Reading q" for v
    using that by (auto simp: page_step_def split: rt_phase.splits)
  have nr: "\<forall>q. w_phase (page_catch m v) \<noteq> Reading q" for m v
    by (simp add: page_catch_def page_after_def rt_stop_def rt_pause_def Let_def)
  show ?thesis
    using Reading f g h c stuck [of "rt_stop w1"] stuck [OF nr]
    by (cases fl)
      (auto simp: page_step_def page_frames_append page_frames_phase rt_stop_def split: prod.splits flow.splits)
qed (simp_all add: page_step_def)

interpretation sdk_watch: watcher "sdk_step o1 closes" "sdk_watch_request o1"
  for o1 closes
proof
  fix w i a b
  show "owed (sdk_step o1 closes w i) = owed w"
    by (auto simp: sdk_step_def dest: sdk_frames_frame split: rt_input.splits rt_phase.splits prod.splits flow.splits)
  show "set (w_requests (sdk_step o1 closes w i)) \<subseteq> insert (sdk_watch_request o1) (set (w_requests w))"
    using connect_requests [of "sdk_watch_request o1" w]
    by (auto simp: sdk_step_def dest: sdk_frames_frame split: rt_input.splits rt_phase.splits prod.splits flow.splits)
qed (rule sdk_step_cut)

interpretation page_watch: watcher "page_step o1 closes" "page_request o1"
  for o1 closes
proof
  fix w i a b
  show "owed (page_step o1 closes w i) = owed w"
    by (auto simp: page_step_def dest: page_frames_frame split: rt_input.splits rt_phase.splits prod.splits flow.splits)
  show "set (w_requests (page_step o1 closes w i)) \<subseteq> insert (page_request o1) (set (w_requests w))"
    using connect_requests [of "page_request o1" w]
    by (auto simp: page_step_def dest: page_frames_frame split: rt_input.splits rt_phase.splits prod.splits flow.splits)
qed (rule page_step_cut)

section \<open>Watches whose callback does not close them\<close>

lemma growsI:
  assumes "w_calls w' = w_calls w @ statuses ss @ (if w_ended w' \<and> \<not> w_ended w then [OnEnd e] else [])"
    and "w_ended w \<Longrightarrow> w_ended w'"
  shows "grows w w'"
  unfolding grows_def using assms
  by (intro conjI exI [of _ ss] exI [of _ "if w_ended w' \<and> \<not> w_ended w then [e] else []"]) auto

lemma grows_prims [simp]:
  "grows w (rt_stop w') = grows w w'" "grows w (rt_pause w') = grows w w'"
  "grows w (rt_connect rq w') = grows w w'" "grows w (w'\<lparr>w_phase := p\<rparr>) = grows w w'"
  "grows w (w'\<lparr>w_failures := f\<rparr>) = grows w w'" "grows (w\<lparr>w_retry := q\<rparr>) w' = grows w w'"
  by (simp_all add: grows_def)

lemma grows_end [simp]: "grows w (rt_end e w)" "grows w (rt_end e (w\<lparr>w_failures := f\<rparr>))"
  by (rule growsI [where ss = "[]" and e = e]; simp)+

lemma loop_grows [simp]:
  "grows w1 (sdk_after o1 w1)" "grows w1 (sdk_catch o1 x w1)" "grows w1 (sdk_respond o1 rs w1)"
  "grows w2 (page_after w2)" "grows w2 (page_catch m w2)" "grows w2 (page_respond rs w2)"
  by (simp_all add: sdk_after_def sdk_catch_def sdk_respond_def page_after_def page_catch_def
      page_respond_def Let_def)

lemma sdk_handle_grows:
  assumes "sdk_handle (\<lambda>_. False) e d w = (w', fl)" "\<not> w_ended w"
  shows "grows w w' \<and> (fl \<noteq> Return \<longrightarrow> \<not> w_ended w')"
proof (intro conjI)
  let ?s = "json_parse (frame_text d)"
  show "grows w w'"
  proof (rule growsI)
    show "w_calls w' = w_calls w @
        statuses (if e \<noteq> ''expired'' \<and> (e = ''snapshot'' \<or> e = ''status'') \<and> d \<noteq> [] \<and> ?s \<noteq> None
          then [(the ?s, e)] else []) @
        (if w_ended w' \<and> \<not> w_ended w then [OnEnd (if e = ''expired'' then TokenExpired else Terminal (the ?s))] else [])"
      using assms by (auto simp: sdk_handle_def Let_def split: if_splits option.splits)
  qed (use assms in simp)
  show "fl \<noteq> Return \<longrightarrow> \<not> w_ended w'"
    using assms by (auto simp: sdk_handle_def Let_def split: if_splits option.splits)
qed

lemma page_handle_grows:
  assumes "page_handle (\<lambda>_. False) f w = (w', fl)" "\<not> w_ended w"
  shows "grows w w' \<and> (fl \<noteq> Return \<longrightarrow> \<not> w_ended w')"
proof (intro conjI)
  let ?s = "json_parse (frame_text (f_data f))" and ?e = "f_event f"
  let ?v = "case f_retry f of Some n \<Rightarrow> w\<lparr>w_retry := n\<rparr> | None \<Rightarrow> w"
  have v: "w_calls ?v = w_calls w" "w_ended ?v = w_ended w" by (simp_all split: option.splits)
  have h: "page_handle (\<lambda>_. False) f w = (w', fl)" by (rule assms(1))
  note h = h [unfolded page_handle_def Let_def]
  show "grows w w'"
  proof (rule growsI)
    show "w_calls w' = w_calls w @
        statuses (if ?e \<noteq> ''expired'' \<and> (?e = ''snapshot'' \<or> ?e = ''status'') \<and> frame_text (f_data f) \<noteq> [] \<and> ?s \<noteq> None
          then [(the ?s, ?e)] else []) @
        (if w_ended w' \<and> \<not> w_ended w then [OnEnd (if ?e = ''expired'' then PageTokenExpired else PageTerminal)] else [])"
      using h v assms(2) by (auto split: if_splits option.splits)
  qed (use assms in simp)
  show "fl \<noteq> Return \<longrightarrow> \<not> w_ended w'"
    using h v assms(2) by (auto split: if_splits option.splits)
qed

lemma sdk_frames_grows:
  assumes "sdk_frames (\<lambda>_. False) b w = (r, w', fl)" "\<not> w_ended w"
  shows "grows w w' \<and> (fl \<noteq> Return \<longrightarrow> \<not> w_ended w')"
proof -
  let ?P = "\<lambda>v. grows w v \<and> \<not> w_ended v"
  let ?Q = "\<lambda>v fl. grows w v \<and> (fl \<noteq> Return \<longrightarrow> \<not> w_ended v)"
  have "?Q w' fl \<and> (fl = Go \<longrightarrow> ?P w')"
  proof (rule sdk_frames_keeps [of ?P "\<lambda>_. False" ?Q, OF _ _ _ assms(1)])
    fix e d q v v' fl
    assume v: "grows w v \<and> \<not> w_ended v" and h: "sdk_handle (\<lambda>_. False) e d (v\<lparr>w_retry := q\<rparr>) = (v', fl)"
    from sdk_handle_grows [OF h] v have "grows v v'" "fl \<noteq> Return \<longrightarrow> \<not> w_ended v'" by simp_all
    with v assms(2) grows_trans show "?Q v' fl \<and> (fl = Go \<longrightarrow> ?P v')" by auto
  qed (use assms(2) in simp_all)
  then show ?thesis by blast
qed

lemma page_frames_grows:
  assumes "page_frames (\<lambda>_. False) fs w = (w', fl)" "\<not> w_ended w"
  shows "grows w w' \<and> (fl \<noteq> Return \<longrightarrow> \<not> w_ended w')"
proof -
  let ?P = "\<lambda>v. grows w v \<and> \<not> w_ended v"
  let ?Q = "\<lambda>v fl. grows w v \<and> (fl \<noteq> Return \<longrightarrow> \<not> w_ended v)"
  have "?Q w' fl \<and> (fl = Go \<longrightarrow> ?P w')"
  proof (rule page_frames_keeps [of ?P "\<lambda>_. False" ?Q, OF _ _ _ assms(1)])
    fix f v v' fl
    assume v: "grows w v \<and> \<not> w_ended v" and h: "page_handle (\<lambda>_. False) f v = (v', fl)"
    from page_handle_grows [OF h] v have "grows v v'" "fl \<noteq> Return \<longrightarrow> \<not> w_ended v'" by simp_all
    with v assms(2) grows_trans show "?Q v' fl \<and> (fl = Go \<longrightarrow> ?P v')" by auto
  qed (use assms(2) in simp_all)
  then show ?thesis by blast
qed

interpretation sdk_quiet: quiet_watcher "sdk_step o1 (\<lambda>_. False)" "sdk_watch_request o1"
  for o1
proof
  fix w i
  show "grows w (sdk_step o1 (\<lambda>_. False) w i)" if "\<not> (w_ended w \<and> is_chunk i)"
  proof (cases i)
    case (Chunk t)
    with that have ne: "\<not> w_ended w" by (simp add: is_chunk_def)
    show ?thesis
    proof (cases "w_phase w")
      case (Reading buf)
      obtain r w1 fl where f: "sdk_frames (\<lambda>_. False) (buf @ t) w = (r, w1, fl)" by (metis prod_cases3)
      note g = sdk_frames_grows [OF f ne]
      have "grows w (sdk_catch o1 e w1)" if "\<not> w_ended w1" for e
        by (rule grows_trans [of w w1]) (use g ne that in simp_all)
      with g f Chunk Reading show ?thesis by (cases fl) (simp_all add: sdk_step_def)
    qed (simp_all add: sdk_step_def Chunk)
  qed (auto simp: sdk_step_def split: rt_phase.splits)
  show "w_calls (sdk_step o1 (\<lambda>_. False) w i) = w_calls w" if "w_ended w" "\<not> is_chunk i"
    using that by (auto simp: sdk_step_def is_chunk_def sdk_respond_def sdk_catch_def sdk_after_def Let_def
        rt_connect_def split: rt_input.splits rt_phase.splits)
qed

interpretation page_quiet: quiet_watcher "page_step o1 (\<lambda>_. False)" "page_request o1"
  for o1
proof
  fix w i
  show "grows w (page_step o1 (\<lambda>_. False) w i)" if "\<not> (w_ended w \<and> is_chunk i)"
  proof (cases i)
    case (Chunk t)
    with that have ne: "\<not> w_ended w" by (simp add: is_chunk_def)
    show ?thesis
    proof (cases "w_phase w")
      case (Reading buf)
      obtain fs r where p: "parseFrames (buf @ t) = (fs, r)" by fastforce
      obtain w1 fl where f: "page_frames (\<lambda>_. False) fs w = (w1, fl)" by fastforce
      note g = page_frames_grows [OF f ne]
      have "grows w (page_catch m w1)" if "\<not> w_ended w1" for m
        by (rule grows_trans [of w w1]) (use g ne that in simp_all)
      with g f p Chunk Reading show ?thesis by (cases fl) (simp_all add: page_step_def)
    qed (simp_all add: page_step_def Chunk)
  qed (auto simp: page_step_def split: rt_phase.splits)
  show "w_calls (page_step o1 (\<lambda>_. False) w i) = w_calls w" if "w_ended w" "\<not> is_chunk i"
    using that by (auto simp: page_step_def is_chunk_def page_respond_def page_catch_def page_after_def Let_def
        rt_connect_def split: rt_input.splits rt_phase.splits)
qed


section \<open>Reconnecting\<close>

abbreviation patient :: "watch_options \<Rightarrow> nat \<Rightarrow> watch_options" where
  "patient o1 k \<equiv> o1\<lparr>wo_reconnect := None, wo_maxReconnects := Some (int k)\<rparr>"

interpretation sdk_reconnect: reconnecting "sdk_step (patient o1 k) closes" "sdk_watch_request (patient o1 k)"
    "int k" "\<lambda>m. WatchError (JsError m)"
  for o1 k closes
  by unfold_locales
    (simp_all add: sdk_step_def sdk_catch_def sdk_after_def sdk_respond_def no_reconnect_def rt_pause_def Let_def)

interpretation page_reconnect: reconnecting "page_step o1 closes" "page_request o1" 5 PageError
  for o1 closes
  by unfold_locales
    (simp_all add: page_step_def page_catch_def page_after_def page_respond_def rt_pause_def Let_def)

definition demo_watch :: watch_options where
  "demo_watch = \<lparr> wo_sessionId = ''s'', wo_token = ''bzst_1'', wo_baseUrl = None, wo_reconnect = None,
     wo_maxReconnects = None \<rparr>"

definition demo_page :: page_options where
  "demo_page = \<lparr> po_sessionId = ''s'', po_token = ''bzst_1'', po_baseUrl = None \<rparr>"

definition demo_answer :: rt_response where
  "demo_answer = \<lparr> rr_status = 200, rr_statusText = [], rr_has_body = True, rr_json = None \<rparr>"

lemma watch_started:
  "watchPaymentSessionStatus o1 = Inr w \<Longrightarrow> w_phase w = Fetching \<and> \<not> w_ended w \<and> \<not> w_saw w \<and>
     w_failures w = 0 \<and> w_calls w = [] \<and> w_requests w = [sdk_watch_request o1]"
  by (auto simp: watchPaymentSessionStatus_def rt_connect_def new_watch_def split: if_splits)

lemma page_started:
  "startsWith (po_token o1) ''bzst_'' \<Longrightarrow> w_phase (watchStatus o1) = Fetching \<and> \<not> w_ended (watchStatus o1) \<and>
     \<not> w_saw (watchStatus o1) \<and> w_failures (watchStatus o1) = 0 \<and> w_calls (watchStatus o1) = [] \<and>
     w_requests (watchStatus o1) = [page_request o1]"
  by (simp add: watchStatus_def rt_connect_def new_watch_def)

section \<open>Properties\<close>







definition two_statuses :: string where
  "two_statuses = ''event:status'' @ [nl] @ ''data:1'' @ [nl, nl] @ ''event:status'' @ [nl] @ ''data:2'' @ [nl, nl]"

text \<open>
  A caller that closes the watch from its own status callback is called back again: when two
  statuses arrive in one chunk, the second is reported after the end, by both watchers.
\<close>

theorem closing_callback_called_again:
  "(case watchPaymentSessionStatus demo_watch of
      Inl e \<Rightarrow> False
    | Inr w \<Rightarrow> w_calls (foldl (sdk_step demo_watch (\<lambda>_. True)) w [Responded demo_answer, Chunk two_statuses]) =
        [OnStatus (JNum ''1'') ''status'', OnEnd Closed, OnStatus (JNum ''2'') ''status'']) \<and>
   w_calls (foldl (page_step demo_page (\<lambda>_. True)) (watchStatus demo_page)
       [Responded demo_answer, Chunk two_statuses]) =
     [OnStatus (JNum ''1'') ''status'', OnEnd PageClosed, OnStatus (JNum ''2'') ''status'']"
  by code_simp

end
