(* ===== verification/VsTypes.thy ===== *)
theory VsTypes
  imports Json Money
begin

text \<open>
  The data model of the validation studio (apps/validation-studio/lib/types.ts): the matrix of
  validation items, the confidence score derived from an item, and the tables the studio shows.

  An enumeration of strings is a datatype with its printed names. A field the code reads with a
  default (\<open>requires ?? []\<close>, \<open>title?.trim()\<close>) is the default when absent; \<open>confidence\<close> and
  \<open>validationDomain\<close>, whose absence the code tells apart, are options.
\<close>

section \<open>Enumerations\<close>

datatype validation_status =
  VALIDATED | IMPLEMENTED | IN_PROGRESS | PLANNED | FUTURE | BLOCKED | NEEDS_REVIEW
| REVALIDATION_REQUIRED | RETIRED

definition status_name :: "validation_status \<Rightarrow> string" where
  "status_name s = (case s of VALIDATED \<Rightarrow> ''VALIDATED'' | IMPLEMENTED \<Rightarrow> ''IMPLEMENTED''
     | IN_PROGRESS \<Rightarrow> ''IN_PROGRESS'' | PLANNED \<Rightarrow> ''PLANNED'' | FUTURE \<Rightarrow> ''FUTURE'' | BLOCKED \<Rightarrow> ''BLOCKED''
     | NEEDS_REVIEW \<Rightarrow> ''NEEDS_REVIEW'' | REVALIDATION_REQUIRED \<Rightarrow> ''REVALIDATION_REQUIRED''
     | RETIRED \<Rightarrow> ''RETIRED'')"

datatype validation_priority = P_CRITICAL | P_HIGH | P_MEDIUM | P_LOW

definition priority_name :: "validation_priority \<Rightarrow> string" where
  "priority_name p = (case p of P_CRITICAL \<Rightarrow> ''CRITICAL'' | P_HIGH \<Rightarrow> ''HIGH'' | P_MEDIUM \<Rightarrow> ''MEDIUM''
     | P_LOW \<Rightarrow> ''LOW'')"

datatype validation_method =
  Unit_tests | Integration_tests | E2e_tests | Manual_ux | Financial_invariant | Reconciliation
| Security_audit | Sandbox_evidence | Production_review

definition method_name :: "validation_method \<Rightarrow> string" where
  "method_name m = (case m of Unit_tests \<Rightarrow> ''unit_tests'' | Integration_tests \<Rightarrow> ''integration_tests''
     | E2e_tests \<Rightarrow> ''e2e_tests'' | Manual_ux \<Rightarrow> ''manual_ux'' | Financial_invariant \<Rightarrow> ''financial_invariant''
     | Reconciliation \<Rightarrow> ''reconciliation'' | Security_audit \<Rightarrow> ''security_audit''
     | Sandbox_evidence \<Rightarrow> ''sandbox'' | Production_review \<Rightarrow> ''production_review'')"

datatype evidence_type = Ev_route | Ev_component | Ev_config | Ev_adr | Ev_test | Ev_pr

definition evidence_type_name :: "evidence_type \<Rightarrow> string" where
  "evidence_type_name e = (case e of Ev_route \<Rightarrow> ''route'' | Ev_component \<Rightarrow> ''component''
     | Ev_config \<Rightarrow> ''config'' | Ev_adr \<Rightarrow> ''adr'' | Ev_test \<Rightarrow> ''test'' | Ev_pr \<Rightarrow> ''pr'')"

datatype invariant_status = PASS | FAIL | UNKNOWN | NOT_RUN

definition invariant_status_name :: "invariant_status \<Rightarrow> string" where
  "invariant_status_name i = (case i of PASS \<Rightarrow> ''PASS'' | FAIL \<Rightarrow> ''FAIL'' | UNKNOWN \<Rightarrow> ''UNKNOWN''
     | NOT_RUN \<Rightarrow> ''NOT_RUN'')"

datatype confidence_level = C_LOW | C_MEDIUM | C_HIGH | C_VERY_HIGH

definition level_name :: "confidence_level \<Rightarrow> string" where
  "level_name l = (case l of C_LOW \<Rightarrow> ''LOW'' | C_MEDIUM \<Rightarrow> ''MEDIUM'' | C_HIGH \<Rightarrow> ''HIGH''
     | C_VERY_HIGH \<Rightarrow> ''VERY_HIGH'')"

text \<open>Confidence levels are ordered from low to very high.\<close>

definition level_rank :: "confidence_level \<Rightarrow> nat" where
  "level_rank l = (case l of C_LOW \<Rightarrow> 0 | C_MEDIUM \<Rightarrow> 1 | C_HIGH \<Rightarrow> 2 | C_VERY_HIGH \<Rightarrow> 3)"

instantiation confidence_level :: linorder
begin

definition less_eq_confidence_level :: "confidence_level \<Rightarrow> confidence_level \<Rightarrow> bool" where
  "less_eq_confidence_level a b \<longleftrightarrow> level_rank a \<le> level_rank b"

definition less_confidence_level :: "confidence_level \<Rightarrow> confidence_level \<Rightarrow> bool" where
  "less_confidence_level a b \<longleftrightarrow> level_rank a < level_rank b"

instance
  by standard
    (auto simp: less_eq_confidence_level_def less_confidence_level_def level_rank_def
      split: confidence_level.splits)

end

lemma level_le_iff: "a \<le> b \<longleftrightarrow> level_rank a \<le> level_rank b" for a b :: confidence_level
  by (simp add: less_eq_confidence_level_def)

section \<open>The matrix\<close>

record confidence_score =
  cs_score :: int
  cs_level :: confidence_level
  cs_basis :: "string list"

record validation_evidence =
  ev_type :: evidence_type
  ev_label :: string
  ev_ref :: string

record validation_invariant =
  iv_id :: string
  iv_name :: string
  iv_rule :: string
  iv_status :: invariant_status
  iv_lastChecked :: "string option"

record validation_history =
  vh_timestamp :: string
  vh_from :: "validation_status option"
  vh_to :: validation_status
  vh_approvedBy :: string
  vh_fingerprint :: string
  vh_commit :: "string option"
  vh_reason :: string
  vh_evidence :: "string list"

record validation_item =
  vi_id :: string
  vi_title :: string
  vi_categoryId :: string
  vi_validationDomain :: "string option"
  vi_referenceSection :: string
  vi_description :: string
  vi_requirement :: string
  vi_status :: validation_status
  vi_priority :: validation_priority
  vi_ownerArea :: string
  vi_technicalArea :: string
  vi_validationMethods :: "validation_method list"
  vi_acceptanceCriteria :: "string list"
  vi_testCoverage :: bool
  vi_evidence :: "validation_evidence list"
  vi_notes :: "string option"
  vi_dependencies :: "string list"
  vi_requires :: "string list"
  vi_affects :: "string list"
  vi_revalidateWhenChanged :: "string list"
  vi_blockingIssues :: "string list"
  vi_invariants :: "validation_invariant list"
  vi_confidence :: "confidence_score option"
  vi_freezeReason :: "string option"
  vi_lastValidatedAt :: "string option"
  vi_validatedAgainstCommit :: "string option"
  vi_roadmapBaseline :: bool
  vi_history :: "validation_history list"
  vi_lastUpdated :: string

record validation_category =
  vc_id :: string
  vc_name :: string
  vc_description :: string

record validation_meta =
  vm_version :: string
  vm_lastUpdated :: string
  vm_referenceVersion :: string
  vm_referenceFile :: string
  vm_description :: string

record validation_matrix =
  mx_meta :: validation_meta
  mx_categories :: "validation_category list"
  mx_items :: "validation_item list"

datatype severity = Error | Warning

record governance_issue =
  gi_itemId :: string
  gi_severity :: severity
  gi_rule :: string
  gi_message :: string

record field_change =
  fc_field :: string
  fc_from :: string
  fc_to :: string

record item_change =
  ic_itemId :: string
  ic_title :: string
  ic_changes :: "field_change list"

section \<open>Confidence\<close>

definition financial_critical_categories :: "string list" where
  "financial_critical_categories =
     [''cat-ledger'', ''cat-wallet'', ''cat-p2p'', ''cat-qr'', ''cat-payouts'', ''cat-refunds'']"

definition validated_confidence_threshold :: int where
  "validated_confidence_threshold = 80"

definition confidence_levels :: "(int \<times> confidence_level) list" where
  "confidence_levels = [(80, C_VERY_HIGH), (60, C_HIGH), (40, C_MEDIUM), (0, C_LOW)]"

definition confidenceLevelFromScore :: "int \<Rightarrow> confidence_level" where
  "confidenceLevelFromScore score =
     (case List.find (\<lambda>(min, level). score \<ge> min) confidence_levels of
        Some (_, level) \<Rightarrow> level | None \<Rightarrow> C_LOW)"

text \<open>One contribution: the points and the line of the basis, when its condition holds.\<close>

definition contribution :: "bool \<Rightarrow> int \<Rightarrow> string \<Rightarrow> int \<times> string list \<Rightarrow> int \<times> string list" where
  "contribution holds points line acc =
     (if holds then (fst acc + points, snd acc @ [line]) else acc)"

definition invariant_contribution :: "validation_item \<Rightarrow> int \<times> string list \<Rightarrow> int \<times> string list" where
  "invariant_contribution item acc =
     (let isFinancial = vi_categoryId item \<in> set financial_critical_categories in
      if isFinancial \<and> vi_invariants item \<noteq> [] then
        (if list_all (\<lambda>inv. iv_status inv = PASS) (vi_invariants item)
         then (fst acc + 20, snd acc @ [''all invariants PASS (+20)''])
         else (fst acc, snd acc @ [''invariants not all PASS (+0)'']))
      else if \<not> isFinancial
        then (fst acc + 20, snd acc @ [''non-financial item (invariants not required, +20)''])
      else acc)"

definition computeConfidence :: "validation_item \<Rightarrow> confidence_score" where
  "computeConfidence item =
     (let ms = set (vi_validationMethods item);
          a1 = contribution (vi_evidence item \<noteq> []) 20 ''implementation evidence (+20)'' (0, []);
          a2 = contribution (Unit_tests \<in> ms) 15 ''unit tests (+15)'' a1;
          a3 = contribution (Integration_tests \<in> ms) 20 ''integration tests (+20)'' a2;
          a4 = contribution (E2e_tests \<in> ms \<or> Manual_ux \<in> ms) 15 ''E2E / manual UX (+15)'' a3;
          a5 = contribution (Production_review \<in> ms \<or> Sandbox_evidence \<in> ms) 10
                 ''production / sandbox evidence (+10)'' a4;
          a6 = invariant_contribution item a5
      in \<lparr> cs_score = fst a6, cs_level = confidenceLevelFromScore (fst a6), cs_basis = snd a6 \<rparr>)"

definition defaultConfidence :: confidence_score where
  "defaultConfidence = \<lparr> cs_score = 0, cs_level = C_LOW, cs_basis = [] \<rparr>"

section \<open>Tables\<close>

definition all_statuses :: "validation_status list" where
  "all_statuses = [VALIDATED, IMPLEMENTED, IN_PROGRESS, PLANNED, FUTURE, BLOCKED, NEEDS_REVIEW,
     REVALIDATION_REQUIRED]"

definition all_priorities :: "validation_priority list" where
  "all_priorities = [P_CRITICAL, P_HIGH, P_MEDIUM, P_LOW]"

definition all_methods :: "validation_method list" where
  "all_methods = [Unit_tests, Integration_tests, E2e_tests, Manual_ux, Financial_invariant,
     Reconciliation, Security_audit, Sandbox_evidence, Production_review]"

definition all_evidence_types :: "evidence_type list" where
  "all_evidence_types = [Ev_route, Ev_component, Ev_config, Ev_adr, Ev_test, Ev_pr]"

definition all_invariant_statuses :: "invariant_status list" where
  "all_invariant_statuses = [PASS, FAIL, UNKNOWN, NOT_RUN]"

text \<open>The domains and their labels.\<close>

definition all_domains :: "string list" where
  "all_domains = [''DOM-IDENTITY'', ''DOM-MONEY-MOVE'', ''DOM-MONEY-IN'', ''DOM-MONEY-OUT'',
     ''DOM-MERCHANT'', ''DOM-DEVELOPER'', ''DOM-LEDGER'', ''DOM-TRUST'', ''DOM-OPERATIONS'',
     ''DOM-CONFORMANCE'']"

definition domain_labels :: "string \<rightharpoonup> string" where
  "domain_labels = map_of [
     (''DOM-IDENTITY'', ''Identity & Handles''), (''DOM-MONEY-MOVE'', ''Money Movement''),
     (''DOM-MONEY-IN'', ''Money In (Funding)''), (''DOM-MONEY-OUT'', ''Money Out (Withdrawals)''),
     (''DOM-MERCHANT'', ''Merchant''), (''DOM-DEVELOPER'', ''Developer Platform''),
     (''DOM-LEDGER'', ''Ledger & Accounting''), (''DOM-TRUST'', ''Trust & Compliance''),
     (''DOM-OPERATIONS'', ''Operations''), (''DOM-CONFORMANCE'', ''Protocol Conformance'')]"

definition confidence_level_label :: "confidence_level \<Rightarrow> string" where
  "confidence_level_label l = (case l of C_LOW \<Rightarrow> ''Baixa'' | C_MEDIUM \<Rightarrow> ''M'' @ [CHR 0xE9] @ ''dia''
     | C_HIGH \<Rightarrow> ''Alta'' | C_VERY_HIGH \<Rightarrow> ''Muito alta'')"

definition method_label :: "validation_method \<Rightarrow> string" where
  "method_label m = (case m of Unit_tests \<Rightarrow> ''Unit Tests'' | Integration_tests \<Rightarrow> ''Integration Tests''
     | E2e_tests \<Rightarrow> ''E2E Tests'' | Manual_ux \<Rightarrow> ''UX Manual'' | Financial_invariant \<Rightarrow> ''Invariante financeiro''
     | Reconciliation \<Rightarrow> ''Reconcilia'' @ [CHR 0xE7, CHR 0xE3] @ ''o''
     | Security_audit \<Rightarrow> ''Auditoria de seguran'' @ [CHR 0xE7] @ ''a'' | Sandbox_evidence \<Rightarrow> ''Sandbox''
     | Production_review \<Rightarrow> ''Revis'' @ [CHR 0xE3] @ ''o de produ'' @ [CHR 0xE7, CHR 0xE3] @ ''o'')"

definition invariant_status_label :: "invariant_status \<Rightarrow> string" where
  "invariant_status_label i = (case i of PASS \<Rightarrow> ''PASS'' | FAIL \<Rightarrow> ''FAIL'' | UNKNOWN \<Rightarrow> ''UNKNOWN''
     | NOT_RUN \<Rightarrow> ''N'' @ [CHR 0xC3] @ ''O EXECUTADO'')"

section \<open>Lemmas\<close>

lemma confidenceLevelFromScore_eq:
  "confidenceLevelFromScore s =
     (if s \<ge> 80 then C_VERY_HIGH else if s \<ge> 60 then C_HIGH else if s \<ge> 40 then C_MEDIUM else C_LOW)"
  by (simp add: confidenceLevelFromScore_def confidence_levels_def)

lemma confidence_level_mono: "s \<le> t \<Longrightarrow> confidenceLevelFromScore s \<le> confidenceLevelFromScore t"
  by (auto simp: confidenceLevelFromScore_eq level_le_iff level_rank_def)

text \<open>The score, as a sum of its contributions.\<close>

lemma contribution_fst [simp]: "fst (contribution b n l acc) = fst acc + (if b then n else 0)"
  by (simp add: contribution_def)

lemma invariant_contribution_fst:
  "fst (invariant_contribution item acc) = fst acc +
     (if vi_categoryId item \<notin> set financial_critical_categories \<or>
         (vi_invariants item \<noteq> [] \<and> list_all (\<lambda>inv. iv_status inv = PASS) (vi_invariants item))
      then 20 else 0)"
  by (auto simp: invariant_contribution_def Let_def)

lemma computeConfidence_score:
  "cs_score (computeConfidence item) =
     (if vi_evidence item \<noteq> [] then 20 else 0) +
     (if Unit_tests \<in> set (vi_validationMethods item) then 15 else 0) +
     (if Integration_tests \<in> set (vi_validationMethods item) then 20 else 0) +
     (if E2e_tests \<in> set (vi_validationMethods item) \<or> Manual_ux \<in> set (vi_validationMethods item) then 15 else 0) +
     (if Production_review \<in> set (vi_validationMethods item) \<or> Sandbox_evidence \<in> set (vi_validationMethods item)
      then 10 else 0) +
     (if vi_categoryId item \<notin> set financial_critical_categories \<or>
         (vi_invariants item \<noteq> [] \<and> list_all (\<lambda>inv. iv_status inv = PASS) (vi_invariants item))
      then 20 else 0)"
  by (simp add: computeConfidence_def Let_def invariant_contribution_fst)

end
