(* ===== verification/VsGovernance.thy ===== *)
theory VsGovernance
  imports VsTypes
begin

text \<open>
  The governance checks of the validation studio (apps/validation-studio/lib/governance.ts): the
  checks of one item, of its financial invariants, of its required items and of the whole matrix,
  and the lookups of related items. A check returns the list of issues it finds, in the code's
  order. The specification \<open>matrix_sound\<close> says what a matrix without errors guarantees, and the
  checks are shown to decide it.
\<close>

section \<open>Single-item checks\<close>

definition vs_err :: "string \<Rightarrow> string \<Rightarrow> string \<Rightarrow> governance_issue" where
  "vs_err ident rule message =
     \<lparr> gi_itemId = ident, gi_severity = Error, gi_rule = rule, gi_message = message \<rparr>"

definition vs_warn :: "string \<Rightarrow> string \<Rightarrow> string \<Rightarrow> governance_issue" where
  "vs_warn ident rule message =
     \<lparr> gi_itemId = ident, gi_severity = Warning, gi_rule = rule, gi_message = message \<rparr>"

definition issue_if :: "bool \<Rightarrow> governance_issue \<Rightarrow> governance_issue list" where
  "issue_if b i = (if b then [i] else [])"

definition nao :: string where "nao = ''n'' @ [CHR 0xE3] @ ''o''"

definition cao :: string where "cao = [CHR 0xE7, CHR 0xE3] @ ''o''"

definition checkRequired :: "validation_item \<Rightarrow> governance_issue list" where
  "checkRequired item =
     issue_if (blank (vi_title item))
       (vs_err (vi_id item) ''EMPTY_TITLE'' (''Title '' @ nao @ '' pode ser vazio'')) @
     issue_if (blank (vi_requirement item))
       (vs_err (vi_id item) ''EMPTY_REQUIREMENT'' (''Requirement '' @ nao @ '' pode ser vazio'')) @
     issue_if (blank (vi_referenceSection item))
       (vs_err (vi_id item) ''EMPTY_REFERENCE'' (''ReferenceSection '' @ nao @ '' pode ser vazio'')) @
     issue_if (case vi_validationDomain item of None \<Rightarrow> True | Some d \<Rightarrow> blank d)
       (vs_err (vi_id item) ''MISSING_DOMAIN''
         (''Validation domain obrigat'' @ [CHR 0xF3] @ ''rio '' @ em_dash @ '' ver VALIDATION_DOMAINS.md''))"

definition stored_score :: "validation_item \<Rightarrow> int" where
  "stored_score item = (case vi_confidence item of Some c \<Rightarrow> cs_score c | None \<Rightarrow> 0)"

definition checkConfidence :: "validation_item \<Rightarrow> governance_issue list" where
  "checkConfidence item =
     (if vi_status item = VALIDATED then
        (let stored = stored_score item; derived = cs_score (computeConfidence item) in
         if stored < validated_confidence_threshold then
           [vs_err (vi_id item) ''VALIDATED_LOW_CONFIDENCE''
             (''VALIDATED requer confidence >= '' @ int_str validated_confidence_threshold @
              '' (actual: '' @ int_str stored @ '')'')]
         else if derived < validated_confidence_threshold then
           [vs_warn (vi_id item) ''CONFIDENCE_DRIFT''
             (''confidence aprovada ('' @ int_str stored @ '') v'' @ [CHR 0xE1] @
              ''lida, mas a estimativa derivada das validationMethods/evidence '' @ [CHR 0xE9] @ '' '' @
              int_str derived @ '' '' @ em_dash @
              '' metadados podem estar incompletos (advisory; '' @ nao @ '' altera o status VALIDATED)'')]
         else [])
      else [])"

definition evidence_incomplete :: "validation_evidence \<Rightarrow> bool" where
  "evidence_incomplete ev \<longleftrightarrow> blank (ev_label ev) \<or> blank (ev_ref ev)"

section \<open>Financial invariants\<close>

definition invariant_message :: "validation_invariant \<Rightarrow> string" where
  "invariant_message iv =
     ''Invariante '' @ [CHR 0x22] @ iv_name iv @ [CHR 0x22] @ '' '' @ nao @ '' est'' @ [CHR 0xE1] @
     '' PASS ('' @ invariant_status_label (iv_status iv) @ '') '' @ em_dash @
     '' obrigat'' @ [CHR 0xF3] @ ''rio para VALIDATED''"

definition checkInvariants :: "validation_item \<Rightarrow> governance_issue list" where
  "checkInvariants item =
     (if vi_categoryId item \<notin> set financial_critical_categories then []
      else if vi_status item \<noteq> VALIDATED \<and> vi_status item \<noteq> REVALIDATION_REQUIRED then []
      else if vi_invariants item = [] then
        [vs_err (vi_id item) ''FINANCIAL_NO_INVARIANTS''
          (''Item financeiro cr'' @ [CHR 0xED] @ ''tico ('' @ vi_categoryId item @
           '') requer invariantes definidos para ser VALIDATED'')]
      else map (\<lambda>iv. vs_err (vi_id item) ''INVARIANT_NOT_PASS'' (invariant_message iv))
             (filter (\<lambda>iv. iv_status iv \<noteq> PASS) (vi_invariants item)))"

definition checkItem :: "validation_item \<Rightarrow> governance_issue list" where
  "checkItem item =
     checkRequired item @
     issue_if (vi_status item = VALIDATED \<and> vi_evidence item = [])
       (vs_err (vi_id item) ''VALIDATED_NO_EVIDENCE''
         (''VALIDATED requer pelo menos uma evid'' @ [CHR 0xEA] @ ''ncia documentada'')) @
     checkConfidence item @
     issue_if (vi_status item = IMPLEMENTED \<and> vi_evidence item = [])
       (vs_warn (vi_id item) ''IMPLEMENTED_NO_EVIDENCE''
         (''IMPLEMENTED deveria ter evid'' @ [CHR 0xEA] @ ''ncia de localiza'' @ cao @ '' de c'' @
          [CHR 0xF3] @ ''digo'')) @
     issue_if (vi_status item = BLOCKED \<and> vi_blockingIssues item = [])
       (vs_err (vi_id item) ''BLOCKED_NO_REASON''
         (''BLOCKED requer pelo menos uma raz'' @ [CHR 0xE3] @ ''o em blockingIssues'')) @
     issue_if (vi_status item = REVALIDATION_REQUIRED \<and>
           (case vi_freezeReason item of None \<Rightarrow> True | Some r \<Rightarrow> blank r))
       (vs_warn (vi_id item) ''REVALIDATION_NO_REASON''
         ''REVALIDATION_REQUIRED deve incluir freezeReason explicando o motivo'') @
     issue_if (vi_priority item = P_CRITICAL \<and> vi_acceptanceCriteria item = [])
       (vs_warn (vi_id item) ''CRITICAL_NO_CRITERIA''
         (''Item CR'' @ [CHR 0xCD] @ ''TICO sem crit'' @ [CHR 0xE9] @ ''rios de aceita'' @ cao @ '' definidos'')) @
     issue_if (list_ex evidence_incomplete (vi_evidence item))
       (vs_warn (vi_id item) ''EVIDENCE_INCOMPLETE''
         (''Uma entrada de evid'' @ [CHR 0xEA] @ ''ncia tem label ou ref vazio'')) @
     checkInvariants item"

section \<open>Required items\<close>

text \<open>\<open>new Map(allItems.map((i) => [i.id, i]))\<close>: the last item of an id.\<close>

definition item_index :: "validation_item list \<Rightarrow> (string \<rightharpoonup> validation_item)" where
  "item_index items = last_by vi_id items"

definition require_issue ::
  "validation_item \<Rightarrow> (string \<rightharpoonup> validation_item) \<Rightarrow> string \<Rightarrow> governance_issue list" where
  "require_issue item index reqId =
     (case index reqId of
        None \<Rightarrow> [vs_err (vi_id item) ''REQUIRES_MISSING''
          (''Depend'' @ [CHR 0xEA] @ ''ncia obrigat'' @ [CHR 0xF3] @ ''ria '' @ [CHR 0x22] @ reqId @
           [CHR 0x22] @ '' '' @ nao @ '' encontrada na matriz'')]
      | Some r \<Rightarrow>
          (if vi_status r \<noteq> VALIDATED then
             [vs_err (vi_id item) ''REQUIRES_NOT_VALIDATED''
               (vi_id item @ '' requer '' @ reqId @ '' como VALIDATED (estado actual: '' @
                status_name (vi_status r) @ '')'')]
           else []))"

definition checkRequires :: "validation_item \<Rightarrow> validation_item list \<Rightarrow> governance_issue list" where
  "checkRequires item allItems =
     (if vi_status item \<noteq> VALIDATED then []
      else concat (map (require_issue item (item_index allItems)) (vi_requires item)))"

definition getRequiresBlockers :: "validation_item \<Rightarrow> validation_item list \<Rightarrow> validation_item list" where
  "getRequiresBlockers item allItems =
     List.map_filter (\<lambda>ident. case item_index allItems ident of
        Some r \<Rightarrow> if vi_status r \<noteq> VALIDATED then Some r else None | None \<Rightarrow> None) (vi_requires item)"

definition getAffectedItems :: "validation_item \<Rightarrow> validation_item list \<Rightarrow> validation_item list" where
  "getAffectedItems item allItems = List.map_filter (item_index allItems) (vi_affects item)"

definition getDependents :: "validation_item \<Rightarrow> validation_item list \<Rightarrow> validation_item list" where
  "getDependents item allItems = filter (\<lambda>other. vi_id item \<in> set (vi_requires other)) allItems"

definition computeLiveConfidence :: "validation_item \<Rightarrow> confidence_score" where
  "computeLiveConfidence item = computeConfidence item"

section \<open>The matrix\<close>

text \<open>The loop over the items, with the ids seen so far.\<close>

fun check_items ::
  "string set \<Rightarrow> validation_item list \<Rightarrow> string set \<Rightarrow> validation_item list \<Rightarrow> governance_issue list" where
  "check_items categories allItems seen [] = []"
| "check_items categories allItems seen (item # items) =
     issue_if (vi_id item \<in> seen) (vs_err (vi_id item) ''DUPLICATE_ID'' (''ID duplicado: '' @ vi_id item)) @
     issue_if (vi_categoryId item \<notin> categories)
       (vs_err (vi_id item) ''INVALID_CATEGORY''
         (''categoryId iv'' @ [CHR 0xE1] @ ''lido: '' @ [CHR 0x22] @ vi_categoryId item @ [CHR 0x22])) @
     checkItem item @ checkRequires item allItems @
     check_items categories allItems (insert (vi_id item) seen) items"

definition checkMatrix :: "validation_matrix \<Rightarrow> governance_issue list" where
  "checkMatrix matrix = check_items (set (map vc_id (mx_categories matrix))) (mx_items matrix) {} (mx_items matrix)"

definition issuesForItem :: "string \<Rightarrow> governance_issue list \<Rightarrow> governance_issue list" where
  "issuesForItem itemId issues = filter (\<lambda>i. gi_itemId i = itemId) issues"

definition hasErrors :: "governance_issue list \<Rightarrow> bool" where
  "hasErrors issues \<longleftrightarrow> list_ex (\<lambda>i. gi_severity i = Error) issues"

definition isFinancialCritical :: "string \<Rightarrow> bool" where
  "isFinancialCritical categoryId \<longleftrightarrow> categoryId \<in> set financial_critical_categories"

section \<open>What no error means\<close>

definition item_sound :: "validation_item \<Rightarrow> bool" where
  "item_sound item \<longleftrightarrow>
     \<not> blank (vi_title item) \<and> \<not> blank (vi_requirement item) \<and> \<not> blank (vi_referenceSection item) \<and>
     (\<exists>d. vi_validationDomain item = Some d \<and> \<not> blank d) \<and>
     (vi_status item = VALIDATED \<longrightarrow> vi_evidence item \<noteq> [] \<and> 80 \<le> stored_score item) \<and>
     (vi_status item = BLOCKED \<longrightarrow> vi_blockingIssues item \<noteq> []) \<and>
     (vi_categoryId item \<in> set financial_critical_categories \<and>
        vi_status item \<in> {VALIDATED, REVALIDATION_REQUIRED} \<longrightarrow>
        vi_invariants item \<noteq> [] \<and> (\<forall>iv \<in> set (vi_invariants item). iv_status iv = PASS))"

definition matrix_sound :: "validation_matrix \<Rightarrow> bool" where
  "matrix_sound mx \<longleftrightarrow>
     distinct (map vi_id (mx_items mx)) \<and>
     (\<forall>item \<in> set (mx_items mx).
        item_sound item \<and> vi_categoryId item \<in> vc_id ` set (mx_categories mx) \<and>
        (vi_status item = VALIDATED \<longrightarrow>
           (\<forall>r \<in> set (vi_requires item). \<exists>q \<in> set (mx_items mx). vi_id q = r \<and> vi_status q = VALIDATED)))"

lemma hasErrors_simps [simp]:
  "hasErrors [] = False" "hasErrors (xs @ ys) \<longleftrightarrow> hasErrors xs \<or> hasErrors ys"
  "hasErrors (i # xs) \<longleftrightarrow> gi_severity i = Error \<or> hasErrors xs"
  "hasErrors (issue_if b i) \<longleftrightarrow> b \<and> gi_severity i = Error"
  "gi_severity (vs_err a r m) = Error" "gi_severity (vs_warn a r m) = Warning"
  by (simp_all add: hasErrors_def issue_if_def vs_err_def vs_warn_def)

lemma hasErrors_concat: "hasErrors (concat xss) \<longleftrightarrow> (\<exists>xs \<in> set xss. hasErrors xs)"
  by (induction xss) auto

lemma hasErrors_map_err: "hasErrors (map (\<lambda>x. vs_err a r (m x)) xs) \<longleftrightarrow> xs \<noteq> []"
  by (induction xs) auto

lemma checkInvariants_errors:
  "hasErrors (checkInvariants item) \<longleftrightarrow>
     vi_categoryId item \<in> set financial_critical_categories \<and>
     vi_status item \<in> {VALIDATED, REVALIDATION_REQUIRED} \<and>
     (vi_invariants item = [] \<or> (\<exists>iv \<in> set (vi_invariants item). iv_status iv \<noteq> PASS))"
  by (auto simp: checkInvariants_def hasErrors_map_err filter_empty_conv)

lemma checkConfidence_errors:
  "hasErrors (checkConfidence item) \<longleftrightarrow> vi_status item = VALIDATED \<and> stored_score item < 80"
  by (simp add: checkConfidence_def Let_def validated_confidence_threshold_def)

lemma checkItem_errors: "hasErrors (checkItem item) \<longleftrightarrow> \<not> item_sound item"
  unfolding checkItem_def hasErrors_simps checkInvariants_errors checkConfidence_errors checkRequired_def
    item_sound_def
  by (auto split: option.splits)

lemma checkRequires_errors:
  assumes "distinct (map vi_id allItems)"
  shows "hasErrors (checkRequires item allItems) \<longleftrightarrow> vi_status item = VALIDATED \<and>
    \<not> (\<forall>r \<in> set (vi_requires item). \<exists>q \<in> set allItems. vi_id q = r \<and> vi_status q = VALIDATED)"
proof -
  have "hasErrors (require_issue item (item_index allItems) r) \<longleftrightarrow>
      \<not> (\<exists>q \<in> set allItems. vi_id q = r \<and> vi_status q = VALIDATED)" for r
  proof (cases "item_index allItems r")
    case None
    then have "r \<notin> vi_id ` set allItems" by (simp add: item_index_def last_by_None_iff)
    then show ?thesis using None by (auto simp: require_issue_def)
  next
    case (Some q)
    then have q: "q \<in> set allItems" "vi_id q = r" by (auto simp: item_index_def dest: last_by_SomeD)
    have uniq: "q' = q" if "q' \<in> set allItems" "vi_id q' = r" for q'
    proof -
      have "item_index allItems (vi_id q') = Some q'"
        unfolding item_index_def by (rule last_by_distinct [OF assms that(1)])
      then show ?thesis using that(2) Some by simp
    qed
    have "(\<exists>q' \<in> set allItems. vi_id q' = r \<and> vi_status q' = VALIDATED) \<longleftrightarrow> vi_status q = VALIDATED"
      using q uniq by blast
    then show ?thesis using Some by (simp add: require_issue_def)
  qed
  then show ?thesis by (auto simp: checkRequires_def hasErrors_concat)
qed

lemma check_items_errors:
  "hasErrors (check_items cats allItems seen items) \<longleftrightarrow>
     \<not> distinct (map vi_id items) \<or> (\<exists>i \<in> set items. vi_id i \<in> seen \<or> vi_categoryId i \<notin> cats \<or>
       \<not> item_sound i \<or> hasErrors (checkRequires i allItems))"
proof (induction items arbitrary: seen)
  case (Cons item items)
  have "vi_id i \<noteq> vi_id item" if "vi_id item \<notin> vi_id ` set items" "i \<in> set items" for i
    using that by (metis image_eqI)
  then show ?case by (auto simp: Cons.IH checkItem_errors)
qed simp

text \<open>
  C30. The matrix check decides soundness: it reports no error exactly when every id is unique, every
  item is complete and in a known category, every VALIDATED item has evidence, a stored confidence
  of at least 80 and only VALIDATED required items, every BLOCKED item has a reason, and every
  financially critical VALIDATED item has invariants that all pass.
\<close>

theorem checkMatrix_decides: "hasErrors (checkMatrix mx) \<longleftrightarrow> \<not> matrix_sound mx"
proof (cases "distinct (map vi_id (mx_items mx))")
  case True
  show ?thesis
    unfolding checkMatrix_def check_items_errors matrix_sound_def checkRequires_errors [OF True]
    using True by auto
next
  case False
  then show ?thesis by (simp add: checkMatrix_def check_items_errors matrix_sound_def)
qed

text \<open>The lookups of related items, by the ids the item names.\<close>

lemma map_filter_set: "y \<in> set (List.map_filter f xs) \<longleftrightarrow> (\<exists>x \<in> set xs. f x = Some y)"
  by (induction xs) (auto simp: map_filter_simps split: option.splits)

lemma getRequiresBlockers_iff:
  "q \<in> set (getRequiresBlockers item allItems) \<longleftrightarrow>
     vi_status q \<noteq> VALIDATED \<and> vi_id q \<in> set (vi_requires item) \<and> item_index allItems (vi_id q) = Some q"
  by (auto simp: getRequiresBlockers_def map_filter_set item_index_def
      dest: last_by_SomeD split: option.splits if_splits)

text \<open>
  The lock shown to the operator and the check agree: a VALIDATED item passes the required-items
  check exactly when it has no blockers and names no item that is missing from the matrix.
\<close>

theorem requires_lock_agrees:
  assumes "vi_status item = VALIDATED"
  shows "checkRequires item allItems = [] \<longleftrightarrow>
    getRequiresBlockers item allItems = [] \<and> set (vi_requires item) \<subseteq> vi_id ` set allItems"
proof -
  have one: "require_issue item (item_index allItems) r = [] \<longleftrightarrow>
      r \<in> vi_id ` set allItems \<and> (\<forall>q. item_index allItems r = Some q \<longrightarrow> vi_status q = VALIDATED)" for r
  proof (cases "item_index allItems r")
    case None
    then have "r \<notin> vi_id ` set allItems" by (simp add: item_index_def last_by_None_iff)
    then show ?thesis using None by (simp add: require_issue_def)
  next
    case (Some q)
    then have "r \<in> vi_id ` set allItems" by (auto simp: item_index_def dest!: last_by_SomeD)
    then show ?thesis using Some by (simp add: require_issue_def)
  qed
  have "checkRequires item allItems = [] \<longleftrightarrow>
      (\<forall>r \<in> set (vi_requires item). require_issue item (item_index allItems) r = [])"
    using assms by (simp add: checkRequires_def)
  moreover have "getRequiresBlockers item allItems = [] \<longleftrightarrow>
      (\<forall>r \<in> set (vi_requires item). \<forall>q. item_index allItems r = Some q \<longrightarrow> vi_status q = VALIDATED)"
  proof -
    have key: "item_index allItems r = Some q \<Longrightarrow> vi_id q = r" for r q
      unfolding item_index_def by (drule last_by_SomeD) simp
    have "getRequiresBlockers item allItems = [] \<longleftrightarrow> (\<forall>q. q \<notin> set (getRequiresBlockers item allItems))"
      by (cases "getRequiresBlockers item allItems") auto
    then show ?thesis unfolding getRequiresBlockers_iff using key by blast
  qed
  ultimately show ?thesis unfolding one by blast
qed

text \<open>Two items that satisfy every check, one of which requires the other.\<close>

definition demo_item :: "string \<Rightarrow> string list \<Rightarrow> validation_item" where
  "demo_item ident requires =
     \<lparr> vi_id = ident, vi_title = ''t'', vi_categoryId = ''cat-x'', vi_validationDomain = Some ''DOM-LEDGER'',
       vi_referenceSection = ''s'', vi_description = [], vi_requirement = ''r'', vi_status = VALIDATED,
       vi_priority = P_CRITICAL, vi_ownerArea = [], vi_technicalArea = [],
       vi_validationMethods = [Unit_tests, Integration_tests, E2e_tests, Sandbox_evidence],
       vi_acceptanceCriteria = [''a''], vi_testCoverage = True,
       vi_evidence = [\<lparr> ev_type = Ev_test, ev_label = ''l'', ev_ref = ''f'' \<rparr>], vi_notes = None,
       vi_dependencies = [], vi_requires = requires, vi_affects = [], vi_revalidateWhenChanged = [],
       vi_blockingIssues = [], vi_invariants = [],
       vi_confidence = Some \<lparr> cs_score = 90, cs_level = C_VERY_HIGH, cs_basis = [] \<rparr>,
       vi_freezeReason = None, vi_lastValidatedAt = None, vi_validatedAgainstCommit = None,
       vi_roadmapBaseline = False, vi_history = [], vi_lastUpdated = [] \<rparr>"

definition demo_matrix :: validation_matrix where
  "demo_matrix = \<lparr> mx_meta = \<lparr> vm_version = [], vm_lastUpdated = [], vm_referenceVersion = [],
       vm_referenceFile = [], vm_description = [] \<rparr>,
     mx_categories = [\<lparr> vc_id = ''cat-x'', vc_name = [], vc_description = [] \<rparr>],
     mx_items = [demo_item ''A'' [''B''], demo_item ''B'' []] \<rparr>"

lemma demo_matrix_sound: "matrix_sound demo_matrix"
  by (simp add: matrix_sound_def demo_matrix_def demo_item_def item_sound_def stored_score_def
      blank_iff js_ws_def financial_critical_categories_def)

theorem requires_lock_agrees_witness:
  "checkRequires (demo_item ''A'' [''B'']) (mx_items demo_matrix) = []"
  using requires_lock_agrees [of "demo_item ''A'' [''B'']" "mx_items demo_matrix"]
  by (simp add: demo_matrix_def demo_item_def getRequiresBlockers_def item_index_def last_by_def
      map_filter_simps)

end
