(* ===== verification/VsReadiness.thy ===== *)
theory VsReadiness
  imports VsGovernance
begin

text \<open>
  Launch readiness derived from the matrix (apps/validation-studio/lib/readiness.ts): the lenses of
  one item, the pillars, the named buckets of the active surface, the BANZA levels and the headline
  record. The percentage is computed in exact arithmetic. The lemmas count: every figure is the
  size of a set of items, and the buckets partition the active surface.
\<close>

section \<open>Item lenses\<close>

text \<open>\<open>EXTERNAL_RE\<close>, case-insensitive: any of the listed substrings, or \<open>rail\<close> as a word.\<close>

definition external_words :: "string list" where
  "external_words = [''provider_required'', ''rail_required'', ''reconciliation_required'', ''vendor_required'',
     ''vendor'', ''provider'', ''parceiro'', ''partner'', ''emis'', ''bna'', ''banco'', ''bank'', ''certifica'']"

definition word_edge :: "char option \<Rightarrow> bool" where
  "word_edge c = (case c of None \<Rightarrow> True | Some d \<Rightarrow> \<not> word_char d)"

definition first_char :: "string \<Rightarrow> char option" where
  "first_char s = (case s of [] \<Rightarrow> None | c # _ \<Rightarrow> Some c)"

fun has_word :: "string \<Rightarrow> char option \<Rightarrow> string \<Rightarrow> bool" where
  "has_word w prev [] \<longleftrightarrow> False"
| "has_word w prev (c # s) \<longleftrightarrow>
     (prefix w (c # s) \<and> word_edge prev \<and> word_edge (first_char (drop (length w) (c # s)))) \<or>
     has_word w (Some c) s"

definition external_re :: "string \<Rightarrow> bool" where
  "external_re b \<longleftrightarrow> list_ex (has_sub (js_lower b)) external_words \<or> has_word ''rail'' None (js_lower b)"

definition isLaunchReady :: "validation_item \<Rightarrow> bool" where
  "isLaunchReady i \<longleftrightarrow> vi_status i = VALIDATED"

definition isCodeComplete :: "validation_item \<Rightarrow> bool" where
  "isCodeComplete i \<longleftrightarrow> vi_status i = VALIDATED \<or> vi_status i = IMPLEMENTED"

definition isExternallyBlocked :: "validation_item \<Rightarrow> bool" where
  "isExternallyBlocked i \<longleftrightarrow> vi_status i \<noteq> VALIDATED \<and> list_ex external_re (vi_blockingIssues i)"

definition isRoadmap :: "validation_item \<Rightarrow> bool" where
  "isRoadmap i \<longleftrightarrow> vi_status i = FUTURE \<or> vi_status i = PLANNED"

definition isBaseline :: "validation_item \<Rightarrow> bool" where
  "isBaseline i \<longleftrightarrow> vi_roadmapBaseline i"

definition isRetired :: "validation_item \<Rightarrow> bool" where
  "isRetired i \<longleftrightarrow> vi_status i = RETIRED"

definition isInternallyBlocked :: "validation_item \<Rightarrow> bool" where
  "isInternallyBlocked i \<longleftrightarrow> vi_status i \<noteq> VALIDATED \<and> \<not> isExternallyBlocked i \<and> \<not> isRoadmap i \<and>
     \<not> isBaseline i \<and> \<not> isRetired i"

datatype item_lens = L_validated | L_implemented | L_roadmap | L_retired | L_externally_blocked | L_internally_blocked

definition itemLens :: "validation_item \<Rightarrow> item_lens" where
  "itemLens i =
     (if isRetired i then L_retired
      else if vi_status i = VALIDATED then L_validated
      else if isExternallyBlocked i then L_externally_blocked
      else if vi_status i = IMPLEMENTED then L_implemented
      else if isRoadmap i then L_roadmap
      else L_internally_blocked)"

section \<open>BANZA levels\<close>

datatype banza_level_status = BL_validated | BL_planned | BL_future

record banza_level =
  bl_level :: string
  bl_label :: string
  bl_status :: banza_level_status
  bl_state :: string
  bl_subtitle :: string
  bl_note :: string

definition banza_level_meta :: "(string \<times> string \<times> string \<times> string) list" where
  "banza_level_meta = [
     (''L0'', ''BANZA L0'', ''Sandbox conformance evidence validated'', ''evidence, not certification''),
     (''L1'', ''BANZA L1'', ''Core Payments roadmap'', ''gap analysis required''),
     (''L2'', ''BANZA L2'', ''Payment Initiation roadmap'', ''evidence not generated''),
     (''L3'', ''BANZA L3'', ''Federation roadmap'', ''M2/M3 + CA-gated''),
     (''L4'', ''BANZA L4'', ''External interoperability'', ''profile-defined'')]"

definition levelOf :: "validation_item list \<Rightarrow> string \<times> string \<times> string \<times> string \<Rightarrow> banza_level" where
  "levelOf items meta =
     (case meta of (level, label, subtitle, note) \<Rightarrow>
        (let levelItems = filter (\<lambda>i. vi_validationDomain i = Some ''DOM-CONFORMANCE'' \<and>
               startsWith (vi_id i) (''BANZA-'' @ level @ ''-'')) items;
             status = (if list_ex (\<lambda>i. vi_status i = VALIDATED) levelItems then BL_validated
                       else if list_ex (\<lambda>i. vi_status i = PLANNED) levelItems then BL_planned
                       else BL_future);
             state = (case status of BL_validated \<Rightarrow> ''VALIDATED'' | BL_planned \<Rightarrow> ''PLANNED''
                      | BL_future \<Rightarrow> ''FUTURE'')
         in \<lparr> bl_level = level, bl_label = label, bl_status = status, bl_state = state,
              bl_subtitle = subtitle, bl_note = note \<rparr>))"

definition banzaLevels :: "validation_item list \<Rightarrow> banza_level list" where
  "banzaLevels items = map (levelOf items) banza_level_meta"

section \<open>Pillars and the headline\<close>

datatype pillar_status = Ready | Partial | PBlocked

record pillar_readiness =
  pr_domain :: string
  pr_label :: string
  pr_question :: string
  pr_launchReady :: int
  pr_codeComplete :: int
  pr_total :: int
  pr_roadmap :: int
  pr_baseline :: int
  pr_retired :: int
  pr_externallyBlocked :: int
  pr_criticalGaps :: int
  pr_status :: pillar_status

record blocker =
  bk_id :: string
  bk_title :: string
  bk_status :: validation_status
  bk_externallyBlocked :: bool

record active_surface =
  ac_required :: int
  ac_validated :: int
  ac_implemented :: int
  ac_inProgress :: int
  ac_blocked :: int
  ac_externallyBlocked :: int
  ac_internallyBlocked :: int

record readiness =
  rd_pillars :: "pillar_readiness list"
  rd_canLaunch :: bool
  rd_active :: active_surface
  rd_retiredItems :: "(string \<times> string) list"
  rd_launchReady :: int
  rd_total :: int
  rd_launchScope :: int
  rd_roadmap :: int
  rd_baseline :: int
  rd_retired :: int
  rd_launchReadyPct :: int
  rd_criticalLaunchReady :: int
  rd_criticalTotal :: int
  rd_codeComplete :: int
  rd_criticalCodeComplete :: int
  rd_externallyBlocked :: int
  rd_internallyBlocked :: int
  rd_blockers :: "blocker list"
  rd_banzaLevels :: "banza_level list"

definition pillars_table :: "(string \<times> string \<times> string) list" where
  "pillars_table = [
     (''DOM-MONEY-MOVE'', ''Money Movement'', ''Can money move between wallets?''),
     (''DOM-MONEY-IN'', ''Money In'', ''Can real Kwanza enter the system through at least one approved provider or banking rail?''),
     (''DOM-MONEY-OUT'', ''Money Out'', ''Can money leave the system to a bank account or external rail through at least one approved provider?''),
     (''DOM-IDENTITY'', ''Identity'', ''Can consumers use wallets & @handles?''),
     (''DOM-MERCHANT'', ''Merchant'', ''Can merchants accept & manage payments?''),
     (''DOM-DEVELOPER'', ''Developer'', ''Can developers integrate safely?''),
     (''DOM-LEDGER'', ''Ledger'', ''Is the money provably correct?''),
     (''DOM-TRUST'', ''Trust & Compliance'', ''Is it safe & auditable for regulators?''),
     (''DOM-OPERATIONS'', ''Operations'', ''Can incidents be detected & handled?''),
     (''DOM-CONFORMANCE'', ''Protocol Conformance'', ''Can Banzami prove BANZA L0 sandbox conformance with official protocol tooling? (evidence, not certification)'')]"

definition count :: "('a \<Rightarrow> bool) \<Rightarrow> 'a list \<Rightarrow> int" where
  "count p xs = int (length (filter p xs))"

definition pillar :: "validation_item list \<Rightarrow> string \<times> string \<times> string \<Rightarrow> pillar_readiness" where
  "pillar items p =
     (case p of (domain, label, question) \<Rightarrow>
        (let its = filter (\<lambda>i. vi_validationDomain i = Some domain) items;
             roadmap = count isRoadmap its;
             baseline = count isBaseline its;
             retired = count isRetired its;
             launchScope = int (length its) - roadmap - baseline - retired;
             launchReady = count (\<lambda>i. isLaunchReady i \<and> \<not> isBaseline i) its;
             codeComplete = count (\<lambda>i. isCodeComplete i \<and> \<not> isBaseline i) its;
             externallyBlocked = count isExternallyBlocked its;
             criticalGaps = count (\<lambda>i. vi_priority i = P_CRITICAL \<and> \<not> isLaunchReady i) its;
             status = (if launchScope > 0 \<and> launchReady = launchScope then Ready
                       else if criticalGaps > 0 \<or> externallyBlocked > 0 then PBlocked else Partial)
         in \<lparr> pr_domain = domain, pr_label = label, pr_question = question, pr_launchReady = launchReady,
              pr_codeComplete = codeComplete, pr_total = int (length its), pr_roadmap = roadmap,
              pr_baseline = baseline, pr_retired = retired, pr_externallyBlocked = externallyBlocked,
              pr_criticalGaps = criticalGaps, pr_status = status \<rparr>))"

definition isActive :: "validation_item \<Rightarrow> bool" where
  "isActive i \<longleftrightarrow> \<not> isRoadmap i \<and> \<not> isBaseline i \<and> \<not> isRetired i"

definition activeSurface :: "validation_item list \<Rightarrow> active_surface" where
  "activeSurface items =
     (let activeItems = filter isActive items in
      \<lparr> ac_required = int (length activeItems),
        ac_validated = count (\<lambda>i. vi_status i = VALIDATED) activeItems,
        ac_implemented = count (\<lambda>i. vi_status i = IMPLEMENTED) activeItems,
        ac_inProgress = count (\<lambda>i. vi_status i = IN_PROGRESS) activeItems,
        ac_blocked = count (\<lambda>i. vi_status i = BLOCKED) activeItems,
        ac_externallyBlocked = count isExternallyBlocked activeItems,
        ac_internallyBlocked = count isInternallyBlocked activeItems \<rparr>)"

text \<open>\<open>Math.round\<close> of a quotient times 100: half a unit rounds up.\<close>

definition round_pct :: "int \<Rightarrow> int \<Rightarrow> int" where
  "round_pct a b = (200 * a + b) div (2 * b)"

definition computeReadiness :: "validation_matrix \<Rightarrow> readiness" where
  "computeReadiness matrix =
     (let items = mx_items matrix;
          criticals = filter (\<lambda>i. vi_priority i = P_CRITICAL) items;
          criticalLaunchReady = count isLaunchReady criticals;
          launchReady = count (\<lambda>i. isLaunchReady i \<and> \<not> isBaseline i) items;
          roadmap = count isRoadmap items;
          baseline = count isBaseline items;
          retired = count isRetired items;
          launchScope = int (length items) - roadmap - baseline - retired
      in \<lparr> rd_pillars = map (pillar items) pillars_table,
           rd_canLaunch = (criticalLaunchReady = int (length criticals)),
           rd_active = activeSurface items,
           rd_retiredItems = map (\<lambda>i. (vi_id i, vi_title i)) (filter isRetired items),
           rd_launchReady = launchReady,
           rd_total = int (length items),
           rd_launchScope = launchScope,
           rd_roadmap = roadmap,
           rd_baseline = baseline,
           rd_retired = retired,
           rd_launchReadyPct = (if launchScope \<noteq> 0 then round_pct launchReady launchScope else 0),
           rd_criticalLaunchReady = criticalLaunchReady,
           rd_criticalTotal = int (length criticals),
           rd_codeComplete = count (\<lambda>i. isCodeComplete i \<and> \<not> isBaseline i) items,
           rd_criticalCodeComplete = count isCodeComplete criticals,
           rd_externallyBlocked = count isExternallyBlocked items,
           rd_internallyBlocked = count isInternallyBlocked items,
           rd_blockers = map (\<lambda>i. \<lparr> bk_id = vi_id i, bk_title = vi_title i, bk_status = vi_status i,
                bk_externallyBlocked = isExternallyBlocked i \<rparr>) (filter (\<lambda>i. \<not> isLaunchReady i) criticals),
           rd_banzaLevels = banzaLevels items \<rparr>)"

section \<open>Counting\<close>

lemma count_Nil [simp]: "count p [] = 0" and
  count_Cons [simp]: "count p (x # xs) = (if p x then 1 else 0) + count p xs"
  by (simp_all add: count_def)

lemma count_nonneg [simp]: "0 \<le> count p xs"
  by (simp add: count_def)

lemma count_le_length: "count p xs \<le> int (length xs)"
  by (simp add: count_def)

lemma count_all_iff: "count p xs = int (length xs) \<longleftrightarrow> (\<forall>x \<in> set xs. p x)"
proof (induction xs)
  case (Cons x xs)
  then show ?case using count_le_length [of p xs] by auto
qed simp

lemma count_filter: "count p (filter q xs) = count (\<lambda>x. p x \<and> q x) xs"
  by (induction xs) auto

lemma count_add: "count p xs + count q xs = count (\<lambda>x. p x \<or> q x) xs + count (\<lambda>x. p x \<and> q x) xs"
  by (induction xs) auto

lemma count_true: "int (length xs) = count (\<lambda>_. True) xs"
  by (induction xs) auto

lemma count_cong: "(\<And>x. x \<in> set xs \<Longrightarrow> p x \<longleftrightarrow> q x) \<Longrightarrow> count p xs = count q xs"
  by (induction xs) auto

text \<open>
  The launch verdict means what it says: \<open>canLaunch\<close> holds exactly when every CRITICAL item is
  VALIDATED, and exactly when there are no blockers; each blocker is a CRITICAL item that is not.
\<close>

theorem launch_verdict:
  "(rd_canLaunch (computeReadiness mx) \<longleftrightarrow>
     (\<forall>i \<in> set (mx_items mx). vi_priority i = P_CRITICAL \<longrightarrow> vi_status i = VALIDATED)) \<and>
   (rd_canLaunch (computeReadiness mx) \<longleftrightarrow> rd_blockers (computeReadiness mx) = []) \<and>
   int (length (rd_blockers (computeReadiness mx))) =
     rd_criticalTotal (computeReadiness mx) - rd_criticalLaunchReady (computeReadiness mx)"
proof -
  have "rd_canLaunch (computeReadiness mx) \<longleftrightarrow>
      (\<forall>i \<in> set (mx_items mx). vi_priority i = P_CRITICAL \<longrightarrow> vi_status i = VALIDATED)"
    by (auto simp: computeReadiness_def Let_def count_all_iff isLaunchReady_def)
  moreover have "rd_blockers (computeReadiness mx) = [] \<longleftrightarrow>
      (\<forall>i \<in> set (mx_items mx). vi_priority i = P_CRITICAL \<longrightarrow> vi_status i = VALIDATED)"
    by (auto simp: computeReadiness_def Let_def isLaunchReady_def filter_empty_conv)
  moreover have "int (length (filter (\<lambda>i. a i \<and> \<not> isLaunchReady i) xs)) =
      int (length (filter a xs)) - count isLaunchReady (filter a xs)" for a xs
    by (induction xs) auto
  ultimately show ?thesis by (simp add: computeReadiness_def Let_def)
qed

theorem launch_verdict_witness:
  "rd_canLaunch (computeReadiness demo_matrix) \<and> rd_blockers (computeReadiness demo_matrix) = []"
proof -
  have "rd_canLaunch (computeReadiness demo_matrix)"
    using launch_verdict [of demo_matrix] by (simp add: demo_matrix_def demo_item_def)
  then show ?thesis using launch_verdict [of demo_matrix] by blast
qed

lemma active_buckets:
  "count isActive xs =
     count (\<lambda>i. vi_status i = VALIDATED \<and> isActive i) xs + count (\<lambda>i. vi_status i = IMPLEMENTED \<and> isActive i) xs +
     count (\<lambda>i. vi_status i = IN_PROGRESS \<and> isActive i) xs + count (\<lambda>i. vi_status i = BLOCKED \<and> isActive i) xs +
     count (\<lambda>i. isActive i \<and> vi_status i \<in> {NEEDS_REVIEW, REVALIDATION_REQUIRED}) xs"
proof (induction xs)
  case (Cons i xs)
  then show ?case by (cases "vi_status i") (simp_all add: isActive_def isRoadmap_def isRetired_def)
qed simp

lemma active_blocked:
  "count isActive xs = count (\<lambda>i. vi_status i = VALIDATED \<and> isActive i) xs +
     count (\<lambda>i. isExternallyBlocked i \<and> isActive i) xs + count (\<lambda>i. isInternallyBlocked i \<and> isActive i) xs"
  by (induction xs) (auto simp: isActive_def isInternallyBlocked_def isExternallyBlocked_def)

lemma launch_scope_active:
  "count (\<lambda>_. True) xs - count isRoadmap xs - count isBaseline xs - count isRetired xs =
     count isActive xs - count (\<lambda>i. isBaseline i \<and> (isRoadmap i \<or> isRetired i)) xs"
proof (induction xs)
  case (Cons i xs)
  then show ?case by (cases "vi_status i") (auto simp: isActive_def isRoadmap_def isRetired_def)
qed simp

lemma length_filter_count: "int (length (filter p xs)) = count p xs"
  by (simp add: count_def)

text \<open>
  The active surface adds up: its required items are the validated, implemented, in-progress and
  blocked ones plus those under review or revalidation, which the record has no bucket for; each
  active item that is not validated is blocked either externally or internally; and the headline's
  launch scope is the required count less the baseline items that are also roadmap or retired,
  which the headline subtracts twice.
\<close>

theorem active_surface_adds_up:
  "ac_required (activeSurface items) =
     ac_validated (activeSurface items) + ac_implemented (activeSurface items) +
     ac_inProgress (activeSurface items) + ac_blocked (activeSurface items) +
     count (\<lambda>i. isActive i \<and> vi_status i \<in> {NEEDS_REVIEW, REVALIDATION_REQUIRED}) items \<and>
   ac_required (activeSurface items) =
     ac_validated (activeSurface items) + ac_externallyBlocked (activeSurface items) +
     ac_internallyBlocked (activeSurface items) \<and>
   rd_launchScope (computeReadiness mx) = ac_required (rd_active (computeReadiness mx)) -
     count (\<lambda>i. isBaseline i \<and> (isRoadmap i \<or> isRetired i)) (mx_items mx)"
proof (intro conjI)
  show "ac_required (activeSurface items) = ac_validated (activeSurface items) +
      ac_implemented (activeSurface items) + ac_inProgress (activeSurface items) +
      ac_blocked (activeSurface items) +
      count (\<lambda>i. isActive i \<and> vi_status i \<in> {NEEDS_REVIEW, REVALIDATION_REQUIRED}) items"
    using active_buckets [of items] by (simp add: activeSurface_def Let_def count_filter length_filter_count)
  show "ac_required (activeSurface items) = ac_validated (activeSurface items) +
      ac_externallyBlocked (activeSurface items) + ac_internallyBlocked (activeSurface items)"
    using active_blocked [of items] by (simp add: activeSurface_def Let_def count_filter length_filter_count)
  show "rd_launchScope (computeReadiness mx) = ac_required (rd_active (computeReadiness mx)) -
     count (\<lambda>i. isBaseline i \<and> (isRoadmap i \<or> isRetired i)) (mx_items mx)"
    using launch_scope_active [of "mx_items mx"]
    by (simp add: computeReadiness_def activeSurface_def Let_def count_true count_filter)
qed

end
