(* ===== verification/VsMatrix.thy ===== *)
theory VsMatrix
  imports VsReadiness JsStd
begin

text \<open>
  The studio's operations on the matrix (apps/validation-studio): the history and the change summary
  (lib/matrix.ts), the proposal fingerprint (lib/fingerprint.ts), the git commands (lib/git.ts,
  actions/git.ts) and the server actions that preview and save (actions/matrix.ts).

  The matrix file is the matrix value it holds; the clock is an argument in milliseconds; SHA-256
  and the git executable are parameters, the latter answering by position in the list of commands
  run, which is the git state.
\<close>

section \<open>History and change summary (lib/matrix.ts)\<close>

record history_entry =
  he_from :: "validation_status option"
  he_to :: validation_status
  he_approvedBy :: string
  he_fingerprint :: string
  he_reason :: string
  he_evidence :: "string list"

definition matrix_repo_path :: string where
  "matrix_repo_path = ''docs/validation/BANZAMI_IMPLEMENTATION_MATRIX.json''"

definition appendHistory :: "int \<Rightarrow> validation_item \<Rightarrow> history_entry \<Rightarrow> validation_item" where
  "appendHistory now item entry =
     item\<lparr>vi_history := vi_history item @
       [\<lparr> vh_timestamp = toISOString now, vh_from = he_from entry, vh_to = he_to entry,
          vh_approvedBy = he_approvedBy entry, vh_fingerprint = he_fingerprint entry, vh_commit = None,
          vh_reason = he_reason entry, vh_evidence = he_evidence entry \<rparr>]\<rparr>"

definition change :: "bool \<Rightarrow> string \<Rightarrow> string \<Rightarrow> string \<Rightarrow> field_change list" where
  "change differs field old new =
     (if differs then [\<lparr> fc_field = field, fc_from = old, fc_to = new \<rparr>] else [])"

definition or_dash :: "string option \<Rightarrow> string" where
  "or_dash x = (case x of Some s \<Rightarrow> s | None \<Rightarrow> em_dash)"

definition or_empty :: "string option \<Rightarrow> string" where
  "or_empty x = (case x of Some s \<Rightarrow> s | None \<Rightarrow> [])"

definition joined :: "string list \<Rightarrow> string" where
  "joined xs = (let s = join_with '', '' xs in if s = [] then em_dash else s)"

definition counted :: "'a list \<Rightarrow> string \<Rightarrow> string" where
  "counted xs unit_name = nat_str (length xs) @ '' '' @ unit_name"

definition evidence_json :: "validation_evidence \<Rightarrow> json" where
  "evidence_json e = JObj [(''type'', JStr (evidence_type_name (ev_type e))), (''label'', JStr (ev_label e)),
     (''ref'', JStr (ev_ref e))]"

definition invariant_json :: "validation_invariant \<Rightarrow> json" where
  "invariant_json i = JObj ([(''id'', JStr (iv_id i)), (''name'', JStr (iv_name i)), (''rule'', JStr (iv_rule i)),
     (''status'', JStr (invariant_status_name (iv_status i)))] @ opt_member ''lastChecked'' JStr (iv_lastChecked i))"

definition item_changes :: "validation_item \<Rightarrow> validation_item \<Rightarrow> field_change list" where
  "item_changes orig upd =
     change (vi_status orig \<noteq> vi_status upd) ''status'' (status_name (vi_status orig)) (status_name (vi_status upd)) @
     change (vi_priority orig \<noteq> vi_priority upd) ''priority'' (priority_name (vi_priority orig))
       (priority_name (vi_priority upd)) @
     change (or_empty (vi_notes orig) \<noteq> or_empty (vi_notes upd)) ''notes'' (or_dash (vi_notes orig))
       (or_dash (vi_notes upd)) @
     change (vi_ownerArea orig \<noteq> vi_ownerArea upd) ''ownerArea'' (vi_ownerArea orig) (vi_ownerArea upd) @
     change (vi_technicalArea orig \<noteq> vi_technicalArea upd) ''technicalArea'' (vi_technicalArea orig)
       (vi_technicalArea upd) @
     change (length (vi_evidence orig) \<noteq> length (vi_evidence upd)) ''evidence''
       (counted (vi_evidence orig) ''item(s)'') (counted (vi_evidence upd) ''item(s)'') @
     change (stringify (jstrs (vi_blockingIssues orig)) \<noteq> stringify (jstrs (vi_blockingIssues upd))) ''blockingIssues''
       (counted (vi_blockingIssues orig) ''item(s)'') (counted (vi_blockingIssues upd) ''item(s)'') @
     change (stringify (jstrs (vi_acceptanceCriteria orig)) \<noteq> stringify (jstrs (vi_acceptanceCriteria upd)))
       ''acceptanceCriteria''
       (counted (vi_acceptanceCriteria orig) (''crit'' @ [CHR 0xE9] @ ''rio(s)''))
       (counted (vi_acceptanceCriteria upd) (''crit'' @ [CHR 0xE9] @ ''rio(s)'')) @
     change (stringify (jstrs (map method_name (vi_validationMethods orig))) \<noteq>
             stringify (jstrs (map method_name (vi_validationMethods upd)))) ''validationMethods''
       (joined (map method_name (vi_validationMethods orig))) (joined (map method_name (vi_validationMethods upd))) @
     change (stringify (JArr (map invariant_json (vi_invariants orig))) \<noteq>
             stringify (JArr (map invariant_json (vi_invariants upd)))) ''invariants''
       (counted (vi_invariants orig) ''invariante(s)'') (counted (vi_invariants upd) ''invariante(s)'') @
     change (stringify (jstrs (vi_requires orig)) \<noteq> stringify (jstrs (vi_requires upd))) ''requires''
       (joined (vi_requires orig)) (joined (vi_requires upd)) @
     change (or_empty (vi_validationDomain orig) \<noteq> or_empty (vi_validationDomain upd)) ''validationDomain''
       (or_dash (vi_validationDomain orig)) (or_dash (vi_validationDomain upd)) @
     change (stored_score orig \<noteq> stored_score upd) ''confidence''
       (int_str (stored_score orig) @ '' ('' @
        or_dash (map_option (\<lambda>c. level_name (cs_level c)) (vi_confidence orig)) @ '')'')
       (int_str (stored_score upd) @ '' ('' @
        or_dash (map_option (\<lambda>c. level_name (cs_level c)) (vi_confidence upd)) @ '')'') @
     change (or_empty (vi_freezeReason orig) \<noteq> or_empty (vi_freezeReason upd)) ''freezeReason''
       (or_dash (vi_freezeReason orig)) (or_dash (vi_freezeReason upd))"

definition find_item :: "string \<Rightarrow> validation_item list \<Rightarrow> validation_item option" where
  "find_item ident items = List.find (\<lambda>i. vi_id i = ident) items"

definition item_summary :: "validation_item list \<Rightarrow> validation_item \<Rightarrow> item_change list" where
  "item_summary originals upd =
     (case find_item (vi_id upd) originals of
        None \<Rightarrow> []
      | Some orig \<Rightarrow>
          (let cs = item_changes orig upd in
           if cs \<noteq> [] then [\<lparr> ic_itemId = vi_id upd, ic_title = vi_title upd, ic_changes = cs \<rparr>] else []))"

definition computeChangeSummary :: "validation_matrix \<Rightarrow> validation_matrix \<Rightarrow> item_change list" where
  "computeChangeSummary original updated =
     concat (map (item_summary (mx_items original)) (mx_items updated))"

section \<open>Fingerprints (lib/fingerprint.ts)\<close>

record proposed_patch =
  pp_status :: "validation_status option"
  pp_evidence :: "validation_evidence list option"
  pp_invariants :: "validation_invariant list option"

record fingerprint_input =
  fi_item :: validation_item
  fi_gitDiff :: string
  fi_proposedPatch :: proposed_patch

definition canonical :: "fingerprint_input \<Rightarrow> json" where
  "canonical i =
     JObj ([(''itemId'', JStr (vi_id (fi_item i))),
       (''itemStatus'', JStr (status_name (vi_status (fi_item i)))),
       (''itemEvidence'', JArr (map evidence_json (vi_evidence (fi_item i)))),
       (''itemAcceptanceCriteria'', jstrs (vi_acceptanceCriteria (fi_item i))),
       (''itemInvariants'', JArr (map invariant_json (vi_invariants (fi_item i)))),
       (''itemRequires'', jstrs (vi_requires (fi_item i))),
       (''gitDiff'', JStr (fi_gitDiff i))] @
       opt_member ''proposedStatus'' (\<lambda>s. JStr (status_name s)) (pp_status (fi_proposedPatch i)) @
       opt_member ''proposedEvidence'' (\<lambda>e. JArr (map evidence_json e)) (pp_evidence (fi_proposedPatch i)) @
       opt_member ''proposedInvariants'' (\<lambda>v. JArr (map invariant_json v)) (pp_invariants (fi_proposedPatch i)))"

definition computeFingerprint :: "(string \<Rightarrow> string) \<Rightarrow> fingerprint_input \<Rightarrow> string" where
  "computeFingerprint sha256 input = take 16 (sha256 (stringify (canonical input)))"

definition verifyFingerprint :: "(string \<Rightarrow> string) \<Rightarrow> string \<Rightarrow> fingerprint_input \<Rightarrow> bool" where
  "verifyFingerprint sha256 proposalFingerprint currentInput \<longleftrightarrow>
     computeFingerprint sha256 currentInput = proposalFingerprint"

section \<open>Git (lib/git.ts, actions/git.ts)\<close>

record git_result =
  gr_ok :: bool
  gr_output :: string

type_synonym git_exec = "nat \<Rightarrow> string list \<Rightarrow> git_result"

type_synonym git_calls = "string list list"

definition gitRun :: "git_exec \<Rightarrow> string list \<Rightarrow> git_calls \<Rightarrow> git_result \<times> git_calls" where
  "gitRun exec args g = (exec (length g) args, g @ [args])"

definition git :: "git_exec \<Rightarrow> string list \<Rightarrow> git_calls \<Rightarrow> string \<times> git_calls" where
  "git exec args g = (case gitRun exec args g of (r, g1) \<Rightarrow> (gr_output r, g1))"

definition gitCurrentBranch :: "git_exec \<Rightarrow> git_calls \<Rightarrow> string \<times> git_calls" where
  "gitCurrentBranch exec g =
     (case git exec [''branch'', ''--show-current''] g of (o1, g1) \<Rightarrow> (js_trim o1, g1))"

definition gitStatus :: "git_exec \<Rightarrow> git_calls \<Rightarrow> string \<times> git_calls" where
  "gitStatus exec g = git exec [''status'', ''--short''] g"

definition gitDiff :: "git_exec \<Rightarrow> string \<Rightarrow> git_calls \<Rightarrow> string \<times> git_calls" where
  "gitDiff exec filepath g = git exec [''diff'', ''--'', filepath] g"

definition gitLog :: "git_exec \<Rightarrow> int \<Rightarrow> git_calls \<Rightarrow> string \<times> git_calls" where
  "gitLog exec n g = git exec [''log'', ''--oneline'', ''-'' @ int_str (max 1 n)] g"

definition gitStage :: "git_exec \<Rightarrow> string \<Rightarrow> git_calls \<Rightarrow> git_calls" where
  "gitStage exec filepath g = snd (git exec [''add'', ''--'', filepath] g)"

definition gitCommit :: "git_exec \<Rightarrow> string \<Rightarrow> git_calls \<Rightarrow> git_result \<times> git_calls" where
  "gitCommit exec message g = gitRun exec [''commit'', ''-m'', message] g"

definition getGitContext :: "git_exec \<Rightarrow> git_calls \<Rightarrow> (string \<times> string \<times> string) \<times> git_calls" where
  "getGitContext exec g =
     (case gitCurrentBranch exec g of (branch, g1) \<Rightarrow>
        (case gitStatus exec g1 of (status, g2) \<Rightarrow>
           (case gitLog exec 3 g2 of (log, g3) \<Rightarrow> ((branch, status, log), g3))))"

definition getMatrixDiff :: "git_exec \<Rightarrow> git_calls \<Rightarrow> string \<times> git_calls" where
  "getMatrixDiff exec g = gitDiff exec matrix_repo_path g"

definition commitMatrix :: "git_exec \<Rightarrow> string \<Rightarrow> git_calls \<Rightarrow> git_result \<times> git_calls" where
  "commitMatrix exec message g = gitCommit exec message (gitStage exec matrix_repo_path g)"

section \<open>Server actions (actions/matrix.ts)\<close>

definition validateItem :: "validation_item \<Rightarrow> validation_item list \<Rightarrow> governance_issue list" where
  "validateItem item allItems = checkItem item @ checkRequires item allItems"

record preview =
  pv_issues :: "governance_issue list"
  pv_changes :: "item_change list"
  pv_fingerprint :: "string option"

definition previewSave ::
  "(string \<Rightarrow> string) \<Rightarrow> git_exec \<Rightarrow> validation_matrix \<Rightarrow> validation_matrix \<Rightarrow> git_calls \<Rightarrow> preview \<times> git_calls" where
  "previewSave sha256 exec original updated g =
     (let issues = checkMatrix updated; changes = computeChangeSummary original updated in
      case changes of
        [] \<Rightarrow> (\<lparr> pv_issues = issues, pv_changes = changes, pv_fingerprint = None \<rparr>, g)
      | ch # _ \<Rightarrow>
          (case (find_item (ic_itemId ch) (mx_items original), find_item (ic_itemId ch) (mx_items updated)) of
             (Some item, Some upd) \<Rightarrow>
               (case gitDiff exec matrix_repo_path g of (currentDiff, g1) \<Rightarrow>
                  (\<lparr> pv_issues = issues, pv_changes = changes, pv_fingerprint = Some (computeFingerprint sha256
                       \<lparr> fi_item = item, fi_gitDiff = currentDiff,
                         fi_proposedPatch = \<lparr> pp_status = Some (vi_status upd), pp_evidence = Some (vi_evidence upd),
                           pp_invariants = None \<rparr> \<rparr>) \<rparr>, g1))
           | _ \<Rightarrow> (\<lparr> pv_issues = issues, pv_changes = changes, pv_fingerprint = None \<rparr>, g)))"

record save_options =
  so_approvedBy :: "string option"
  so_fingerprint :: "string option"
  so_reason :: "string option"

record save_result =
  sr_ok :: bool
  sr_errors :: "governance_issue list"

definition opt_or :: "string option \<Rightarrow> string \<Rightarrow> string" where
  "opt_or x d = (case x of Some v \<Rightarrow> v | None \<Rightarrow> d)"

definition with_history ::
  "int \<Rightarrow> validation_item list \<Rightarrow> save_options \<Rightarrow> validation_item \<Rightarrow> validation_item" where
  "with_history now originals opts item =
     (case find_item (vi_id item) originals of
        None \<Rightarrow> item
      | Some orig \<Rightarrow>
          (if vi_status orig = vi_status item then item
           else appendHistory now item
             \<lparr> he_from = Some (vi_status orig), he_to = vi_status item,
               he_approvedBy = opt_or (so_approvedBy opts) ''local-admin'',
               he_fingerprint = opt_or (so_fingerprint opts) ''studio-save'',
               he_reason = opt_or (so_reason opts)
                 (''Status alterado de '' @ status_name (vi_status orig) @ '' para '' @
                  status_name (vi_status item) @ '' via Validation Studio''),
               he_evidence = map ev_ref (vi_evidence item) \<rparr>))"

text \<open>The matrix file before and after: \<open>writeMatrix\<close> replaces it.\<close>

definition saveMatrix ::
  "int \<Rightarrow> validation_matrix \<Rightarrow> validation_matrix \<Rightarrow> save_options \<Rightarrow> validation_matrix \<Rightarrow>
   save_result \<times> validation_matrix" where
  "saveMatrix now original updated opts stored =
     (let errors = filter (\<lambda>i. gi_severity i = Error) (checkMatrix updated) in
      if errors \<noteq> [] then (\<lparr> sr_ok = False, sr_errors = errors \<rparr>, stored)
      else
        (let today = hd (split_on (CHR ''T'') (toISOString now));
             updated1 = updated\<lparr>mx_meta := (mx_meta updated)\<lparr>vm_lastUpdated := today\<rparr>\<rparr>
         in (\<lparr> sr_ok = True, sr_errors = [] \<rparr>,
             updated1\<lparr>mx_items := map (with_history now (mx_items original) opts) (mx_items updated1)\<rparr>)))"

section \<open>Lemmas\<close>

lemma find_item_SomeD: "find_item k items = Some i \<Longrightarrow> i \<in> set items \<and> vi_id i = k"
  by (auto simp: find_item_def find_Some_iff in_set_conv_nth)

lemma with_history_frame [simp]:
  "vi_id (with_history now os opts i) = vi_id i" "vi_status (with_history now os opts i) = vi_status i"
  by (simp_all add: with_history_def appendHistory_def split: option.splits)

lemma hasErrors_filter: "filter (\<lambda>i. gi_severity i = Error) xs = [] \<longleftrightarrow> \<not> hasErrors xs"
  by (induction xs) auto

text \<open>
  A save never stores an unsound matrix: it succeeds exactly when the updated matrix is sound,
  and then the stored items are the updated ones, in order, with the same ids and statuses, whose
  history is the updated item's history followed by at most one entry, one exactly when the item
  existed with another status; a refused save leaves the stored matrix as it was.
\<close>

theorem save_matrix_safe:
  assumes "saveMatrix now original updated opts stored = (res, stored')"
  shows "(sr_ok res \<longleftrightarrow> matrix_sound updated) \<and>
    (\<not> sr_ok res \<longrightarrow> stored' = stored \<and> sr_errors res \<noteq> []) \<and>
    (sr_ok res \<longrightarrow> list_all2 (\<lambda>item item'. vi_id item' = vi_id item \<and> vi_status item' = vi_status item \<and>
        (\<exists>entries. vi_history item' = vi_history item @ entries \<and> length entries \<le> 1 \<and>
           (entries \<noteq> [] \<longleftrightarrow> (\<exists>orig. find_item (vi_id item) (mx_items original) = Some orig \<and>
              vi_status orig \<noteq> vi_status item))))
      (mx_items updated) (mx_items stored'))"
proof (cases "hasErrors (checkMatrix updated)")
  case True
  then show ?thesis
    using assms checkMatrix_decides [of updated] by (auto simp: saveMatrix_def Let_def hasErrors_filter)
next
  case False
  have "\<exists>entries. vi_history (with_history now os opts item) = vi_history item @ entries \<and> length entries \<le> 1 \<and>
      (entries \<noteq> [] \<longleftrightarrow> (\<exists>orig. find_item (vi_id item) os = Some orig \<and> vi_status orig \<noteq> vi_status item))"
    for os item
    by (auto simp: with_history_def appendHistory_def split: option.splits)
  with False show ?thesis
    using assms checkMatrix_decides [of updated]
    by (auto simp: saveMatrix_def Let_def hasErrors_filter list_all2_conv_all_nth)
qed

theorem save_matrix_safe_witness:
  "sr_ok (fst (saveMatrix 0 demo_matrix demo_matrix \<lparr> so_approvedBy = None, so_fingerprint = None, so_reason = None \<rparr> demo_matrix))"
proof -
  let ?o = "\<lparr> so_approvedBy = None, so_fingerprint = None, so_reason = None \<rparr>"
  obtain r s where "saveMatrix 0 demo_matrix demo_matrix ?o demo_matrix = (r, s)" by fastforce
  with save_matrix_safe [OF this] demo_matrix_sound show ?thesis by simp
qed

lemma status_name_inject [simp]: "status_name s = status_name t \<longleftrightarrow> s = t"
  by (cases s; cases t) (simp_all add: status_name_def)

lemma evidence_json_inject: "evidence_json e = evidence_json f \<longleftrightarrow> e = f"
proof -
  have "evidence_type_name a = evidence_type_name b \<longleftrightarrow> a = b" for a b
    by (cases a; cases b) (simp_all add: evidence_type_name_def)
  then show ?thesis by (cases e; cases f) (simp add: evidence_json_def)
qed

lemma invariant_json_inject: "invariant_json e = invariant_json f \<longleftrightarrow> e = f"
proof -
  have "invariant_status_name a = invariant_status_name b \<longleftrightarrow> a = b" for a b
    by (cases a; cases b) (simp_all add: invariant_status_name_def)
  then show ?thesis
    by (cases e; cases f) (auto simp: invariant_json_def opt_member_def split: option.splits)
qed

lemma map_json_inject [simp]:
  "map evidence_json es = map evidence_json fs \<longleftrightarrow> es = fs"
  "map invariant_json is1 = map invariant_json is2 \<longleftrightarrow> is1 = is2"
  by (simp_all add: inj_map_eq_map inj_def evidence_json_inject invariant_json_inject)

lemma canonical_inject:
  "canonical i = canonical j \<longleftrightarrow>
     vi_id (fi_item i) = vi_id (fi_item j) \<and> vi_status (fi_item i) = vi_status (fi_item j) \<and>
     vi_evidence (fi_item i) = vi_evidence (fi_item j) \<and>
     vi_acceptanceCriteria (fi_item i) = vi_acceptanceCriteria (fi_item j) \<and>
     vi_invariants (fi_item i) = vi_invariants (fi_item j) \<and> vi_requires (fi_item i) = vi_requires (fi_item j) \<and>
     fi_gitDiff i = fi_gitDiff j \<and> fi_proposedPatch i = fi_proposedPatch j"
  by (cases "fi_proposedPatch i"; cases "fi_proposedPatch j")
     (auto simp: canonical_def opt_member_def split: option.splits)

lemma canonical_wf: "json_wf (canonical i)"
proof -
  have "json_wf (evidence_json e)" "json_wf (invariant_json v)" for e v
    by (auto simp: evidence_json_def invariant_json_def opt_member_def split: option.splits)
  then show ?thesis by (auto simp: canonical_def opt_member_def split: option.splits)
qed

text \<open>
  A fingerprint detects drift: unless the truncated hash collides on the two states, a proposal's
  fingerprint verifies against a current state exactly when the item's id, status, evidence,
  acceptance criteria, invariants and requirements, the git diff and the proposed patch are all
  unchanged. What it does not cover (the title, the confidence, the history) can change freely.
\<close>

theorem fingerprint_detects_drift:
  assumes "computeFingerprint sha256 i = computeFingerprint sha256 j \<longrightarrow>
      stringify (canonical i) = stringify (canonical j)"
  shows "verifyFingerprint sha256 (computeFingerprint sha256 i) j \<longleftrightarrow>
     vi_id (fi_item i) = vi_id (fi_item j) \<and> vi_status (fi_item i) = vi_status (fi_item j) \<and>
     vi_evidence (fi_item i) = vi_evidence (fi_item j) \<and>
     vi_acceptanceCriteria (fi_item i) = vi_acceptanceCriteria (fi_item j) \<and>
     vi_invariants (fi_item i) = vi_invariants (fi_item j) \<and> vi_requires (fi_item i) = vi_requires (fi_item j) \<and>
     fi_gitDiff i = fi_gitDiff j \<and> fi_proposedPatch i = fi_proposedPatch j"
  unfolding canonical_inject [symmetric]
  using assms stringify_inj [OF canonical_wf canonical_wf, of i j]
  by (auto simp: verifyFingerprint_def computeFingerprint_def)

definition demo_input :: "string \<Rightarrow> fingerprint_input" where
  "demo_input ident = \<lparr> fi_item = demo_item ident [], fi_gitDiff = [],
     fi_proposedPatch = \<lparr> pp_status = None, pp_evidence = None, pp_invariants = None \<rparr> \<rparr>"

theorem fingerprint_detects_drift_witness:
  "\<not> verifyFingerprint (drop 10) (computeFingerprint (drop 10) (demo_input ''A'')) (demo_input ''B'')"
proof -
  have d: "computeFingerprint (drop 10) (demo_input ''A'') \<noteq> computeFingerprint (drop 10) (demo_input ''B'')"
    by (simp add: computeFingerprint_def demo_input_def canonical_def json_quote_def json_escape_def demo_item_def)
  then show ?thesis
    using fingerprint_detects_drift [of "drop 10" "demo_input ''A''" "demo_input ''B''"]
    by (simp add: demo_input_def demo_item_def)
qed

text \<open>
  A commit message is never anything but a message: committing the matrix runs exactly two git
  commands, staging the matrix file and a commit whose message is one argument, whatever the
  message holds; and the result is the commit's own, so a refused commit is reported as refused.
  The commit is attempted even when staging failed.
\<close>

theorem commit_matrix_argv:
  "snd (commitMatrix exec message g) =
     g @ [[''add'', ''--'', matrix_repo_path], [''commit'', ''-m'', message]] \<and>
   fst (commitMatrix exec message g) = exec (Suc (length g)) [''commit'', ''-m'', message]"
  by (simp add: commitMatrix_def gitCommit_def gitStage_def git_def gitRun_def)

text \<open>Reflexivity of the summary, and the edits it does not see.\<close>

lemma item_changes_refl: "item_changes i i = []"
  by (simp add: item_changes_def change_def)

lemma find_item_distinct:
  "distinct (map vi_id items) \<Longrightarrow> i \<in> set items \<Longrightarrow> find_item (vi_id i) items = Some i"
proof (induction items)
  case (Cons x xs)
  then show ?case by (cases "x = i") (auto simp: find_item_def rev_image_eqI)
qed simp

text \<open>
  The change summary reports nothing for an unchanged matrix with unique ids; but it reports
  nothing either when every piece of evidence of an item is replaced by as many others, or when an
  item is added: an edit of the evidence is seen only through its count.
\<close>

theorem change_summary_blind_spots:
  "(distinct (map vi_id (mx_items mx)) \<longrightarrow> computeChangeSummary mx mx = []) \<and>
   (length ev' = length (vi_evidence item) \<longrightarrow>
      computeChangeSummary (mx\<lparr>mx_items := [item]\<rparr>) (mx\<lparr>mx_items := [item\<lparr>vi_evidence := ev'\<rparr>]\<rparr>) = []) \<and>
   (find_item (vi_id new) (mx_items mx) = None \<longrightarrow>
      computeChangeSummary mx (mx\<lparr>mx_items := [new]\<rparr>) = [])"
proof (intro conjI impI)
  assume "distinct (map vi_id (mx_items mx))"
  then have "item_summary (mx_items mx) i = []" if "i \<in> set (mx_items mx)" for i
    using that by (simp add: item_summary_def find_item_distinct item_changes_refl)
  then show "computeChangeSummary mx mx = []" by (simp add: computeChangeSummary_def)
next
  assume "length ev' = length (vi_evidence item)"
  then show "computeChangeSummary (mx\<lparr>mx_items := [item]\<rparr>) (mx\<lparr>mx_items := [item\<lparr>vi_evidence := ev'\<rparr>]\<rparr>) = []"
    by (simp add: computeChangeSummary_def item_summary_def find_item_def item_changes_def change_def
        stored_score_def)
next
  assume "find_item (vi_id new) (mx_items mx) = None"
  then show "computeChangeSummary mx (mx\<lparr>mx_items := [new]\<rparr>) = []"
    by (simp add: computeChangeSummary_def item_summary_def)
qed

theorem change_summary_blind_spots_witness:
  "computeChangeSummary demo_matrix demo_matrix = []"
  using change_summary_blind_spots [of demo_matrix "[]" "demo_item ''A'' []" "demo_item ''A'' []"]
  by (simp add: demo_matrix_def demo_item_def)

end
