(* ===== verification/Base64.thy ===== *)
theory Base64
  imports JsStd
begin

text \<open>
  The \<open>base64url\<close> codec of Node's \<open>Buffer\<close>: \<open>toString('base64url')\<close> without padding, and
  \<open>Buffer.from(text, 'base64url')\<close>, which skips characters outside the alphabet and reads the
  characters of plain base64 too. A byte string is a list of characters, one per byte.
\<close>

definition b64_char :: "nat \<Rightarrow> char" where
  "b64_char n = char_of (if n < 26 then 65 + n else if n < 52 then 71 + n else if n < 62 then n - 4
     else if n = 62 then 45 else 95)"

definition b64_val :: "char \<Rightarrow> nat option" where
  "b64_val c = (let n = unit_code c in
     if 65 \<le> n \<and> n \<le> 90 then Some (n - 65)
     else if 97 \<le> n \<and> n \<le> 122 then Some (n - 71)
     else if 48 \<le> n \<and> n \<le> 57 then Some (n + 4)
     else if n = 45 \<or> n = 43 then Some 62
     else if n = 95 \<or> n = 47 then Some 63 else None)"

fun b64_digits :: "string \<Rightarrow> nat list" where
  "b64_digits (a # b # c # bs) =
     [unit_code a div 4, unit_code a mod 4 * 16 + unit_code b div 16,
      unit_code b mod 16 * 4 + unit_code c div 64, unit_code c mod 64] @ b64_digits bs"
| "b64_digits [a, b] =
     [unit_code a div 4, unit_code a mod 4 * 16 + unit_code b div 16, unit_code b mod 16 * 4]"
| "b64_digits [a] = [unit_code a div 4, unit_code a mod 4 * 16]"
| "b64_digits [] = []"

fun b64_bytes :: "nat list \<Rightarrow> string" where
  "b64_bytes (p # q # r # s # ds) =
     [char_of (p * 4 + q div 16), char_of (q mod 16 * 16 + r div 4), char_of (r mod 4 * 64 + s)] @ b64_bytes ds"
| "b64_bytes [p, q, r] = [char_of (p * 4 + q div 16), char_of (q mod 16 * 16 + r div 4)]"
| "b64_bytes [p, q] = [char_of (p * 4 + q div 16)]"
| "b64_bytes _ = []"

definition base64url :: "string \<Rightarrow> string" where
  "base64url bs = map b64_char (b64_digits bs)"

definition from_base64url :: "string \<Rightarrow> string" where
  "from_base64url s = b64_bytes (List.map_filter b64_val s)"

lemma b64_val_char [simp]: "n < 64 \<Longrightarrow> b64_val (b64_char n) = Some n"
  by (auto simp: b64_val_def b64_char_def Let_def)

lemma b64_digit_bound: "d \<in> set (b64_digits bs) \<Longrightarrow> d < 64"
proof (induction bs rule: b64_digits.induct)
  case (1 a b c bs)
  have "unit_code a div 4 < 64" "unit_code b div 16 < 16" "unit_code c div 64 < 4"
    using unit_code_bound [of a] unit_code_bound [of b] unit_code_bound [of c] by linarith+
  moreover have "unit_code a mod 4 < 4" "unit_code b mod 16 < 16" by simp_all
  ultimately show ?case using 1 by auto
next
  case (2 a b)
  have "unit_code a div 4 < 64" "unit_code b div 16 < 16"
    using unit_code_bound [of a] unit_code_bound [of b] by linarith+
  moreover have "unit_code a mod 4 < 4" "unit_code b mod 16 < 16" by simp_all
  ultimately show ?case using 2 by auto
next
  case (3 a)
  have "unit_code a div 4 < 64" using unit_code_bound [of a] by linarith
  moreover have "unit_code a mod 4 < 4" by simp
  ultimately show ?case using 3 by auto
qed simp


lemma b64_bytes_digits [simp]: "b64_bytes (b64_digits bs) = bs"
proof (induction bs rule: b64_digits.induct)
  case (1 a b c bs)
  have b: "unit_code b div 16 < 16" and c: "unit_code c div 64 < 4"
    using unit_code_bound [of b] unit_code_bound [of c] by linarith+
  have "(unit_code a mod 4 * 16 + unit_code b div 16) div 16 = unit_code a mod 4"
    "(unit_code a mod 4 * 16 + unit_code b div 16) mod 16 = unit_code b div 16"
    "(unit_code b mod 16 * 4 + unit_code c div 64) div 4 = unit_code b mod 16"
    "(unit_code b mod 16 * 4 + unit_code c div 64) mod 4 = unit_code c div 64"
    using b c by simp_all
  moreover have "unit_code x div k * k + unit_code x mod k = unit_code x" for x k by simp
  ultimately show ?case using 1 by (simp only: b64_digits.simps b64_bytes.simps append.simps char_of_unit)
next
  case (2 a b)
  have b: "unit_code b div 16 < 16" using unit_code_bound [of b] by linarith
  have "(unit_code a mod 4 * 16 + unit_code b div 16) div 16 = unit_code a mod 4"
    "(unit_code a mod 4 * 16 + unit_code b div 16) mod 16 = unit_code b div 16"
    "(unit_code b mod 16 * 4) div 4 = unit_code b mod 16"
    using b by simp_all
  moreover have "unit_code x div k * k + unit_code x mod k = unit_code x" for x k by simp
  ultimately show ?case by (simp only: b64_digits.simps b64_bytes.simps char_of_unit)
next
  case (3 a)
  have "(unit_code a mod 4 * 16) div 16 = unit_code a mod 4" by simp
  moreover have "unit_code x div k * k + unit_code x mod k = unit_code x" for x k by simp
  ultimately show ?case by (simp only: b64_digits.simps b64_bytes.simps char_of_unit)
qed simp

lemma base64url_roundtrip [simp]: "from_base64url (base64url bs) = bs"
proof -
  have "List.map_filter b64_val (map b64_char ds) = ds" if "\<And>d. d \<in> set ds \<Longrightarrow> d < 64" for ds
    using that by (induction ds) (simp_all add: List.map_filter_simps)
  then show ?thesis by (simp add: base64url_def from_base64url_def b64_digit_bound)
qed

lemma base64url_inject [simp]: "base64url a = base64url b \<longleftrightarrow> a = b"
  by (metis base64url_roundtrip)

text \<open>Encoded text needs no escaping in a cookie, a URL or a Redis key.\<close>

lemma b64_char_unreserved: "n < 64 \<Longrightarrow> uri_unreserved (b64_char n)"
proof -
  have "char_of (45 :: nat) = CHR ''-''" "char_of (95 :: nat) = CHR ''_''" by code_simp+
  then show "n < 64 \<Longrightarrow> uri_unreserved (b64_char n)"
    by (auto simp: b64_char_def uri_unreserved_def is_alnum_def char_class_defs of_char_of)
qed

lemma base64url_plain: "list_all uri_unreserved (base64url bs)"
  by (auto simp: base64url_def list_all_iff b64_char_unreserved b64_digit_bound)

lemma length_b64_digits: "length (b64_digits bs) = (4 * length bs + 2) div 3"
  by (induction bs rule: b64_digits.induct) auto

end
