(* ===== verification/AppStore.thy ===== *)
theory AppStore
  imports Base64 SdkWebhooks "HOL-Library.AList"
begin

text \<open>
  The session store of App Banzami Web (apps/app-banzami/lib/session_store.mjs): sealing of
  records, the RESP client and the Redis backend's commands, and the file backend, with the
  contract both backends offer the server: a map whose entries expire.

  Node's crypto is the parameter \<open>crypto\<close>; \<open>aead\<close> states what the code relies on. Random draws are
  read by position. A write of the backing file is one step, and its entries are those the store
  itself wrote. A Redis length below -1, which no server sends, is read as one that is not a number.
\<close>

section \<open>Sealing\<close>

record crypto =
  cr_random :: "nat \<Rightarrow> nat \<Rightarrow> string"
  cr_sha256 :: "string \<Rightarrow> string"
  cr_encrypt :: "string \<Rightarrow> string \<Rightarrow> string \<Rightarrow> string \<times> string"
  cr_decrypt :: "string \<Rightarrow> string \<Rightarrow> string \<Rightarrow> string \<Rightarrow> string option"

text \<open>AES-256-GCM: decryption with the tag inverts encryption; a tag has 16 bytes; the random source
  gives as many bytes as asked.\<close>

definition aead :: "crypto \<Rightarrow> bool" where
  "aead cr \<longleftrightarrow> (\<forall>n k. length (cr_random cr n k) = k) \<and>
     (\<forall>key iv pt. length (snd (cr_encrypt cr key iv pt)) = 16 \<and>
        cr_decrypt cr key iv (snd (cr_encrypt cr key iv pt)) (fst (cr_encrypt cr key iv pt)) = Some pt)"

definition newSessionId :: "crypto \<Rightarrow> nat \<Rightarrow> string" where
  "newSessionId cr n = base64url (cr_random cr n 32)"

text \<open>\<^const>\<open>None\<close>: the module throws while it loads.\<close>

definition storeKey :: "crypto \<Rightarrow> string option \<Rightarrow> bool \<Rightarrow> string option" where
  "storeKey cr raw production =
     (if (case raw of Some k \<Rightarrow> length k \<ge> 16 | None \<Rightarrow> False) then Some (cr_sha256 cr (utf8_bytes (the raw)))
      else if production then None
      else Some (cr_sha256 cr ''app-web-session-store-dev-key''))"

definition sealRecord :: "crypto \<Rightarrow> string \<Rightarrow> nat \<Rightarrow> json \<Rightarrow> string" where
  "sealRecord cr key n obj =
     (let iv = cr_random cr n 12 in
      case cr_encrypt cr key iv (utf8_bytes (stringify obj)) of
        (ct, tag) \<Rightarrow> base64url (iv @ tag @ ct))"

definition openRecord :: "crypto \<Rightarrow> string \<Rightarrow> string \<Rightarrow> json option" where
  "openRecord cr key blob =
     (let buf = from_base64url blob in
      if length buf < 28 then None
      else (case cr_decrypt cr key (take 12 buf) (take 16 (drop 12 buf)) (drop 28 buf) of
              None \<Rightarrow> None
            | Some pt \<Rightarrow> (case json_parse (utf8_decode pt) of Some JNull \<Rightarrow> None | r \<Rightarrow> r)))"

text \<open>What can be stored: a JSON value other than \<open>null\<close>.\<close>

definition storable :: "json \<Rightarrow> bool" where
  "storable v \<longleftrightarrow> json_wf v \<and> v \<noteq> JNull"

lemma open_seal:
  assumes "aead cr" and "storable v"
  shows "openRecord cr key (sealRecord cr key n v) = Some v"
proof -
  let ?iv = "cr_random cr n 12" and ?pt = "utf8_bytes (stringify v)"
  obtain ct tag where e: "cr_encrypt cr key ?iv ?pt = (ct, tag)" by fastforce
  have "length ?iv = 12" "length tag = 16" "cr_decrypt cr key ?iv tag ct = Some ?pt"
    using assms(1) e unfolding aead_def by (metis fst_conv snd_conv)+
  moreover have "json_parse (utf8_decode ?pt) = Some v"
    using assms(2) by (simp add: storable_def utf8_bytes_def utf8_roundtrip json_roundtrip)
  ultimately show ?thesis
    using e assms(2) by (cases v) (simp_all add: sealRecord_def openRecord_def Let_def storable_def)
qed

section \<open>The RESP client\<close>

definition crlf :: string where
  "crlf = [CHR 0x0D, CHR 0x0A]"

definition resp_bulk :: "string \<Rightarrow> string" where
  "resp_bulk s = ''$'' @ nat_str (length (utf8_bytes s)) @ crlf @ utf8_bytes s @ crlf"

definition resp_command :: "string list \<Rightarrow> string" where
  "resp_command args = ''*'' @ nat_str (length args) @ crlf @ concat (map resp_bulk args)"

text \<open>The text before the first line end, and the text after it.\<close>

fun line_cut :: "string \<Rightarrow> (string \<times> string) option" where
  "line_cut (x # y # s) =
     (if x = CHR 0x0D \<and> y = CHR 0x0A then Some ([], s)
      else map_option (\<lambda>(l, r). (x # l, r)) (line_cut (y # s)))"
| "line_cut s = None"

text \<open>\<open>parseInt(line, 10)\<close>: a sign and the leading digits; \<^const>\<open>None\<close> is \<open>NaN\<close>.\<close>

definition parse_int :: "string \<Rightarrow> int option" where
  "parse_int line =
     (let s = trim_start line;
          neg = prefix ''-'' s;
          d = takeWhile is_digit (if neg \<or> prefix ''+'' s then tl s else s)
      in if d = [] then None else Some (if neg then - int (dec_val d) else int (dec_val d)))"

datatype resp_value = RNull | RStr string | RInt "int option"

text \<open>One reply: its value or error, and how many bytes it took; \<^const>\<open>None\<close> while it is partial.\<close>

definition resp_parse :: "string \<Rightarrow> ((string + resp_value) \<times> nat) option" where
  "resp_parse buf =
     (if buf = [] then None
      else case line_cut buf of
        None \<Rightarrow> None
      | Some (head, after) \<Rightarrow>
          (let type = hd buf; line = tl head; headerEnd = length head + 2 in
           if type = CHR ''+'' then Some (Inr (RStr line), headerEnd)
           else if type = CHR ''-'' then Some (Inl line, headerEnd)
           else if type = CHR '':'' then Some (Inr (RInt (parse_int line)), headerEnd)
           else if type = CHR ''$'' then
             (case parse_int line of
                None \<Rightarrow> Some (Inr (RStr []), 0)
              | Some len \<Rightarrow>
                  (if len = - 1 then Some (Inr RNull, headerEnd)
                   else if len < 0 then Some (Inr (RStr []), 0)
                   else if length buf < headerEnd + nat len + 2 then None
                   else Some (Inr (RStr (utf8_decode (take (nat len) (drop headerEnd buf)))),
                              headerEnd + nat len + 2)))
           else if type = CHR ''*'' then Some (Inr RNull, headerEnd)
           else Some (Inl (''unexpected RESP type '' @ [type]), headerEnd)))"

text \<open>
  The connection: the unread bytes, the commands waiting for a reply (by number), the replies given
  to them, and the bytes written.
\<close>

record redis_client =
  rc_buf :: string
  rc_pending :: "nat list"
  rc_settled :: "(nat \<times> (string + resp_value)) list"
  rc_written :: string

definition rc_failAll :: "string \<Rightarrow> redis_client \<Rightarrow> redis_client" where
  "rc_failAll err c =
     c\<lparr>rc_pending := [], rc_buf := [], rc_settled := rc_settled c @ map (\<lambda>w. (w, Inl err)) (rc_pending c)\<rparr>"

definition rc_cmd :: "nat \<Rightarrow> string list \<Rightarrow> redis_client \<Rightarrow> redis_client" where
  "rc_cmd waiter args c =
     c\<lparr>rc_pending := rc_pending c @ [waiter], rc_written := rc_written c @ resp_command args\<rparr>"

text \<open>On connecting, the password goes first; its reply settles a waiter of its own.\<close>

definition rc_connected :: "nat \<Rightarrow> string \<Rightarrow> redis_client \<Rightarrow> redis_client" where
  "rc_connected waiter password c = (if password \<noteq> [] then rc_cmd waiter [''AUTH'', password] c else c)"

definition rc_settle :: "(string + resp_value) \<Rightarrow> redis_client \<Rightarrow> redis_client" where
  "rc_settle r c =
     (case rc_pending c of
        [] \<Rightarrow> c
      | w # ws \<Rightarrow> c\<lparr>rc_pending := ws, rc_settled := rc_settled c @ [(w, r)]\<rparr>)"

partial_function (option) rc_drain :: "redis_client \<Rightarrow> redis_client option" where
  "rc_drain c =
     (case resp_parse (rc_buf c) of
        None \<Rightarrow> Some c
      | Some (r, consumed) \<Rightarrow> rc_drain (rc_settle r (c\<lparr>rc_buf := drop consumed (rc_buf c)\<rparr>)))"

definition rc_onData :: "string \<Rightarrow> redis_client \<Rightarrow> redis_client option" where
  "rc_onData chunk c = rc_drain (c\<lparr>rc_buf := rc_buf c @ chunk\<rparr>)"

section \<open>The Redis backend's commands\<close>

definition redis_prefix :: string where
  "redis_prefix = ''bzweb:sess:''"

definition redis_get :: "string \<Rightarrow> string list" where
  "redis_get ident = [''GET'', redis_prefix @ ident]"

definition redis_got :: "crypto \<Rightarrow> string \<Rightarrow> resp_value \<Rightarrow> json option" where
  "redis_got cr key v = (case v of RStr s \<Rightarrow> if s = [] then None else openRecord cr key s | _ \<Rightarrow> None)"

definition ttl_ms :: "int \<Rightarrow> int" where
  "ttl_ms ttl = max 1000 ttl"

definition redis_set :: "crypto \<Rightarrow> string \<Rightarrow> nat \<Rightarrow> string \<Rightarrow> json \<Rightarrow> int \<Rightarrow> string list" where
  "redis_set cr key n ident rec ttl =
     [''SET'', redis_prefix @ ident, sealRecord cr key n rec, ''PX'', int_str (ttl_ms ttl)]"

definition redis_touchTtl :: "string \<Rightarrow> int \<Rightarrow> string list" where
  "redis_touchTtl ident ttl = [''PEXPIRE'', redis_prefix @ ident, int_str (ttl_ms ttl)]"

definition redis_del :: "string \<Rightarrow> string list" where
  "redis_del ident = [''DEL'', redis_prefix @ ident]"

definition redis_ping :: "resp_value \<Rightarrow> bool" where
  "redis_ping v \<longleftrightarrow> v = RStr ''PONG''"

text \<open>The fixed-window counter: the command after the count is known, and the verdict.\<close>

definition redis_limit :: "string \<Rightarrow> int \<Rightarrow> int \<Rightarrow> int \<Rightarrow> string list option \<times> bool" where
  "redis_limit key windowMs most n =
     (if n = 1 then Some [''PEXPIRE'', ''bzweb:rl:'' @ key, int_str (ttl_ms windowMs)] else None, n > most)"

section \<open>The file backend\<close>

record file_entry =
  fe_ct :: string
  fe_expiresAt :: int

record file_store =
  fs_map :: "(string \<times> file_entry) list"
  fs_file :: "string option"
  fs_rl :: "(string \<times> int list) list"
  fs_draws :: nat

definition entry_json :: "file_entry \<Rightarrow> json" where
  "entry_json e = JObj [(''ct'', JStr (fe_ct e)), (''expiresAt'', jint (fe_expiresAt e))]"

definition json_entry :: "json \<Rightarrow> file_entry option" where
  "json_entry v =
     (case (jget ''ct'' v, jget ''expiresAt'' v) of
        (Some (JStr ct), Some (JNum n)) \<Rightarrow> map_option (\<lambda>e. \<lparr> fe_ct = ct, fe_expiresAt = e \<rparr>) (js_number_int n)
      | _ \<Rightarrow> None)"

definition fs_load :: "string option \<Rightarrow> (string \<times> file_entry) list" where
  "fs_load file =
     (case Option.bind file json_parse of
        Some (JObj ms) \<Rightarrow> List.map_filter (\<lambda>(k, v). map_option (Pair k) (json_entry v)) ms
      | _ \<Rightarrow> [])"

definition new_file_store :: "string option \<Rightarrow> nat \<Rightarrow> file_store" where
  "new_file_store file n = \<lparr> fs_map = fs_load file, fs_file = file, fs_rl = [], fs_draws = n \<rparr>"

definition fs_persist :: "file_store \<Rightarrow> file_store" where
  "fs_persist s = s\<lparr>fs_file := Some (stringify (JObj (map (\<lambda>(k, e). (k, entry_json e)) (fs_map s))))\<rparr>"

definition fs_sweep :: "int \<Rightarrow> file_store \<Rightarrow> file_store" where
  "fs_sweep now s =
     (let kept = filter (\<lambda>(k, e). \<not> fe_expiresAt e \<le> now) (fs_map s)
      in if kept \<noteq> fs_map s then fs_persist (s\<lparr>fs_map := kept\<rparr>) else s)"

definition fs_drop :: "string \<Rightarrow> file_store \<Rightarrow> file_store" where
  "fs_drop ident s = fs_persist (s\<lparr>fs_map := AList.delete ident (fs_map s)\<rparr>)"

definition fs_get :: "crypto \<Rightarrow> string \<Rightarrow> int \<Rightarrow> string \<Rightarrow> file_store \<Rightarrow> json option \<times> file_store" where
  "fs_get cr key now ident s =
     (case map_of (fs_map s) ident of
        None \<Rightarrow> (None, s)
      | Some e \<Rightarrow>
          (if fe_expiresAt e \<le> now then (None, fs_drop ident s)
           else case openRecord cr key (fe_ct e) of
               None \<Rightarrow> (None, fs_drop ident s)
             | Some rec \<Rightarrow> (Some rec, s)))"

definition fs_set :: "crypto \<Rightarrow> string \<Rightarrow> int \<Rightarrow> string \<Rightarrow> json \<Rightarrow> int \<Rightarrow> file_store \<Rightarrow> file_store" where
  "fs_set cr key now ident rec ttl s =
     fs_persist (s\<lparr>fs_map := AList.update ident
         \<lparr> fe_ct = sealRecord cr key (fs_draws s) rec, fe_expiresAt = now + ttl_ms ttl \<rparr> (fs_map s),
       fs_draws := fs_draws s + 1\<rparr>)"

definition fs_touchTtl :: "int \<Rightarrow> string \<Rightarrow> int \<Rightarrow> file_store \<Rightarrow> file_store" where
  "fs_touchTtl now ident ttl s =
     (case map_of (fs_map s) ident of
        None \<Rightarrow> s
      | Some e \<Rightarrow> fs_persist (s\<lparr>fs_map := AList.update ident (e\<lparr>fe_expiresAt := now + ttl_ms ttl\<rparr>) (fs_map s)\<rparr>))"

definition fs_del :: "string \<Rightarrow> file_store \<Rightarrow> file_store" where
  "fs_del ident s = (if map_of (fs_map s) ident \<noteq> None then fs_drop ident s else s)"

text \<open>The sliding window of hits; past 5000 keys those without a recent hit are dropped.\<close>

definition fs_rateLimitHit :: "int \<Rightarrow> string \<Rightarrow> int \<Rightarrow> nat \<Rightarrow> file_store \<Rightarrow> bool \<times> file_store" where
  "fs_rateLimitHit now key windowMs most s =
     (let arr = filter (\<lambda>t. now - t < windowMs) (or_else (map_of (fs_rl s) key) []) @ [now];
          rl = AList.update key arr (fs_rl s);
          rl' = (if length rl > 5000 then filter (\<lambda>(k, v). list_ex (\<lambda>t. now - t < windowMs) v) rl else rl)
      in (length arr > most, s\<lparr>fs_rl := rl'\<rparr>))"

text \<open>A restart reads the file again.\<close>

definition fs_restart :: "file_store \<Rightarrow> file_store" where
  "fs_restart s = new_file_store (fs_file s) (fs_draws s)"

section \<open>The RESP client is faithful\<close>

text \<open>A reader of commands, as the protocol defines it: so many bulk strings, each of so many bytes.\<close>

definition read_count :: "char \<Rightarrow> string \<Rightarrow> (nat \<times> string) option" where
  "read_count t s =
     (case line_cut s of
        Some (h, r) \<Rightarrow> (if h \<noteq> [] \<and> hd h = t then map_option (\<lambda>n. (nat n, r)) (parse_int (tl h)) else None)
      | None \<Rightarrow> None)"

fun read_bulks :: "nat \<Rightarrow> string \<Rightarrow> (string list \<times> string) option" where
  "read_bulks 0 s = Some ([], s)"
| "read_bulks (Suc n) s =
     (case read_count (CHR ''$'') s of
        None \<Rightarrow> None
      | Some (k, r) \<Rightarrow>
          (if length r < k + 2 then None
           else map_option (\<lambda>(xs, q). (take k r # xs, q)) (read_bulks n (drop (k + 2) r))))"

definition read_command :: "string \<Rightarrow> (string list \<times> string) option" where
  "read_command s = (case read_count (CHR ''*'') s of Some (n, r) \<Rightarrow> read_bulks n r | None \<Rightarrow> None)"

lemma line_cut_Some: "line_cut s = Some (l, r) \<Longrightarrow> s = l @ crlf @ r"
  by (induction s arbitrary: l rule: line_cut.induct) (auto simp: crlf_def split: if_splits)

lemma line_cut_here [simp]: "CHR 0x0D \<notin> set l \<Longrightarrow> line_cut (l @ crlf @ r) = Some (l, r)"
proof (induction l)
  case Nil
  then show ?case by (simp add: crlf_def)
next
  case (Cons x l)
  then show ?case by (cases "l @ crlf @ r") (auto simp: crlf_def)
qed

lemma line_cut_append: "line_cut s = Some (l, r) \<Longrightarrow> line_cut (s @ t) = Some (l, r @ t)"
  by (induction s arbitrary: l rule: line_cut.induct) (auto split: if_splits)

lemma line_cut_partial:
  assumes "CHR 0x0D \<notin> set l" and "prefix p (l @ crlf)" and "p \<noteq> l @ crlf"
  shows "line_cut p = None"
proof (rule ccontr)
  assume "line_cut p \<noteq> None"
  then obtain l' r' where "line_cut p = Some (l', r')" by auto
  then have p: "p = l' @ crlf @ r'" by (rule line_cut_Some)
  obtain x where x: "l @ crlf = l' @ crlf @ r' @ x" using assms(2) p by (auto simp: prefix_def)
  have "length l' < length l"
  proof (rule ccontr)
    assume "\<not> length l' < length l"
    moreover have "length l + 2 = length l' + 2 + length r' + length x"
      using arg_cong [OF x, of length] by (simp add: crlf_def)
    ultimately have "r' = []" "x = []" by simp_all
    then show False using x p assms(3) by simp
  qed
  then have "(l @ crlf) ! length l' \<in> set l" by (simp add: nth_append)
  moreover have "(l @ crlf) ! length l' = CHR 0x0D" unfolding x by (simp add: nth_append crlf_def)
  ultimately show False using assms(1) by simp
qed

lemma nat_str_no_cr [simp]: "CHR 0x0D \<notin> set (nat_str n)"
  by (rule nat_str_notin) (simp add: is_digit_def)

lemma parse_int_nat [simp]: "parse_int (nat_str n) = Some (int n)"
proof -
  have d: "is_digit (hd (nat_str n))" by (rule hd_nat_str_digit)
  have nw: "trim_start (nat_str n) = nat_str n"
    by (rule trim_start_no_ws) (use d digit_not_ws in blast)
  have "\<not> prefix [CHR ''-''] (nat_str n)" "\<not> prefix [CHR ''+''] (nat_str n)"
    using d by (cases "nat_str n"; auto simp: is_digit_def)+
  moreover have "takeWhile is_digit (nat_str n) = nat_str n"
    using nat_str_digits [of n] by (simp add: takeWhile_eq_all_conv list_all_iff)
  ultimately show ?thesis by (simp add: parse_int_def nw Let_def)
qed

lemma parse_int_int [simp]: "parse_int (int_str i) = Some i"
proof (cases "i < 0")
  case True
  have "takeWhile is_digit (nat_str n) = nat_str n" for n
    using nat_str_digits [of n] by (simp add: takeWhile_eq_all_conv list_all_iff)
  moreover have "trim_start (CHR ''-'' # s) = CHR ''-'' # s" for s
    by (rule trim_start_no_ws) (simp add: js_ws_def)
  ultimately show ?thesis using True by (simp add: int_str_def parse_int_def Let_def)
qed (simp add: int_str_def)

lemma int_str_no_cr [simp]: "CHR 0x0D \<notin> set (int_str i)"
  by (simp add: int_str_def)

lemma read_count_here [simp]: "t \<noteq> CHR 0x0D \<Longrightarrow> read_count t (t # nat_str n @ crlf @ r) = Some (n, r)"
  using line_cut_here [of "t # nat_str n" r] by (simp add: read_count_def)

lemma read_bulks_here: "read_bulks (length args) (concat (map resp_bulk args) @ r) = Some (map utf8_bytes args, r)"
proof (induction args)
  case (Cons a args)
  have "read_count (CHR ''$'') (resp_bulk a @ t) = Some (length (utf8_bytes a), utf8_bytes a @ crlf @ t)" for t
    by (simp add: resp_bulk_def)
  moreover have "length crlf = 2" by (simp add: crlf_def)
  ultimately show ?case using Cons by simp
qed simp

text \<open>A reply as the server writes it, and the replies it can write.\<close>

fun reply_bytes :: "string + resp_value \<Rightarrow> string" where
  "reply_bytes (Inl e) = ''-'' @ e @ crlf"
| "reply_bytes (Inr RNull) = ''$-1'' @ crlf"
| "reply_bytes (Inr (RInt (Some i))) = '':'' @ int_str i @ crlf"
| "reply_bytes (Inr (RInt None)) = []"
| "reply_bytes (Inr (RStr s)) = resp_bulk s"

definition wire_reply :: "string + resp_value \<Rightarrow> bool" where
  "wire_reply r \<longleftrightarrow> (case r of Inl e \<Rightarrow> CHR 0x0D \<notin> set e | Inr (RInt None) \<Rightarrow> False | _ \<Rightarrow> True)"

lemma length_crlf [simp]: "length crlf = 2" "crlf \<noteq> []"
  by (simp_all add: crlf_def)

lemma resp_parse_line:
  assumes "CHR 0x0D \<notin> set l" and "t \<noteq> CHR 0x0D"
  shows "resp_parse (t # l @ crlf @ r) =
    (if t = CHR ''+'' then Some (Inr (RStr l), length l + 3)
     else if t = CHR ''-'' then Some (Inl l, length l + 3)
     else if t = CHR '':'' then Some (Inr (RInt (parse_int l)), length l + 3)
     else resp_parse (t # l @ crlf @ r))"
  using line_cut_here [of "t # l" r] assms by (auto simp: resp_parse_def Let_def)

lemma resp_parse_bulk:
  "resp_parse (CHR ''$'' # nat_str n @ crlf @ r) =
     (if length r < n + 2 then None
      else Some (Inr (RStr (utf8_decode (take n r))), length (nat_str n) + 3 + n + 2))"
  using line_cut_here [of "CHR ''$'' # nat_str n" r] by (simp add: resp_parse_def Let_def)

lemma resp_parse_here:
  assumes "wire_reply r" shows "resp_parse (reply_bytes r @ t) = Some (r, length (reply_bytes r))"
proof (cases r)
  case (Inl e)
  then show ?thesis using assms resp_parse_line [of e "CHR ''-''" t] by (simp add: wire_reply_def)
next
  case (Inr v)
  show ?thesis
  proof (cases v)
    case RNull
    have "line_cut (CHR ''$'' # ''-1'' @ crlf @ t) = Some (''$-1'', t)"
      using line_cut_here [of "''$-1''" t] by simp
    moreover have "parse_int ''-1'' = Some (- 1)" using parse_int_int [of "- 1"] by (simp add: str_simps)
    ultimately show ?thesis using Inr RNull by (simp add: resp_parse_def Let_def)
  next
    case (RInt i)
    then obtain k where "i = Some k" using assms Inr by (cases i) (auto simp: wire_reply_def)
    then show ?thesis using Inr RInt resp_parse_line [of "int_str k" "CHR '':''" t] by simp
  next
    case (RStr s)
    then show ?thesis
      using Inr resp_parse_bulk [of "length (utf8_bytes s)" "utf8_bytes s @ crlf @ t"]
      by (simp add: resp_bulk_def utf8_bytes_def utf8_roundtrip)
  qed
qed

lemma resp_parse_partial:
  assumes "wire_reply r" and "prefix p (reply_bytes r)" and "p \<noteq> reply_bytes r"
  shows "resp_parse p = None"
proof -
  have line: "resp_parse q = None" if "CHR 0x0D \<notin> set l" "prefix q (l @ crlf)" "q \<noteq> l @ crlf" for q l
    using line_cut_partial [OF that] by (simp add: resp_parse_def)
  have bulk: "resp_parse p = None" if r: "reply_bytes r = resp_bulk s" for s
  proof -
    define h where "h = CHR ''$'' # nat_str (length (utf8_bytes s)) @ crlf"
    define b where "b = utf8_bytes s @ crlf"
    have hb: "reply_bytes r = h @ b" using r by (simp add: resp_bulk_def h_def b_def)
    consider "prefix p h" "p \<noteq> h" | q where "p = h @ q" "prefix q b"
      using assms(2) unfolding hb prefix_append by (metis append_Nil2 prefix_bot.bot_least)
    then show ?thesis
    proof cases
      case 1
      then show ?thesis using line [of "CHR ''$'' # nat_str (length (utf8_bytes s))" p] by (simp add: h_def)
    next
      case 2
      then have "q \<noteq> b" using assms(3) hb by simp
      then have "length q < length b" using 2(2) prefix_length_less prefix_order.le_imp_less_or_eq by blast
      then show ?thesis using 2(1) resp_parse_bulk [of "length (utf8_bytes s)" q] by (simp add: h_def b_def)
    qed
  qed
  show ?thesis
  proof (cases r rule: reply_bytes.cases)
    case (1 e)
    then show ?thesis using assms line [of "CHR ''-'' # e" p] by (simp add: wire_reply_def)
  next
    case 2
    then show ?thesis using assms line [of "''$-1''" p] by simp
  next
    case (3 i)
    then show ?thesis using assms line [of "CHR '':'' # int_str i" p] by simp
  next
    case 4
    then show ?thesis using assms(1) by (simp add: wire_reply_def)
  next
    case (5 s)
    then show ?thesis using bulk by simp
  qed
qed

lemma reply_bytes_nonempty: "wire_reply r \<Longrightarrow> reply_bytes r \<noteq> []"
  by (cases r rule: reply_bytes.cases) (auto simp: wire_reply_def resp_bulk_def)

text \<open>Draining any beginning of a stream of replies settles the whole replies and keeps the rest.\<close>

lemma drain_stream:
  assumes "list_all wire_reply rs" and "prefix (rc_buf c) (concat (map reply_bytes rs))"
    and "length rs \<le> length (rc_pending c)"
  shows "\<exists>k p. k \<le> length rs \<and> rc_buf c = concat (map reply_bytes (take k rs)) @ p \<and> resp_parse p = None \<and>
    rc_drain c = Some (c\<lparr>rc_buf := p, rc_pending := drop k (rc_pending c),
      rc_settled := rc_settled c @ zip (rc_pending c) (take k rs)\<rparr>)"
  using assms
proof (induction rs arbitrary: c)
  case Nil
  then have "rc_buf c = []" by simp
  then show ?case
    by (intro exI [of _ 0] exI [of _ "[]"]) (simp add: rc_drain.simps [of c] resp_parse_def)
next
  case (Cons r rs)
  show ?case
  proof (cases "prefix (reply_bytes r) (rc_buf c)")
    case False
    then have "prefix (rc_buf c) (reply_bytes r)" "rc_buf c \<noteq> reply_bytes r"
      using Cons.prems(2) by (auto simp: prefix_append)
    then have "resp_parse (rc_buf c) = None" using resp_parse_partial [of r "rc_buf c"] Cons.prems(1) by simp
    then show ?thesis
      by (intro exI [of _ 0] exI [of _ "rc_buf c"]) (simp add: rc_drain.simps [of c])
  next
    case True
    then obtain q where q: "rc_buf c = reply_bytes r @ q" by (auto simp: prefix_def)
    obtain w ws where w: "rc_pending c = w # ws" using Cons.prems(3) by (cases "rc_pending c") auto
    let ?c = "c\<lparr>rc_buf := q, rc_pending := ws, rc_settled := rc_settled c @ [(w, r)]\<rparr>"
    have step: "rc_drain c = rc_drain ?c"
      using Cons.prems(1) q w by (subst rc_drain.simps) (simp add: resp_parse_here rc_settle_def)
    obtain k p where k: "k \<le> length rs" "q = concat (map reply_bytes (take k rs)) @ p" "resp_parse p = None"
      "rc_drain ?c = Some (?c\<lparr>rc_buf := p, rc_pending := drop k ws,
         rc_settled := (rc_settled c @ [(w, r)]) @ zip ws (take k rs)\<rparr>)"
      using Cons.IH [of ?c] Cons.prems q w by auto
    then show ?thesis
      using step q w by (intro exI [of _ "Suc k"] exI [of _ p]) simp
  qed
qed

definition rc_stream :: "string list \<Rightarrow> redis_client \<Rightarrow> redis_client option" where
  "rc_stream chunks c = foldl (\<lambda>m chunk. Option.bind m (rc_onData chunk)) (Some c) chunks"

lemma rc_stream_Cons: "rc_stream (t # ts) c = Option.bind (rc_onData t c) (rc_stream ts)"
proof -
  have none: "foldl (\<lambda>m chunk. Option.bind m (rc_onData chunk)) None ts = None"
    by (induction ts) simp_all
  show ?thesis using none by (cases "rc_onData t c") (simp_all add: rc_stream_def)
qed

lemma zip_take_drop: "zip ps (take k rs) @ zip (drop k ps) (drop k rs) = zip ps rs"
proof -
  have "zip ps (take k rs) = take k (zip ps rs)"
    by (rule nth_equalityI) simp_all
  then show ?thesis by (simp add: drop_zip [symmetric])
qed

lemma stream_settles:
  assumes "list_all wire_reply rs" and "length rs \<le> length (rc_pending c)"
    and "rc_buf c @ concat ts = concat (map reply_bytes rs)" and "resp_parse (rc_buf c) = None"
  shows "rc_stream ts c = Some (c\<lparr>rc_buf := [], rc_pending := drop (length rs) (rc_pending c),
    rc_settled := rc_settled c @ zip (rc_pending c) rs\<rparr>)"
  using assms
proof (induction ts arbitrary: c rs)
  case Nil
  have "rs = []"
  proof (cases rs)
    case (Cons r rs')
    then show ?thesis using Nil resp_parse_here [of r "concat (map reply_bytes rs')"] by simp
  qed simp
  then show ?case using Nil by (simp add: rc_stream_def)
next
  case (Cons t ts)
  let ?c = "c\<lparr>rc_buf := rc_buf c @ t\<rparr>"
  have "prefix (rc_buf ?c) (concat (map reply_bytes rs))"
    using Cons.prems(3) by (metis append.assoc concat.simps(2) prefixI redis_client.select_convs(1)
        redis_client.surjective redis_client.update_convs(1))
  then obtain k p where k: "k \<le> length rs" "rc_buf c @ t = concat (map reply_bytes (take k rs)) @ p"
      "resp_parse p = None" "rc_drain ?c = Some (?c\<lparr>rc_buf := p, rc_pending := drop k (rc_pending c),
        rc_settled := rc_settled c @ zip (rc_pending c) (take k rs)\<rparr>)"
    using drain_stream [of rs ?c] Cons.prems(1,2) by auto
  let ?d = "c\<lparr>rc_buf := p, rc_pending := drop k (rc_pending c),
      rc_settled := rc_settled c @ zip (rc_pending c) (take k rs)\<rparr>"
  have "concat (map reply_bytes rs) = concat (map reply_bytes (take k rs)) @ concat (map reply_bytes (drop k rs))"
    by (metis append_take_drop_id concat_append map_append)
  then have "p @ concat ts = concat (map reply_bytes (drop k rs))"
    using Cons.prems(3) k(2) by simp (metis append.assoc same_append_eq)
  moreover have "list_all wire_reply (drop k rs)"
    using Cons.prems(1) by (auto simp: list_all_iff dest: in_set_dropD)
  ultimately have "rc_stream ts ?d = Some (?d\<lparr>rc_buf := [], rc_pending := drop (length (drop k rs)) (rc_pending ?d),
      rc_settled := rc_settled ?d @ zip (rc_pending ?d) (drop k rs)\<rparr>)"
    using Cons.prems(2) k(1,3) by (intro Cons.IH) simp_all
  then show ?case
    using k(1,4) by (simp add: rc_stream_Cons rc_onData_def zip_take_drop)
qed

section \<open>The contract of a session store\<close>

text \<open>
  What the server relies on, whatever the backend: reading a record back until its time is over,
  deletion, and independence of the ids. \<open>view s t id\<close> is what a read at time \<open>t\<close> gives.
\<close>

locale session_store =
  fixes good :: "'r \<Rightarrow> bool" and ok :: "'s \<Rightarrow> bool"
    and view :: "'s \<Rightarrow> int \<Rightarrow> string \<Rightarrow> 'r option"
    and get_op :: "int \<Rightarrow> string \<Rightarrow> 's \<Rightarrow> 'r option \<times> 's"
    and set_op :: "int \<Rightarrow> string \<Rightarrow> 'r \<Rightarrow> int \<Rightarrow> 's \<Rightarrow> 's"
    and del_op :: "string \<Rightarrow> 's \<Rightarrow> 's"
  assumes get_result: "fst (get_op now ident s) = view s now ident"
    and get_view: "ok s \<Longrightarrow> now \<le> t \<Longrightarrow> view (snd (get_op now ident s)) t j = view s t j"
    and set_view: "ok s \<Longrightarrow> good r \<Longrightarrow> view (set_op now ident r ttl s) t j =
      (if j = ident then (if t < now + max 1000 ttl then Some r else None) else view s t j)"
    and del_view: "ok s \<Longrightarrow> view (del_op ident s) t j = (if j = ident then None else view s t j)"
    and ok_ops: "ok s \<Longrightarrow> ok (snd (get_op now ident s))" "ok s \<Longrightarrow> good r \<Longrightarrow> ok (set_op now ident r ttl s)"
      "ok s \<Longrightarrow> ok (del_op ident s)"
begin

lemma set_then_get: "ok s \<Longrightarrow> good r \<Longrightarrow> t < now + max 1000 ttl \<Longrightarrow> fst (get_op t ident (set_op now ident r ttl s)) = Some r"
  by (simp add: get_result set_view)

lemma deleted_unreadable: "ok s \<Longrightarrow> fst (get_op t ident (del_op ident s)) = None"
  by (simp add: get_result del_view)

lemma set_other: "ok s \<Longrightarrow> good r \<Longrightarrow> j \<noteq> ident \<Longrightarrow> view (set_op now ident r ttl s) t j = view s t j"
  by (simp add: set_view)

end

text \<open>The contract as a value: ids mapped to a record and the time its life ends.\<close>

type_synonym 'r ttl_map = "(string, 'r \<times> int) map"

definition ttl_view :: "'r ttl_map \<Rightarrow> int \<Rightarrow> string \<Rightarrow> 'r option" where
  "ttl_view m t ident = (case m ident of Some (r, e) \<Rightarrow> if e \<le> t then None else Some r | None \<Rightarrow> None)"

definition ttl_get :: "int \<Rightarrow> string \<Rightarrow> 'r ttl_map \<Rightarrow> 'r option \<times> 'r ttl_map" where
  "ttl_get now ident m =
     (case m ident of
        None \<Rightarrow> (None, m)
      | Some (r, e) \<Rightarrow> if e \<le> now then (None, m(ident := None)) else (Some r, m))"

definition ttl_set :: "int \<Rightarrow> string \<Rightarrow> 'r \<Rightarrow> int \<Rightarrow> 'r ttl_map \<Rightarrow> 'r ttl_map" where
  "ttl_set now ident r ttl m = m(ident \<mapsto> (r, now + ttl_ms ttl))"

definition ttl_del :: "string \<Rightarrow> 'r ttl_map \<Rightarrow> 'r ttl_map" where
  "ttl_del ident m = m(ident := None)"

interpretation ttl: session_store "\<lambda>_. True" "\<lambda>_. True" ttl_view ttl_get ttl_set ttl_del
  by unfold_locales
    (auto simp: ttl_view_def ttl_get_def ttl_set_def ttl_del_def ttl_ms_def split: option.splits)

text \<open>The file backend: its file holds the map it has in memory, and ids are distinct.\<close>

definition fs_ok :: "file_store \<Rightarrow> bool" where
  "fs_ok s \<longleftrightarrow> fs_load (fs_file s) = fs_map s \<and> distinct (map fst (fs_map s))"

definition fs_view :: "crypto \<Rightarrow> string \<Rightarrow> file_store \<Rightarrow> int \<Rightarrow> string \<Rightarrow> json option" where
  "fs_view cr key s t ident =
     (case map_of (fs_map s) ident of
        Some e \<Rightarrow> if fe_expiresAt e \<le> t then None else openRecord cr key (fe_ct e)
      | None \<Rightarrow> None)"

lemma js_number_int_any [simp]: "js_number_int (int_str i) = Some i"
proof (cases "i < 0")
  case True
  then obtain n where i: "i = - int n" by (metis int_cases less_le_not_le neg_0_le_iff_le of_nat_0_le_iff)
  let ?s = "CHR ''-'' # nat_str n"
  have "\<not> js_ws (CHR ''-'')" by (simp add: js_ws_def)
  then have t: "js_trim ?s = ?s"
    using nat_str_no_ws [of n] by (intro js_trim_no_ws) simp
  have "int_str i = ?s" using True i by (simp add: int_str_def)
  moreover have "digits (nat_str n)" by (simp add: digits_def nat_str_digits)
  ultimately show ?thesis
    using i by (simp add: js_number_int_def t Let_def unsigned_decimal_digits)
qed simp

lemma json_entry_roundtrip [simp]: "json_entry (entry_json e) = Some e"
  by (simp add: json_entry_def entry_json_def jget_def jint_def)

lemma fs_load_persisted [simp]:
  "fs_load (Some (stringify (JObj (map (\<lambda>(k, e). (k, entry_json e)) m)))) = m"
proof -
  have "json_wf (JObj (map (\<lambda>(k, e). (k, entry_json e)) m))"
    by (auto simp: entry_json_def)
  moreover have "List.map_filter (\<lambda>(k, v). map_option (Pair k) (json_entry v)) (map (\<lambda>(k, e). (k, entry_json e)) m) = m"
    by (induction m) (auto simp: List.map_filter_simps)
  ultimately show ?thesis by (simp add: fs_load_def json_roundtrip del: stringify.simps json_wf.simps)
qed

lemma fs_ok_persist: "distinct (map fst (fs_map s)) \<Longrightarrow> fs_ok (fs_persist s)"
  by (simp add: fs_ok_def fs_persist_def del: stringify.simps)

lemma fs_persist_map [simp]: "fs_map (fs_persist s) = fs_map s"
  by (simp add: fs_persist_def)

lemma fs_drop_ok: "fs_ok s \<Longrightarrow> fs_ok (fs_drop ident s)"
  unfolding fs_drop_def by (rule fs_ok_persist) (simp add: fs_ok_def distinct_delete)

lemma fs_drop_view:
  "fs_view cr key (fs_drop ident s) t j = (if j = ident then None else fs_view cr key s t j)"
  by (simp add: fs_view_def fs_drop_def delete_conv)

interpretation fstore: session_store "\<lambda>v. aead cr \<and> storable v" fs_ok "fs_view cr key" "fs_get cr key"
    "fs_set cr key" fs_del
  for cr key
proof
  fix now ident s t j r and ttl :: int
  show "fst (fs_get cr key now ident s) = fs_view cr key s now ident"
    by (simp add: fs_get_def fs_view_def split: option.splits)
  show "fs_view cr key (snd (fs_get cr key now ident s)) t j = fs_view cr key s t j" if "now \<le> t"
    using that by (auto simp: fs_get_def fs_drop_view split: option.splits) (auto simp: fs_view_def)
  show "fs_view cr key (fs_set cr key now ident r ttl s) t j =
      (if j = ident then (if t < now + max 1000 ttl then Some r else None) else fs_view cr key s t j)"
    if "aead cr \<and> storable r"
    using that by (simp add: fs_view_def fs_set_def update_conv open_seal ttl_ms_def)
  show "fs_view cr key (fs_del ident s) t j = (if j = ident then None else fs_view cr key s t j)"
    by (simp add: fs_del_def fs_drop_view) (simp add: fs_view_def)
  assume ok: "fs_ok s"
  show "fs_ok (snd (fs_get cr key now ident s))"
    using ok by (simp add: fs_get_def fs_drop_ok split: option.splits)
  show "fs_ok (fs_set cr key now ident r ttl s)"
    unfolding fs_set_def by (rule fs_ok_persist) (use ok in \<open>simp add: fs_ok_def distinct_update\<close>)
  show "fs_ok (fs_del ident s)"
    using ok by (simp add: fs_del_def fs_drop_ok)
qed

section \<open>The file backend implements the contract\<close>

datatype store_call = GetCall string | SetCall string json int | DelCall string | SweepCall | RestartCall

fun fs_call :: "crypto \<Rightarrow> string \<Rightarrow> int \<Rightarrow> store_call \<Rightarrow> file_store \<Rightarrow> json option \<times> file_store" where
  "fs_call cr key now (GetCall k) s = fs_get cr key now k s"
| "fs_call cr key now (SetCall k r ttl) s = (None, fs_set cr key now k r ttl s)"
| "fs_call cr key now (DelCall k) s = (None, fs_del k s)"
| "fs_call cr key now SweepCall s = (None, fs_sweep now s)"
| "fs_call cr key now RestartCall s = (None, fs_restart s)"

fun ttl_call :: "int \<Rightarrow> store_call \<Rightarrow> json ttl_map \<Rightarrow> json option \<times> json ttl_map" where
  "ttl_call now (GetCall k) m = ttl_get now k m"
| "ttl_call now (SetCall k r ttl) m = (None, ttl_set now k r ttl m)"
| "ttl_call now (DelCall k) m = (None, ttl_del k m)"
| "ttl_call now _ m = (None, m)"

fun call_results :: "(int \<Rightarrow> store_call \<Rightarrow> 's \<Rightarrow> json option \<times> 's) \<Rightarrow> (int \<times> store_call) list \<Rightarrow> 's \<Rightarrow> json option list" where
  "call_results step [] s = []"
| "call_results step ((now, c) # cs) s = (case step now c s of (r, s') \<Rightarrow> r # call_results step cs s')"

definition storable_calls :: "(int \<times> store_call) list \<Rightarrow> bool" where
  "storable_calls cs = list_all (\<lambda>(t, c). case c of SetCall k r ttl \<Rightarrow> storable r | _ \<Rightarrow> True) cs"

text \<open>From time \<open>t0\<close> on, both show the same.\<close>

definition agree :: "crypto \<Rightarrow> string \<Rightarrow> int \<Rightarrow> file_store \<Rightarrow> json ttl_map \<Rightarrow> bool" where
  "agree cr key t0 s m \<longleftrightarrow> fs_ok s \<and> (\<forall>t \<ge> t0. \<forall>j. fs_view cr key s t j = ttl_view m t j)"

lemma map_of_filter_value:
  "distinct (map fst xs) \<Longrightarrow> map_of (filter (\<lambda>(k, e). P e) xs) j =
     (case map_of xs j of Some e \<Rightarrow> if P e then Some e else None | None \<Rightarrow> None)"
proof (induction xs)
  case (Cons x xs)
  obtain k e where x: "x = (k, e)" by fastforce
  have "map_of xs k = None" using Cons.prems x by (simp add: map_of_eq_None_iff)
  then show ?case using Cons x by auto
qed simp

lemma fs_sweep_view:
  assumes "fs_ok s" and "now \<le> t" shows "fs_view cr key (fs_sweep now s) t j = fs_view cr key s t j"
proof -
  have d: "distinct (map fst (fs_map s))" using assms(1) by (simp add: fs_ok_def)
  have "map_of (fs_map (fs_sweep now s)) j =
      (case map_of (fs_map s) j of Some e \<Rightarrow> if \<not> fe_expiresAt e \<le> now then Some e else None | None \<Rightarrow> None)"
    unfolding map_of_filter_value [OF d, symmetric] by (simp add: fs_sweep_def Let_def)
  then show ?thesis using assms(2) by (auto simp: fs_view_def split: option.splits)
qed

lemma fs_sweep_ok: "fs_ok s \<Longrightarrow> fs_ok (fs_sweep now s)"
proof -
  let ?f = "filter (\<lambda>(k, e). \<not> fe_expiresAt e \<le> now)"
  assume ok: "fs_ok s"
  then have "distinct (map fst (?f (fs_map s)))"
    by (simp add: fs_ok_def distinct_map_filter)
  then have "fs_ok (fs_persist (s\<lparr>fs_map := ?f (fs_map s)\<rparr>))" by (intro fs_ok_persist) simp
  with ok show ?thesis by (simp add: fs_sweep_def Let_def)
qed

lemma agree_step:
  assumes "agree cr key t0 s m" "t0 \<le> now" "aead cr" "storable_calls [(now, c)]"
  shows "fst (fs_call cr key now c s) = fst (ttl_call now c m) \<and>
    agree cr key now (snd (fs_call cr key now c s)) (snd (ttl_call now c m))"
proof -
  have ok: "fs_ok s" and v: "\<And>t j. now \<le> t \<Longrightarrow> fs_view cr key s t j = ttl_view m t j"
    using assms(1,2) by (auto simp: agree_def)
  show ?thesis
  proof (cases c)
    case (GetCall k)
    then show ?thesis
      using v by (simp add: agree_def fstore.get_result ttl.get_result fstore.get_view [OF ok]
          fstore.ok_ops(1) [OF ok] ttl.get_view)
  next
    case (SetCall k r ttl)
    then have g: "aead cr \<and> storable r" using assms(3,4) by (simp add: storable_calls_def)
    show ?thesis
      using SetCall v by (simp add: agree_def fstore.ok_ops(2) [OF ok g] fstore.set_view [OF ok g] ttl.set_view)
  next
    case (DelCall k)
    then show ?thesis
      using v by (simp add: agree_def fstore.ok_ops(3) [OF ok] fstore.del_view [OF ok] ttl.del_view)
  next
    case SweepCall
    then show ?thesis using v fs_sweep_view [OF ok] fs_sweep_ok [OF ok] by (simp add: agree_def)
  next
    case RestartCall
    have "fs_map (fs_restart s) = fs_map s" "fs_file (fs_restart s) = fs_file s"
      using ok by (simp_all add: fs_restart_def new_file_store_def fs_ok_def)
    then show ?thesis using RestartCall ok v by (simp add: agree_def fs_ok_def fs_view_def)
  qed
qed

section \<open>Properties\<close>

text \<open>
  C36. A Redis command says what the store means: the server's protocol reader reads the bytes of a
  command back as exactly its arguments, whatever they hold (an id from a cookie with line ends
  included), so no argument can add a command or change one. And the replies come back in order:
  however the network cuts the stream, each waiting command gets its own reply.
\<close>

theorem resp_faithful:
  assumes "list_all wire_reply rs" and "length rs \<le> length (rc_pending c)" and "rc_buf c = []"
    and "concat chunks = concat (map reply_bytes rs)"
  shows "read_command (resp_command args @ later) = Some (map utf8_bytes args, later) \<and>
    rc_stream chunks c = Some (c\<lparr>rc_buf := [], rc_pending := drop (length rs) (rc_pending c),
      rc_settled := rc_settled c @ zip (rc_pending c) rs\<rparr>)"
proof
  show "read_command (resp_command args @ later) = Some (map utf8_bytes args, later)"
    by (simp add: read_command_def resp_command_def read_bulks_here)
  have "resp_parse (rc_buf c) = None" by (simp add: assms(3) resp_parse_def)
  then show "rc_stream chunks c = Some (c\<lparr>rc_buf := [], rc_pending := drop (length rs) (rc_pending c),
      rc_settled := rc_settled c @ zip (rc_pending c) rs\<rparr>)"
    using stream_settles [OF assms(1,2)] assms(3,4) by simp
qed

definition demo_redis :: redis_client where
  "demo_redis = \<lparr> rc_buf = [], rc_pending = [1, 2], rc_settled = [], rc_written = [] \<rparr>"

theorem resp_faithful_witness:
  "map_option rc_settled (rc_stream [''$-'', ''1'' @ [CHR 0x0D], [CHR 0x0A], '':7'' @ crlf] demo_redis) =
     Some [(1, Inr RNull), (2, Inr (RInt (Some 7)))]"
  using resp_faithful [of "[Inr RNull, Inr (RInt (Some 7))]" demo_redis
      "[''$-'', ''1'' @ [CHR 0x0D], [CHR 0x0A], '':7'' @ crlf]" "[]" "[]"]
  by (simp add: wire_reply_def demo_redis_def crlf_def str_simps)

text \<open>
  C34. The file backend implements the contract of a session store: over any sequence of reads,
  writes, deletions, sweeps and restarts in time order, every read returns what a map of expiring
  records returns. In particular a restart loses no session, and a record is read back until its
  time is over and never after.
\<close>

theorem file_store_refines_contract:
  assumes "aead cr" and "sorted (map fst cs)" and "storable_calls cs"
  shows "call_results (fs_call cr key) cs (new_file_store None n) = call_results ttl_call cs Map.empty"
proof -
  have "call_results (fs_call cr key) cs s = call_results ttl_call cs m"
    if "agree cr key t0 s m" "\<forall>c \<in> set cs. t0 \<le> fst c" "sorted (map fst cs)" "storable_calls cs" for t0 s m cs
    using that
  proof (induction cs arbitrary: t0 s m)
    case (Cons c cs)
    obtain now a where c: "c = (now, a)" by fastforce
    then have "fst (fs_call cr key now a s) = fst (ttl_call now a m) \<and>
        agree cr key now (snd (fs_call cr key now a s)) (snd (ttl_call now a m))"
      using Cons.prems by (intro agree_step [OF _ _ assms(1)]) (auto simp: storable_calls_def)
    with c Cons.IH [of now] Cons.prems show ?case
      by (auto simp: storable_calls_def split: prod.splits)
  qed simp
  moreover have "agree cr key (fst (hd cs)) (new_file_store None n) Map.empty"
    by (simp add: agree_def new_file_store_def fs_load_def fs_ok_def fs_view_def ttl_view_def)
  moreover have "\<forall>c \<in> set cs. fst (hd cs) \<le> fst c" using assms(2) by (cases cs) auto
  ultimately show ?thesis using assms(2,3) by blast
qed

definition demo_crypto :: crypto where
  "demo_crypto = \<lparr> cr_random = (\<lambda>n k. replicate k (char_of (65 + n))), cr_sha256 = (\<lambda>s. s),
     cr_encrypt = (\<lambda>key iv pt. (pt, replicate 16 (CHR ''t''))), cr_decrypt = (\<lambda>key iv tag ct. Some ct) \<rparr>"

theorem file_store_refines_contract_witness:
  "call_results (fs_call demo_crypto ''k'')
     [(0, SetCall ''a'' (JBool True) 5000), (1, RestartCall), (2, GetCall ''a''), (6000, GetCall ''a'')]
     (new_file_store None 0) = [None, None, Some (JBool True), None]"
proof -
  have "aead demo_crypto" by (simp add: aead_def demo_crypto_def)
  from file_store_refines_contract [OF this,
      of "[(0, SetCall ''a'' (JBool True) 5000), (1, RestartCall), (2, GetCall ''a''), (6000, GetCall ''a'')]" "''k''" 0]
  show ?thesis by (simp add: storable_calls_def storable_def ttl_set_def ttl_get_def ttl_ms_def)
qed

end
