(* ===== verification/AppBff.thy ===== *)
theory AppBff
  imports AppStore
begin

text \<open>
  The shared primitives of App Banzami Web's session boundary (apps/app-banzami/lib/bff.mjs):
  the nonce and its comparison, cookies, the two route allow-lists and their matcher, and the claim
  reader. A route's pattern is the list of segments of its regular expression: \<open>[^/]+\<close> is
  \<open>Any\<close>. \<open>decodeURIComponent\<close> is defined on texts that name code units below 256.
\<close>

section \<open>Names and the nonce\<close>

definition session_cookie :: string where "session_cookie = ''bz_app_session''"
definition csrf_cookie :: string where "csrf_cookie = ''bz_app_csrf''"
definition token_sentinel :: string where "token_sentinel = ''web-session''"

definition newCsrf :: "crypto \<Rightarrow> nat \<Rightarrow> string" where
  "newCsrf cr n = base64url (cr_random cr n 24)"

definition timingSafeEqualStr :: "string \<Rightarrow> string \<Rightarrow> bool" where
  "timingSafeEqualStr a b =
     (if length a = 0 \<or> length b = 0 then False
      else if length (utf8_bytes a) \<noteq> length (utf8_bytes b) then False
      else utf8_bytes a = utf8_bytes b)"

lemma timingSafeEqualStr_iff: "timingSafeEqualStr a b \<longleftrightarrow> a \<noteq> [] \<and> a = b"
  by (auto simp: timingSafeEqualStr_def)

section \<open>Cookies\<close>

definition is_hex :: "char \<Rightarrow> bool" where
  "is_hex c \<longleftrightarrow> is_digit c \<or> 65 \<le> unit_code (upper_char c) \<and> unit_code (upper_char c) \<le> 70"

definition hex_pair :: "string \<Rightarrow> (char \<times> string) option" where
  "hex_pair s =
     (case s of
        p # a # b # r \<Rightarrow>
          (if p = CHR ''%'' \<and> is_hex a \<and> is_hex b
           then Some (char_of (16 * pct_val (upper_char a) + pct_val (upper_char b)), r) else None)
      | _ \<Rightarrow> None)"

lemma hex_pair_shorter: "hex_pair s = Some (c, r) \<Longrightarrow> length r < length s"
  by (auto simp: hex_pair_def split: list.splits if_splits)

text \<open>\<^const>\<open>None\<close>: the call throws a \<open>URIError\<close>.\<close>

function decodeURIComponent :: "string \<Rightarrow> string option" where
  "decodeURIComponent [] = Some []"
| "decodeURIComponent (c # s) =
     (if c \<noteq> CHR ''%'' then map_option ((#) c) (decodeURIComponent s)
      else case hex_pair (c # s) of
        None \<Rightarrow> None
      | Some (b, r) \<Rightarrow>
          (if unit_code b < 128 then map_option ((#) b) (decodeURIComponent r)
           else if unit_code b < 194 \<or> unit_code b > 195 then None
           else (case hex_pair r of
                   None \<Rightarrow> None
                 | Some (d, r') \<Rightarrow>
                     (if unit_code d < 128 \<or> unit_code d > 191 then None
                      else map_option ((#) (char_of ((unit_code b - 192) * 64 + (unit_code d - 128))))
                             (decodeURIComponent r')))))"
  by pat_completeness auto
termination
  by (relation "measure length") (auto dest!: hex_pair_shorter)

text \<open>The name and value of one part of the header; \<open>indexOf\<close> must find an \<open>=\<close> after the start.\<close>

definition cookie_part :: "string \<Rightarrow> (string \<times> string) option" where
  "cookie_part part =
     (let kv = js_trim part in
      case index_of (CHR ''='') kv of
        None \<Rightarrow> None
      | Some eq \<Rightarrow> if eq = 0 then None else Some (take eq kv, drop (eq + 1) kv))"

text \<open>A later cookie of a name replaces an earlier one; \<^const>\<open>None\<close> when a value does not decode.\<close>

fun parse_cookie_parts :: "string list \<Rightarrow> (string \<times> string) list \<Rightarrow> (string \<times> string) list option" where
  "parse_cookie_parts [] out = Some out"
| "parse_cookie_parts (p # ps) out =
     (case cookie_part p of
        None \<Rightarrow> parse_cookie_parts ps out
      | Some (k, v) \<Rightarrow>
          (case decodeURIComponent v of
             None \<Rightarrow> None
           | Some d \<Rightarrow> parse_cookie_parts ps (AList.update k d out)))"

definition parseCookies :: "string option \<Rightarrow> (string \<times> string) list option" where
  "parseCookies header =
     (case header of
        None \<Rightarrow> Some []
      | Some h \<Rightarrow> if h = [] then Some [] else parse_cookie_parts (split_on (CHR '';'') h) [])"

record cookie_options =
  co_maxAge :: "int option"
  co_secure :: bool
  co_httpOnly :: bool
  co_domain :: "string option"

text \<open>The callers leave \<open>path\<close> at its default and \<open>SameSite\<close> at \<open>Lax\<close>, also its default.\<close>

definition serializeCookie :: "string \<Rightarrow> string \<Rightarrow> cookie_options \<Rightarrow> string" where
  "serializeCookie name v o1 =
     name @ ''='' @ encodeURIComponent v @ ''; Path=/; SameSite=Lax'' @
     (case co_domain o1 of Some d \<Rightarrow> if d = [] then [] else ''; Domain='' @ d | None \<Rightarrow> []) @
     (if co_httpOnly o1 then ''; HttpOnly'' else []) @
     (if co_secure o1 then ''; Secure'' else []) @
     (case co_maxAge o1 of Some m \<Rightarrow> ''; Max-Age='' @ int_str (max 0 m) | None \<Rightarrow> [])"

section \<open>Routes\<close>

datatype seg = Lit string | Any

datatype auth_need = AuthNone | AuthOptional | AuthRequired

datatype business_step = NoBusinessAuth | BusinessLookup | BusinessToken | BusinessLogout

datatype authority = Consumer | Business

record route =
  r_m :: string
  r_re :: "seg list"
  r_auth :: auth_need
  r_csrf :: bool
  r_authIssue :: bool
  r_authEnd :: bool
  r_stream :: bool
  r_business :: business_step

text \<open>The kinds of entries the lists have.\<close>

definition entry :: "string \<Rightarrow> seg list \<Rightarrow> auth_need \<Rightarrow> bool \<Rightarrow> route" where
  "entry m re a csrf = \<lparr> r_m = m, r_re = re, r_auth = a, r_csrf = csrf, r_authIssue = False,
     r_authEnd = False, r_stream = False, r_business = NoBusinessAuth \<rparr>"

definition read_route :: "seg list \<Rightarrow> route" where
  "read_route re = entry ''GET'' re AuthRequired False"

definition open_route :: "seg list \<Rightarrow> route" where
  "open_route re = entry ''GET'' re AuthOptional False"

definition write_route :: "seg list \<Rightarrow> route" where
  "write_route re = entry ''POST'' re AuthRequired True"

definition preauth_route :: "seg list \<Rightarrow> route" where
  "preauth_route re = entry ''POST'' re AuthNone True"

definition v1 :: "string list \<Rightarrow> seg list" where
  "v1 ws = Lit ''v1'' # map Lit ws"

definition allowlist :: "route list" where
  "allowlist =
    [(preauth_route (v1 [''auth'', ''register'']))\<lparr>r_authIssue := True\<rparr>,
     (preauth_route (v1 [''auth'', ''token'']))\<lparr>r_authIssue := True\<rparr>,
     (write_route (v1 [''auth'', ''logout'']))\<lparr>r_authEnd := True\<rparr>,
     preauth_route (v1 [''auth'', ''email'', ''otp'']), preauth_route (v1 [''auth'', ''email'', ''verify'']),
     preauth_route (v1 [''auth'', ''pin-reset'', ''request'']),
     preauth_route (v1 [''auth'', ''pin-reset'', ''verify'']),
     preauth_route (v1 [''auth'', ''pin-reset'', ''confirm'']),
     read_route (v1 [''me'']), read_route (v1 [''me'', ''wallet'']),
     read_route (v1 [''me'', ''wallet'', ''balance'']), read_route (v1 [''me'', ''activity'']),
     read_route (v1 [''me'', ''push-topic'']),
     write_route (v1 [''me'', ''pin'']), read_route (v1 [''me'', ''recovery-email'']),
     write_route (v1 [''me'', ''recovery-email'', ''otp'']),
     write_route (v1 [''me'', ''recovery-email'', ''verify'']), write_route (v1 [''me'', ''deletion'']),
     (read_route (v1 [''me'', ''realtime'']))\<lparr>r_stream := True\<rparr>,
     read_route (v1 [''consumers'', ''search'']), open_route (v1 [''consumers''] @ [Any]),
     write_route (v1 [''transfers'']),
     open_route (v1 [''payment-links''] @ [Any]), write_route (v1 [''payment-links''] @ [Any, Lit ''pay'']),
     open_route (v1 [''receive-points''] @ [Any]), write_route (v1 [''receive-points''] @ [Any, Lit ''pay'']),
     write_route (v1 [''consumer-pay-links'']), open_route (v1 [''consumer-pay-links''] @ [Any]),
     write_route (v1 [''consumer-pay-links''] @ [Any, Lit ''pay'']),
     write_route (v1 [''qr'', ''pay'']),
     write_route (v1 [''kyc'', ''cases'']), read_route (v1 [''kyc'', ''cases'', ''current'']),
     read_route (v1 [''kyc'', ''cases''] @ [Any]), read_route (v1 [''kyc'', ''cases''] @ [Any, Lit ''status'']),
     write_route (v1 [''kyc'', ''cases''] @ [Any, Lit ''evidence'', Lit ''upload-url'']),
     write_route (v1 [''kyc'', ''cases''] @ [Any, Lit ''evidence'', Lit ''complete'']),
     write_route (v1 [''kyc'', ''cases''] @ [Any, Lit ''submit'']),
     read_route (v1 [''consumer'', ''transactions''] @ [Any, Lit ''receipt'']),
     read_route (v1 [''consumer'', ''transactions''] @ [Any, Lit ''receipt.pdf'']),
     write_route (v1 [''sandbox'', ''fund'']), write_route (v1 [''debug'', ''push-test''])]"

definition business_allowlist :: "route list" where
  "business_allowlist =
    [(preauth_route (v1 [''merchant'', ''auth'', ''lookup'']))\<lparr>r_authIssue := True, r_business := BusinessLookup\<rparr>,
     (preauth_route (v1 [''merchant'', ''auth'', ''token'']))\<lparr>r_authIssue := True, r_business := BusinessToken\<rparr>,
     (write_route (v1 [''merchant'', ''auth'', ''logout'']))\<lparr>r_authEnd := True, r_business := BusinessLogout\<rparr>,
     read_route (v1 [''merchants''] @ [Any]), read_route (v1 [''wallets'']),
     read_route (v1 [''wallets''] @ [Any, Lit ''balance'']), read_route (v1 [''wallet-accounts'']),
     read_route (v1 [''business'', ''receive-point'']),
     write_route (v1 [''business'', ''receive-point'', ''disable'']),
     write_route (v1 [''payment-links'']), read_route (v1 [''payment-links'']),
     read_route (v1 [''payment-links''] @ [Any]),
     entry ''DELETE'' (v1 [''payment-links''] @ [Any]) AuthRequired True,
     open_route [Lit ''public'', Lit ''pay'', Any, Lit ''status''],
     write_route (v1 [''collections'']), read_route (v1 [''collections''] @ [Any]),
     read_route (v1 [''collections''] @ [Any, Lit ''shares'']),
     write_route (v1 [''collection-shares''] @ [Any, Lit ''surface'']),
     write_route (v1 [''collections''] @ [Any, Lit ''cancel'']),
     read_route (v1 [''transactions'']), read_route (v1 [''merchant'', ''wallet-payments'']),
     read_route (v1 [''merchant'', ''transactions''] @ [Any, Lit ''receipt.pdf''])]"

definition lists :: "authority \<Rightarrow> route list" where
  "lists a = (case a of Consumer \<Rightarrow> allowlist | Business \<Rightarrow> business_allowlist)"

definition seg_matches :: "seg \<Rightarrow> string \<Rightarrow> bool" where
  "seg_matches p s = (case p of Lit w \<Rightarrow> s = w | Any \<Rightarrow> s \<noteq> [])"

text \<open>The anchored expression on a path: a slash, then the segments between slashes.\<close>

definition path_matches :: "seg list \<Rightarrow> string \<Rightarrow> bool" where
  "path_matches re path =
     (case split_on (CHR ''/'') path of
        [] \<Rightarrow> False
      | s # segs \<Rightarrow> s = [] \<and> list_all2 seg_matches re segs)"

definition before_query :: "string \<Rightarrow> string" where
  "before_query p = takeWhile (\<lambda>c. c \<noteq> CHR ''?'') p"

definition matchRoute :: "string \<Rightarrow> string \<Rightarrow> authority \<Rightarrow> route option" where
  "matchRoute method upstreamPath a =
     List.find (\<lambda>r. r_m r = method \<and> path_matches (r_re r) (before_query upstreamPath)) (lists a)"

definition decodeJwtClaim :: "string \<Rightarrow> string \<Rightarrow> string option" where
  "decodeJwtClaim jwt key =
     (case split_on (CHR ''.'') jwt of
        [_, payload, _] \<Rightarrow> Option.bind (json_parse (utf8_decode (from_base64url payload))) (str_member key)
      | _ \<Rightarrow> None)"

section \<open>The cookies come back\<close>

lemma hex_pair_pct: "hex_pair (pct b @ r) = Some (b, r)"
proof -
  have d: "is_hex (pct_digit n) \<and> upper_char (pct_digit n) = pct_digit n" if "n < 16" for n
    using that by (auto simp: is_hex_def pct_digit_def upper_char_def char_class_defs of_char_of unit_code_def)
  have h: "unit_code b div 16 < 16" using unit_code_bound [of b] by linarith
  have l: "unit_code b mod 16 < 16" by simp
  have "16 * (unit_code b div 16) + unit_code b mod 16 = unit_code b" by simp
  then show ?thesis using d [OF h] d [OF l] h l by (simp add: hex_pair_def pct_def)
qed

lemma pct_split: "\<exists>x y. pct b = [CHR ''%'', x, y]"
  by (simp add: pct_def)

lemma decode_pct:
  assumes "unit_code b < 128"
  shows "decodeURIComponent (pct b @ r) = map_option ((#) b) (decodeURIComponent r)"
proof -
  obtain x y where p: "pct b = [CHR ''%'', x, y]" using pct_split by blast
  show ?thesis using assms hex_pair_pct [of b r] by (simp add: p)
qed

lemma decode_pct2:
  fixes k m :: nat
  assumes "k < 2" and "m < 64"
  shows "decodeURIComponent (pct (char_of (194 + k)) @ pct (char_of (128 + m)) @ r) =
    map_option ((#) (char_of ((2 + k) * 64 + m))) (decodeURIComponent r)"
proof -
  let ?b = "char_of (194 + k) :: char" and ?d = "char_of (128 + m) :: char"
  obtain x y where p: "pct ?b = [CHR ''%'', x, y]" using pct_split by blast
  have h: "hex_pair (CHR ''%'' # x # y # pct ?d @ r) = Some (?b, pct ?d @ r)"
    using hex_pair_pct [of ?b "pct ?d @ r"] by (simp add: p)
  have "unit_code ?b = 194 + k" "unit_code ?d = 128 + m" using assms by simp_all
  then show ?thesis
    using assms h hex_pair_pct [of ?d r] by (simp add: p)
qed

lemma decode_encode_char:
  "decodeURIComponent (concat (map (\<lambda>b. if uri_unreserved b then [b] else pct b) (utf8 c)) @ r) =
     map_option ((#) c) (decodeURIComponent r)"
proof (cases "unit_code c < 128")
  case True
  then show ?thesis by (simp add: utf8_def decode_pct uri_unreserved_pct)
next
  case False
  have ascii: "uri_unreserved d \<Longrightarrow> unit_code d < 128" for d
    by (auto simp: uri_unreserved_def is_alnum_def char_class_defs unit_code_def)
  have hi: "\<not> uri_unreserved (char_of n)" if "128 \<le> n" "n < 256" for n :: nat
    using ascii [of "char_of n"] that by auto
  have "unit_code c div 64 < 4" "2 \<le> unit_code c div 64" using unit_code_bound [of c] False by linarith+
  then obtain k where k: "unit_code c div 64 = 2 + k" "k < 2" by (metis le_Suc_ex nat_add_left_cancel_less numeral_Bit0 Suc_1 add.commute)
  have "(2 + k) * 64 + unit_code c mod 64 = unit_code c" using k(1) by (metis div_mult_mod_eq)
  moreover have "192 + unit_code c div 64 = 194 + k" using k(1) by simp
  ultimately show ?thesis
    using False k hi [of "194 + k"] hi [of "128 + unit_code c mod 64"]
      decode_pct2 [of k "unit_code c mod 64"]
    by (simp add: utf8_def)
qed

lemma decode_encode: "decodeURIComponent (encodeURIComponent v) = Some v"
proof -
  have "decodeURIComponent (encodeURIComponent v @ r) = map_option ((@) v) (decodeURIComponent r)" for r
  proof (induction v)
    case (Cons c v)
    then show ?case
      using decode_encode_char [of c "encodeURIComponent v @ r"]
      by (simp add: encodeURIComponent_def option.map_comp comp_def)
  qed (simp add: encodeURIComponent_def option.map_ident)
  from this [of "[]"] show ?thesis by simp
qed

definition cookie_header :: "(string \<times> string) list \<Rightarrow> string" where
  "cookie_header kvs = join_with ''; '' (map (\<lambda>(k, v). k @ ''='' @ encodeURIComponent v) kvs)"

definition cookie_name :: "string \<Rightarrow> bool" where
  "cookie_name k \<longleftrightarrow> k \<noteq> [] \<and> list_all (\<lambda>c. \<not> js_ws c \<and> c \<noteq> CHR ''='' \<and> c \<noteq> CHR '';'') k"

lemma encoded_plain: "c \<in> set (encodeURIComponent v) \<Longrightarrow> \<not> js_ws c \<and> c \<noteq> CHR '';''"
  using encodeURIComponent_chars [of c v] by (auto simp: uri_unreserved_def is_alnum_def char_class_defs)

lemma cookie_part_of:
  assumes "cookie_name k" and "sp = [] \<or> sp = '' ''"
  shows "cookie_part (sp @ k @ ''='' @ encodeURIComponent v) = Some (k, encodeURIComponent v)"
proof -
  let ?t = "k @ ''='' @ encodeURIComponent v"
  have "list_all (\<lambda>c. \<not> js_ws c) ?t"
    using assms(1) encoded_plain [of _ v] by (auto simp: cookie_name_def list_all_iff js_ws_def)
  then have "js_trim ?t = ?t" by (rule js_trim_no_ws)
  moreover have "js_trim ('' '' @ u) = js_trim u" for u by (simp add: js_trim_def js_ws_def)
  ultimately have t: "js_trim (sp @ ?t) = ?t" using assms(2) by auto
  have "CHR ''='' \<notin> set k" "k \<noteq> []" using assms(1) by (auto simp: cookie_name_def list_all_iff)
  then show ?thesis unfolding cookie_part_def t by simp
qed

lemma update_new: "k \<notin> fst ` set al \<Longrightarrow> AList.update k v al = al @ [(k, v)]"
  by (induction al) auto

lemma parse_header:
  assumes "list_all (\<lambda>(k, v). cookie_name k) kvs" and "distinct (map fst (acc @ kvs))" and "sp = [] \<or> sp = '' ''"
  shows "parse_cookie_parts (split_on (CHR '';'') (sp @ cookie_header kvs)) acc = Some (acc @ kvs) \<or> kvs = []"
  using assms
proof (induction kvs arbitrary: acc sp)
  case (Cons kv kvs)
  note IH = Cons.IH and prems = Cons.prems
  obtain k v where kv: "kv = (k, v)" by fastforce
  let ?p = "sp @ k @ ''='' @ encodeURIComponent v"
  have name: "cookie_name k" using Cons.prems(1) kv by simp
  then have "CHR '';'' \<notin> set k" unfolding cookie_name_def list_all_iff by blast
  moreover have "CHR '';'' \<notin> set (encodeURIComponent v)" using encoded_plain by blast
  moreover have "CHR '';'' \<notin> set sp" using Cons.prems(3) by (elim disjE) simp_all
  ultimately have n: "CHR '';'' \<notin> set ?p" by simp
  have upd: "AList.update k v acc = acc @ [(k, v)]"
    by (rule update_new) (use Cons.prems(2) kv in auto)
  have part: "cookie_part ?p = Some (k, encodeURIComponent v)"
    by (rule cookie_part_of [OF name Cons.prems(3)])
  show ?case
  proof (cases kvs)
    case Nil
    have "split_on (CHR '';'') ?p = [?p]" by (rule split_on_no_sep [OF n])
    then show ?thesis
      using Nil kv part upd by (simp add: cookie_header_def decode_encode)
  next
    case (Cons kv' kvs')
    then have "sp @ cookie_header (kv # kvs) = ?p @ CHR '';'' # ('' '' @ cookie_header kvs)"
      using kv by (simp add: cookie_header_def)
    then have "split_on (CHR '';'') (sp @ cookie_header (kv # kvs)) = ?p # split_on (CHR '';'') ('' '' @ cookie_header kvs)"
      using split_on_append [OF n] by simp
    moreover have "parse_cookie_parts (split_on (CHR '';'') ('' '' @ cookie_header kvs)) (acc @ [(k, v)]) =
        Some ((acc @ [(k, v)]) @ kvs) \<or> kvs = []"
      by (rule IH) (use prems kv in simp_all)
    ultimately show ?thesis using part upd Cons kv by (simp add: decode_encode)
  qed
qed simp

lemma cookies_come_back:
  assumes "list_all (\<lambda>(k, v). cookie_name k) kvs" and "distinct (map fst kvs)"
  shows "parseCookies (Some (cookie_header kvs)) = Some kvs"
proof (cases kvs)
  case Nil
  then show ?thesis by (simp add: parseCookies_def cookie_header_def)
next
  case (Cons kv kvs')
  then have "cookie_header kvs \<noteq> []" by (cases kv; cases kvs') (simp_all add: cookie_header_def)
  then show ?thesis
    using parse_header [of kvs "[]" "[]"] assms Cons by (simp add: parseCookies_def)
qed

end
