(* ===== verification/AppServer.thy ===== *)
theory AppServer
  imports AppBff
begin

text \<open>
  The host of App Banzami Web (apps/app-banzami/server.mjs): sessions with two authorities, the
  gateway to the Consumer and Business APIs, session state, context and logout, and the router.

  The outside world (clock, upstream answers, random source, date parser, rate-limit verdicts) is
  the parameter \<open>world\<close>, read by position, so a theorem holds for all its behaviours. The store is the
  contract of AppStore holding session records; a date that does not parse is an absent time, as it
  is once stored. The gateway's handler is split where it waits for the upstream: \<open>bff_admit\<close> up to the
  request, \<open>bff_send\<close>, and \<open>bff_settle\<close> with the answer, so that handlers can interleave.
\<close>

section \<open>Sessions\<close>

record consumer_auth =
  ca_bearer :: "string option"
  ca_bearerExp :: "int option"
  ca_consumerId :: "string option"
  ca_handle :: "string option"
  ca_displayName :: "string option"

record merchant_auth =
  ba_bearer :: string
  ba_bearerExp :: "int option"
  ba_refresh :: "string option"
  ba_refreshExp :: "int option"
  ba_merchantId :: string
  ba_environment :: string

text \<open>\<open>s_flat\<close>: the consumer fields of a legacy v1 record, which lie flat in it.\<close>

record session =
  s_preauth :: bool
  s_csrf :: string
  s_createdAt :: int
  s_lastSeen :: "int option"
  s_context :: "string option"
  s_flat :: "consumer_auth option"
  s_consumer :: "consumer_auth option"
  s_business :: "merchant_auth option"

definition idle_ms :: int where "idle_ms = 30 * 60 * 1000"
definition absolute_ms :: int where "absolute_ms = 12 * 60 * 60 * 1000"
definition preauth_ms :: int where "preauth_ms = 15 * 60 * 1000"
definition max_body :: nat where "max_body = 128 * 1024"

definition truthy_str :: "string option \<Rightarrow> bool" where
  "truthy_str x \<longleftrightarrow> x \<noteq> None \<and> x \<noteq> Some []"

definition consumer_of :: "session \<Rightarrow> consumer_auth option" where
  "consumer_of rec =
     (case s_consumer rec of
        Some c \<Rightarrow> Some c
      | None \<Rightarrow> (case s_flat rec of Some f \<Rightarrow> if truthy_str (ca_bearer f) then Some f else None | None \<Rightarrow> None))"

definition business_of :: "session \<Rightarrow> merchant_auth option" where
  "business_of rec = s_business rec"

text \<open>\<open>authorityOf(rec, authority)?.bearer\<close>, when it is truthy.\<close>

definition bearer_of :: "authority \<Rightarrow> session \<Rightarrow> string option" where
  "bearer_of a rec =
     (let b = (case a of Consumer \<Rightarrow> Option.bind (consumer_of rec) ca_bearer
                       | Business \<Rightarrow> map_option ba_bearer (business_of rec))
      in if truthy_str b then b else None)"

definition hasAnyAuthority :: "session \<Rightarrow> bool" where
  "hasAnyAuthority rec \<longleftrightarrow> consumer_of rec \<noteq> None \<or> business_of rec \<noteq> None"

definition preauth_record :: "string \<Rightarrow> int \<Rightarrow> session" where
  "preauth_record csrf now = \<lparr> s_preauth = True, s_csrf = csrf, s_createdAt = now, s_lastSeen = None,
     s_context = None, s_flat = None, s_consumer = None, s_business = None \<rparr>"

section \<open>The world and the server's state\<close>

record up_request =
  uq_to :: authority
  uq_method :: string
  uq_url :: string
  uq_headers :: "(string \<times> string) list"
  uq_body :: "string option"

record up_response =
  ur_status :: int
  ur_contentType :: "string option"
  ur_body :: string

datatype up_result = Unreachable | Up up_response

definition ur_ok :: "up_response \<Rightarrow> bool" where
  "ur_ok r \<longleftrightarrow> 200 \<le> ur_status r \<and> ur_status r \<le> 299"

record world =
  wd_now :: "nat \<Rightarrow> int"
  wd_crypto :: crypto
  wd_upstream :: "nat \<Rightarrow> up_request \<Rightarrow> up_result"
  wd_limited :: "nat \<Rightarrow> string \<Rightarrow> bool"
  wd_date :: "string \<Rightarrow> int option"
  wd_prod :: bool
  wd_consumerBase :: "string option"
  wd_businessBase :: "string option"

record server =
  sv_store :: "session ttl_map"
  sv_ticks :: nat
  sv_draws :: nat
  sv_hits :: nat
  sv_sent :: "up_request list"

record http_in =
  hq_method :: string
  hq_url :: string
  hq_cookie :: "string option"
  hq_csrf :: "string option"
  hq_contentType :: "string option"
  hq_idempotency :: "string option"
  hq_forwardedFor :: "string option"
  hq_remote :: "string option"
  hq_body :: "string option"

record http_out =
  ho_status :: int
  ho_contentType :: "string option"
  ho_cookies :: "string list"
  ho_body :: string

text \<open>The API bases, without the slashes they end with.\<close>

definition api_base :: "world \<Rightarrow> authority \<Rightarrow> string" where
  "api_base w a =
     (let raw = (case a of
          Consumer \<Rightarrow> if truthy_str (wd_consumerBase w) then the (wd_consumerBase w)
                      else ''https://sandbox-api.banzami.com/consumer''
        | Business \<Rightarrow> if truthy_str (wd_businessBase w) then the (wd_businessBase w)
                      else ''https://sandbox-api.banzami.com'')
      in rev (dropWhile (\<lambda>c. c = CHR ''/'') (rev raw)))"

definition tick :: "world \<Rightarrow> server \<Rightarrow> int \<times> server" where
  "tick w s = (wd_now w (sv_ticks s), s\<lparr>sv_ticks := sv_ticks s + 1\<rparr>)"

definition draw_id :: "world \<Rightarrow> server \<Rightarrow> string \<times> server" where
  "draw_id w s = (newSessionId (wd_crypto w) (sv_draws s), s\<lparr>sv_draws := sv_draws s + 1\<rparr>)"

definition draw_csrf :: "world \<Rightarrow> server \<Rightarrow> string \<times> server" where
  "draw_csrf w s = (newCsrf (wd_crypto w) (sv_draws s), s\<lparr>sv_draws := sv_draws s + 1\<rparr>)"

definition st_get :: "world \<Rightarrow> string \<Rightarrow> server \<Rightarrow> session option \<times> server" where
  "st_get w ident s = (case tick w s of (t, s1) \<Rightarrow>
     (case ttl_get t ident (sv_store s1) of (r, m) \<Rightarrow> (r, s1\<lparr>sv_store := m\<rparr>)))"

definition st_set :: "world \<Rightarrow> string \<Rightarrow> session \<Rightarrow> int \<Rightarrow> server \<Rightarrow> server" where
  "st_set w ident rec ttl s = (case tick w s of (t, s1) \<Rightarrow>
     s1\<lparr>sv_store := ttl_set t ident rec ttl (sv_store s1)\<rparr>)"

definition st_del :: "string \<Rightarrow> server \<Rightarrow> server" where
  "st_del ident s = s\<lparr>sv_store := ttl_del ident (sv_store s)\<rparr>"

definition up_fetch :: "world \<Rightarrow> up_request \<Rightarrow> server \<Rightarrow> up_result \<times> server" where
  "up_fetch w q s = (wd_upstream w (length (sv_sent s)) q, s\<lparr>sv_sent := sv_sent s @ [q]\<rparr>)"

section \<open>Session helpers\<close>

definition json_ct :: string where
  "json_ct = ''application/json; charset=utf-8''"

definition sendJson :: "int \<Rightarrow> json \<Rightarrow> string list \<Rightarrow> http_out" where
  "sendJson status obj cookies =
     \<lparr> ho_status = status, ho_contentType = Some json_ct, ho_cookies = cookies, ho_body = stringify obj \<rparr>"

definition refusal :: "int \<Rightarrow> string \<Rightarrow> string \<Rightarrow> string list \<Rightarrow> http_out" where
  "refusal status code message cookies =
     sendJson status (JObj [(''code'', JStr code), (''message'', JStr message)]) cookies"

definition presence_cookie :: string where
  "presence_cookie = ''bz_app_present''"

definition app_domain :: "world \<Rightarrow> string option" where
  "app_domain w = (if wd_prod w then Some ''.banzami.com'' else None)"

definition cookie_set :: "world \<Rightarrow> int \<Rightarrow> bool \<Rightarrow> string option \<Rightarrow> cookie_options" where
  "cookie_set w maxAge httpOnly domain =
     \<lparr> co_maxAge = Some maxAge, co_secure = wd_prod w, co_httpOnly = httpOnly, co_domain = domain \<rparr>"

definition sessionCookies :: "world \<Rightarrow> string \<Rightarrow> string \<Rightarrow> int \<Rightarrow> bool \<Rightarrow> string list" where
  "sessionCookies w ident csrf maxAgeMs present =
     (let maxAge = maxAgeMs div 1000
      in [serializeCookie session_cookie ident (cookie_set w maxAge True None),
          serializeCookie csrf_cookie csrf (cookie_set w maxAge False None)] @
         (if present then [serializeCookie presence_cookie ''1'' (cookie_set w maxAge True (app_domain w))] else []))"

definition clearCookies :: "world \<Rightarrow> string list" where
  "clearCookies w =
     [serializeCookie session_cookie [] (cookie_set w 0 True None),
      serializeCookie csrf_cookie [] (cookie_set w 0 False None),
      serializeCookie presence_cookie [] (cookie_set w 0 True (app_domain w))]"

definition remainingTtlMs :: "world \<Rightarrow> session \<Rightarrow> server \<Rightarrow> int \<times> server" where
  "remainingTtlMs w rec s = (case tick w s of (now, s1) \<Rightarrow>
     (min idle_ms (s_createdAt rec + absolute_ms - now), s1))"

definition save_session :: "world \<Rightarrow> string \<Rightarrow> session \<Rightarrow> server \<Rightarrow> server" where
  "save_session w ident rec s = (case remainingTtlMs w rec s of (ttl, s1) \<Rightarrow> st_set w ident rec ttl s1)"

text \<open>\<open>exp && now >= exp * 1000\<close>.\<close>

definition past :: "int \<Rightarrow> int option \<Rightarrow> bool" where
  "past now exp \<longleftrightarrow> (case exp of Some e \<Rightarrow> e \<noteq> 0 \<and> now \<ge> e * 1000 | None \<Rightarrow> False)"

definition refresh_dead :: "int \<Rightarrow> merchant_auth \<Rightarrow> bool" where
  "refresh_dead now b =
     (case ba_refreshExp b of
        Some e \<Rightarrow> if e \<noteq> 0 then now \<ge> e * 1000 else past now (ba_bearerExp b)
      | None \<Rightarrow> past now (ba_bearerExp b))"

definition prune :: "int \<Rightarrow> session \<Rightarrow> session" where
  "prune now rec =
     (let r1 = (case s_consumer rec of
                  Some c \<Rightarrow> if past now (ca_bearerExp c) then rec\<lparr>s_consumer := None\<rparr> else rec
                | None \<Rightarrow> rec)
      in case s_business r1 of
           Some b \<Rightarrow> if refresh_dead now b then r1\<lparr>s_business := None\<rparr> else r1
         | None \<Rightarrow> r1)"

text \<open>A record found in the store, once the time is known: what is kept of it.\<close>

datatype load_verdict = Dropped | Kept | Pruned session

definition load_verdict_of :: "int \<Rightarrow> session \<Rightarrow> load_verdict" where
  "load_verdict_of now rec =
     (if s_createdAt rec \<noteq> 0 \<and> now - s_createdAt rec > absolute_ms then Dropped
      else if s_preauth rec then Kept
      else if s_consumer rec = None \<and> s_business rec = None then
        (case s_flat rec of
           Some f \<Rightarrow> if \<not> truthy_str (ca_bearer f) \<or> past now (ca_bearerExp f) then Dropped else Kept
         | None \<Rightarrow> Dropped)
      else
        (let r1 = prune now rec
         in if \<not> hasAnyAuthority r1 then Dropped else if r1 \<noteq> rec then Pruned r1 else Kept))"

definition loadSession :: "world \<Rightarrow> string option \<Rightarrow> server \<Rightarrow> (string \<times> session) option \<times> server" where
  "loadSession w cookie s =
     (if \<not> truthy_str cookie then (None, s)
      else
        (let ident = the cookie in
         case st_get w ident s of
           (None, s1) \<Rightarrow> (None, s1)
         | (Some rec, s1) \<Rightarrow>
             (case tick w s1 of (now, s2) \<Rightarrow>
                (case load_verdict_of now rec of
                   Dropped \<Rightarrow> (None, st_del ident s2)
                 | Kept \<Rightarrow> (Some (ident, rec), s2)
                 | Pruned r1 \<Rightarrow> (Some (ident, r1), save_session w ident r1 s2)))))"

definition date_seconds :: "world \<Rightarrow> string \<Rightarrow> int option" where
  "date_seconds w d = map_option (\<lambda>ms. ms div 1000) (wd_date w d)"

text \<open>\<open>json[k]\<close> when it is a non-empty text.\<close>

definition text_member :: "string \<Rightarrow> json \<Rightarrow> string option" where
  "text_member k j = (let v = str_member k j in if truthy_str v then v else None)"

text \<open>The expiry a token answer states, or so many seconds from now.\<close>

definition expiry_or :: "world \<Rightarrow> json \<Rightarrow> int \<Rightarrow> server \<Rightarrow> int option \<times> server" where
  "expiry_or w j seconds s =
     (case text_member ''expires_at'' j of
        Some d \<Rightarrow> (date_seconds w d, s)
      | None \<Rightarrow> (case tick w s of (now, s1) \<Rightarrow> (Some (now div 1000 + seconds), s1)))"

definition json_headers :: "(string \<times> string) list" where
  "json_headers = [(''Content-Type'', ''application/json''), (''Accept'', ''application/json'')]"

definition refresh_request :: "world \<Rightarrow> string \<Rightarrow> up_request" where
  "refresh_request w refresh =
     \<lparr> uq_to = Business, uq_method = ''POST'', uq_url = api_base w Business @ ''/v1/merchant/auth/refresh'',
       uq_headers = json_headers,
       uq_body = Some (stringify (JObj [(''refresh_token'', JStr refresh)])) \<rparr>"

text \<open>The renewed authority; the session's record is changed in place and returned.\<close>

definition refreshBusinessToken :: "world \<Rightarrow> session \<Rightarrow> server \<Rightarrow> bool \<times> session \<times> server" where
  "refreshBusinessToken w rec s =
     (case s_business rec of
        None \<Rightarrow> (False, rec, s)
      | Some b \<Rightarrow>
          (if \<not> truthy_str (ba_refresh b) then (False, rec, s)
           else case up_fetch w (refresh_request w (the (ba_refresh b))) s of
               (Unreachable, s1) \<Rightarrow> (False, rec, s1)
             | (Up r, s1) \<Rightarrow>
                 (if \<not> ur_ok r then
                    (False, if ur_status r = 401 \<or> ur_status r = 403 then rec\<lparr>s_business := None\<rparr> else rec, s1)
                  else (case Option.bind (json_parse (utf8_decode (ur_body r))) (\<lambda>j. map_option (Pair j) (text_member ''token'' j)) of
                      None \<Rightarrow> (False, rec, s1)
                    | Some (j, token) \<Rightarrow>
                        (case expiry_or w j 300 s1 of (exp, s2) \<Rightarrow>
                           (True,
                            rec\<lparr>s_business := Some (b\<lparr>ba_bearer := token, ba_bearerExp := exp,
                              ba_refresh := (case text_member ''refresh_token'' j of Some x \<Rightarrow> Some x | None \<Rightarrow> ba_refresh b),
                              ba_refreshExp := (case text_member ''refresh_expires_at'' j of
                                 Some d \<Rightarrow> date_seconds w d | None \<Rightarrow> ba_refreshExp b)\<rparr>)\<rparr>, s2))))))"

definition readBody :: "http_in \<Rightarrow> string option" where
  "readBody req = (case hq_body req of Some b \<Rightarrow> if length b > max_body then None else Some b | None \<Rightarrow> None)"

definition clientIp :: "http_in \<Rightarrow> string" where
  "clientIp req =
     (if truthy_str (hq_forwardedFor req)
      then js_trim (hd (split_on (CHR '','') (the (hq_forwardedFor req))))
      else if truthy_str (hq_remote req) then the (hq_remote req) else ''unknown'')"

definition limit_hit :: "world \<Rightarrow> string \<Rightarrow> server \<Rightarrow> bool \<times> server" where
  "limit_hit w key s = (wd_limited w (sv_hits s) key, s\<lparr>sv_hits := sv_hits s + 1\<rparr>)"

definition authority_name :: "authority \<Rightarrow> string" where
  "authority_name a = (case a of Consumer \<Rightarrow> ''consumer'' | Business \<Rightarrow> ''business'')"

section \<open>The gateway\<close>

record admitted =
  ad_in :: http_in
  ad_authority :: authority
  ad_path :: string
  ad_route :: route
  ad_loaded :: "(string \<times> session) option"
  ad_body :: string

definition csrf_ok :: "http_in \<Rightarrow> session option \<Rightarrow> bool" where
  "csrf_ok req rec \<longleftrightarrow> (case rec of
     None \<Rightarrow> False | Some r \<Rightarrow> timingSafeEqualStr (or_else (hq_csrf req) []) (s_csrf r))"

definition needs_sign_in :: "route \<Rightarrow> authority \<Rightarrow> session option \<Rightarrow> bool" where
  "needs_sign_in route a rec \<longleftrightarrow> r_auth route = AuthRequired \<and>
     (case rec of None \<Rightarrow> True | Some r \<Rightarrow> s_preauth r \<or> bearer_of a r = None)"

definition cookie_session :: "(string \<times> string) list \<Rightarrow> string option" where
  "cookie_session cookies = map_of cookies session_cookie"

text \<open>A pre-auth session for a caller that has none, and its cookies.\<close>

definition mint_preauth :: "world \<Rightarrow> server \<Rightarrow> string list \<times> server" where
  "mint_preauth w s =
     (case draw_id w s of (ident, s1) \<Rightarrow>
      case draw_csrf w s1 of (csrf, s2) \<Rightarrow>
      case tick w s2 of (now, s3) \<Rightarrow>
        (sessionCookies w ident csrf preauth_ms False,
         st_set w ident (preauth_record csrf now) preauth_ms s3))"

definition bff_body :: "http_in \<Rightarrow> route \<Rightarrow> session option \<Rightarrow> string option" where
  "bff_body req route rec =
     (case (if hq_method req = ''GET'' \<or> hq_method req = ''HEAD'' then Some [] else readBody req) of
        None \<Rightarrow> None
      | Some b \<Rightarrow>
          Some (if r_business route = BusinessLogout
                then stringify (JObj [(''refresh_token'',
                  JStr (or_else (Option.bind (Option.bind rec business_of) ba_refresh) []))])
                else b))"

text \<open>What the gateway checks once the session is loaded, in its order.\<close>

definition bff_checks ::
  "world \<Rightarrow> authority \<Rightarrow> string \<Rightarrow> route \<Rightarrow> http_in \<Rightarrow> (string \<times> session) option \<Rightarrow> server \<Rightarrow>
   (http_out + admitted) \<times> server" where
  "bff_checks w a path route req loaded s =
     (let rec = map_option snd loaded in
      if r_authIssue route \<and> rec = None then
        (case mint_preauth w s of (cs, s1) \<Rightarrow> (Inl (refusal 401 ''CSRF_INIT'' ''retry with csrf'' cs), s1))
      else if needs_sign_in route a rec then
        (Inl (refusal 401 ''UNAUTHENTICATED'' ''sign in required'' []), s)
      else if r_csrf route \<and> \<not> csrf_ok req rec then
        (Inl (refusal 403 ''CSRF_FAILED'' ''invalid csrf token'' []), s)
      else (case bff_body req route rec of
          None \<Rightarrow> (Inl (refusal 413 ''PAYLOAD_TOO_LARGE'' ''request too large'' []), s)
        | Some body \<Rightarrow>
            (Inr \<lparr> ad_in = req, ad_authority = a, ad_path = path, ad_route = route,
               ad_loaded = loaded, ad_body = body \<rparr>, s)))"

definition upstream_path :: "string \<Rightarrow> http_in \<Rightarrow> string" where
  "upstream_path pre req = (let p = drop (length pre) (hq_url req) in if p = [] then ''/'' else p)"

definition over_limit :: "world \<Rightarrow> authority \<Rightarrow> route \<Rightarrow> http_in \<Rightarrow> server \<Rightarrow> bool \<times> server" where
  "over_limit w a route req s =
     (if r_authIssue route then limit_hit w (''auth:'' @ authority_name a @ '':'' @ clientIp req) s else (False, s))"

text \<open>The gateway up to the request it forwards: a refusal, or what it forwards.\<close>

definition bff_admit ::
  "world \<Rightarrow> string \<Rightarrow> authority \<Rightarrow> (string \<times> string) list \<Rightarrow> http_in \<Rightarrow> server \<Rightarrow> (http_out + admitted) \<times> server" where
  "bff_admit w pre a cookies req s =
     (case matchRoute (hq_method req) (upstream_path pre req) a of
        None \<Rightarrow> (Inl (refusal 404 ''NOT_FOUND'' ''no such route'' []), s)
      | Some route \<Rightarrow>
          (case over_limit w a route req s of (limited, s1) \<Rightarrow>
             if limited then (Inl (refusal 429 ''RATE_LIMITED'' ''demasiadas tentativas; tente mais tarde'' []), s1)
             else (case loadSession w (cookie_session cookies) s1 of (loaded, s2) \<Rightarrow>
                     bff_checks w a (upstream_path pre req) route req loaded s2)))"

definition forward :: "world \<Rightarrow> admitted \<Rightarrow> string option \<Rightarrow> up_request" where
  "forward w ad bearer =
     (let req = ad_in ad; route = ad_route ad in
      \<lparr> uq_to = ad_authority ad, uq_method = hq_method req,
        uq_url = api_base w (ad_authority ad) @ ad_path ad,
        uq_headers =
          [(''Accept'', if r_stream route then ''text/event-stream'' else ''application/json''),
           (''User-Agent'', ''Banzami-Web-BFF/1.0'')] @
          (if r_business route = BusinessLogout then [(''Content-Type'', ''application/json'')]
           else if truthy_str (hq_contentType req) then [(''Content-Type'', the (hq_contentType req))] else []) @
          (if truthy_str (hq_idempotency req) then [(''Idempotency-Key'', the (hq_idempotency req))] else []) @
          (case bearer of
             Some b \<Rightarrow> if b \<noteq> [] \<and> r_auth route \<noteq> AuthNone then [(''Authorization'', ''Bearer '' @ b)] else []
           | None \<Rightarrow> []),
        uq_body = (if hq_method req = ''GET'' \<or> hq_method req = ''HEAD'' then None else Some (ad_body ad)) \<rparr>)"

definition ad_rec :: "admitted \<Rightarrow> session option" where
  "ad_rec ad = map_option snd (ad_loaded ad)"

definition bff_send :: "world \<Rightarrow> admitted \<Rightarrow> server \<Rightarrow> up_result \<times> server" where
  "bff_send w ad s = up_fetch w (forward w ad (Option.bind (ad_rec ad) (bearer_of (ad_authority ad)))) s"

text \<open>\<open>json[k] = v\<close>: \<^const>\<open>None\<close> when it throws; an array takes the property and does not render it.\<close>

definition put_member :: "string \<Rightarrow> json \<Rightarrow> json \<Rightarrow> json option" where
  "put_member k v j =
     (case j of
        JObj ms \<Rightarrow> Some (JObj (AList.update k v (fold (\<lambda>(a, b). AList.update a b) ms [])))
      | JArr xs \<Rightarrow> Some j
      | _ \<Rightarrow> None)"

definition raw_out :: "int \<Rightarrow> string \<Rightarrow> string \<Rightarrow> string list \<Rightarrow> http_out" where
  "raw_out status body ct cookies =
     \<lparr> ho_status = status, ho_contentType = Some ct, ho_cookies = cookies, ho_body = body \<rparr>"

definition bad_auth_answer :: http_out where
  "bad_auth_answer = refusal 502 ''AUTH_DECODE'' ''unexpected auth response'' []"

definition signed_in_at :: "session option \<Rightarrow> int \<Rightarrow> int" where
  "signed_in_at prev now =
     (case prev of Some p \<Rightarrow> if s_createdAt p \<noteq> 0 \<and> \<not> s_preauth p then s_createdAt p else now | None \<Rightarrow> now)"

text \<open>The new record takes a new id, and the old one goes; then the answer, without its tokens.\<close>

definition install :: "world \<Rightarrow> (string \<times> session) option \<Rightarrow> string \<Rightarrow> session \<Rightarrow> server \<Rightarrow> server" where
  "install w loaded newId rec2 s =
     (case save_session w newId rec2 s of s1 \<Rightarrow>
        (case loaded of Some (ident, _) \<Rightarrow> st_del ident s1 | None \<Rightarrow> s1))"

definition sign_in_answer ::
  "world \<Rightarrow> up_response \<Rightarrow> json option \<Rightarrow> string \<Rightarrow> session \<Rightarrow> server \<Rightarrow> http_out \<times> server" where
  "sign_in_answer w up body newId rec2 s =
     (case body of
        None \<Rightarrow> (bad_auth_answer, s)
      | Some j \<Rightarrow>
          (case remainingTtlMs w rec2 s of (ttl, s1) \<Rightarrow>
             (raw_out (ur_status up) (stringify j) json_ct (sessionCookies w newId (s_csrf rec2) ttl True), s1)))"

definition consumer_record :: "json \<Rightarrow> int option \<Rightarrow> string \<Rightarrow> int \<Rightarrow> session option \<Rightarrow> session" where
  "consumer_record j exp csrf now prev =
     (let c = or_else (jget ''consumer'' j) JNull in
      \<lparr> s_preauth = False, s_csrf = csrf, s_createdAt = signed_in_at prev now, s_lastSeen = Some now,
        s_context = Some ''personal'', s_flat = None,
        s_consumer = Some \<lparr> ca_bearer = str_member ''token'' j, ca_bearerExp = exp,
          ca_consumerId = Some (or_else (text_member ''id'' c) (or_else (text_member ''consumer_id'' j) [])),
          ca_handle = Some (or_else (text_member ''handle'' c) []),
          ca_displayName = text_member ''display_name'' c \<rparr>,
        s_business = Option.bind prev business_of \<rparr>)"

definition consumer_sign_in :: "world \<Rightarrow> admitted \<Rightarrow> up_response \<Rightarrow> server \<Rightarrow> http_out \<times> server" where
  "consumer_sign_in w ad up s =
     (case json_parse (utf8_decode (ur_body up)) of
        None \<Rightarrow> (bad_auth_answer, s)
      | Some j \<Rightarrow>
          (if j = JNull then (bad_auth_answer, s)
           else case expiry_or w j (absolute_ms div 1000) s of (exp, s1) \<Rightarrow>
             case draw_id w s1 of (newId, s2) \<Rightarrow>
             case draw_csrf w s2 of (csrf, s3) \<Rightarrow>
             case tick w s3 of (now, s4) \<Rightarrow>
               (let rec2 = consumer_record j exp csrf now (ad_rec ad)
                in sign_in_answer w up (put_member ''token'' (JStr token_sentinel) j) newId rec2
                     (install w (ad_loaded ad) newId rec2 s4))))"

definition business_record :: "world \<Rightarrow> json \<Rightarrow> string \<Rightarrow> int option \<Rightarrow> string \<Rightarrow> int \<Rightarrow> session option \<Rightarrow> session" where
  "business_record w j token exp csrf now prev =
     \<lparr> s_preauth = False, s_csrf = csrf, s_createdAt = signed_in_at prev now, s_lastSeen = Some now,
       s_context = Some ''business'', s_flat = None,
       s_consumer = Option.bind prev consumer_of,
       s_business = Some \<lparr> ba_bearer = token, ba_bearerExp = exp,
         ba_refresh = text_member ''refresh_token'' j,
         ba_refreshExp = Option.bind (text_member ''refresh_expires_at'' j) (date_seconds w),
         ba_merchantId = or_else (decodeJwtClaim token ''merchant_id'') [],
         ba_environment = or_else (text_member ''environment'' j) ''SANDBOX'' \<rparr> \<rparr>"

definition business_answer :: "json \<Rightarrow> string \<Rightarrow> json option" where
  "business_answer j merchantId =
     Option.bind (put_member ''token'' (JStr token_sentinel) j) (\<lambda>j1.
       Option.bind (if jget ''refresh_token'' j1 \<noteq> None
                    then put_member ''refresh_token'' (JStr token_sentinel) j1 else Some j1)
         (put_member ''merchant_id'' (JStr merchantId)))"

definition business_sign_in :: "world \<Rightarrow> admitted \<Rightarrow> up_response \<Rightarrow> server \<Rightarrow> http_out \<times> server" where
  "business_sign_in w ad up s =
     (case Option.bind (json_parse (utf8_decode (ur_body up))) (\<lambda>j. map_option (Pair j) (text_member ''token'' j)) of
        None \<Rightarrow> (bad_auth_answer, s)
      | Some (j, token) \<Rightarrow>
          (case expiry_or w j 300 s of (exp, s1) \<Rightarrow>
             case draw_id w s1 of (newId, s2) \<Rightarrow>
             case draw_csrf w s2 of (csrf, s3) \<Rightarrow>
             case tick w s3 of (now, s4) \<Rightarrow>
               (let rec2 = business_record w j token exp csrf now (ad_rec ad)
                in sign_in_answer w up (business_answer j (ba_merchantId (the (s_business rec2)))) newId rec2
                     (install w (ad_loaded ad) newId rec2 s4))))"

text \<open>An expired Business access token is renewed and the request sent again, once.\<close>

definition renew ::
  "world \<Rightarrow> admitted \<Rightarrow> up_response \<Rightarrow> server \<Rightarrow> up_response \<times> session option \<times> server" where
  "renew w ad up s =
     (case ad_loaded ad of
        Some (ident, rec) \<Rightarrow>
          (if ad_authority ad = Business \<and> r_auth (ad_route ad) = AuthRequired \<and> ur_status up = 401 \<and>
              s_business rec \<noteq> None then
             (case refreshBusinessToken w rec s of (ok, rec1, s1) \<Rightarrow>
                (case save_session w ident rec1 s1 of s2 \<Rightarrow>
                   if ok then
                     (case up_fetch w (forward w ad (map_option ba_bearer (s_business rec1))) s2 of
                        (Up up2, s3) \<Rightarrow> (up2, Some rec1, s3)
                      | (Unreachable, s3) \<Rightarrow> (up, Some rec1, s3))
                   else (up, Some rec1, s2)))
           else (up, Some rec, s))
      | None \<Rightarrow> (up, None, s))"

definition ok_status :: "up_response \<Rightarrow> int" where
  "ok_status up = (if ur_ok up then 200 else ur_status up)"

definition drop_business :: "session \<Rightarrow> session" where
  "drop_business rec =
     (let r1 = rec\<lparr>s_business := None\<rparr>
      in if s_context r1 = Some ''business'' then r1\<lparr>s_context := Some ''personal''\<rparr> else r1)"

definition drop_consumer :: "session \<Rightarrow> session" where
  "drop_consumer rec =
     (let r1 = rec\<lparr>s_consumer := None, s_flat := None\<rparr>
      in if s_context r1 = Some ''personal'' then r1\<lparr>s_context := Some ''business''\<rparr> else r1)"

text \<open>The record without an authority is stored, or its session ends when nothing is left of it.\<close>

definition end_authority ::
  "world \<Rightarrow> string \<Rightarrow> session \<Rightarrow> server \<Rightarrow> bool \<times> server" where
  "end_authority w ident r1 s =
     (if \<not> hasAnyAuthority r1 then (True, st_del ident s) else (False, save_session w ident r1 s))"

definition business_logout ::
  "world \<Rightarrow> (string \<times> session) option \<Rightarrow> up_response \<Rightarrow> string \<Rightarrow> server \<Rightarrow> http_out \<times> server" where
  "business_logout w loaded up ct s =
     (case loaded of
        None \<Rightarrow> (raw_out (ok_status up) (ur_body up) ct [], s)
      | Some (ident, rec) \<Rightarrow>
          (case end_authority w ident (drop_business rec) s of
             (True, s1) \<Rightarrow> (raw_out 200 (ur_body up) ct (clearCookies w), s1)
           | (False, s1) \<Rightarrow> (raw_out (ok_status up) (ur_body up) ct [], s1)))"

definition consumer_logout ::
  "world \<Rightarrow> (string \<times> session) option \<Rightarrow> up_response \<Rightarrow> string \<Rightarrow> server \<Rightarrow> http_out \<times> server" where
  "consumer_logout w loaded up ct s =
     (case loaded of
        None \<Rightarrow> (raw_out (ok_status up) (ur_body up) ct (clearCookies w), s)
      | Some (ident, rec) \<Rightarrow>
          (case end_authority w ident (drop_consumer rec) s of
             (True, s1) \<Rightarrow> (raw_out (ok_status up) (ur_body up) ct (clearCookies w), s1)
           | (False, s1) \<Rightarrow> (raw_out (ok_status up) (ur_body up) ct [], s1)))"

definition slide :: "world \<Rightarrow> (string \<times> session) option \<Rightarrow> server \<Rightarrow> server" where
  "slide w loaded s =
     (case loaded of
        None \<Rightarrow> s
      | Some (ident, rec) \<Rightarrow>
          (if s_preauth rec then s
           else case remainingTtlMs w rec s of (ttl, s1) \<Rightarrow>
             (if ttl \<le> 0 then st_del ident s1
              else case tick w s1 of (now, s2) \<Rightarrow> st_set w ident (rec\<lparr>s_lastSeen := Some now\<rparr>) ttl s2)))"

definition bff_settle :: "world \<Rightarrow> admitted \<Rightarrow> up_result \<Rightarrow> server \<Rightarrow> http_out \<times> server" where
  "bff_settle w ad res s =
     (case res of
        Unreachable \<Rightarrow>
          (refusal 502 ''UPSTREAM_UNREACHABLE'' (''o servi'' @ [CHR 0xE7] @ ''o est'' @ [CHR 0xE1] @ '' indispon'' @ [CHR 0xED] @ ''vel; tente novamente'') [], s)
      | Up up0 \<Rightarrow>
          (case renew w ad up0 s of (up, rec, s1) \<Rightarrow>
             (let route = ad_route ad;
                  loaded = (case (ad_loaded ad, rec) of (Some (ident, _), Some r) \<Rightarrow> Some (ident, r) | _ \<Rightarrow> None);
                  ad1 = ad\<lparr>ad_loaded := loaded\<rparr>;
                  ct = or_else (ur_contentType up) ''application/json''
              in if r_stream route then
                   (raw_out (ur_status up) (ur_body up) (or_else (ur_contentType up) ''text/event-stream'') [], s1)
                 else if ad_authority ad = Consumer \<and> r_authIssue route \<and> ur_ok up then consumer_sign_in w ad1 up s1
                 else if r_business route = BusinessToken \<and> ur_ok up then business_sign_in w ad1 up s1
                 else if r_business route = BusinessLogout then business_logout w loaded up ct s1
                 else if r_authEnd route then consumer_logout w loaded up ct s1
                 else (raw_out (ur_status up) (ur_body up) ct [], slide w loaded s1))))"

text \<open>The handler, run without another in between; \<^const>\<open>None\<close> where the code throws.\<close>

definition handleBff :: "world \<Rightarrow> string \<Rightarrow> authority \<Rightarrow> http_in \<Rightarrow> server \<Rightarrow> http_out option \<times> server" where
  "handleBff w pre a req s =
     (case parseCookies (hq_cookie req) of
        None \<Rightarrow> (None, s)
      | Some cookies \<Rightarrow>
          (case bff_admit w pre a cookies req s of
             (Inl out, s1) \<Rightarrow> (Some out, s1)
           | (Inr ad, s1) \<Rightarrow>
               (case bff_send w ad s1 of (res, s2) \<Rightarrow>
                  (case bff_settle w ad res s2 of (out, s3) \<Rightarrow> (Some out, s3)))))"

section \<open>Session state, context and logout\<close>

definition str_or_null :: "string option \<Rightarrow> json" where
  "str_or_null x = JStr (or_else x [])"

definition session_state :: "session option \<Rightarrow> json" where
  "session_state rec =
     (let c = Option.bind rec consumer_of; b = Option.bind rec business_of;
          personal = Option.bind rec (bearer_of Consumer) \<noteq> None;
          business = Option.bind rec (bearer_of Business) \<noteq> None;
          context = Option.bind rec s_context
      in JObj [(''personal'', JBool personal), (''business'', JBool business),
           (''active_context'', JStr (if truthy_str context then the context else ''personal'')),
           (''consumer'', if personal then JObj [(''handle'', str_or_null (ca_handle (the c))),
              (''display_name'', str_or_null (ca_displayName (the c)))] else JNull),
           (''business_context'', if business then JObj [(''merchant_id'', JStr (ba_merchantId (the b))),
              (''environment'', JStr (if ba_environment (the b) = [] then ''SANDBOX'' else ba_environment (the b)))]
              else JNull)])"

definition handleSessionState :: "world \<Rightarrow> (string \<times> string) list \<Rightarrow> server \<Rightarrow> http_out \<times> server" where
  "handleSessionState w cookies s =
     (case loadSession w (cookie_session cookies) s of (loaded, s1) \<Rightarrow>
        (sendJson 200 (session_state (map_option snd loaded)) [], s1))"

text \<open>The body's \<open>context\<close>; \<^const>\<open>None\<close> when the body cannot be read or is not JSON. A body that is
  \<open>null\<close> makes the handler throw.\<close>

definition context_body :: "http_in \<Rightarrow> json option" where
  "context_body req = Option.bind (readBody req) (\<lambda>b. json_parse (if utf8_decode b = [] then ''{}'' else utf8_decode b))"

definition handleSetContext ::
  "world \<Rightarrow> (string \<times> string) list \<Rightarrow> http_in \<Rightarrow> server \<Rightarrow> http_out option \<times> server" where
  "handleSetContext w cookies req s =
     (case loadSession w (cookie_session cookies) s of
        (None, s1) \<Rightarrow> (Some (refusal 401 ''UNAUTHENTICATED'' ''no session'' []), s1)
      | (Some (ident, rec), s1) \<Rightarrow>
          (if s_preauth rec then (Some (refusal 401 ''UNAUTHENTICATED'' ''no session'' []), s1)
           else if \<not> csrf_ok req (Some rec) then (Some (refusal 403 ''CSRF_FAILED'' ''invalid csrf token'' []), s1)
           else (case context_body req of
               None \<Rightarrow> (Some (refusal 400 ''BAD_REQUEST'' ''invalid body'' []), s1)
             | Some body \<Rightarrow>
                 (if body = JNull then (None, s1)
                  else (let want = (if str_member ''context'' body = Some ''business'' then ''business'' else ''personal'')
                    in if want = ''business'' \<and> bearer_of Business rec = None
                       then (Some (refusal 409 ''NO_BUSINESS_AUTHORITY'' ''not signed in to Business'' []), s1)
                       else (case handleSessionState w cookies
                           (save_session w ident (rec\<lparr>s_context := Some want\<rparr>) s1) of
                           (out, s2) \<Rightarrow> (Some out, s2)))))))"

definition revoke_requests :: "world \<Rightarrow> session \<Rightarrow> up_request list" where
  "revoke_requests w rec =
     (case Option.bind (business_of rec) ba_refresh of
        Some t \<Rightarrow> if t = [] then [] else
          [\<lparr> uq_to = Business, uq_method = ''POST'', uq_url = api_base w Business @ ''/v1/merchant/auth/logout'',
             uq_headers = [(''Content-Type'', ''application/json'')],
             uq_body = Some (stringify (JObj [(''refresh_token'', JStr t)])) \<rparr>]
      | None \<Rightarrow> []) @
     (case bearer_of Consumer rec of
        Some b \<Rightarrow>
          [\<lparr> uq_to = Consumer, uq_method = ''POST'', uq_url = api_base w Consumer @ ''/v1/auth/logout'',
             uq_headers = [(''Authorization'', ''Bearer '' @ b)], uq_body = None \<rparr>]
      | None \<Rightarrow> [])"

text \<open>The revocations upstream are best effort: their answers are not looked at.\<close>

definition handleLogoutAll ::
  "world \<Rightarrow> (string \<times> string) list \<Rightarrow> http_in \<Rightarrow> server \<Rightarrow> http_out \<times> server" where
  "handleLogoutAll w cookies req s =
     (case loadSession w (cookie_session cookies) s of (loaded, s1) \<Rightarrow>
        (case loaded of
           Some (ident, rec) \<Rightarrow>
             (if \<not> s_preauth rec \<and> \<not> csrf_ok req (Some rec)
              then (refusal 403 ''CSRF_FAILED'' ''invalid csrf token'' [], s1)
              else (raw_out 200 (stringify (JObj [(''status'', JStr ''ok'')])) json_ct (clearCookies w),
                st_del ident (if s_preauth rec then s1
                  else foldl (\<lambda>s q. snd (up_fetch w q s)) s1 (revoke_requests w rec))))
         | None \<Rightarrow> (raw_out 200 (stringify (JObj [(''status'', JStr ''ok'')])) json_ct (clearCookies w), s1)))"

section \<open>Static files and the router\<close>

text \<open>\<open>path.normalize\<close> of an absolute path: its segments, \<open>.\<close> and \<open>..\<close> resolved.\<close>

fun norm_segs :: "string list \<Rightarrow> string list \<Rightarrow> string list" where
  "norm_segs out [] = rev out"
| "norm_segs out (x # xs) =
     (if x = [] \<or> x = ''.'' then norm_segs out xs
      else if x = ''..'' then norm_segs (tl out) xs
      else norm_segs (x # out) xs)"

definition abs_path :: "string list \<Rightarrow> bool \<Rightarrow> string" where
  "abs_path segs slash = (if segs = [] then ''/'' else concat (map (\<lambda>x. CHR ''/'' # x) segs) @ (if slash then ''/'' else []))"

definition path_join :: "string \<Rightarrow> string \<Rightarrow> string" where
  "path_join root rel =
     (let p = root @ ''/'' @ rel in abs_path (norm_segs [] (split_on (CHR ''/'') p)) (p \<noteq> [] \<and> last p = CHR ''/''))"

datatype join_result = Throws | Outside | Inside string

definition safeJoin :: "string \<Rightarrow> string \<Rightarrow> join_result" where
  "safeJoin root urlPath =
     (case decodeURIComponent (before_query urlPath) of
        None \<Rightarrow> Throws
      | Some decoded \<Rightarrow>
          (let full = path_join root (if decoded = ''/'' then ''/index.html'' else decoded)
           in if full \<noteq> root \<and> \<not> startsWith full (root @ ''/'') then Outside else Inside full))"

text \<open>A visitor of the shell without a live session is given a pre-auth one.\<close>

definition seed_session :: "world \<Rightarrow> (string \<times> string) list \<Rightarrow> server \<Rightarrow> string list \<times> server" where
  "seed_session w cookies s =
     (case loadSession w (cookie_session cookies) s of
        (Some _, s1) \<Rightarrow> ([], s1)
      | (None, s1) \<Rightarrow> mint_preauth w s1)"

datatype destination =
    Health | Gateway string authority | BusinessShell | SessionState | SetContext | LogoutAll
  | MethodNotAllowed | Static

definition dispatch :: "http_in \<Rightarrow> destination" where
  "dispatch req =
     (let url = (if hq_url req = [] then ''/'' else hq_url req);
          readonly = hq_method req = ''GET'' \<or> hq_method req = ''HEAD''
      in if url = ''/healthz'' \<or> url = ''/healthz/'' then Health
         else if url = ''/consumer'' \<or> startsWith url ''/consumer/'' then Gateway ''/consumer'' Consumer
         else if url = ''/business'' \<and> readonly then BusinessShell
         else if startsWith url ''/business/api/'' then Gateway ''/business/api'' Business
         else if url = ''/session/state'' then SessionState
         else if url = ''/session/context'' \<and> hq_method req = ''POST'' then SetContext
         else if url = ''/session/logout-all'' \<and> hq_method req = ''POST'' then LogoutAll
         else if \<not> readonly then MethodNotAllowed
         else Static)"

definition internal_error :: http_out where
  "internal_error = refusal 500 ''INTERNAL'' ''internal error'' []"

definition answered :: "http_out option \<times> server \<Rightarrow> http_out \<times> server" where
  "answered r = (case r of (Some out, s) \<Rightarrow> (out, s) | (None, s) \<Rightarrow> (internal_error, s))"

definition with_cookies ::
  "http_in \<Rightarrow> ((string \<times> string) list \<Rightarrow> http_out option \<times> server) \<Rightarrow> server \<Rightarrow> http_out option \<times> server" where
  "with_cookies req h s = (case parseCookies (hq_cookie req) of None \<Rightarrow> (None, s) | Some cookies \<Rightarrow> h cookies)"

text \<open>The router on requests that reach a session; \<^const>\<open>None\<close> for the health check and the static files.\<close>

definition serve :: "world \<Rightarrow> http_in \<Rightarrow> server \<Rightarrow> (http_out \<times> server) option" where
  "serve w req s =
     (case dispatch req of
        Gateway pre a \<Rightarrow> Some (answered (handleBff w pre a req s))
      | SessionState \<Rightarrow> Some (answered (with_cookies req (\<lambda>cs. map_prod Some (\<lambda>s. s) (handleSessionState w cs s)) s))
      | SetContext \<Rightarrow> Some (answered (with_cookies req (\<lambda>cs. handleSetContext w cs req s) s))
      | LogoutAll \<Rightarrow> Some (answered (with_cookies req (\<lambda>cs. map_prod Some (\<lambda>s. s) (handleLogoutAll w cs req s)) s))
      | MethodNotAllowed \<Rightarrow> Some (\<lparr> ho_status = 405, ho_contentType = None, ho_cookies = [], ho_body = ''method not allowed'' \<rparr>, s)
      | _ \<Rightarrow> None)"

end
