(* ===== verification/AppSecurity.thy ===== *)
theory AppSecurity
  imports AppServer UrlPath
begin

text \<open>
  What App Banzami Web's server keeps: lemmas on each handler (what it sends, what it stores), the
  step relation of handlers that interleave where they wait for the upstream, and the properties of
  the session boundary.
\<close>

section \<open>Frames\<close>

lemmas readings = tick_def draw_id_def draw_csrf_def limit_hit_def remainingTtlMs_def

lemma store_sent [simp]: "sv_sent (st_set w i r t s) = sv_sent s" "sv_sent (st_del i s) = sv_sent s"
  "sv_sent (save_session w i r s) = sv_sent s"
  by (simp_all add: st_set_def st_del_def save_session_def readings)

text \<open>Loading a session, with the clock read out.\<close>

lemma loadSession_unfold:
  "loadSession w c s =
     (if \<not> truthy_str c then (None, s)
      else case sv_store s (the c) of
          None \<Rightarrow> (None, s\<lparr>sv_ticks := sv_ticks s + 1\<rparr>)
        | Some (rec, e) \<Rightarrow>
            (if e \<le> wd_now w (sv_ticks s)
             then (None, s\<lparr>sv_ticks := sv_ticks s + 1, sv_store := (sv_store s)(the c := None)\<rparr>)
             else case load_verdict_of (wd_now w (sv_ticks s + 1)) rec of
                 Dropped \<Rightarrow> (None, st_del (the c) (s\<lparr>sv_ticks := sv_ticks s + 2\<rparr>))
               | Kept \<Rightarrow> (Some (the c, rec), s\<lparr>sv_ticks := sv_ticks s + 2\<rparr>)
               | Pruned r1 \<Rightarrow> (Some (the c, r1), save_session w (the c) r1 (s\<lparr>sv_ticks := sv_ticks s + 2\<rparr>))))"
  by (simp add: loadSession_def st_get_def tick_def ttl_get_def Let_def
      split: option.split load_verdict.split)

lemma load_sent [simp]: "sv_sent (snd (loadSession w c s)) = sv_sent s"
  by (simp add: loadSession_unfold split: option.split load_verdict.split prod.split)

lemma load_sentD: "loadSession w c s = (r, s1) \<Longrightarrow> sv_sent s1 = sv_sent s"
  using load_sent [of w c s] by simp

lemma mint_sent [simp]: "sv_sent (snd (mint_preauth w s)) = sv_sent s"
  by (simp add: mint_preauth_def readings)

lemma over_limit_frame [simp]: "sv_sent (snd (over_limit w a r req s)) = sv_sent s"
  "sv_store (snd (over_limit w a r req s)) = sv_store s" "sv_ticks (snd (over_limit w a r req s)) = sv_ticks s"
  by (simp_all add: over_limit_def limit_hit_def)

lemma checks_sent [simp]: "sv_sent (snd (bff_checks w a path route req loaded s)) = sv_sent s"
  unfolding bff_checks_def Let_def split_beta by (simp split: option.split)

lemma admit_sent: "sv_sent (snd (bff_admit w pre a cookies req s)) = sv_sent s"
  unfolding bff_admit_def split_beta by (simp split: option.split)

section \<open>What a session check lets through\<close>

lemma prune_kept [simp]: "s_createdAt (prune now rec) = s_createdAt rec" "s_preauth (prune now rec) = s_preauth rec"
  "s_csrf (prune now rec) = s_csrf rec" "s_flat (prune now rec) = s_flat rec"
  by (auto simp: prune_def Let_def split: option.splits)

lemma load_verdict_young:
  "load_verdict_of now rec \<noteq> Dropped \<Longrightarrow> s_createdAt rec = 0 \<or> now - s_createdAt rec \<le> absolute_ms"
  by (auto simp: load_verdict_of_def split: if_splits)

lemma load_verdict_Pruned: "load_verdict_of now rec = Pruned r1 \<Longrightarrow> r1 = prune now rec"
  by (auto simp: load_verdict_of_def Let_def split: if_splits option.splits)

lemma load_some:
  assumes "loadSession w c s = (Some (ident, rec), s1)"
  shows "c = Some ident \<and> ident \<noteq> [] \<and>
    (\<exists>rec0 e. sv_store s ident = Some (rec0, e) \<and> rec \<in> {rec0, prune (wd_now w (sv_ticks s + 1)) rec0} \<and>
       wd_now w (sv_ticks s) < e \<and>
       (s_createdAt rec = 0 \<or> wd_now w (sv_ticks s + 1) - s_createdAt rec \<le> absolute_ms))"
proof -
  obtain i where c: "c = Some i" "i \<noteq> []" using assms by (auto simp: loadSession_unfold truthy_str_def split: if_splits)
  obtain r0 e where g: "sv_store s i = Some (r0, e)" "wd_now w (sv_ticks s) < e"
    using assms c by (auto simp: loadSession_unfold truthy_str_def split: if_splits option.splits)
  let ?v = "load_verdict_of (wd_now w (sv_ticks s + 1)) r0"
  have "ident = i" "?v = Kept \<and> rec = r0 \<or> ?v = Pruned rec"
    using assms c g by (auto simp: loadSession_unfold truthy_str_def split: load_verdict.splits)
  then show ?thesis
    using c g load_verdict_young [of "wd_now w (sv_ticks s + 1)" r0] load_verdict_Pruned by fastforce
qed

lemma matchRoute_Some:
  "matchRoute m p a = Some r \<Longrightarrow> r \<in> set (lists a) \<and> r_m r = m \<and> path_matches (r_re r) (before_query p)"
  unfolding matchRoute_def by (auto simp: find_Some_iff)

text \<open>Every route that is not a read is guarded by the nonce, and no route answers \<open>HEAD\<close>.\<close>

lemma writes_guarded: "r \<in> set (lists a) \<Longrightarrow> r_m r \<noteq> ''GET'' \<Longrightarrow> r_csrf r \<and> r_m r \<noteq> ''HEAD''"
proof -
  have "list_all (\<lambda>r. r_m r = ''GET'' \<or> r_csrf r \<and> r_m r \<noteq> ''HEAD'') (lists a)"
    by (cases a) (simp_all add: lists_def allowlist_def business_allowlist_def read_route_def open_route_def
        write_route_def preauth_route_def entry_def)
  then show "r \<in> set (lists a) \<Longrightarrow> r_m r \<noteq> ''GET'' \<Longrightarrow> r_csrf r \<and> r_m r \<noteq> ''HEAD''"
    by (auto simp: list_all_iff)
qed

lemma checks_Inr:
  assumes "bff_checks w a path route req loaded s = (Inr ad, s1)"
  shows "s1 = s \<and> ad_authority ad = a \<and> ad_route ad = route \<and> ad_path ad = path \<and> ad_in ad = req \<and>
    ad_loaded ad = loaded \<and> \<not> needs_sign_in route a (map_option snd loaded) \<and>
    (r_csrf route \<longrightarrow> csrf_ok req (map_option snd loaded)) \<and> (r_authIssue route \<longrightarrow> loaded \<noteq> None)"
  using assms unfolding bff_checks_def Let_def split_beta
  by (auto split: if_splits option.splits)

lemma admit_Inr:
  assumes "bff_admit w pre a cookies req s = (Inr ad, s1)"
  shows "\<exists>route s0. matchRoute (hq_method req) (ad_path ad) a = Some route \<and> sv_store s0 = sv_store s \<and>
    sv_ticks s0 = sv_ticks s \<and> sv_sent s0 = sv_sent s \<and>
    loadSession w (cookie_session cookies) s0 = (ad_loaded ad, s1) \<and>
    bff_checks w a (ad_path ad) route req (ad_loaded ad) s1 = (Inr ad, s1)"
proof -
  obtain route where r: "matchRoute (hq_method req) (upstream_path pre req) a = Some route"
    using assms by (auto simp: bff_admit_def split: option.splits)
  let ?s0 = "snd (over_limit w a route req s)"
  obtain l s2 where l: "loadSession w (cookie_session cookies) ?s0 = (l, s2)" by fastforce
  have c: "bff_checks w a (upstream_path pre req) route req l s2 = (Inr ad, s1)"
    using assms r l by (auto simp: bff_admit_def split_beta split: if_splits)
  then show ?thesis using checks_Inr [OF c] r l by (intro exI [of _ route] exI [of _ ?s0]) simp
qed

section \<open>Isolation of the authorities\<close>

definition consumer_ok :: "(string \<Rightarrow> bool) \<Rightarrow> consumer_auth option \<Rightarrow> bool" where
  "consumer_ok CB x \<longleftrightarrow> (case Option.bind x ca_bearer of Some b \<Rightarrow> CB b | None \<Rightarrow> True)"

definition rec_ok :: "(string \<Rightarrow> bool) \<Rightarrow> (string \<Rightarrow> bool) \<Rightarrow> session \<Rightarrow> bool" where
  "rec_ok CB BB r \<longleftrightarrow> consumer_ok CB (s_consumer r) \<and> consumer_ok CB (s_flat r) \<and>
     (case s_business r of Some m \<Rightarrow> BB (ba_bearer m) | None \<Rightarrow> True)"

definition right_bearer :: "(string \<Rightarrow> bool) \<Rightarrow> (string \<Rightarrow> bool) \<Rightarrow> authority \<Rightarrow> string \<Rightarrow> bool" where
  "right_bearer CB BB a = (case a of Consumer \<Rightarrow> CB | Business \<Rightarrow> BB)"

definition sent_ok :: "(string \<Rightarrow> bool) \<Rightarrow> (string \<Rightarrow> bool) \<Rightarrow> up_request \<Rightarrow> bool" where
  "sent_ok CB BB q \<longleftrightarrow> (\<forall>b. (''Authorization'', ''Bearer '' @ b) \<in> set (uq_headers q) \<longrightarrow> right_bearer CB BB (uq_to q) b)"

definition answer_ok :: "(string \<Rightarrow> bool) \<Rightarrow> (string \<Rightarrow> bool) \<Rightarrow> authority \<Rightarrow> up_response \<Rightarrow> bool" where
  "answer_ok CB BB a r \<longleftrightarrow> (\<forall>j t. json_parse (utf8_decode (ur_body r)) = Some j \<longrightarrow>
     str_member ''token'' j = Some t \<longrightarrow> right_bearer CB BB a t)"

text \<open>The Consumer API issues tokens of one kind, the Business API of another.\<close>

definition issues :: "(string \<Rightarrow> bool) \<Rightarrow> (string \<Rightarrow> bool) \<Rightarrow> world \<Rightarrow> bool" where
  "issues CB BB w \<longleftrightarrow> (\<forall>n q r. wd_upstream w n q = Up r \<longrightarrow> answer_ok CB BB (uq_to q) r)"

definition sound :: "(string \<Rightarrow> bool) \<Rightarrow> (string \<Rightarrow> bool) \<Rightarrow> server \<Rightarrow> bool" where
  "sound CB BB s \<longleftrightarrow> (\<forall>i x. sv_store s i = Some x \<longrightarrow> rec_ok CB BB (fst x)) \<and> (\<forall>q \<in> set (sv_sent s). sent_ok CB BB q)"

lemma rec_ok_updates [simp]:
  "rec_ok CB BB (r\<lparr>s_lastSeen := t\<rparr>) = rec_ok CB BB r" "rec_ok CB BB (r\<lparr>s_context := c\<rparr>) = rec_ok CB BB r"
  "rec_ok CB BB r \<Longrightarrow> rec_ok CB BB (r\<lparr>s_business := None\<rparr>)"
  "rec_ok CB BB r \<Longrightarrow> rec_ok CB BB (r\<lparr>s_consumer := None\<rparr>)"
  "rec_ok CB BB r \<Longrightarrow> rec_ok CB BB (r\<lparr>s_consumer := None, s_flat := None\<rparr>)"
  by (simp_all add: rec_ok_def consumer_ok_def)

lemma rec_ok_prune [simp]: "rec_ok CB BB r \<Longrightarrow> rec_ok CB BB (prune now r)"
  by (auto simp: prune_def Let_def split: option.splits)

lemma rec_ok_preauth [simp]: "rec_ok CB BB (preauth_record csrf now)"
  by (simp add: rec_ok_def consumer_ok_def preauth_record_def)

lemma rec_ok_drops [simp]: "rec_ok CB BB r \<Longrightarrow> rec_ok CB BB (drop_business r)"
  "rec_ok CB BB r \<Longrightarrow> rec_ok CB BB (drop_consumer r)"
  by (simp_all add: drop_business_def drop_consumer_def Let_def)

lemma bearer_right: "rec_ok CB BB r \<Longrightarrow> bearer_of a r = Some b \<Longrightarrow> right_bearer CB BB a b"
  by (auto simp: bearer_of_def Let_def consumer_of_def business_of_def rec_ok_def consumer_ok_def right_bearer_def
      split: authority.splits option.splits if_splits)

lemma sound_frame [simp]:
  "sound CB BB (s\<lparr>sv_ticks := n\<rparr>) = sound CB BB s" "sound CB BB (s\<lparr>sv_draws := n\<rparr>) = sound CB BB s"
  "sound CB BB (s\<lparr>sv_hits := n\<rparr>) = sound CB BB s"
  by (simp_all add: sound_def)

lemma sound_store [simp]:
  "sound CB BB s \<Longrightarrow> sound CB BB (st_del i s)"
  "sound CB BB s \<Longrightarrow> sound CB BB (s\<lparr>sv_ticks := n, sv_store := (sv_store s)(i := None)\<rparr>)"
  "sound CB BB s \<Longrightarrow> rec_ok CB BB r \<Longrightarrow> sound CB BB (st_set w i r t s)"
  "sound CB BB s \<Longrightarrow> rec_ok CB BB r \<Longrightarrow> sound CB BB (save_session w i r s)"
  by (auto simp: sound_def st_del_def st_set_def save_session_def readings ttl_del_def ttl_set_def)

lemma sound_fetch:
  assumes "sound CB BB s" "sent_ok CB BB q" "up_fetch w q s = (res, s1)" shows "sound CB BB s1"
proof -
  have "sv_store s1 = sv_store s" "sv_sent s1 = sv_sent s @ [q]" using assms(3) by (auto simp: up_fetch_def)
  then show ?thesis using assms(1,2) unfolding sound_def by simp
qed

lemma sound_load:
  assumes "sound CB BB s" "loadSession w c s = (l, s1)"
  shows "sound CB BB s1 \<and> (case l of Some (i, r) \<Rightarrow> rec_ok CB BB r | None \<Rightarrow> True)"
proof -
  have "rec_ok CB BB r" if "sv_store s i = Some (r, e)" for i r e
    using assms(1) that unfolding sound_def by fastforce
  then show ?thesis
    using assms by (auto simp: loadSession_unfold dest!: load_verdict_Pruned
        split: if_splits option.splits prod.splits load_verdict.splits)
qed

lemma sound_mint: "sound CB BB s \<Longrightarrow> sound CB BB (snd (mint_preauth w s))"
  by (simp add: mint_preauth_def readings)

lemma sound_admit:
  assumes "sound CB BB s" shows "sound CB BB (snd (bff_admit w pre a cookies req s))"
proof -
  have l: "sound CB BB (snd (over_limit w a route req s))" for route
    using assms by (simp add: over_limit_def limit_hit_def)
  have "sound CB BB (snd (bff_checks w a p route req (fst (loadSession w c s0)) (snd (loadSession w c s0))))"
    if "sound CB BB s0" for p route c s0
    using sound_load [OF that, of w c "fst (loadSession w c s0)" "snd (loadSession w c s0)"]
      sound_mint [of CB BB "snd (loadSession w c s0)" w]
    unfolding bff_checks_def Let_def split_beta by (simp split: option.split)
  with assms l show ?thesis unfolding bff_admit_def split_beta by (simp split: option.split)
qed

lemma sent_ok_forward:
  assumes "\<And>b. bearer = Some b \<Longrightarrow> b \<noteq> [] \<Longrightarrow> right_bearer CB BB (ad_authority ad) b"
  shows "sent_ok CB BB (forward w ad bearer)"
  using assms by (auto simp: sent_ok_def forward_def Let_def split: option.splits if_splits)

lemma sent_ok_plain [simp]:
  "sent_ok CB BB (refresh_request w t)"
  by (simp add: sent_ok_def refresh_request_def json_headers_def)

lemma fetch_answer:
  "issues CB BB w \<Longrightarrow> up_fetch w q s = (Up r, s1) \<Longrightarrow> answer_ok CB BB (uq_to q) r"
  by (auto simp: issues_def up_fetch_def)

lemma forward_to [simp]: "uq_to (forward w ad b) = ad_authority ad"
  by (simp add: forward_def Let_def)

lemma answer_token:
  "answer_ok CB BB a r \<Longrightarrow>
   Option.bind (json_parse (utf8_decode (ur_body r))) (\<lambda>j. map_option (Pair j) (text_member ''token'' j)) = Some (j, t) \<Longrightarrow>
   right_bearer CB BB a t"
  by (auto simp: answer_ok_def text_member_def Let_def bind_eq_Some_conv split: if_splits)

lemma sound_expiry: "sound CB BB s \<Longrightarrow> sound CB BB (snd (expiry_or w j n s))"
  by (simp add: expiry_or_def readings split: option.split)

lemma sound_refresh:
  assumes "sound CB BB s" "rec_ok CB BB rec" "issues CB BB w" "refreshBusinessToken w rec s = (ok, rec1, s1)"
  shows "sound CB BB s1 \<and> rec_ok CB BB rec1"
proof (cases "s_business rec")
  case None
  then show ?thesis using assms by (simp add: refreshBusinessToken_def)
next
  case (Some b)
  obtain res s0 where f: "up_fetch w (refresh_request w (the (ba_refresh b))) s = (res, s0)" by fastforce
  have s0: "sound CB BB s0" by (rule sound_fetch [OF assms(1) sent_ok_plain f])
  show ?thesis
  proof (cases "truthy_str (ba_refresh b)")
    case False
    then show ?thesis using assms Some by (simp add: refreshBusinessToken_def)
  next
    case True
    show ?thesis
    proof (cases res)
      case Unreachable
      then show ?thesis using assms Some True f s0 by (simp add: refreshBusinessToken_def)
    next
      case (Up r)
      let ?x = "Option.bind (json_parse (utf8_decode (ur_body r))) (\<lambda>j. map_option (Pair j) (text_member ''token'' j))"
      have a: "answer_ok CB BB Business r"
        using fetch_answer [OF assms(3)] f Up by (fastforce simp: refresh_request_def)
      show ?thesis
      proof (cases "ur_ok r")
        case False
        then show ?thesis using assms Some True f s0 Up by (auto simp: refreshBusinessToken_def)
      next
        case ok: True
        show ?thesis
        proof (cases ?x)
          case None
          then show ?thesis using assms Some True f s0 Up ok by (auto simp: refreshBusinessToken_def)
        next
          case (Some y)
          obtain j t where y: "y = (j, t)" by fastforce
          have "BB t" using answer_token [OF a] Some y by (simp add: right_bearer_def)
          then show ?thesis
            using assms \<open>s_business rec = Some b\<close> True f s0 Up ok Some y sound_expiry [OF s0, of w j 300]
            by (auto simp: refreshBusinessToken_def split_beta) (simp_all add: rec_ok_def consumer_ok_def)
        qed
      qed
    qed
  qed
qed

lemma sound_renew:
  assumes "sound CB BB s" "issues CB BB w" "answer_ok CB BB (ad_authority ad) up"
    "\<And>rec. ad_rec ad = Some rec \<Longrightarrow> rec_ok CB BB rec" "renew w ad up s = (up1, rec1, s1)"
  shows "sound CB BB s1 \<and> answer_ok CB BB (ad_authority ad) up1 \<and> (\<forall>r. rec1 = Some r \<longrightarrow> rec_ok CB BB r)"
proof (cases "ad_loaded ad")
  case None
  then show ?thesis using assms by (simp add: renew_def)
next
  case (Some l)
  obtain ident rec where l: "l = (ident, rec)" by fastforce
  have r: "rec_ok CB BB rec" using assms(4) Some l by (simp add: ad_rec_def)
  obtain ok rec2 s2 where f: "refreshBusinessToken w rec s = (ok, rec2, s2)" by (metis prod_cases3)
  have f2: "sound CB BB s2" "rec_ok CB BB rec2" using sound_refresh [OF assms(1) r assms(2) f] by simp_all
  let ?s3 = "save_session w ident rec2 s2"
  have s3: "sound CB BB ?s3" using f2 by simp
  let ?go = "ad_authority ad = Business \<and> r_auth (ad_route ad) = AuthRequired \<and> ur_status up = 401 \<and> s_business rec \<noteq> None"
  let ?q = "forward w ad (map_option ba_bearer (s_business rec2))"
  obtain res s4 where g: "up_fetch w ?q ?s3 = (res, s4)" by fastforce
  show ?thesis
  proof (cases "?go \<and> ok")
    case True
    have "sent_ok CB BB ?q"
      using f2(2) True by (intro sent_ok_forward) (auto simp: rec_ok_def right_bearer_def split: option.splits)
    then have s4: "sound CB BB s4" using sound_fetch [OF s3 _ g] by simp
    show ?thesis
      using True Some l f f2 g s4 assms(3,5) fetch_answer [OF assms(2), of ?q ?s3]
      by (cases res) (auto simp: renew_def)
  next
    case False
    then show ?thesis using Some l f f2 s3 assms r by (auto simp: renew_def split: if_splits)
  qed
qed

lemma sound_slide: "sound CB BB s \<Longrightarrow> (\<And>i r. l = Some (i, r) \<Longrightarrow> rec_ok CB BB r) \<Longrightarrow> sound CB BB (slide w l s)"
  by (auto simp: slide_def readings split: option.split)

lemma sound_end_authority:
  "sound CB BB s \<Longrightarrow> rec_ok CB BB r \<Longrightarrow> sound CB BB (snd (end_authority w i r s))"
  by (simp add: end_authority_def)

lemma sound_logouts:
  assumes "sound CB BB s" "\<And>i r. l = Some (i, r) \<Longrightarrow> rec_ok CB BB r"
  shows "sound CB BB (snd (business_logout w l up ct s))" "sound CB BB (snd (consumer_logout w l up ct s))"
proof -
  have "sound CB BB (snd (end_authority w i (drop_business r) s))" "sound CB BB (snd (end_authority w i (drop_consumer r) s))"
    if "l = Some (i, r)" for i r
    by (rule sound_end_authority [OF assms(1)]; simp add: assms(2) [OF that])+
  then show "sound CB BB (snd (business_logout w l up ct s))" "sound CB BB (snd (consumer_logout w l up ct s))"
    using assms(1) by (simp_all add: business_logout_def consumer_logout_def split_beta split: option.split bool.split)
qed

lemma sound_install: "sound CB BB s \<Longrightarrow> rec_ok CB BB r \<Longrightarrow> sound CB BB (install w l i r s)"
  by (auto simp: install_def split: option.split)

lemma sound_answer: "sound CB BB s \<Longrightarrow> sound CB BB (snd (sign_in_answer w up body i r s))"
  by (simp add: sign_in_answer_def readings split: option.split)

lemma rec_ok_parts: "rec_ok CB BB p \<Longrightarrow> consumer_ok CB (consumer_of p)"
  "rec_ok CB BB p \<Longrightarrow> business_of p = Some m \<Longrightarrow> BB (ba_bearer m)"
  by (auto simp: rec_ok_def consumer_of_def business_of_def consumer_ok_def split: option.splits)

lemma sound_consumer_sign_in:
  assumes "sound CB BB s" "answer_ok CB BB Consumer up" "\<And>r. ad_rec ad = Some r \<Longrightarrow> rec_ok CB BB r"
  shows "sound CB BB (snd (consumer_sign_in w ad up s))"
proof (cases "json_parse (utf8_decode (ur_body up))")
  case None
  then show ?thesis using assms(1) by (simp add: consumer_sign_in_def)
next
  case (Some j)
  have "rec_ok CB BB (consumer_record j exp csrf now (ad_rec ad))" for exp csrf now
  proof -
    have "CB t" if "str_member ''token'' j = Some t" for t
      using assms(2) Some that by (simp add: answer_ok_def right_bearer_def)
    moreover have "BB (ba_bearer m)" if "Option.bind (ad_rec ad) business_of = Some m" for m
      using that assms(3) rec_ok_parts(2) by (auto simp: bind_eq_Some_conv)
    ultimately show ?thesis
      by (simp add: consumer_record_def rec_ok_def consumer_ok_def Let_def split: option.split)
  qed
  then show ?thesis
    using assms(1) Some sound_expiry [OF assms(1), of w j "absolute_ms div 1000"]
    by (simp add: consumer_sign_in_def split_beta Let_def draw_id_def draw_csrf_def tick_def sound_answer sound_install)
qed

lemma sound_business_sign_in:
  assumes "sound CB BB s" "answer_ok CB BB Business up" "\<And>r. ad_rec ad = Some r \<Longrightarrow> rec_ok CB BB r"
  shows "sound CB BB (snd (business_sign_in w ad up s))"
proof (cases "Option.bind (json_parse (utf8_decode (ur_body up))) (\<lambda>j. map_option (Pair j) (text_member ''token'' j))")
  case None
  then show ?thesis using assms(1) by (simp add: business_sign_in_def)
next
  case (Some x)
  obtain j t where x: "x = (j, t)" by fastforce
  have "rec_ok CB BB (business_record w j t exp csrf now (ad_rec ad))" for exp csrf now
  proof -
    have "BB t" using answer_token [OF assms(2)] Some x by (simp add: right_bearer_def)
    moreover have "consumer_ok CB (Option.bind (ad_rec ad) consumer_of)"
      using assms(3) rec_ok_parts(1) by (cases "ad_rec ad") (auto simp: consumer_ok_def)
    ultimately show ?thesis by (simp add: business_record_def rec_ok_def) (simp add: consumer_ok_def)
  qed
  then show ?thesis
    using assms(1) Some x sound_expiry [OF assms(1), of w j 300]
    by (simp add: business_sign_in_def split_beta Let_def draw_id_def draw_csrf_def tick_def sound_answer sound_install)
qed

text \<open>The routes that sign in are on the list of their authority.\<close>

lemma token_route: "r \<in> set (lists a) \<Longrightarrow> r_business r = BusinessToken \<Longrightarrow> a = Business"
proof -
  have "list_all (\<lambda>r. r_business r \<noteq> BusinessToken) allowlist"
    by (simp add: allowlist_def read_route_def open_route_def write_route_def preauth_route_def entry_def)
  then show "r \<in> set (lists a) \<Longrightarrow> r_business r = BusinessToken \<Longrightarrow> a = Business"
    by (cases a) (auto simp: lists_def list_all_iff)
qed

text \<open>What an in-flight request carries: its session, a route of its authority, an answer of its API.\<close>

definition flight_ok :: "(string \<Rightarrow> bool) \<Rightarrow> (string \<Rightarrow> bool) \<Rightarrow> admitted \<times> up_result \<Rightarrow> bool" where
  "flight_ok CB BB f \<longleftrightarrow> (\<forall>r. ad_rec (fst f) = Some r \<longrightarrow> rec_ok CB BB r) \<and>
     ad_route (fst f) \<in> set (lists (ad_authority (fst f))) \<and>
     (case snd f of Up r \<Rightarrow> answer_ok CB BB (ad_authority (fst f)) r | Unreachable \<Rightarrow> True)"

lemma sound_settle:
  assumes "sound CB BB s" "issues CB BB w" "flight_ok CB BB (ad, res)"
  shows "sound CB BB (snd (bff_settle w ad res s))"
proof (cases res)
  case Unreachable
  then show ?thesis using assms(1) by (simp add: bff_settle_def)
next
  case (Up up0)
  obtain up rec s1 where r: "renew w ad up0 s = (up, rec, s1)" by (metis prod_cases3)
  have f: "\<And>rec. ad_rec ad = Some rec \<Longrightarrow> rec_ok CB BB rec" "answer_ok CB BB (ad_authority ad) up0"
    "ad_route ad \<in> set (lists (ad_authority ad))" using assms(3) Up by (simp_all add: flight_ok_def)
  have g: "sound CB BB s1" "answer_ok CB BB (ad_authority ad) up" "\<And>r. rec = Some r \<Longrightarrow> rec_ok CB BB r"
    using sound_renew [OF assms(1,2) f(2,1) r] by simp_all
  let ?l = "case (ad_loaded ad, rec) of (Some (ident, _), Some r) \<Rightarrow> Some (ident, r) | _ \<Rightarrow> None"
  have l: "rec_ok CB BB r" if "?l = Some (i, r)" for i r using that g(3) by (auto split: option.splits)
  have a: "rec_ok CB BB r" if "ad_rec (ad\<lparr>ad_loaded := ?l\<rparr>) = Some r" for r
    using that l by (auto simp: ad_rec_def)
  note sl = sound_slide [OF g(1) l] and lo = sound_logouts [OF g(1) l]
  have ci: "sound CB BB (snd (consumer_sign_in w (ad\<lparr>ad_loaded := ?l\<rparr>) up s1))" if "ad_authority ad = Consumer"
    by (rule sound_consumer_sign_in [OF g(1) _ a]) (use g(2) that in simp_all)
  have bi: "sound CB BB (snd (business_sign_in w (ad\<lparr>ad_loaded := ?l\<rparr>) up s1))" if "r_business (ad_route ad) = BusinessToken"
    by (rule sound_business_sign_in [OF g(1) _ a]) (use g(2) token_route [OF f(3) that] in simp_all)
  show ?thesis
    unfolding bff_settle_def Up up_result.case r prod.case Let_def
    using g(1) sl lo ci bi by (simp split del: option.split prod.split)
qed

lemma sound_state: "sound CB BB s \<Longrightarrow> sound CB BB (snd (handleSessionState w cookies s))"
  using sound_load [of CB BB s w "cookie_session cookies"] by (simp add: handleSessionState_def split: prod.split)

lemma sound_context: "sound CB BB s \<Longrightarrow> sound CB BB (snd (handleSetContext w cookies req s))"
proof -
  assume s: "sound CB BB s"
  obtain l s1 where l: "loadSession w (cookie_session cookies) s = (l, s1)" by fastforce
  note h = sound_load [OF s l]
  have "sound CB BB (snd (handleSessionState w cookies (save_session w i (r\<lparr>s_context := c\<rparr>) s1)))"
    if "l = Some (i, r)" for i r c
    by (rule sound_state) (use h that in simp)
  then show ?thesis
    using h l by (simp add: handleSetContext_def split_beta Let_def split: option.split)
qed

lemma sound_revoke:
  assumes "rec_ok CB BB r" shows "list_all (sent_ok CB BB) (revoke_requests w r)"
  using bearer_right [OF assms, of Consumer]
  by (simp add: revoke_requests_def sent_ok_def split: option.split)

lemma sound_fetches:
  "sound CB BB s \<Longrightarrow> list_all (sent_ok CB BB) qs \<Longrightarrow> sound CB BB (foldl (\<lambda>s q. snd (up_fetch w q s)) s qs)"
proof (induction qs arbitrary: s)
  case (Cons q qs)
  have "sound CB BB (snd (up_fetch w q s))"
    using sound_fetch [OF Cons.prems(1), of q w "fst (up_fetch w q s)"] Cons.prems(2) by simp
  then show ?case using Cons by simp
qed simp

lemma sound_logout_all: "sound CB BB s \<Longrightarrow> sound CB BB (snd (handleLogoutAll w cookies req s))"
proof -
  assume s: "sound CB BB s"
  obtain l s1 where l: "loadSession w (cookie_session cookies) s = (l, s1)" by fastforce
  note h = sound_load [OF s l]
  have "sound CB BB (foldl (\<lambda>s q. snd (up_fetch w q s)) s1 (revoke_requests w r))" if "l = Some (i, r)" for i r
    by (rule sound_fetches [OF _ sound_revoke]) (use h that in simp_all)
  then show ?thesis
    using h l by (simp add: handleLogoutAll_def split_beta Let_def split: option.split)
qed

section \<open>The running server\<close>

text \<open>
  The server started on an empty store, with the requests that wait for the upstream: a request may
  be refused, or admitted and sent; any waiting one may be settled next; the other handlers run in
  between, and a visitor of the shell may be given a session.
\<close>

definition empty_server :: server where
  "empty_server = \<lparr> sv_store = Map.empty, sv_ticks = 0, sv_draws = 0, sv_hits = 0, sv_sent = [] \<rparr>"

inductive running :: "world \<Rightarrow> server \<Rightarrow> (admitted \<times> up_result) list \<Rightarrow> bool" for w where
  started: "running w empty_server []"
| refused: "running w s fl \<Longrightarrow> bff_admit w pre a cookies req s = (Inl out, s1) \<Longrightarrow> running w s1 fl"
| forwarded: "running w s fl \<Longrightarrow> bff_admit w pre a cookies req s = (Inr ad, s1) \<Longrightarrow>
    bff_send w ad s1 = (res, s2) \<Longrightarrow> running w s2 ((ad, res) # fl)"
| settled: "running w s (fl @ (ad, res) # fl') \<Longrightarrow> running w (snd (bff_settle w ad res s)) (fl @ fl')"
| state: "running w s fl \<Longrightarrow> running w (snd (handleSessionState w cookies s)) fl"
| set_context: "running w s fl \<Longrightarrow> running w (snd (handleSetContext w cookies req s)) fl"
| logged_out: "running w s fl \<Longrightarrow> running w (snd (handleLogoutAll w cookies req s)) fl"
| seeded: "running w s fl \<Longrightarrow> running w (snd (seed_session w cookies s)) fl"

lemma sound_seed: "sound CB BB s \<Longrightarrow> sound CB BB (snd (seed_session w cookies s))"
  using sound_load [of CB BB s w "cookie_session cookies"] sound_mint
  by (simp add: seed_session_def split: prod.split option.split)

lemma running_sound:
  assumes "running w s fl" "issues CB BB w"
  shows "sound CB BB s \<and> list_all (flight_ok CB BB) fl"
  using assms(1)
proof (induction rule: running.induct)
  case started
  then show ?case by (simp add: empty_server_def sound_def)
next
  case (refused s fl pre a cookies req out s1)
  then show ?case using sound_admit [of CB BB s w pre a cookies req] by simp
next
  case (forwarded s fl pre a cookies req ad s1 res s2)
  obtain route s0 where ad: "matchRoute (hq_method req) (ad_path ad) a = Some route" "sv_store s0 = sv_store s"
    "sv_sent s0 = sv_sent s" "loadSession w (cookie_session cookies) s0 = (ad_loaded ad, s1)"
    "bff_checks w a (ad_path ad) route req (ad_loaded ad) s1 = (Inr ad, s1)"
    using admit_Inr [OF forwarded.hyps(2)] by blast
  note c = checks_Inr [OF ad(5)]
  have "sound CB BB s0" using forwarded.IH ad(2,3) by (simp add: sound_def)
  note l = sound_load [OF this ad(4)]
  have r: "rec_ok CB BB r" if "ad_rec ad = Some r" for r using l that by (auto simp: ad_rec_def)
  have route: "ad_route ad \<in> set (lists (ad_authority ad))" using matchRoute_Some [OF ad(1)] c by simp
  let ?q = "forward w ad (Option.bind (ad_rec ad) (bearer_of (ad_authority ad)))"
  have q: "sent_ok CB BB ?q"
    by (rule sent_ok_forward) (auto simp: bind_eq_Some_conv intro: bearer_right r)
  have f: "up_fetch w ?q s1 = (res, s2)" using forwarded.hyps(3) by (simp add: bff_send_def)
  have "sound CB BB s2" using sound_fetch [OF _ q f] l by simp
  moreover have "answer_ok CB BB (ad_authority ad) u" if "res = Up u" for u
    using fetch_answer [OF assms(2), of ?q s1 u s2] f that by simp
  ultimately show ?case
    using forwarded.IH r route by (simp add: flight_ok_def split: up_result.split)
next
  case (settled s fl ad res fl')
  then show ?case using sound_settle [OF _ assms(2)] by simp
qed (simp_all add: sound_state sound_context sound_logout_all sound_seed)

section \<open>Answers of a sign-in\<close>

lemma put_member_get:
  assumes "put_member k v (JObj ms) = Some j"
  shows "\<exists>ms'. j = JObj ms' \<and> jget k j = Some v \<and> (\<forall>k'. k' \<noteq> k \<longrightarrow> jget k' j = jget k' (JObj ms))"
proof -
  let ?n = "fold (\<lambda>(a, b). AList.update a b) ms []"
  have d: "distinct (map fst (fold (\<lambda>(a, b). AList.update a b) xs acc))" if "distinct (map fst acc)" for xs acc
    using that by (induction xs arbitrary: acc) (auto simp: distinct_update)
  have m: "map_of (fold (\<lambda>(a, b). AList.update a b) xs acc) q = (case map_of (rev xs) q of Some y \<Rightarrow> Some y | None \<Rightarrow> map_of acc q)" for xs acc q
    by (induction xs arbitrary: acc) (auto simp: update_conv' map_add_def split: option.splits)
  have j: "j = JObj (AList.update k v ?n)" using assms by (simp add: put_member_def)
  have "distinct (map fst (AList.update k v ?n))" by (rule distinct_update) (rule d, simp)
  then have "map_of (rev (AList.update k v ?n)) = map_of (AList.update k v ?n)"
    by (intro map_of_eqI) (auto simp: rev_map [symmetric])
  then show ?thesis using m [of ms "[]"] by (simp add: j jget_def update_conv' split: option.split)
qed

lemma put_member_obj [simp]: "put_member k v (JObj ms) \<noteq> None"
  by (simp add: put_member_def)

lemma business_answer_some: "\<exists>j. business_answer (JObj ms) m = Some j"
  by (simp add: business_answer_def put_member_def)

lemma business_answer_hides:
  assumes "business_answer (JObj ms) m = Some j"
  shows "jget ''token'' j = Some (JStr token_sentinel) \<and> jget ''refresh_token'' j \<in> {None, Some (JStr token_sentinel)}"
proof -
  obtain j1 where 1: "put_member ''token'' (JStr token_sentinel) (JObj ms) = Some j1"
    using assms by (auto simp: business_answer_def bind_eq_Some_conv)
  obtain m1 where g1: "j1 = JObj m1" "jget ''token'' j1 = Some (JStr token_sentinel)"
    using put_member_get [OF 1] by blast
  define j2o where "j2o = (if jget ''refresh_token'' j1 \<noteq> None
      then put_member ''refresh_token'' (JStr token_sentinel) j1 else Some j1)"
  obtain j2 where 2: "j2o = Some j2" "put_member ''merchant_id'' (JStr m) j2 = Some j"
    using assms 1 by (auto simp: business_answer_def bind_eq_Some_conv j2o_def)
  have g2: "\<exists>m2. j2 = JObj m2 \<and> jget ''token'' j2 = Some (JStr token_sentinel) \<and>
      jget ''refresh_token'' j2 \<in> {None, Some (JStr token_sentinel)}"
  proof (cases "jget ''refresh_token'' j1 = None")
    case True
    then show ?thesis using 2(1) g1 by (auto simp: j2o_def)
  next
    case False
    then have "put_member ''refresh_token'' (JStr token_sentinel) (JObj m1) = Some j2"
      using 2(1) g1(1) by (simp add: j2o_def)
    from put_member_get [OF this] g1 show ?thesis by auto
  qed
  then obtain m2 where m2: "j2 = JObj m2" by blast
  show ?thesis using put_member_get [OF 2(2) [unfolded m2]] g2 m2 by auto
qed

text \<open>What installing a record does to the store.\<close>

lemma save_store: "sv_store (save_session w i r s) = (sv_store s)(i \<mapsto> (r, snd (the (sv_store (save_session w i r s) i))))"
  by (simp add: save_session_def st_set_def readings ttl_set_def)

lemma install_store:
  assumes "\<And>old r0. l = Some (old, r0) \<Longrightarrow> old \<noteq> i"
  shows "(\<exists>e. sv_store (install w l i r s) i = Some (r, e)) \<and>
    (\<forall>old r0. l = Some (old, r0) \<longrightarrow> sv_store (install w l i r s) old = None)"
  using assms save_store [of w i r s]
  by (auto simp: install_def st_del_def ttl_del_def split: option.split) (metis fun_upd_same)+

lemma answer_out:
  "sign_in_answer w up (Some j) i r s = (raw_out (ur_status up) (stringify j) json_ct
     (sessionCookies w i (s_csrf r) (fst (remainingTtlMs w r s)) True), snd (remainingTtlMs w r s))"
  by (simp add: sign_in_answer_def split_beta)

lemma ttl_store [simp]: "sv_store (snd (remainingTtlMs w r s)) = sv_store s"
  by (simp add: readings)

section \<open>Logging out\<close>

lemma load_none_store:
  "loadSession w (Some ident) s = (None, s1) \<Longrightarrow> ident \<noteq> [] \<Longrightarrow> sv_store s1 ident = None"
  by (auto simp: loadSession_unfold truthy_str_def st_del_def ttl_del_def
      split: option.splits if_splits load_verdict.splits)

lemma fetches_store [simp]: "sv_store (foldl (\<lambda>s q. snd (up_fetch w q s)) s qs) = sv_store s"
  by (induction qs arbitrary: s) (simp_all add: up_fetch_def)

lemma fetches_sent: "sv_sent (foldl (\<lambda>s q. snd (up_fetch w q s)) s qs) = sv_sent s @ qs"
  by (induction qs arbitrary: s) (simp_all add: up_fetch_def)

lemma logout_all_gone:
  assumes "handleLogoutAll w cookies req s = (out, s1)" and "ho_status out = 200"
    and "cookie_session cookies = Some ident" and "ident \<noteq> []"
  shows "sv_store s1 ident = None"
proof -
  obtain l s0 where l: "loadSession w (Some ident) s = (l, s0)" by fastforce
  show ?thesis
  proof (cases l)
    case None
    then show ?thesis using assms l load_none_store by (auto simp: handleLogoutAll_def)
  next
    case (Some x)
    obtain i r where x: "x = (i, r)" by fastforce
    have "i = ident" using load_some [of w "Some ident" s i r s0] l Some x by simp
    then show ?thesis
      using assms l Some x by (auto simp: handleLogoutAll_def refusal_def sendJson_def st_del_def ttl_del_def split: if_splits)
  qed
qed

lemma drop_parts [simp]: "s_business (drop_business r) = None" "consumer_of (drop_business r) = consumer_of r"
  "consumer_of (drop_consumer r) = None" "s_business (drop_consumer r) = s_business r"
  by (simp_all add: drop_business_def drop_consumer_def consumer_of_def Let_def split: option.split)

lemma end_authority_store:
  "sv_store (snd (end_authority w i r s)) i = (if hasAnyAuthority r then Some (r, snd (the (sv_store (save_session w i r s) i))) else None)"
  using save_store [of w i r s] by (auto simp: end_authority_def st_del_def ttl_del_def) (metis fun_upd_same)

section \<open>How \<open>fetch\<close> reads a path\<close>

definition plain_path :: "string \<Rightarrow> bool" where
  "plain_path p \<longleftrightarrow> list_all (\<lambda>c. c \<noteq> CHR 0x5C \<and> c \<noteq> CHR ''#'') (before_query p) \<and>
     list_all (\<lambda>x. \<not> single_dot x \<and> \<not> double_dot x) (split_on (CHR ''/'') (before_query p))"

lemma fetch_plain:
  assumes "plain_path p" and "path_matches re (before_query p)"
  shows "fetch_path p = before_query p"
proof -
  let ?q = "before_query p"
  have q: "\<forall>c \<in> set ?q. c \<noteq> CHR 0x5C \<and> c \<noteq> CHR ''#''" using assms(1) by (simp add: plain_path_def list_all_iff)
  have t: "takeWhile (\<lambda>c. c \<noteq> CHR ''#'' \<and> c \<noteq> CHR ''?'') p = ?q"
  proof -
    have "takeWhile (\<lambda>c. c \<noteq> CHR ''#'' \<and> c \<noteq> CHR ''?'') p = takeWhile (\<lambda>c. c \<noteq> CHR ''#'') ?q"
      by (simp add: before_query_def) (induction p; simp)
    also have "\<dots> = ?q" using q by (simp add: takeWhile_eq_all_conv)
    finally show ?thesis .
  qed
  have m: "map (\<lambda>c. if c = CHR 0x5C then CHR ''/'' else c) ?q = ?q" using q by (intro map_idI) auto
  obtain segs where s: "split_on (CHR ''/'') ?q = [] # segs"
    using assms(2) by (auto simp: path_matches_def split: list.splits)
  have u: "url_segs p = segs" using s by (simp add: url_segs_def t m)
  have r: "resolve_segs [] segs = segs"
    using assms(1) s resolve_plain [of segs "[]"] by (simp add: plain_path_def)
  have "?q = concat (map (\<lambda>x. CHR ''/'' # x) segs)"
    using join_split [of "CHR ''/''" ?q] s concat_slash [of "CHR ''/''" segs] by (cases segs) simp_all
  then show ?thesis using u r by (simp add: fetch_path_def)
qed

section \<open>A concrete server\<close>

definition demo_world :: world where
  "demo_world = \<lparr> wd_now = (\<lambda>n. 1000000 + int n), wd_crypto = demo_crypto,
     wd_upstream = (\<lambda>n q. Up \<lparr> ur_status = 200, ur_contentType = None, ur_body = ''{}'' \<rparr>),
     wd_limited = (\<lambda>n k. False), wd_date = (\<lambda>d. None), wd_prod = True, wd_consumerBase = None, wd_businessBase = None \<rparr>"

definition demo_session :: session where
  "demo_session = \<lparr> s_preauth = False, s_csrf = ''nonce'', s_createdAt = 1000000, s_lastSeen = None,
     s_context = Some ''personal'', s_flat = None,
     s_consumer = Some \<lparr> ca_bearer = Some ''jwt'', ca_bearerExp = None, ca_consumerId = None, ca_handle = None, ca_displayName = None \<rparr>,
     s_business = None \<rparr>"

definition demo_server :: server where
  "demo_server = empty_server\<lparr>sv_store := [''sid'' \<mapsto> (demo_session, 2000000)]\<rparr>"

definition demo_request :: "string \<Rightarrow> string \<Rightarrow> http_in" where
  "demo_request m url = \<lparr> hq_method = m, hq_url = url, hq_cookie = Some ''bz_app_session=sid'', hq_csrf = Some ''nonce'',
     hq_contentType = None, hq_idempotency = None, hq_forwardedFor = None, hq_remote = None, hq_body = Some [] \<rparr>"

definition demo_cookies :: "(string \<times> string) list" where
  "demo_cookies = [(''bz_app_session'', ''sid'')]"

definition demo_admitted :: admitted where
  "demo_admitted = \<lparr> ad_in = demo_request ''GET'' ''/consumer/v1/me'', ad_authority = Consumer, ad_path = ''/v1/me'',
     ad_route = read_route (v1 [''me'']), ad_loaded = Some (''sid'', demo_session), ad_body = [] \<rparr>"

lemma demo_load:
  "loadSession demo_world (cookie_session demo_cookies) demo_server =
     (Some (''sid'', demo_session), demo_server\<lparr>sv_ticks := 2\<rparr>)"
  by (simp add: loadSession_unfold truthy_str_def cookie_session_def demo_cookies_def session_cookie_def demo_server_def
      empty_server_def demo_world_def load_verdict_of_def demo_session_def prune_def past_def hasAnyAuthority_def
      consumer_of_def Let_def absolute_ms_def)

lemma demo_admit:
  "bff_admit demo_world ''/consumer'' Consumer demo_cookies (demo_request ''GET'' ''/consumer/v1/me'') demo_server =
     (Inr demo_admitted, demo_server\<lparr>sv_ticks := 2\<rparr>)"
proof -
  have u: "upstream_path ''/consumer'' (demo_request ''GET'' ''/consumer/v1/me'') = ''/v1/me''" by code_simp
  have r: "matchRoute ''GET'' ''/v1/me'' Consumer = Some (read_route (v1 [''me'']))" by code_simp
  have m: "hq_method (demo_request ''GET'' ''/consumer/v1/me'') = ''GET''" by (simp add: demo_request_def)
  show ?thesis
    unfolding bff_admit_def u m r demo_load
    by (simp add: demo_load over_limit_def read_route_def entry_def bff_checks_def needs_sign_in_def demo_session_def
        bearer_of_def consumer_of_def truthy_str_def bff_body_def demo_request_def demo_admitted_def Let_def)
qed

section \<open>Properties\<close>


definition demo_look :: http_in where
  "demo_look = (demo_request ''GET'' ''/consumer/v1/consumers/ana'')\<lparr>hq_cookie := None\<rparr>"

definition demo_looking :: admitted where
  "demo_looking = \<lparr> ad_in = demo_look, ad_authority = Consumer, ad_path = ''/v1/consumers/ana'',
     ad_route = open_route (v1 [''consumers''] @ [Any]), ad_loaded = None, ad_body = [] \<rparr>"

lemma demo_look_admitted:
  "bff_admit demo_world ''/consumer'' Consumer [] demo_look empty_server = (Inr demo_looking, empty_server)"
proof -
  have u: "upstream_path ''/consumer'' demo_look = ''/v1/consumers/ana''" by code_simp
  have r: "matchRoute ''GET'' ''/v1/consumers/ana'' Consumer = Some (open_route (v1 [''consumers''] @ [Any]))" by code_simp
  have m: "hq_method demo_look = ''GET''" by (simp add: demo_look_def demo_request_def)
  have "loadSession demo_world (cookie_session []) empty_server = (None, empty_server)"
    by (simp add: loadSession_unfold cookie_session_def truthy_str_def)
  then show ?thesis
    unfolding bff_admit_def u m r
    by (simp add: over_limit_def open_route_def entry_def bff_checks_def needs_sign_in_def
        bff_body_def demo_look_def demo_request_def demo_looking_def Let_def)
qed


text \<open>
  C2. What the gateway forwards. A request reaches the upstream only through a listed route of its
  authority; unless it is a read, the caller sent the nonce of its own stored session, which is not
  empty; where the route requires it, that session is signed in with this very authority; and the
  session is the one the cookie names, at most twelve hours old. Until then nothing is sent.
\<close>

theorem gateway_guards:
  assumes "bff_admit w pre a cookies req s = (Inr ad, s1)"
  shows "matchRoute (hq_method req) (ad_path ad) a = Some (ad_route ad) \<and> ad_authority ad = a \<and> sv_sent s1 = sv_sent s \<and>
    (hq_method req = ''GET'' \<or> (\<exists>ident rec. ad_loaded ad = Some (ident, rec) \<and> s_csrf rec \<noteq> [] \<and> hq_csrf req = Some (s_csrf rec))) \<and>
    (r_auth (ad_route ad) \<noteq> AuthRequired \<or>
      (\<exists>ident rec. ad_loaded ad = Some (ident, rec) \<and> \<not> s_preauth rec \<and> bearer_of a rec \<noteq> None)) \<and>
    (ad_loaded ad = None \<or> (\<exists>ident rec rec0 e. ad_loaded ad = Some (ident, rec) \<and>
      map_of cookies session_cookie = Some ident \<and> sv_store s ident = Some (rec0, e) \<and> s_csrf rec = s_csrf rec0 \<and>
      (s_createdAt rec = 0 \<or> wd_now w (sv_ticks s + 1) - s_createdAt rec \<le> absolute_ms)))"
proof -
  obtain route s0 where ad: "matchRoute (hq_method req) (ad_path ad) a = Some route" "sv_store s0 = sv_store s"
    "sv_ticks s0 = sv_ticks s" "loadSession w (cookie_session cookies) s0 = (ad_loaded ad, s1)"
    "bff_checks w a (ad_path ad) route req (ad_loaded ad) s1 = (Inr ad, s1)"
    using admit_Inr [OF assms] by blast
  note c = checks_Inr [OF ad(5)] and m = matchRoute_Some [OF ad(1)]
  have sent: "sv_sent s1 = sv_sent s" using admit_sent [of w pre a cookies req s] assms by simp
  have csrf: "csrf_ok req (ad_rec ad)" if "hq_method req \<noteq> ''GET''"
    using writes_guarded m c that by (auto simp: ad_rec_def)
  have "hq_method req = ''GET'' \<or> (\<exists>ident rec. ad_loaded ad = Some (ident, rec) \<and> s_csrf rec \<noteq> [] \<and>
      hq_csrf req = Some (s_csrf rec))"
  proof (cases "hq_method req = ''GET''")
    case False
    from csrf [OF this] show ?thesis
      by (cases "ad_loaded ad"; cases "hq_csrf req") (auto simp: csrf_ok_def ad_rec_def timingSafeEqualStr_iff)
  qed simp
  moreover have "r_auth (ad_route ad) \<noteq> AuthRequired \<or>
      (\<exists>ident rec. ad_loaded ad = Some (ident, rec) \<and> \<not> s_preauth rec \<and> bearer_of a rec \<noteq> None)"
    using c by (auto simp: needs_sign_in_def split: option.splits)
  moreover have "ad_loaded ad = None \<or> (\<exists>ident rec rec0 e. ad_loaded ad = Some (ident, rec) \<and>
      map_of cookies session_cookie = Some ident \<and> sv_store s ident = Some (rec0, e) \<and> s_csrf rec = s_csrf rec0 \<and>
      (s_createdAt rec = 0 \<or> wd_now w (sv_ticks s + 1) - s_createdAt rec \<le> absolute_ms))"
  proof (cases "ad_loaded ad")
    case (Some x)
    obtain ident rec where x: "x = (ident, rec)" by fastforce
    have l: "loadSession w (cookie_session cookies) s0 = (Some (ident, rec), s1)" using ad(4) Some x by simp
    from load_some [OF l] obtain rec0 e where "cookie_session cookies = Some ident"
        "sv_store s0 ident = Some (rec0, e)" "rec \<in> {rec0, prune (wd_now w (sv_ticks s0 + 1)) rec0}"
        "s_createdAt rec = 0 \<or> wd_now w (sv_ticks s0 + 1) - s_createdAt rec \<le> absolute_ms" by blast
    then show ?thesis
      using ad(2,3) Some x by (intro disjI2 exI [of _ ident] exI [of _ rec] exI [of _ rec0] exI [of _ e])
        (auto simp: cookie_session_def)
  qed simp
  ultimately show ?thesis using ad(1) c sent by auto
qed

theorem gateway_guards_witness:
  "bearer_of Consumer demo_session = Some ''jwt'' \<and> map_of demo_cookies session_cookie = Some ''sid''"
  using gateway_guards [OF demo_admit]
  by (simp add: demo_admitted_def demo_cookies_def session_cookie_def demo_session_def bearer_of_def consumer_of_def
      truthy_str_def Let_def)

text \<open>The session under its new id after a sign-in, and the answer the browser gets.\<close>

definition renewed_session ::
  "world \<Rightarrow> server \<Rightarrow> string \<Rightarrow> session \<Rightarrow> http_out \<times> server \<Rightarrow> session \<Rightarrow> bool" where
  "renewed_session w s old rec res r \<longleftrightarrow>
     (let newId = newSessionId (wd_crypto w) (sv_draws s); (out, s1) = res
      in sv_store s1 old = None \<and> (\<exists>e. sv_store s1 newId = Some (r, e)) \<and> \<not> s_preauth r \<and>
         s_csrf r = newCsrf (wd_crypto w) (sv_draws s + 1) \<and>
         (s_preauth rec \<or> s_createdAt rec = 0 \<or> s_createdAt r = s_createdAt rec) \<and>
         (\<exists>ttl. ho_cookies out = sessionCookies w newId (s_csrf r) ttl True) \<and>
         (\<exists>j. ho_body out = stringify j \<and> jget ''token'' j = Some (JStr token_sentinel)))"

lemma renewed_sessionI:
  assumes "res = sign_in_answer w up (Some j) (newSessionId (wd_crypto w) (sv_draws s)) r
      (install w (Some (old, rec)) (newSessionId (wd_crypto w) (sv_draws s)) r v)"
    and "old \<noteq> newSessionId (wd_crypto w) (sv_draws s)" and "jget ''token'' j = Some (JStr token_sentinel)"
    and "\<not> s_preauth r" and "s_csrf r = newCsrf (wd_crypto w) (sv_draws s + 1)"
    and "s_createdAt r = signed_in_at (Some rec) now"
  shows "renewed_session w s old rec res r" "ho_body (fst res) = stringify j"
proof -
  let ?new = "newSessionId (wd_crypto w) (sv_draws s)"
  have i: "\<exists>e. sv_store (install w (Some (old, rec)) ?new r v) ?new = Some (r, e)"
    "sv_store (install w (Some (old, rec)) ?new r v) old = None"
    using install_store [of "Some (old, rec)" ?new w r v] assms(2) by auto
  have b: "s_preauth rec \<or> s_createdAt rec = 0 \<or> s_createdAt r = s_createdAt rec"
    using assms(6) by (simp add: signed_in_at_def)
  show "renewed_session w s old rec res r"
    using i b assms(3-5) unfolding renewed_session_def assms(1) answer_out Let_def prod.case
    by (intro conjI) (auto simp: raw_out_def)
  show "ho_body (fst res) = stringify j" by (simp add: assms(1) answer_out raw_out_def)
qed

lemma expiry_draws [simp]: "sv_draws (snd (expiry_or w j n s)) = sv_draws s"
  by (simp add: expiry_or_def readings split: option.split)

text \<open>
  C4. Signing in. A successful sign-in (Consumer or Business) puts the session under a new id with a
  new nonce and removes the old one; the new record holds the token the API answered, keeps the other
  authority, and keeps the time the session began; the browser gets the new id and nonce and, in place
  of the token (and of the Business refresh token), a constant.
\<close>

theorem sign_in_rotates:
  assumes "ad_loaded ad = Some (old, rec)" and "json_parse (utf8_decode (ur_body up)) = Some (JObj ms)"
    and "text_member ''token'' (JObj ms) = Some t" and "old \<noteq> newSessionId (wd_crypto w) (sv_draws s)"
  shows "(\<exists>r. renewed_session w s old rec (consumer_sign_in w ad up s) r \<and>
      bearer_of Consumer r = Some t \<and> business_of r = business_of rec) \<and>
    (\<exists>r. renewed_session w s old rec (business_sign_in w ad up s) r \<and>
      bearer_of Business r = Some t \<and> consumer_of r = consumer_of rec \<and>
      (\<exists>j. ho_body (fst (business_sign_in w ad up s)) = stringify j \<and>
         jget ''refresh_token'' j \<in> {None, Some (JStr token_sentinel)}))"
proof
  let ?new = "newSessionId (wd_crypto w) (sv_draws s)" and ?csrf = "newCsrf (wd_crypto w) (sv_draws s + 1)"
  have t: "str_member ''token'' (JObj ms) = Some t" "t \<noteq> []"
    using assms(3) by (auto simp: text_member_def truthy_str_def Let_def split: if_splits)
  have prev: "ad_rec ad = Some rec" by (simp add: ad_rec_def assms(1))
  obtain jc where jc: "put_member ''token'' (JStr token_sentinel) (JObj ms) = Some jc" using put_member_obj by blast
  have jct: "jget ''token'' jc = Some (JStr token_sentinel)" using put_member_get [OF jc] by blast
  obtain exp v now where c: "consumer_sign_in w ad up s = sign_in_answer w up (Some jc) ?new
      (consumer_record (JObj ms) exp ?csrf now (Some rec))
      (install w (Some (old, rec)) ?new (consumer_record (JObj ms) exp ?csrf now (Some rec)) v)"
    using assms(1,2) jc prev
    by (simp add: consumer_sign_in_def split_beta Let_def draw_id_def draw_csrf_def tick_def)
  let ?r = "consumer_record (JObj ms) exp ?csrf now (Some rec)"
  have "renewed_session w s old rec (consumer_sign_in w ad up s) ?r"
    by (rule renewed_sessionI(1) [OF c assms(4) jct]) (simp_all add: consumer_record_def Let_def)
  moreover have "bearer_of Consumer ?r = Some t" "business_of ?r = business_of rec"
    using t by (simp_all add: bearer_of_def consumer_of_def consumer_record_def business_of_def truthy_str_def Let_def)
  ultimately show "\<exists>r. renewed_session w s old rec (consumer_sign_in w ad up s) r \<and>
      bearer_of Consumer r = Some t \<and> business_of r = business_of rec" by blast
  let ?m = "or_else (decodeJwtClaim t ''merchant_id'') []"
  obtain jb where jb: "business_answer (JObj ms) ?m = Some jb" using business_answer_some by blast
  note hides = business_answer_hides [OF jb]
  obtain exp v now where b: "business_sign_in w ad up s = sign_in_answer w up (Some jb) ?new
      (business_record w (JObj ms) t exp ?csrf now (Some rec))
      (install w (Some (old, rec)) ?new (business_record w (JObj ms) t exp ?csrf now (Some rec)) v)"
  proof -
    assume a: "\<And>exp now v. business_sign_in w ad up s = sign_in_answer w up (Some jb) ?new
      (business_record w (JObj ms) t exp ?csrf now (Some rec))
      (install w (Some (old, rec)) ?new (business_record w (JObj ms) t exp ?csrf now (Some rec)) v) \<Longrightarrow> thesis"
    have "ba_merchantId (the (s_business (business_record w (JObj ms) t exp ?csrf now (Some rec)))) = ?m" for exp now
      by (simp add: business_record_def)
    then show thesis
      using assms(1-3) jb prev by (intro a)
        (simp add: business_sign_in_def split_beta Let_def draw_id_def draw_csrf_def tick_def)
  qed
  let ?b = "business_record w (JObj ms) t exp ?csrf now (Some rec)"
  have f: "\<not> s_preauth ?b" "s_csrf ?b = ?csrf" "s_createdAt ?b = signed_in_at (Some rec) now"
    by (simp_all add: business_record_def)
  note r = renewed_sessionI [OF b assms(4) conjunct1 [OF hides] f]
  have "bearer_of Business ?b = Some t" "consumer_of ?b = consumer_of rec"
    using t(2) by (simp_all add: bearer_of_def business_of_def business_record_def truthy_str_def Let_def consumer_of_def
        split: option.split)
  then show "\<exists>r. renewed_session w s old rec (business_sign_in w ad up s) r \<and>
      bearer_of Business r = Some t \<and> consumer_of r = consumer_of rec \<and>
      (\<exists>j. ho_body (fst (business_sign_in w ad up s)) = stringify j \<and>
         jget ''refresh_token'' j \<in> {None, Some (JStr token_sentinel)})"
    using r hides by blast
qed

definition demo_answer_ms :: "(string \<times> json) list" where
  "demo_answer_ms = [(''token'', JStr ''T'')]"

lemma short_sid: "length ''sid'' \<noteq> 43"
  by simp

theorem sign_in_rotates_witness:
  "\<exists>r. renewed_session demo_world demo_server ''sid'' demo_session
      (consumer_sign_in demo_world demo_admitted
         \<lparr> ur_status = 200, ur_contentType = None, ur_body = stringify (JObj demo_answer_ms) \<rparr> demo_server) r"
proof -
  have plain: "utf8_decode (stringify (JObj demo_answer_ms)) = stringify (JObj demo_answer_ms)"
    unfolding demo_answer_ms_def by code_simp
  have "json_wf (JObj demo_answer_ms)" by (simp add: demo_answer_ms_def)
  then have p: "json_parse (utf8_decode (stringify (JObj demo_answer_ms))) = Some (JObj demo_answer_ms)"
    unfolding plain by (rule json_roundtrip)
  have t: "text_member ''token'' (JObj demo_answer_ms) = Some ''T''"
    by (simp add: text_member_def str_member_def jget_def truthy_str_def demo_answer_ms_def Let_def)
  have "length (newSessionId (wd_crypto demo_world) (sv_draws demo_server)) = 43"
    by (simp add: newSessionId_def base64url_def length_b64_digits demo_world_def demo_crypto_def)
  then have n: "''sid'' \<noteq> newSessionId (wd_crypto demo_world) (sv_draws demo_server)" by (metis short_sid)
  show ?thesis
    using sign_in_rotates [of demo_admitted "''sid''" demo_session
        "\<lparr> ur_status = 200, ur_contentType = None, ur_body = stringify (JObj demo_answer_ms) \<rparr>" demo_answer_ms "''T''", OF _ _ t n] p
    by (auto simp: demo_admitted_def simp del: stringify.simps)
qed


lemma fetches_ticks [simp]: "sv_ticks (foldl (\<lambda>s q. snd (up_fetch w q s)) s qs) = sv_ticks s"
  by (induction qs arbitrary: s) (simp_all add: up_fetch_def)

lemma seen_bearer [simp]: "bearer_of a (r\<lparr>s_lastSeen := x\<rparr>) = bearer_of a r"
  by (cases a) (simp_all add: bearer_of_def consumer_of_def business_of_def split: option.split)

lemma demo_logout:
  "\<exists>out s1. handleLogoutAll demo_world demo_cookies (demo_request ''POST'' ''/bff/logout-all'') demo_server = (out, s1) \<and>
     ho_status out = 200 \<and> sv_ticks s1 \<le> 10"
proof -
  have "csrf_ok (demo_request ''POST'' ''/bff/logout-all'') (Some demo_session)"
    by (simp add: csrf_ok_def timingSafeEqualStr_iff demo_request_def demo_session_def)
  then show ?thesis
    by (simp add: handleLogoutAll_def split_beta demo_load sendJson_def raw_out_def st_del_def Let_def)
qed


text \<open>
  C38. A logout can be undone by a request in flight. A request of a signed-in session that waits for
  its upstream answer while the session is logged out of everything puts the session back when it is
  settled, with its credentials, under the old id: the cookie works again.
\<close>

theorem inflight_resurrects:
  assumes "ad_loaded ad = Some (ident, rec)" and "\<not> s_preauth rec" and "ad_authority ad = Consumer"
    and "\<not> r_stream (ad_route ad)" and "\<not> r_authIssue (ad_route ad)" and "\<not> r_authEnd (ad_route ad)"
    and "r_business (ad_route ad) = NoBusinessAuth"
    and "handleLogoutAll w cookies req s = (out, s1)" and "ho_status out = 200"
    and "cookie_session cookies = Some ident" and "ident \<noteq> []"
    and "wd_now w (sv_ticks s1) < s_createdAt rec + absolute_ms"
  shows "sv_store s1 ident = None \<and>
    (\<exists>r e. sv_store (snd (bff_settle w ad (Up up) s1)) ident = Some (r, e) \<and>
       bearer_of Consumer r = bearer_of Consumer rec \<and> bearer_of Business r = bearer_of Business rec \<and>
       s_csrf r = s_csrf rec \<and> wd_now w (sv_ticks s1 + 2) + 1000 \<le> e)"
proof
  show "sv_store s1 ident = None" by (rule logout_all_gone [OF assms(8-11)])
  have "renew w ad up s1 = (up, Some rec, s1)" using assms(1,3) by (simp add: renew_def)
  then have b: "snd (bff_settle w ad (Up up) s1) = slide w (Some (ident, rec)) s1"
    using assms(1,3-7) by (simp add: bff_settle_def Let_def)
  let ?r = "rec\<lparr>s_lastSeen := Some (wd_now w (sv_ticks s1 + 1))\<rparr>"
  have "\<exists>e. sv_store (slide w (Some (ident, rec)) s1) ident = Some (?r, e) \<and> wd_now w (sv_ticks s1 + 2) + 1000 \<le> e"
  proof -
    have "\<not> min 1800000 (s_createdAt rec + absolute_ms - wd_now w (sv_ticks s1)) \<le> 0"
      using assms(12) by (simp add: min_def)
    then show ?thesis
      using assms(2) by (simp add: slide_def readings st_set_def ttl_set_def ttl_ms_def idle_ms_def)
  qed
  moreover have "bearer_of a ?r = bearer_of a rec" for a by simp
  moreover have "s_csrf ?r = s_csrf rec" by simp
  ultimately show "\<exists>r e. sv_store (snd (bff_settle w ad (Up up) s1)) ident = Some (r, e) \<and>
      bearer_of Consumer r = bearer_of Consumer rec \<and> bearer_of Business r = bearer_of Business rec \<and>
      s_csrf r = s_csrf rec \<and> wd_now w (sv_ticks s1 + 2) + 1000 \<le> e" unfolding b by blast
qed

lemma demo_route:
  "ad_loaded demo_admitted = Some (''sid'', demo_session)" "\<not> s_preauth demo_session" "ad_authority demo_admitted = Consumer"
  "\<not> r_stream (ad_route demo_admitted)" "\<not> r_authIssue (ad_route demo_admitted)" "\<not> r_authEnd (ad_route demo_admitted)"
  "r_business (ad_route demo_admitted) = NoBusinessAuth" "''sid'' \<noteq> []"
  by (simp_all add: demo_admitted_def demo_session_def read_route_def entry_def)

theorem inflight_resurrects_witness:
  "\<exists>s1 r e. sv_store s1 ''sid'' = None \<and>
     sv_store (snd (bff_settle demo_world demo_admitted (Up \<lparr> ur_status = 200, ur_contentType = None, ur_body = ''{}'' \<rparr>) s1)) ''sid'' = Some (r, e)"
proof -
  obtain out s1 where 1: "handleLogoutAll demo_world demo_cookies (demo_request ''POST'' ''/bff/logout-all'') demo_server = (out, s1)"
    "ho_status out = 200" "sv_ticks s1 \<le> 10" using demo_logout by blast
  have c: "cookie_session demo_cookies = Some ''sid''" by (simp add: cookie_session_def demo_cookies_def session_cookie_def)
  have t: "wd_now demo_world (sv_ticks s1) < s_createdAt demo_session + absolute_ms"
    using 1(3) by (simp add: demo_world_def demo_session_def absolute_ms_def)
  show ?thesis
    using inflight_resurrects [OF _ _ _ _ _ _ _ 1(1,2) c _ t, of demo_admitted, OF demo_route] by blast
qed

text \<open>
  C39. The allow-list and the URL parser. If the path the browser sent has no backslash, no fragment and
  no dot segment, the path \<open>fetch\<close> asks the upstream for is the one the allow-list matched. Without that
  the list does not bind: a path the Business list admits, for a signed-in session, is fetched as
  \<open>/consumer/v1/me\<close>, which no route of that list matches and which is another API's.
\<close>

theorem allowlist_escape:
  assumes "plain_path p" and "matchRoute m p a = Some r"
  shows "fetch_path p = before_query p \<and> matchRoute m (fetch_path p) a = Some r \<and>
    (\<exists>q route. matchRoute ''GET'' q Business = Some route \<and> r_auth route = AuthRequired \<and>
       fetch_path q = ''/consumer/v1/me'' \<and> matchRoute ''GET'' (fetch_path q) Business = None)"
proof (intro conjI)
  show f: "fetch_path p = before_query p"
    by (rule fetch_plain [OF assms(1), of "r_re r"]) (use matchRoute_Some [OF assms(2)] in simp)
  have "before_query (before_query p) = before_query p"
    by (simp add: before_query_def)
  then show "matchRoute m (fetch_path p) a = Some r"
    using assms(2) unfolding f by (simp add: matchRoute_def)
  let ?b = "[CHR 0x5C]"
  let ?q = "''/v1/merchants/..'' @ ?b @ ''..'' @ ?b @ ''consumer'' @ ?b @ ''v1'' @ ?b @ ''me''"
  have "matchRoute ''GET'' ?q Business = Some (read_route (v1 [''merchants''] @ [Any]))" by code_simp
  moreover have "fetch_path ?q = ''/consumer/v1/me''" by code_simp
  moreover have "matchRoute ''GET'' ''/consumer/v1/me'' Business = None" by code_simp
  moreover have "r_auth (read_route re) = AuthRequired" for re by (simp add: read_route_def entry_def)
  ultimately show "\<exists>q route. matchRoute ''GET'' q Business = Some route \<and> r_auth route = AuthRequired \<and>
      fetch_path q = ''/consumer/v1/me'' \<and> matchRoute ''GET'' (fetch_path q) Business = None" by metis
qed

theorem allowlist_escape_witness: "fetch_path ''/v1/me'' = ''/v1/me''"
proof -
  have "plain_path ''/v1/me''" by code_simp
  moreover have "matchRoute ''GET'' ''/v1/me'' Consumer = Some (read_route (v1 [''me'']))" by code_simp
  moreover have "before_query ''/v1/me'' = ''/v1/me''" by code_simp
  ultimately show ?thesis using allowlist_escape by metis
qed

end
