(* ===== verification/Regex.thy ===== *)
theory Regex
  imports Prelude
begin

text \<open>
  The regular expressions of the language, matched as its backtracking matcher does: an expression at
  the head of a text gives the texts that may be left, in the order they are tried. Classes, sequence,
  ordered choice, greedy repetition (an iteration that consumes nothing ends it) and negative look-ahead
  are what the source uses. Shared by the highlighter, the harness adapters and the registries.
\<close>

datatype rx =
    Eps
  | Cls "char \<Rightarrow> bool"
  | Seq rx rx
  | Alt rx rx
  | Star rx
  | NotAhead rx

function rx_match :: "rx \<Rightarrow> string \<Rightarrow> string list" and rx_iterate :: "rx \<Rightarrow> string \<Rightarrow> string list \<Rightarrow> string list"
where
  "rx_match Eps s = [s]"
| "rx_match (Cls p) s = (case s of c # t \<Rightarrow> if p c then [t] else [] | [] \<Rightarrow> [])"
| "rx_match (Seq a b) s = concat (map (rx_match b) (rx_match a s))"
| "rx_match (Alt a b) s = rx_match a s @ rx_match b s"
| "rx_match (Star a) s = rx_iterate a s (rx_match a s) @ [s]"
| "rx_match (NotAhead a) s = (if rx_match a s = [] then [s] else [])"
| "rx_iterate a s [] = []"
| "rx_iterate a s (t # ts) = (if length t < length s then rx_match (Star a) t else []) @ rx_iterate a s ts"
  by pat_completeness auto
termination
  by (relation "measures
      [\<lambda>x. case x of Inl (r, _) \<Rightarrow> size r | Inr (r, _) \<Rightarrow> size (Star r),
       \<lambda>x. case x of Inl (_, s) \<Rightarrow> 2 * length s + 1 | Inr (_, s, _) \<Rightarrow> 2 * length s,
       \<lambda>x. case x of Inl _ \<Rightarrow> 0 | Inr (_, _, ts) \<Rightarrow> length ts]") auto

lemma rx_iterate_set:
  "t \<in> set (rx_iterate a s ts) \<longleftrightarrow> (\<exists>u \<in> set ts. length u < length s \<and> t \<in> set (rx_match (Star a) u))"
  by (induction ts) (auto simp del: rx_match.simps)

lemma rx_star_set:
  "t \<in> set (rx_match (Star a) s) \<longleftrightarrow> t = s \<or> (\<exists>u \<in> set (rx_match a s). length u < length s \<and> t \<in> set (rx_match (Star a) u))"
  unfolding rx_match.simps(5) [of a s] by (simp only: set_append rx_iterate_set Un_iff) auto

declare rx_match.simps(5) [simp del]

section \<open>Expressions\<close>

definition rx_lit :: "string \<Rightarrow> rx" where
  "rx_lit s = foldr (\<lambda>c r. Seq (Cls ((=) c)) r) s Eps"

definition rx_opt :: "rx \<Rightarrow> rx" where "rx_opt r = Alt r Eps"

definition rx_plus :: "rx \<Rightarrow> rx" where "rx_plus r = Seq r (Star r)"

fun rx_times :: "nat \<Rightarrow> rx \<Rightarrow> rx" where
  "rx_times 0 r = Eps"
| "rx_times (Suc n) r = Seq r (rx_times n r)"

definition rx_seq :: "rx list \<Rightarrow> rx" where "rx_seq rs = foldr Seq rs Eps"

definition rx_alt :: "rx list \<Rightarrow> rx" where
  "rx_alt rs = (case rev rs of [] \<Rightarrow> Cls (\<lambda>_. False) | r # q \<Rightarrow> foldl (\<lambda>a b. Alt b a) r q)"

definition rx_digit :: rx where "rx_digit = Cls is_digit"

definition rx_space :: rx where "rx_space = Cls js_ws"

definition rx_nonspace :: rx where "rx_nonspace = Cls (\<lambda>c. \<not> js_ws c)"

definition rx_one_of :: "string \<Rightarrow> rx" where "rx_one_of cs = Cls (\<lambda>c. c \<in> set cs)"

definition line_end :: "char \<Rightarrow> bool" where "line_end c \<longleftrightarrow> c = CHR 0x0A \<or> c = CHR 0x0D"

definition rx_any :: rx where "rx_any = Cls (\<lambda>c. \<not> line_end c)"

definition is_upper_digit :: "char \<Rightarrow> bool" where
  "is_upper_digit c \<longleftrightarrow> is_ascii_upper c \<or> is_digit c"

definition rx_word_char :: "char \<Rightarrow> bool" where
  "rx_word_char c \<longleftrightarrow> is_ascii_upper c \<or> is_ascii_lower c \<or> is_digit c \<or> c = CHR ''_''"

section \<open>Matching\<close>

text \<open>The match at the head of a text: what is matched, and what is left.\<close>

definition rx_exec :: "rx \<Rightarrow> string \<Rightarrow> (string \<times> string) option" where
  "rx_exec r s = (case rx_match r s of [] \<Rightarrow> None | t # _ \<Rightarrow> Some (take (length s - length t) s, t))"

text \<open>\<open>^r$\<close> as a test.\<close>

definition rx_whole :: "rx \<Rightarrow> string \<Rightarrow> bool" where
  "rx_whole r s \<longleftrightarrow> list_ex (\<lambda>t. t = []) (rx_match r s)"

text \<open>\<open>r\<close> anywhere in a text: what precedes the first match, the match, and what is left.\<close>

fun rx_find_from :: "string \<Rightarrow> rx \<Rightarrow> string \<Rightarrow> (string \<times> string \<times> string) option" where
  "rx_find_from before r s =
     (case rx_exec r s of
        Some (m, t) \<Rightarrow> Some (rev before, m, t)
      | None \<Rightarrow> (case s of c # q \<Rightarrow> rx_find_from (c # before) r q | [] \<Rightarrow> None))"

declare rx_find_from.simps [simp del]

definition rx_find :: "rx \<Rightarrow> string \<Rightarrow> (string \<times> string \<times> string) option" where
  "rx_find r s = rx_find_from [] r s"

definition rx_test :: "rx \<Rightarrow> string \<Rightarrow> bool" where "rx_test r s \<longleftrightarrow> rx_find r s \<noteq> None"

text \<open>An expression that is a sequence of groups: what each matched, and what is left, in the order tried.\<close>

fun rx_groups :: "rx list \<Rightarrow> string \<Rightarrow> (string list \<times> string) list" where
  "rx_groups [] s = [([], s)]"
| "rx_groups (r # rs) s =
     concat (map (\<lambda>t. map (\<lambda>(ps, u). (take (length s - length t) s # ps, u)) (rx_groups rs t)) (rx_match r s))"

text \<open>\<open>^(r1)(r2)..$\<close>.\<close>

definition rx_whole_groups :: "rx list \<Rightarrow> string \<Rightarrow> string list option" where
  "rx_whole_groups rs s = map_option fst (List.find (\<lambda>(ps, u). u = []) (rx_groups rs s))"

section \<open>What is left is a suffix\<close>

lemma rx_iterate_suffix:
  assumes "t \<in> set (rx_iterate a s ts)" and "\<And>u x. u \<in> set ts \<Longrightarrow> x \<in> set (rx_match (Star a) u) \<Longrightarrow> \<exists>p. u = p @ x"
    and "\<And>u. u \<in> set ts \<Longrightarrow> \<exists>p. s = p @ u"
  shows "\<exists>p. s = p @ t"
  using assms unfolding rx_iterate_set by fastforce

lemma star_suffix:
  assumes "\<And>s t. t \<in> set (rx_match a s) \<Longrightarrow> \<exists>p. s = p @ t"
  shows "t \<in> set (rx_match (Star a) s) \<Longrightarrow> \<exists>p. s = p @ t"
proof (induction s arbitrary: t rule: length_induct)
  case (1 s)
  from "1.prems" consider "t = s" | u where "u \<in> set (rx_match a s)" "length u < length s" "t \<in> set (rx_match (Star a) u)"
    unfolding rx_star_set [of t a s] by blast
  then show ?case
  proof cases
    case 2
    obtain p q where "s = p @ u" "u = q @ t" using assms [OF 2(1)] "1.IH" 2(2,3) by blast
    then show ?thesis by simp
  qed simp
qed

lemma rx_match_suffix: "t \<in> set (rx_match r s) \<Longrightarrow> \<exists>p. s = p @ t"
proof (induction r arbitrary: s t)
  case (Seq a b)
  then obtain u where u: "u \<in> set (rx_match a s)" "t \<in> set (rx_match b u)" by auto
  then show ?case using Seq.IH(1) [OF u(1)] Seq.IH(2) [OF u(2)] by auto
next
  case (Star a)
  then show ?case using star_suffix by blast
qed (auto split: if_splits list.splits)

text \<open>An expression that cannot match the empty text.\<close>

fun consumes :: "rx \<Rightarrow> bool" where
  "consumes (Cls p) \<longleftrightarrow> True"
| "consumes (Seq a b) \<longleftrightarrow> consumes a \<or> consumes b"
| "consumes (Alt a b) \<longleftrightarrow> consumes a \<and> consumes b"
| "consumes _ \<longleftrightarrow> False"

lemma rx_match_length: "t \<in> set (rx_match r s) \<Longrightarrow> length t \<le> length s"
  using rx_match_suffix by fastforce

lemma consumes_shorter: "consumes r \<Longrightarrow> t \<in> set (rx_match r s) \<Longrightarrow> length t < length s"
proof (induction r arbitrary: s t)
  case (Seq a b)
  then obtain u where u: "u \<in> set (rx_match a s)" "t \<in> set (rx_match b u)" by auto
  then show ?case
    using Seq.IH(1) [OF _ u(1)] Seq.IH(2) [OF _ u(2)] Seq.prems(1) rx_match_length [OF u(1)] rx_match_length [OF u(2)]
    by auto
qed (auto split: list.splits if_splits)

lemma exec_nonempty: "rx_exec r s = Some (m, t) \<Longrightarrow> consumes r \<Longrightarrow> m \<noteq> []"
  using consumes_shorter [of r t s] by (auto simp: rx_exec_def split: list.splits)

lemma rx_exec_split: "rx_exec r s = Some (m, t) \<Longrightarrow> s = m @ t"
  using rx_match_suffix [of t r s] by (auto simp: rx_exec_def split: list.splits)

lemma rx_exec_shrinks:
  assumes "rx_exec r s = Some (m, t)"
  shows "length t \<le> length s" "m \<noteq> [] \<Longrightarrow> length t < length s"
  using rx_exec_split [OF assms] by auto

lemma rx_find_from_split: "rx_find_from p r s = Some (b, m, t) \<Longrightarrow> rev p @ s = b @ m @ t"
proof (induction p r s rule: rx_find_from.induct)
  case (1 p r s)
  note found = 1(2) [unfolded rx_find_from.simps [of p r s]]
  show ?case
  proof (cases "rx_exec r s")
    case None
    then obtain c q where "s = c # q" using found by (cases s) auto
    then show ?thesis using 1(1) [OF None] found None by simp
  next
    case (Some x)
    then show ?thesis using found rx_exec_split [of r s] by (cases x) simp
  qed
qed

lemma rx_find_split: "rx_find r s = Some (b, m, t) \<Longrightarrow> s = b @ m @ t"
  using rx_find_from_split [of "[]" r s b m t] by (simp add: rx_find_def)

lemma rx_groups_split: "(ps, u) \<in> set (rx_groups rs s) \<Longrightarrow> s = concat ps @ u"
proof (induction rs arbitrary: s ps u)
  case (Cons r rs)
  then obtain t qs where t: "t \<in> set (rx_match r s)" "(qs, u) \<in> set (rx_groups rs t)"
    "ps = take (length s - length t) s # qs" by auto
  obtain p where "s = p @ t" using rx_match_suffix [OF t(1)] by blast
  then show ?case using Cons.IH [OF t(2)] t(3) by simp
qed simp

lemma rx_groups_length: "(ps, u) \<in> set (rx_groups rs s) \<Longrightarrow> length ps = length rs"
  by (induction rs arbitrary: s ps u) auto

lemma rx_whole_groups_concat:
  assumes "rx_whole_groups rs s = Some ps"
  shows "concat ps = s \<and> length ps = length rs"
proof -
  obtain x where x: "List.find (\<lambda>(ps, u). u = []) (rx_groups rs s) = Some x" "ps = fst x"
    using assms by (auto simp: rx_whole_groups_def)
  then have "(ps, []) \<in> set (rx_groups rs s)"
    by (cases x) (auto simp: find_Some_iff in_set_conv_nth)
  then show ?thesis using rx_groups_split rx_groups_length by fastforce
qed

lemma rx_whole_iff: "rx_whole r s \<longleftrightarrow> [] \<in> set (rx_match r s)"
  by (auto simp: rx_whole_def list_ex_iff)

section \<open>Agreement with the usual reading\<close>

text \<open>The texts a look-ahead-free expression describes.\<close>

inductive rx_lang :: "rx \<Rightarrow> string \<Rightarrow> bool" where
  eps: "rx_lang Eps []"
| cls: "p c \<Longrightarrow> rx_lang (Cls p) [c]"
| seq: "rx_lang a u \<Longrightarrow> rx_lang b v \<Longrightarrow> rx_lang (Seq a b) (u @ v)"
| left: "rx_lang a u \<Longrightarrow> rx_lang (Alt a b) u"
| right: "rx_lang b u \<Longrightarrow> rx_lang (Alt a b) u"
| stop: "rx_lang (Star a) []"
| step: "rx_lang a u \<Longrightarrow> rx_lang (Star a) v \<Longrightarrow> rx_lang (Star a) (u @ v)"

fun ahead_free :: "rx \<Rightarrow> bool" where
  "ahead_free (Seq a b) \<longleftrightarrow> ahead_free a \<and> ahead_free b"
| "ahead_free (Alt a b) \<longleftrightarrow> ahead_free a \<and> ahead_free b"
| "ahead_free (Star a) \<longleftrightarrow> ahead_free a"
| "ahead_free (NotAhead a) \<longleftrightarrow> False"
| "ahead_free _ \<longleftrightarrow> True"

lemma rx_lang_match: "rx_lang r u \<Longrightarrow> t \<in> set (rx_match r (u @ t))"
proof (induction arbitrary: t rule: rx_lang.induct)
  case (seq a u b v)
  from seq.IH(1) [of "v @ t"] seq.IH(2) [of t] show ?case by auto
next
  case (stop a)
  show ?case using rx_star_set [of t a t] by simp
next
  case (step a u v)
  show ?case
  proof (cases "u = []")
    case True
    then show ?thesis using step.IH(2) [of t] by simp
  next
    case False
    then have "length (v @ t) < length (u @ v @ t)" by simp
    then show ?thesis using step.IH(1) [of "v @ t"] step.IH(2) [of t] rx_star_set [of t a "u @ v @ t"] by auto
  qed
qed auto

lemma star_lang:
  assumes "\<And>s t. t \<in> set (rx_match a s) \<Longrightarrow> \<exists>u. s = u @ t \<and> rx_lang a u"
  shows "t \<in> set (rx_match (Star a) s) \<Longrightarrow> \<exists>u. s = u @ t \<and> rx_lang (Star a) u"
proof (induction s arbitrary: t rule: length_induct)
  case (1 s)
  from "1.prems" consider "t = s" | u where "u \<in> set (rx_match a s)" "length u < length s" "t \<in> set (rx_match (Star a) u)"
    unfolding rx_star_set [of t a s] by blast
  then show ?case
  proof cases
    case 1
    then show ?thesis by (auto intro: rx_lang.stop)
  next
    case 2
    obtain x y where "s = x @ u" "rx_lang a x" "u = y @ t" "rx_lang (Star a) y"
      using assms [OF 2(1)] "1.IH" 2(2,3) by blast
    then show ?thesis using rx_lang.step by (intro exI [of _ "x @ y"]) simp
  qed
qed

lemma match_lang: "t \<in> set (rx_match r s) \<Longrightarrow> ahead_free r \<Longrightarrow> \<exists>u. s = u @ t \<and> rx_lang r u"
proof (induction r arbitrary: s t)
  case Eps
  then show ?case by (auto intro: rx_lang.eps)
next
  case (Cls p)
  then show ?case by (auto intro: rx_lang.cls split: list.splits if_splits)
next
  case (Seq a b)
  then obtain u where u: "u \<in> set (rx_match a s)" "t \<in> set (rx_match b u)" by auto
  obtain x y where "s = x @ u" "rx_lang a x" "u = y @ t" "rx_lang b y"
    using Seq.IH(1) [OF u(1)] Seq.IH(2) [OF u(2)] Seq.prems(2) by auto
  then show ?case using rx_lang.seq by (intro exI [of _ "x @ y"]) simp
next
  case (Alt a b)
  from Alt.prems(1) have "t \<in> set (rx_match a s) \<or> t \<in> set (rx_match b s)" by simp
  then show ?case
  proof
    assume "t \<in> set (rx_match a s)"
    with Alt.IH(1) Alt.prems(2) obtain u where "s = u @ t" "rx_lang a u" by auto
    then show ?case using rx_lang.left by blast
  next
    assume "t \<in> set (rx_match b s)"
    with Alt.IH(2) Alt.prems(2) obtain u where "s = u @ t" "rx_lang b u" by auto
    then show ?case using rx_lang.right by blast
  qed
next
  case (Star a)
  then have "\<And>s t. t \<in> set (rx_match a s) \<Longrightarrow> \<exists>u. s = u @ t \<and> rx_lang a u" by simp
  from star_lang [OF this Star.prems(1)] show ?case .
qed auto

theorem rx_whole_lang: "ahead_free r \<Longrightarrow> rx_whole r s \<longleftrightarrow> rx_lang r s"
  using rx_lang_match [of r s "[]"] match_lang [of "[]" r s] by (auto simp: rx_whole_iff)

end
