(* ===== verification/Highlight.thy ===== *)
theory Highlight
  imports Regex
begin

text \<open>
  The documentation's syntax highlighter (apps/website/components/developers/code/highlight.ts): its
  lexers for JSON, shell, scripts and HTTP, and \<open>highlight\<close> itself. An index into the source is the
  text that is left at it, with the character before it where the code looks back. The characters are
  code units below 256; a lexer that could leave the source unread longer than it should is guarded
  where it recurses into a template, and the guard is proved to hold.
\<close>

section \<open>Tokens\<close>

datatype token_type =
    TComment | TKeyword | TString | TNumber | TBoolean | TNull | TProperty | TFunction | TClass | TConstant
  | TOperator | TPunctuation | TVariable | TFlag | TMethod | TUrl | THeader | TRegex | TPlain

type_synonym token = "token_type \<times> string"

datatype code_lang = Curl | Shell | JsonLang | Ts | Js | Http | TextLang

definition token_text :: "token list \<Rightarrow> string" where
  "token_text ts = concat (map snd ts)"

text \<open>Adjacent tokens of the same type become one.\<close>

fun merge_into :: "token list \<Rightarrow> token list \<Rightarrow> token list" where
  "merge_into out [] = rev out"
| "merge_into out ((t, v) # ts) =
     (if v = [] then merge_into out ts
      else case out of
          (u, w) # q \<Rightarrow> if u = t then merge_into ((u, w @ v) # q) ts else merge_into ((t, v) # out) ts
        | [] \<Rightarrow> merge_into [(t, v)] ts)"

definition merge_tokens :: "token list \<Rightarrow> token list" where
  "merge_tokens ts = merge_into [] ts"

section \<open>Characters\<close>

definition hl_space :: "char \<Rightarrow> bool" where
  "hl_space c \<longleftrightarrow> c = CHR '' '' \<or> c = CHR 0x09 \<or> c = CHR 0x0A \<or> c = CHR 0x0D"

definition latin_letter :: "char \<Rightarrow> bool" where
  "latin_letter c \<longleftrightarrow> (of_char c :: nat) \<ge> 0xC0"

definition isIdentStart :: "char \<Rightarrow> bool" where
  "isIdentStart c \<longleftrightarrow> is_ascii_upper c \<or> is_ascii_lower c \<or> c = CHR ''_'' \<or> c = CHR ''$'' \<or> latin_letter c"

definition isIdent :: "char \<Rightarrow> bool" where
  "isIdent c \<longleftrightarrow> isIdentStart c \<or> is_digit c"

definition at :: "nat \<Rightarrow> string \<Rightarrow> char option" where
  "at n s = (if n < length s then Some (s ! n) else None)"

text \<open>How long the string literal is that starts the text, whose quote is \<open>q\<close>.\<close>

fun string_len :: "char \<Rightarrow> string \<Rightarrow> nat" where
  "string_len q [] = 0"
| "string_len q [c] = (if c = CHR 0x5C then 1 else if c = q then 1 else if c = CHR 0x0A \<and> q \<noteq> CHR ''`'' then 0 else 1)"
| "string_len q (c # d # s) =
     (if c = CHR 0x5C then 2 + string_len q s
      else if c = q then 1
      else if c = CHR 0x0A \<and> q \<noteq> CHR ''`'' then 0
      else 1 + string_len q (d # s))"

definition stringEnd :: "string \<Rightarrow> nat" where
  "stringEnd s = (case s of [] \<Rightarrow> 0 | q # t \<Rightarrow> 1 + string_len q t)"

text \<open>Up to a character, or the whole text; up to the end of a block comment.\<close>

definition until :: "char \<Rightarrow> string \<Rightarrow> nat" where
  "until c s = length (takeWhile (\<lambda>x. x \<noteq> c) s)"

fun block_len :: "string \<Rightarrow> nat" where
  "block_len (c # d # s) = (if c = CHR ''*'' \<and> d = CHR ''/'' then 2 else 1 + block_len (d # s))"
| "block_len s = length s"

definition block_comment :: "string \<Rightarrow> nat" where
  "block_comment s = 2 + block_len (drop 2 s)"

section \<open>JSON\<close>

definition rx_sign :: rx where "rx_sign = rx_opt (rx_one_of ''+-'')"

definition rx_exponent :: rx where
  "rx_exponent = rx_opt (rx_seq [rx_one_of ''eE'', rx_sign, rx_plus rx_digit])"

definition rx_json_number :: rx where
  "rx_json_number = rx_seq [rx_opt (rx_lit ''-''), rx_plus rx_digit,
     rx_opt (rx_seq [rx_lit ''.'', rx_plus rx_digit]), rx_exponent]"

text \<open>The token at the head of a JSON text, where \<open>p\<close> is the character before it.\<close>

definition json_token :: "char option \<Rightarrow> string \<Rightarrow> token" where
  "json_token p s =
     (let c = hd s in
      if hl_space c then (TPlain, takeWhile hl_space s)
      else if c = CHR ''/'' \<and> at 1 s = Some (CHR ''*'') then (TComment, take (block_comment s) s)
      else if (c = CHR ''/'' \<and> at 1 s = Some (CHR ''/'')) \<or> (c = CHR ''#'' \<and> (case p of None \<Rightarrow> True | Some x \<Rightarrow> hl_space x))
      then (TComment, take (until (CHR 0x0A) s) s)
      else if c = CHR 0x22 then
        (let n = stringEnd s;
             k = dropWhile (\<lambda>x. x = CHR '' '' \<or> x = CHR 0x09) (drop n s)
         in (if at 0 k = Some (CHR '':'') then TProperty else TString, take n s))
      else (case (if c = CHR ''-'' \<or> is_digit c then rx_exec rx_json_number s else None) of
          Some (m, _) \<Rightarrow> (TNumber, m)
        | None \<Rightarrow>
            (if c \<in> set ''{}[],:'' then (TPunctuation, [c])
             else if isIdentStart c then
               (let w = takeWhile isIdent s
                in (if w = ''true'' \<or> w = ''false'' then TBoolean else if w = ''null'' then TNull else TPlain, w))
             else (TPlain, [c]))))"


lemma json_number_consumes: "consumes rx_json_number"
  by (simp add: rx_json_number_def rx_seq_def rx_plus_def rx_digit_def)

text \<open>A token's text is a part of what it is read from, at its head.\<close>

definition chunk :: "string \<Rightarrow> string \<Rightarrow> bool" where
  "chunk v s \<longleftrightarrow> v \<noteq> [] \<and> prefix v s"

lemma chunk_take [simp]: "chunk (take n s) s \<longleftrightarrow> 0 < n \<and> s \<noteq> []"
  by (auto simp: chunk_def take_is_prefix)

lemma chunk_while [simp]: "chunk (takeWhile p s) s \<longleftrightarrow> s \<noteq> [] \<and> p (hd s)"
  by (cases s) (auto simp: chunk_def takeWhile_is_prefix)

lemma chunk_Cons [simp]: "chunk (x # v) (c # s) \<longleftrightarrow> x = c \<and> prefix v s"
  by (auto simp: chunk_def)

lemma prefix_parts [simp]: "prefix (takeWhile p s) s" "prefix (take n s) s"
  by (simp_all add: takeWhile_is_prefix take_is_prefix)

lemma until_Cons [simp]: "until c (x # s) = (if x = c then 0 else Suc (until c s))"
  by (simp add: until_def)

lemma chunk_exec: "rx_exec r s = Some (m, t) \<Longrightarrow> consumes r \<Longrightarrow> chunk m s"
  by (auto simp: chunk_def dest: exec_nonempty rx_exec_split)

lemma stringEnd_pos [simp]: "s \<noteq> [] \<Longrightarrow> 0 < stringEnd s"
  by (cases s) (simp_all add: stringEnd_def)

lemma block_comment_pos [simp]: "0 < block_comment s"
  by (simp add: block_comment_def)

lemma until_pos: "s \<noteq> [] \<Longrightarrow> hd s \<noteq> c \<Longrightarrow> 0 < until c s"
  by (cases s) (simp_all add: until_def)

lemma chunk_if:
  "(b \<Longrightarrow> chunk (snd x) s) \<Longrightarrow> (\<not> b \<Longrightarrow> chunk (snd y) s) \<Longrightarrow> chunk (snd (if b then x else y)) s"
  by simp

lemma chunk_case:
  "(\<And>m r. x = Some (m, r) \<Longrightarrow> chunk (snd (f m r)) s) \<Longrightarrow> (x = None \<Longrightarrow> chunk (snd y) s) \<Longrightarrow>
   chunk (snd (case x of Some (m, r) \<Rightarrow> f m r | None \<Rightarrow> y)) s"
  by (simp split: option.split prod.split)

lemma chunk_pair: "chunk v s \<Longrightarrow> chunk (snd (t, v)) s"
  by simp

lemma chunk_until: "s \<noteq> [] \<Longrightarrow> hd s \<noteq> c \<Longrightarrow> chunk (take (until c s) s) s"
  by (simp add: until_pos)

lemma chunk_number: "(if b then rx_exec rx_json_number s else None) = Some (m, t) \<Longrightarrow> chunk m s"
  using chunk_exec [OF _ json_number_consumes, of s] by (simp split: if_splits)

lemma json_token_chunk:
  assumes "s \<noteq> []"
  shows "chunk (snd (json_token p s)) s"
proof -
  obtain c t where s: "s = c # t" using assms by (cases s) auto
  have i: "isIdentStart c \<Longrightarrow> isIdent c" by (simp add: isIdent_def)
  show ?thesis
    unfolding json_token_def Let_def s list.sel
    by (intro chunk_if chunk_case chunk_pair) (auto simp: i chunk_number simp del: list.set intro!: chunk_until)
qed

lemma json_token_shrinks: "(t, v) = json_token p s \<Longrightarrow> s \<noteq> [] \<Longrightarrow> chunk v s"
  using json_token_chunk [of s p] by (metis snd_conv)

text \<open>The lexer: a token, and the rest, where the character before is the token's last.\<close>

function lex_json :: "char option \<Rightarrow> string \<Rightarrow> token list" where
  "lex_json p s =
     (if s = [] then []
      else case json_token p s of (t, v) \<Rightarrow> (t, v) # lex_json (Some (last v)) (drop (length v) s))"
  by pat_completeness auto
termination
  by (relation "measure (\<lambda>(p, s). length s)") (auto simp: chunk_def dest!: json_token_shrinks)

declare lex_json.simps [simp del]

definition lexJson :: "string \<Rightarrow> token list" where
  "lexJson s = lex_json None s"

lemma chunk_rest: "chunk v s \<Longrightarrow> v @ drop (length v) s = s"
  by (auto simp: chunk_def prefix_def)

lemma lex_json_text: "token_text (lex_json p s) = s"
proof (induction p s rule: lex_json.induct)
  case (1 p s)
  then show ?case
    using json_token_chunk [of s p] chunk_rest
    by (subst lex_json.simps) (auto simp: token_text_def split: prod.split)
qed

lemma lexJson_text [simp]: "token_text (lexJson s) = s"
  by (simp add: lexJson_def lex_json_text)

text \<open>Where the object or array ends that starts a text.\<close>

function json_len :: "int \<Rightarrow> string \<Rightarrow> nat" where
  "json_len depth s =
     (case s of
        [] \<Rightarrow> 0
      | c # t \<Rightarrow>
          (if c = CHR 0x22 then stringEnd s + json_len depth (drop (stringEnd s) s)
           else if c = CHR ''{'' \<or> c = CHR ''['' then 1 + json_len (depth + 1) t
           else if c = CHR ''}'' \<or> c = CHR '']'' then (if depth - 1 = 0 then 1 else 1 + json_len (depth - 1) t)
           else 1 + json_len depth t))"
  by pat_completeness auto
termination by (relation "measure (\<lambda>(d, s). length s)") auto

declare json_len.simps [simp del]

definition jsonEnd :: "string \<Rightarrow> nat" where
  "jsonEnd s = json_len 0 s"

section \<open>Shell and cURL\<close>

definition data_flags :: "string list" where
  "data_flags = [''-d'', ''--data'', ''--data-raw'', ''--data-binary'', ''--json'']"

definition header_flags :: "string list" where "header_flags = [''-H'', ''--header'']"

definition method_flags :: "string list" where "method_flags = [''-X'', ''--request'']"

definition http_methods :: "string list" where
  "http_methods = [''GET'', ''POST'', ''PUT'', ''PATCH'', ''DELETE'', ''HEAD'', ''OPTIONS'']"

text \<open>A variable at the head of a text, and its length.\<close>

definition starts_var :: "string \<Rightarrow> bool" where
  "starts_var s \<longleftrightarrow> at 0 s = Some (CHR ''$'') \<and>
     (case at 1 s of Some x \<Rightarrow> x = CHR ''{'' \<or> isIdentStart x | None \<Rightarrow> False)"

definition var_len :: "string \<Rightarrow> nat" where
  "var_len s =
     (if at 1 s = Some (CHR ''{'') then min (length s) (until (CHR ''}'') s + 1)
      else 1 + length (takeWhile rx_word_char (tl s)))"

function shell_interpolated :: "token_type \<Rightarrow> string \<Rightarrow> string \<Rightarrow> token list" where
  "shell_interpolated base acc s =
     (let flush = (if acc = [] then [] else [(base, acc)])
      in if s = [] then flush
         else if starts_var s then flush @ (TVariable, take (var_len s) s) # shell_interpolated base [] (drop (var_len s) s)
         else shell_interpolated base (acc @ [hd s]) (tl s))"
  by pat_completeness auto
termination
  by (relation "measure (\<lambda>(b, a, s). length s)") (auto simp: var_len_def)

declare shell_interpolated.simps [simp del]

definition shellInterpolated :: "string \<Rightarrow> token_type \<Rightarrow> token list" where
  "shellInterpolated v base = shell_interpolated base [] v"

lemma until_bound [simp]: "until c s \<le> length s"
  by (simp add: until_def length_takeWhile_le)

lemma shell_interpolated_text: "token_text (shell_interpolated base acc s) = acc @ s"
proof (induction base acc s rule: shell_interpolated.induct)
  case (1 base acc s)
  have f: "concat (map snd (if acc = [] then [] else [(base, acc)])) = acc" by simp
  show ?case
    using 1 by (subst shell_interpolated.simps) (simp add: token_text_def f Let_def)
qed

lemma shellInterpolated_text [simp]: "token_text (shellInterpolated v base) = v"
  by (simp add: shellInterpolated_def shell_interpolated_text)

record shell =
  sh_commandPos :: bool
  sh_pendingFlag :: string
  sh_lineStart :: bool
  sh_continued :: bool

definition new_shell :: shell where
  "new_shell = \<lparr> sh_commandPos = True, sh_pendingFlag = [], sh_lineStart = True, sh_continued = False \<rparr>"

definition starts_json :: "string \<Rightarrow> bool" where
  "starts_json v \<longleftrightarrow> (case dropWhile js_ws v of x # _ \<Rightarrow> x = CHR ''['' \<or> x = CHR ''{'' | [] \<Rightarrow> False)"

text \<open>A single-quoted argument: its tokens and length.\<close>

definition shell_quoted :: "string \<Rightarrow> string \<Rightarrow> token list \<times> nat" where
  "shell_quoted flag s =
     (let t = tl s;
          n = (case index_of (CHR 0x27) t of Some k \<Rightarrow> k + 2 | None \<Rightarrow> length s);
          inner = take (n - 2) t
      in (if flag \<in> set data_flags \<and> starts_json inner
          then (TPunctuation, [CHR 0x27]) # lexJson inner @
            [(TPunctuation, if n - 1 > 0 \<and> at (n - 1) s = Some (CHR 0x27) then [CHR 0x27] else [])]
          else [(TString, take n s)], n))"

definition header_tokens :: "string \<Rightarrow> token list" where
  "header_tokens body =
     (let done = last body = CHR 0x22 \<and> length body > 1
      in case index_of (CHR '':'') body of
           Some k \<Rightarrow>
             (if k > 1 then
                [(TPunctuation, [CHR 0x22]), (THeader, drop 1 (take k body)), (TPunctuation, '':'')] @
                shellInterpolated ((if done then butlast else id) (drop (k + 1) body)) TString @
                [(TPunctuation, if done then [CHR 0x22] else [])]
              else shellInterpolated body TString)
         | None \<Rightarrow> shellInterpolated body TString)"

definition operator_char :: "char \<Rightarrow> bool" where "operator_char c \<longleftrightarrow> c \<in> set ''|;&><''"

definition word_stop :: "char \<Rightarrow> bool" where
  "word_stop c \<longleftrightarrow> hl_space c \<or> c = CHR 0x27 \<or> c = CHR 0x22 \<or> operator_char c"

definition shell_word :: "string \<Rightarrow> string" where
  "shell_word s = (case s of c # t \<Rightarrow>
     if word_stop c then [] else c # takeWhile (\<lambda>x. \<not> word_stop x \<and> x \<noteq> CHR ''$'') t | [] \<Rightarrow> [])"

text \<open>The type of a word, and whether the next word may still be a command.\<close>

definition word_type :: "shell \<Rightarrow> string \<Rightarrow> token_type \<times> bool" where
  "word_type st w =
     (let assigns = CHR ''='' \<in> set w; cmd = sh_commandPos st;
          t = (if cmd \<and> \<not> assigns then TFunction
               else if sh_pendingFlag st \<in> set method_flags \<and> w \<in> set http_methods then TMethod
               else if prefix ''-'' w then TFlag
               else if prefix ''http://'' w \<or> prefix ''https://'' w then TUrl
               else if w \<noteq> [] \<and> list_all is_digit w then TNumber
               else TPlain);
          cmd1 = cmd \<and> assigns
      in (if cmd1 then TVariable else t, cmd1))"

text \<open>One turn of the lexer: the tokens, how much they read, and the state after them.\<close>

definition shell_step :: "shell \<Rightarrow> char option \<Rightarrow> string \<Rightarrow> token list \<times> nat \<times> shell" where
  "shell_step st p s =
     (let c = hd s; arg = st\<lparr>sh_lineStart := False, sh_commandPos := False, sh_pendingFlag := []\<rparr>;
          within = st\<lparr>sh_lineStart := False\<rparr>
      in if c = CHR 0x0A then
           ([(TPlain, [c])], 1,
            (if sh_continued st then st else st\<lparr>sh_commandPos := True, sh_pendingFlag := []\<rparr>)
              \<lparr>sh_lineStart := True, sh_continued := False\<rparr>)
         else if c = CHR '' '' \<or> c = CHR 0x09 \<or> c = CHR 0x0D then
           (let v = takeWhile (\<lambda>x. x = CHR '' '' \<or> x = CHR 0x09 \<or> x = CHR 0x0D) s in ([(TPlain, v)], length v, st))
         else if sh_lineStart st \<and> \<not> sh_continued st \<and> (c = CHR ''{'' \<or> c = CHR ''['') then
           (lexJson (take (jsonEnd s) s), jsonEnd s, within)
         else if c = CHR ''#'' \<and> (case p of None \<Rightarrow> True | Some x \<Rightarrow> hl_space x) then
           (let n = until (CHR 0x0A) s in ([(TComment, take n s)], n, st))
         else if c = CHR 0x5C \<and> (at 1 s = Some (CHR 0x0A) \<or> at 1 s = Some (CHR 0x0D) \<and> at 2 s = Some (CHR 0x0A)) then
           ([(TPunctuation, [CHR 0x5C])], 1, within\<lparr>sh_continued := True\<rparr>)
         else if c = CHR 0x27 then
           (case shell_quoted (sh_pendingFlag st) s of (ts, n) \<Rightarrow> (ts, n, arg))
         else if c = CHR 0x22 then
           (let n = stringEnd s; body = take n s
            in (if sh_pendingFlag st \<in> set header_flags then header_tokens body else shellInterpolated body TString, n, arg))
         else if starts_var s then
           ([(TVariable, take (var_len s) s)], var_len s, arg)
         else if operator_char c then
           (let n = length (takeWhile operator_char s); read = take 0 (drop n s)
            in ([(TOperator, take n s)], n,
                within\<lparr>sh_commandPos := read \<noteq> ''>'' \<and> read \<noteq> ''<'', sh_pendingFlag := []\<rparr>))
         else
           (let w = shell_word s
            in if w = [] then ([(TPlain, [c])], 1, within)
               else (case word_type st w of (t, cmd) \<Rightarrow>
                 ([(t, w)], length w, within\<lparr>sh_commandPos := cmd, sh_pendingFlag := (if t = TFlag then w else [])\<rparr>))))"

lemma token_text_simps [simp]:
  "token_text [] = []" "token_text ((t, v) # ts) = v @ token_text ts" "token_text (xs @ ys) = token_text xs @ token_text ys"
  by (simp_all add: token_text_def)

lemma index_of_SomeD: "index_of c s = Some k \<Longrightarrow> k < length s \<and> s ! k = c \<and> take k s @ c # drop (k + 1) s = s"
  by (induction s arbitrary: k) (auto split: if_splits)

text \<open>A single-quoted argument is read as it is written, but for the last character of an unterminated
  one that is read as JSON.\<close>

lemma shell_quoted_text:
  assumes "shell_quoted flag (CHR 0x27 # t) = (ts, n)"
  shows "0 < n" "token_text ts = take n (CHR 0x27 # t) \<or>
    t \<noteq> [] \<and> CHR 0x27 \<notin> set t \<and> n = length t + 1 \<and> token_text ts = butlast (CHR 0x27 # t)"
proof -
  show "0 < n" using assms by (auto simp: shell_quoted_def Let_def split: option.splits)
  show "token_text ts = take n (CHR 0x27 # t) \<or>
    t \<noteq> [] \<and> CHR 0x27 \<notin> set t \<and> n = length t + 1 \<and> token_text ts = butlast (CHR 0x27 # t)"
  proof (cases "index_of (CHR 0x27) t")
    case None
    have b: "CHR 0x27 # take (length t - 1) t = butlast (CHR 0x27 # t) \<or> t = []"
      by (cases t) (simp_all add: butlast_conv_take)
    show ?thesis
      using assms None b index_of_None_iff [of "CHR 0x27" t]
      by (cases t rule: rev_cases)
        (auto simp: shell_quoted_def Let_def starts_json_def at_def nth_append split: if_splits)
  next
    case (Some k)
    note k = index_of_SomeD [OF Some]
    have n: "n = k + 2" using assms Some by (auto simp: shell_quoted_def Let_def split: if_splits)
    have "at (k + 1) (CHR 0x27 # t) = Some (CHR 0x27)" using k by (simp add: at_def)
    moreover have "take (k + 2) (CHR 0x27 # t) = CHR 0x27 # take k t @ [CHR 0x27]"
      using k by (simp add: take_Suc_conv_app_nth)
    ultimately show ?thesis using assms Some n by (auto simp: shell_quoted_def Let_def split: if_splits)
  qed
qed

lemma header_tokens_text:
  assumes "body = CHR 0x22 # t"
  shows "token_text (header_tokens body) = body"
proof (cases "index_of (CHR '':'') body")
  case (Some k)
  note k = index_of_SomeD [OF Some]
  have h: "CHR 0x22 # drop 1 (take k body) @ CHR '':'' # drop (k + 1) body = body" if "k > 1"
    using k that assms by (cases k) auto
  have d: "butlast (drop (k + 1) body) @ [CHR 0x22] = drop (k + 1) body" if "last body = CHR 0x22" "k > 1"
  proof -
    have "body ! (length body - 1) = CHR 0x22" using that(1) assms by (simp only: last_conv_nth) (metis last_conv_nth list.discI)
    then have "k \<noteq> length body - 1" using k by auto
    then have "Suc k < length body" using k by linarith
    then have "drop (k + 1) body \<noteq> []" by simp
    then show ?thesis using that(1) by (metis append_butlast_last_id last_drop drop_eq_Nil not_le)
  qed
  show ?thesis
    using Some h d by (auto simp: header_tokens_def Let_def)
qed (simp add: header_tokens_def)

lemma json_len_pos: "c = CHR ''{'' \<or> c = CHR ''['' \<Longrightarrow> 0 < json_len d (c # t)"
  by (subst json_len.simps) auto

lemma var_len_pos [simp]: "s \<noteq> [] \<Longrightarrow> 0 < var_len s"
  by (auto simp: var_len_def)

text \<open>What a turn reads is what its tokens say, but for the last character of the source.\<close>

definition reads :: "string \<Rightarrow> token list \<times> nat \<times> shell \<Rightarrow> bool" where
  "reads s r \<longleftrightarrow> (case r of (ts, n, _) \<Rightarrow> 0 < n \<and>
     (token_text ts = take n s \<or>
      n = length s \<and> token_text ts = butlast s \<and> CHR 0x27 \<in> set s \<and> last s \<noteq> CHR 0x27))"

lemma reads_if: "(b \<Longrightarrow> reads s x) \<Longrightarrow> (\<not> b \<Longrightarrow> reads s y) \<Longrightarrow> reads s (if b then x else y)"
  by simp

lemma reads_one: "reads (c # t) ([(k, [c])], Suc 0, st)"
  by (simp add: reads_def)

lemma reads_take: "0 < n \<Longrightarrow> reads s ([(k, take n s)], n, st)"
  by (simp add: reads_def)

lemma reads_prefix: "v \<noteq> [] \<Longrightarrow> prefix v s \<Longrightarrow> reads s ([(k, v)], length v, st)"
  by (auto simp: reads_def prefix_def)

lemma reads_tokens: "0 < n \<Longrightarrow> token_text ts = take n s \<Longrightarrow> reads s (ts, n, st)"
  by (simp add: reads_def)

lemma reads_quoted:
  "reads (CHR 0x27 # t) (case shell_quoted flag (CHR 0x27 # t) of (ts, n) \<Rightarrow> (ts, n, st))"
proof (cases "shell_quoted flag (CHR 0x27 # t)")
  case (Pair ts n)
  have "t \<noteq> [] \<Longrightarrow> CHR 0x27 \<notin> set t \<Longrightarrow> last t \<noteq> CHR 0x27" using last_in_set by force
  with shell_quoted_text [OF Pair] show ?thesis unfolding Pair prod.case by (auto simp: reads_def)
qed

lemma shell_word_prefix: "prefix (shell_word s) s"
  by (auto simp: shell_word_def split: list.split)

lemma reads_word:
  "w = shell_word (c # t) \<Longrightarrow> w \<noteq> [] \<Longrightarrow>
   reads (c # t) (case word_type st w of (k, cmd) \<Rightarrow> ([(k, w)], length w, f k cmd))"
  using shell_word_prefix [of "c # t"] by (auto intro: reads_prefix split: prod.split)

lemma shell_step_reads: "s \<noteq> [] \<Longrightarrow> reads s (shell_step st p s)"
proof -
  assume "s \<noteq> []"
  then obtain c t where s: "s = c # t" by (cases s) auto
  have header: "token_text (header_tokens (take (stringEnd (CHR 0x22 # t)) (CHR 0x22 # t))) =
      take (stringEnd (CHR 0x22 # t)) (CHR 0x22 # t)"
    by (rule header_tokens_text) (simp add: stringEnd_def)
  have data: "c = CHR ''{'' \<or> c = CHR ''['' \<Longrightarrow> 0 < jsonEnd s" using json_len_pos s by (simp add: jsonEnd_def)
  have str: "0 < stringEnd s" "0 < var_len s" using s by simp_all
  show ?thesis
    unfolding shell_step_def Let_def
    apply (intro reads_if)
    subgoal using s by (simp add: reads_one)
    subgoal using s by (intro reads_prefix) auto
    subgoal using data s by (intro reads_tokens) auto
    subgoal using s by (intro reads_take) auto
    subgoal using s by (simp add: reads_one)
    subgoal using s by (simp add: reads_quoted)
    subgoal using header str(1) s by (intro reads_tokens) auto
    subgoal using str(2) by (rule reads_take)
    subgoal using s by (intro reads_take) auto
    subgoal using s by (simp add: reads_one)
    subgoal using s by (simp add: reads_word)
    done
qed

lemma shell_step_reads_of: "(ts, n, st1) = shell_step st p s \<Longrightarrow> s \<noteq> [] \<Longrightarrow> 0 < n"
  using shell_step_reads [of s st p] by (auto simp: reads_def split: prod.splits)

function lex_shell :: "shell \<Rightarrow> char option \<Rightarrow> string \<Rightarrow> token list" where
  "lex_shell st p s =
     (if s = [] then []
      else case shell_step st p s of (ts, n, st1) \<Rightarrow> ts @ lex_shell st1 (at (n - 1) s) (drop n s))"
  by pat_completeness auto
termination
  by (relation "measure (\<lambda>(st, p, s). length s)") (auto dest!: shell_step_reads_of)

declare lex_shell.simps [simp del]

definition lexShell :: "string \<Rightarrow> token list" where
  "lexShell s = lex_shell new_shell None s"

lemma lex_shell_text:
  "token_text (lex_shell st p s) = s \<or> token_text (lex_shell st p s) = butlast s \<and> CHR 0x27 \<in> set s \<and> last s \<noteq> CHR 0x27"
proof (induction st p s rule: lex_shell.induct)
  case (1 st p s)
  show ?case
  proof (cases "s = []")
    case True
    then show ?thesis by (simp add: lex_shell.simps)
  next
    case False
    obtain ts n st1 where st: "shell_step st p s = (ts, n, st1)" by (cases "shell_step st p s") auto
    have l: "lex_shell st p s = ts @ lex_shell st1 (at (n - 1) s) (drop n s)"
      using False st by (subst lex_shell.simps) simp
    have r: "reads s (ts, n, st1)" using shell_step_reads [OF False, of st p] st by simp
    note ih = "1.IH" [OF False st [symmetric] refl]
    show ?thesis
    proof (cases "token_text ts = take n s")
      case True
      have b: "butlast s = take n s @ butlast (drop n s)" "last (drop n s) = last s" if "drop n s \<noteq> []"
        using that by (metis append_take_drop_id butlast_append, simp)
      show ?thesis using ih True b l by (cases "drop n s = []") (auto dest: in_set_dropD)
    next
      case False
      then have q: "n = length s" "token_text ts = butlast s" "CHR 0x27 \<in> set s" "last s \<noteq> CHR 0x27"
        using r by (auto simp: reads_def)
      have "lex_shell st1 (at (n - 1) s) [] = []" by (simp add: lex_shell.simps)
      then show ?thesis using q l by simp
    qed
  qed
qed

lemma lexShell_text:
  "token_text (lexShell s) = s \<or> token_text (lexShell s) = butlast s \<and> CHR 0x27 \<in> set s \<and> last s \<noteq> CHR 0x27"
  unfolding lexShell_def by (rule lex_shell_text)

section \<open>TypeScript and JavaScript\<close>

definition script_keywords :: "string list" where
  "script_keywords = [''import'', ''from'', ''export'', ''default'', ''const'', ''let'', ''var'', ''function'', ''async'',
     ''await'', ''return'', ''if'', ''else'', ''try'', ''catch'', ''finally'', ''throw'', ''new'', ''for'', ''of'', ''in'',
     ''while'', ''do'', ''switch'', ''case'', ''break'', ''continue'', ''class'', ''extends'', ''typeof'', ''instanceof'',
     ''void'', ''delete'', ''yield'', ''type'', ''interface'', ''as'', ''satisfies'', ''enum'', ''implements'',
     ''readonly'', ''public'', ''private'', ''protected'', ''static'', ''declare'', ''keyof'', ''this'', ''super'']"

definition regex_after :: string where "regex_after = ''(,=:[!&|?{};+-*%<>~^''"

definition hex_digit_char :: "char \<Rightarrow> bool" where
  "hex_digit_char c \<longleftrightarrow> is_digit c \<or> c \<in> set ''abcdefABCDEF''"

definition rx_script_number :: rx where
  "rx_script_number =
     (let d = Seq rx_digit (Star (Cls (\<lambda>c. is_digit c \<or> c = CHR ''_'')))
      in Seq (rx_alt
           [rx_seq [rx_lit ''0'', rx_one_of ''xX'', rx_plus (Cls (\<lambda>c. hex_digit_char c \<or> c = CHR ''_''))],
            rx_seq [rx_lit ''0'', rx_one_of ''bB'', rx_plus (rx_one_of ''01_'')],
            Seq (rx_opt d) (Seq (rx_opt (rx_lit ''.'')) (Seq d rx_exponent))])
         (rx_opt (rx_lit ''n'')))"

definition rx_operator :: rx where
  "rx_operator = rx_alt (map rx_lit [''??='', ''??'', ''?.'', ''=>'', ''==='', ''!=='', ''=='', ''!='', ''<='', ''>='',
     ''&&'', ''||'', ''++'', ''--'', ''+='', ''-='', ''*='', ''/=''] @ [rx_one_of ''=+-*/%<>!&|^~?:@#''])"

text \<open>The last token that is not white space; the tokens so far are kept newest first.\<close>

definition significant :: "token list \<Rightarrow> token option" where
  "significant out = List.find (\<lambda>(t, v). t \<noteq> TPlain \<or> js_trim v \<noteq> []) out"

definition regex_context :: "token option \<Rightarrow> bool" where
  "regex_context prev =
     (case prev of
        None \<Rightarrow> True
      | Some (t, v) \<Rightarrow>
          (if t = TPunctuation \<or> t = TOperator then v \<noteq> [] \<and> last v \<in> set regex_after
           else t = TKeyword \<and> v \<in> set [''return'', ''typeof'', ''case'', ''in'', ''of'']))"

text \<open>How long a regular expression's body is, its closing slash included.\<close>

fun regex_body :: "bool \<Rightarrow> string \<Rightarrow> nat option" where
  "regex_body cls [] = None"
| "regex_body cls [c] = (if c = CHR ''/'' \<and> \<not> cls then Some 1 else None)"
| "regex_body cls (c # d # s) =
     (if c = CHR 0x0A then None
      else if c = CHR 0x5C then map_option (\<lambda>n. n + 2) (regex_body cls s)
      else if c = CHR ''['' then map_option Suc (regex_body True (d # s))
      else if c = CHR '']'' then map_option Suc (regex_body False (d # s))
      else if c = CHR ''/'' \<and> \<not> cls then Some 1
      else map_option Suc (regex_body cls (d # s)))"

definition regex_len :: "string \<Rightarrow> nat option" where
  "regex_len s = map_option (\<lambda>n. 1 + n + length (takeWhile is_ascii_lower (drop (1 + n) s))) (regex_body False (tl s))"

definition ident_type :: "token list \<Rightarrow> string \<Rightarrow> string \<Rightarrow> token_type" where
  "ident_type out w r =
     (let k = dropWhile (\<lambda>x. x = CHR '' '' \<or> x = CHR 0x09) r;
          prev = map_option snd (significant out);
          afterDot = (prev = Some ''.'' \<or> prev = Some ''?.'')
      in if \<not> afterDot \<and> w \<in> set script_keywords then TKeyword
         else if w = ''true'' \<or> w = ''false'' then TBoolean
         else if w = ''null'' \<or> w = ''undefined'' then TNull
         else if at 0 k = Some (CHR ''('') \<or>
             at 0 k = Some (CHR ''<'') \<and> (case at 1 k of Some x \<Rightarrow> is_ascii_upper x | None \<Rightarrow> False) then TFunction
         else if afterDot then TProperty
         else if at 0 k = Some (CHR '':'') \<and> at 1 k \<noteq> Some (CHR '':'') \<and> (prev = Some ''{'' \<or> prev = Some '','') then TProperty
         else if is_ascii_upper (hd w) \<and> length w \<ge> 3 \<and> list_all (\<lambda>x. is_upper_digit x \<or> x = CHR ''_'') (tl w) then TConstant
         else if is_ascii_upper (hd w) then TClass
         else TPlain)"

definition script_token :: "token list \<Rightarrow> string \<Rightarrow> token" where
  "script_token out s =
     (let c = hd s in
      if hl_space c then (TPlain, takeWhile hl_space s)
      else if c = CHR ''/'' \<and> at 1 s = Some (CHR ''/'') then (TComment, take (until (CHR 0x0A) s) s)
      else if c = CHR ''/'' \<and> at 1 s = Some (CHR ''*'') then (TComment, take (block_comment s) s)
      else if c = CHR 0x27 \<or> c = CHR 0x22 then (TString, take (stringEnd s) s)
      else case (if c = CHR ''/'' \<and> regex_context (significant out) then regex_len s else None) of
          Some n \<Rightarrow> (TRegex, take n s)
        | None \<Rightarrow>
            (case (if is_digit c \<or> c = CHR ''.'' \<and> (case at 1 s of Some x \<Rightarrow> is_digit x | None \<Rightarrow> False)
                   then rx_exec rx_script_number s else None) of
               Some (m, _) \<Rightarrow> (TNumber, m)
             | None \<Rightarrow>
                 (if isIdentStart c then
                    (let w = takeWhile isIdent s in (ident_type out w (drop (length w) s), w))
                  else if c \<in> set ''{}()[];,.'' then
                    (if prefix ''...'' s then (TOperator, ''...'') else (TPunctuation, [c]))
                  else case rx_exec rx_operator s of
                      Some (m, _) \<Rightarrow> (TOperator, m)
                    | None \<Rightarrow> (TPlain, [c]))))"

lemma alt_consumes: "list_all consumes rs \<Longrightarrow> consumes (rx_alt rs)"
proof (cases rs rule: rev_cases)
  case (snoc q r)
  have "list_all consumes q \<Longrightarrow> consumes r \<Longrightarrow> consumes (foldl (\<lambda>a b. Alt b a) r q)" for q r
    by (induction q arbitrary: r) auto
  moreover assume "list_all consumes rs"
  ultimately show ?thesis using snoc by (simp add: rx_alt_def)
qed (simp add: rx_alt_def)

lemma lit_consumes [simp]: "consumes (rx_lit (c # s))"
  by (simp add: rx_lit_def)

lemma script_number_consumes: "consumes rx_script_number"
  unfolding rx_script_number_def Let_def
  by (intro iffD2 [OF consumes.simps(2)] disjI1 alt_consumes) (simp add: rx_seq_def rx_digit_def)

lemma operator_consumes: "consumes rx_operator"
  unfolding rx_operator_def by (rule alt_consumes) (simp add: rx_one_of_def)

lemma regex_len_pos: "regex_len s = Some n \<Longrightarrow> 0 < n"
  by (auto simp: regex_len_def)

lemma regex_if_pos: "(if b then regex_len s else None) = Some n \<Longrightarrow> 0 < n"
  by (auto simp: regex_len_pos split: if_splits)

lemma chunk_script_number: "(if b then rx_exec rx_script_number s else None) = Some (m, t) \<Longrightarrow> chunk m s"
  using chunk_exec [OF _ script_number_consumes, of s] by (simp split: if_splits)

lemma chunk_case_some:
  "(\<And>n. x = Some n \<Longrightarrow> chunk (snd (f n)) s) \<Longrightarrow> (x = None \<Longrightarrow> chunk (snd y) s) \<Longrightarrow>
   chunk (snd (case x of Some n \<Rightarrow> f n | None \<Rightarrow> y)) s"
  by (simp split: option.split)

lemma script_token_chunk:
  assumes "s \<noteq> []"
  shows "chunk (snd (script_token out s)) s"
proof -
  obtain c t where s: "s = c # t" using assms by (cases s) auto
  have i: "isIdentStart c \<Longrightarrow> isIdent c" by (simp add: isIdent_def)
  have d: "prefix ''...'' s \<Longrightarrow> chunk ''...'' s" by (simp add: chunk_def)
  show ?thesis
    unfolding script_token_def Let_def s list.sel
    by (intro chunk_if chunk_case chunk_case_some chunk_pair)
      (auto simp: i d [unfolded s] chunk_script_number chunk_exec [OF _ operator_consumes] simp del: list.set
        intro!: chunk_until dest: regex_if_pos)
qed

lemma script_token_shrinks: "(t, v) = script_token out s \<Longrightarrow> s \<noteq> [] \<Longrightarrow> length s - length v < length s"
  using script_token_chunk [of s out] by (cases "script_token out s") (auto simp: chunk_def)

text \<open>The lexer of scripts and, within a template literal, of its text. It gives the tokens so far and
  the text that is left: nothing, or the brace that closes a template's expression.\<close>

function script :: "bool \<Rightarrow> int \<Rightarrow> token list \<Rightarrow> string \<Rightarrow> token list \<times> string"
  and template :: "string \<Rightarrow> token list \<Rightarrow> string \<Rightarrow> token list \<times> string"
where
  "script inT depth out s =
     (if s = [] then (out, [])
      else if hd s = CHR ''`'' then
        (case template ''`'' out (tl s) of (out1, r) \<Rightarrow>
           if length r < length s then script inT depth out1 r else (out1, r))
      else if inT \<and> hd s = CHR ''}'' \<and> depth = 0 then (out, s)
      else
        (case script_token out s of (t, v) \<Rightarrow>
           script inT
             (if inT \<and> hd s = CHR ''{'' then depth + 1 else if inT \<and> hd s = CHR ''}'' then depth - 1 else depth)
             ((t, v) # out) (drop (length v) s)))"
| "template acc out s =
     (case s of
        [] \<Rightarrow> ((TString, acc) # out, [])
      | c # t \<Rightarrow>
          (if c = CHR 0x5C then
             (case t of [] \<Rightarrow> ((TString, acc @ [c]) # out, []) | d # u \<Rightarrow> template (acc @ [c, d]) out u)
           else if c = CHR ''`'' then ((TString, acc @ [c]) # out, t)
           else if c = CHR ''$'' \<and> at 0 t = Some (CHR ''{'') then
             (case script True 0 ((TPunctuation, ''${'') # (TString, acc) # out) (tl t) of (out1, r) \<Rightarrow>
                (case r of
                   [] \<Rightarrow> ((TString, []) # out1, [])
                 | _ # u \<Rightarrow>
                     if length r < length s then template [] ((TPunctuation, ''}'') # out1) u else (out1, r)))
           else template (acc @ [c]) out t))"
  by pat_completeness auto

termination
  by (relation "measure (\<lambda>x. case x of Inl (_, _, _, s) \<Rightarrow> length s | Inr (_, _, s) \<Rightarrow> length s)")
    (auto simp: script_token_shrinks split: prod.splits)

declare script.simps [simp del] template.simps [simp del]

lemma script_token_text: "script_token out s = (t, v) \<Longrightarrow> s \<noteq> [] \<Longrightarrow> v @ drop (length v) s = s"
  using chunk_rest [OF script_token_chunk [of s out]] by simp

definition lexed :: "token list \<Rightarrow> string \<Rightarrow> token list \<times> string \<Rightarrow> bool" where
  "lexed out s res \<longleftrightarrow> length (snd res) \<le> length s \<and> token_text (rev (fst res)) @ snd res = token_text (rev out) @ s"

lemma script_text:
  "lexed out s (script inT depth out s) \<and> (\<not> inT \<longrightarrow> snd (script inT depth out s) = []) \<and>
   (snd (script inT depth out s) = [] \<or> hd (snd (script inT depth out s)) = CHR ''}'')"
  "lexed out (acc @ s) (template acc out s) \<and> length (snd (template acc out s)) \<le> length s"
proof (induction inT depth out s and acc out s rule: script_template.induct)
  case (1 inT depth out s)
  consider "s = []" | "s \<noteq> []" "hd s = CHR ''`''" | "s \<noteq> []" "hd s \<noteq> CHR ''`''" "inT \<and> hd s = CHR ''}'' \<and> depth = 0"
    | "s \<noteq> []" "hd s \<noteq> CHR ''`''" "\<not> (inT \<and> hd s = CHR ''}'' \<and> depth = 0)" by blast
  then show ?case
  proof cases
    case 1
    then show ?thesis by (simp add: script.simps [of _ depth out] lexed_def)
  next
    case 2
    obtain o1 r where t: "template ''`'' out (tl s) = (o1, r)" by fastforce
    have l: "lexed out s (o1, r)" "length r < length s"
      using "1.IH"(1) [OF 2] t 2 by (cases s; simp add: lexed_def)+
    then show ?thesis
      using "1.IH"(2) [OF 2 t [symmetric] l(2)] 2 t
      by (subst (1 2 3 4) script.simps) (simp add: lexed_def)
  next
    case 3
    then show ?thesis by (subst (1 2 3 4) script.simps) (simp add: lexed_def)
  next
    case 4
    obtain t v where t: "script_token out s = (t, v)" by fastforce
    show ?thesis
      using "1.IH"(3) [OF 4 t [symmetric]] script_token_text [OF t 4(1)] 4 t script_token_shrinks [OF t [symmetric] 4(1)]
      by (subst (1 2 3 4) script.simps) (simp add: lexed_def)
  qed
next
  case (2 acc out s)
  show ?case
  proof (cases s)
    case Nil
    then show ?thesis by (subst (1 2) template.simps) (simp add: lexed_def)
  next
    case (Cons c t)
    consider "c = CHR 0x5C" "t = []" | d u where "c = CHR 0x5C" "t = d # u"
      | "c \<noteq> CHR 0x5C" "c = CHR ''`''"
      | "c \<noteq> CHR 0x5C" "c \<noteq> CHR ''`''" "c = CHR ''$'' \<and> at 0 t = Some (CHR ''{'')"
      | "c \<noteq> CHR 0x5C" "c \<noteq> CHR ''`''" "\<not> (c = CHR ''$'' \<and> at 0 t = Some (CHR ''{''))"
      by (cases t) blast+
    then show ?thesis
    proof cases
      case 1
      then show ?thesis using Cons by (subst (1 2) template.simps) (simp add: lexed_def)
    next
      case 2
      then show ?thesis using "2.IH"(1) [OF Cons 2] Cons by (subst (1 2) template.simps) (simp add: lexed_def)
    next
      case 3
      then show ?thesis using Cons by (subst (1 2) template.simps) (simp add: lexed_def)
    next
      case 4
      let ?out = "(TPunctuation, ''${'') # (TString, acc) # out"
      obtain o1 r where r: "script True 0 ?out (tl t) = (o1, r)" by fastforce
      have t: "t = CHR ''{'' # tl t" using 4(3) by (cases t) (auto simp: at_def)
      have l: "lexed ?out (tl t) (o1, r)" using "2.IH"(2) [OF Cons 4] r by simp
      show ?thesis
      proof (cases r)
        case Nil
        then show ?thesis using l r t 4 Cons by (subst (1 2) template.simps) (simp add: lexed_def)
      next
        case (Cons x u)
        have x: "x = CHR ''}''" using "2.IH"(2) [OF \<open>s = c # t\<close> 4] r Cons by simp
        have len: "length r < length s" using l \<open>s = c # t\<close> t by (simp add: lexed_def) (metis length_tl less_Suc_eq_le diff_le_self le_trans)
        have "template acc out s = template [] ((TPunctuation, ''}'') # o1) u"
          using 4 r Cons len \<open>s = c # t\<close> by (subst template.simps) simp
        then show ?thesis
          using "2.IH"(3) [OF \<open>s = c # t\<close> 4 r [symmetric] Cons len] l arg_cong [OF t, of "\<lambda>v. token_text (rev out) @ acc @ CHR ''$'' # v"]
            Cons \<open>s = c # t\<close> 4 x
          by (simp add: lexed_def) linarith
      qed
    next
      case 5
      then have "template acc out s = template (acc @ [c]) out t" using Cons by (subst template.simps) auto
      then show ?thesis using "2.IH"(4) [OF Cons 5] Cons by (simp add: lexed_def)
    qed
  qed
qed

definition lexScript :: "string \<Rightarrow> token list" where
  "lexScript s = rev (fst (script False 0 [] s))"

lemma lexScript_text [simp]: "token_text (lexScript s) = s"
  using script_text(1) [of "[]" s False 0] by (auto simp: lexScript_def lexed_def)

section \<open>HTTP\<close>

definition rx_upper :: rx where "rx_upper = Cls is_ascii_upper"

definition rx_request_line :: "rx list" where
  "rx_request_line = [rx_plus rx_upper, rx_plus rx_space, rx_plus rx_nonspace, Star rx_any]"

definition rx_status_line :: "rx list" where
  "rx_status_line = [Seq (rx_lit ''HTTP/'') (rx_plus (Cls (\<lambda>c. is_digit c \<or> c = CHR ''.''))),
     rx_plus rx_space, rx_times 3 rx_digit, Star rx_any]"

definition header_char :: "char \<Rightarrow> bool" where
  "header_char c \<longleftrightarrow> is_ascii_upper c \<or> is_ascii_lower c \<or> is_digit c \<or> c = CHR ''-''"

definition rx_header_line :: "rx list" where
  "rx_header_line = [rx_plus (Cls header_char), rx_lit '':'', Star rx_any]"

definition rx_blank_line :: rx where
  "rx_blank_line = rx_seq [rx_opt (rx_lit [CHR 0x0D]), rx_lit [CHR 0x0A], rx_opt (rx_lit [CHR 0x0D]), rx_lit [CHR 0x0A]]"

definition http_plain :: "string \<Rightarrow> token list" where
  "http_plain line =
     (case rx_whole_groups rx_header_line line of
        Some [name, colon, rest] \<Rightarrow> (THeader, name) # (TPunctuation, colon) # shellInterpolated rest TString
      | _ \<Rightarrow> [(TPlain, line)])"

definition http_first :: "string \<Rightarrow> token list" where
  "http_first line =
     (case rx_whole_groups rx_status_line line of
        Some [v, sp, code, rest] \<Rightarrow> [(TPlain, v), (TPlain, sp), (TNumber, code), (TPlain, rest)]
      | _ \<Rightarrow> http_plain line)"

text \<open>The first line may be a request's or a status line, any line a header's.\<close>

definition http_line :: "bool \<Rightarrow> string \<Rightarrow> token list" where
  "http_line first line =
     (if \<not> first then http_plain line
      else case rx_whole_groups rx_request_line line of
          Some [m, sp, u, rest] \<Rightarrow>
            (if m \<in> set http_methods then [(TMethod, m), (TPlain, sp), (TUrl, u), (TPlain, rest)] else http_first line)
        | _ \<Rightarrow> http_first line)"

definition lexHttp :: "string \<Rightarrow> token list" where
  "lexHttp s =
     (let (head, body) = (case rx_find rx_blank_line s of Some (b, m, t) \<Rightarrow> (b, m @ t) | None \<Rightarrow> (s, []));
          lines = split_on (CHR 0x0A) head
      in http_line True (hd lines) @ concat (map (\<lambda>l. (TPlain, [CHR 0x0A]) # http_line False l) (tl lines)) @
         (if body = [] then []
          else (let lead = takeWhile js_ws body in (TPlain, lead) # lexJson (drop (length lead) body))))"

lemma groups_text: "rx_whole_groups rs s = Some ps \<Longrightarrow> concat ps = s"
  using rx_whole_groups_concat by blast

lemma http_plain_text: "token_text (http_plain l) = l"
  using groups_text [of rx_header_line l] by (auto simp: http_plain_def split: option.split list.split)

lemma http_first_text: "token_text (http_first l) = l"
  using groups_text [of rx_status_line l] http_plain_text [of l] by (auto simp: http_first_def split: option.split list.split)

lemma http_line_text: "token_text (http_line first l) = l"
  using groups_text [of rx_request_line l] http_plain_text [of l] http_first_text [of l]
  by (auto simp: http_line_def split: option.split list.split)

lemma http_lines_text:
  "token_text (concat (map (\<lambda>l. (TPlain, [c]) # http_line False l) ls)) = concat (map (\<lambda>l. c # l) ls)"
  by (induction ls) (simp_all add: http_line_text)

lemma join_Cons: "join_with [c] (x # xs) = x @ concat (map (\<lambda>l. c # l) xs)"
  by (induction xs arbitrary: x) simp_all

lemma lexHttp_text [simp]: "token_text (lexHttp s) = s"
proof -
  obtain h b where hb: "(case rx_find rx_blank_line s of Some (b, m, t) \<Rightarrow> (b, m @ t) | None \<Rightarrow> (s, [])) = (h, b)"
    by fastforce
  then have s: "s = h @ b" using rx_find_split [of rx_blank_line s] by (auto split: option.splits prod.splits)
  obtain l ls where l: "split_on (CHR 0x0A) h = l # ls" by (cases "split_on (CHR 0x0A) h") auto
  have "l @ concat (map (\<lambda>l. CHR 0x0A # l) ls) = h" using join_split [of "CHR 0x0A" h] l join_Cons by simp
  moreover have "takeWhile js_ws b @ drop (length (takeWhile js_ws b)) b = b"
    by (metis append_eq_conv_conj takeWhile_dropWhile_id)
  ultimately show ?thesis
    unfolding lexHttp_def hb Let_def prod.case l using s by (simp add: http_line_text http_lines_text)
qed

section \<open>The highlighter\<close>

definition highlight :: "string \<Rightarrow> code_lang \<Rightarrow> token list" where
  "highlight source lang = merge_tokens
     (case lang of
        JsonLang \<Rightarrow> lexJson source
      | Ts \<Rightarrow> lexScript source
      | Js \<Rightarrow> lexScript source
      | Curl \<Rightarrow> lexShell source
      | Shell \<Rightarrow> lexShell source
      | Http \<Rightarrow> lexHttp source
      | TextLang \<Rightarrow> [(TPlain, source)])"

definition langFromLabel :: "string \<Rightarrow> code_lang" where
  "langFromLabel label =
     (let head = js_lower (js_trim (hd (split_on (CHR 0xB7) label)))
      in if head = ''curl'' then Curl
         else if head = ''ts'' \<or> head = ''typescript'' then Ts
         else if head = ''js'' \<or> head = ''javascript'' then Js
         else if head = ''json'' then JsonLang
         else if head = ''bash'' \<or> head = ''shell'' \<or> head = ''sh'' then Shell
         else if head = ''http'' then Http
         else TextLang)"

definition contextFromLabel :: "string \<Rightarrow> string" where
  "contextFromLabel label =
     (let parts = split_on (CHR 0xB7) label
      in if length parts > 1 \<and> langFromLabel label \<noteq> TextLang then js_trim (join_with [CHR 0xB7] (tl parts)) else label)"

text \<open>A list of tokens as the page renders it: none empty, no two neighbours of one type.\<close>

fun canonical_tokens :: "token list \<Rightarrow> bool" where
  "canonical_tokens ((t, v) # (u, w) # ts) \<longleftrightarrow> v \<noteq> [] \<and> t \<noteq> u \<and> canonical_tokens ((u, w) # ts)"
| "canonical_tokens [(t, v)] \<longleftrightarrow> v \<noteq> []"
| "canonical_tokens [] \<longleftrightarrow> True"

lemma canonical_snoc:
  "canonical_tokens (ts @ [(u, w)]) \<longleftrightarrow> w \<noteq> [] \<and> canonical_tokens ts \<and> (ts = [] \<or> fst (last ts) \<noteq> u)"
  by (induction ts rule: canonical_tokens.induct) auto

lemma canonical_snoc2:
  "canonical_tokens (ts @ [(u, w), (t, v)]) \<longleftrightarrow> v \<noteq> [] \<and> u \<noteq> t \<and> canonical_tokens (ts @ [(u, w)])"
  using canonical_snoc [of "ts @ [(u, w)]" t v] by auto

lemma merge_into_spec:
  "canonical_tokens (rev out) \<Longrightarrow>
   canonical_tokens (merge_into out ts) \<and> token_text (merge_into out ts) = token_text (rev out) @ token_text ts"
proof (induction out ts rule: merge_into.induct)
  case (2 out t v ts)
  show ?case
  proof (cases "v = []")
    case True
    then show ?thesis using 2 by simp
  next
    case False
    show ?thesis
    proof (cases out)
      case Nil
      then show ?thesis using 2(2) [OF False Nil] False by (simp add: canonical_snoc)
    next
      case (Cons x q)
      obtain u w where x: "x = (u, w)" by fastforce
      show ?thesis
        using 2(3) [OF False Cons x [symmetric]] 2(4) [OF False Cons x [symmetric]] 2(5) Cons x False
        by (cases "u = t") (auto simp: canonical_snoc2 canonical_snoc last_rev)
    qed
  qed
qed simp

lemma merge_tokens_spec: "canonical_tokens (merge_tokens ts)" "token_text (merge_tokens ts) = token_text ts"
  using merge_into_spec [of "[]" ts] by (simp_all add: merge_tokens_def)

text \<open>An argument whose quote is not closed and that looks like JSON.\<close>

definition open_argument :: string where
  "open_argument = ''curl -d '' @ [CHR 0x27] @ ''[12''"


end
