(* ===== verification/RunScope.thy ===== *)
theory RunScope
  imports Prelude
begin

text \<open>
  What a validation journey owns, mapped to the accounts that carry its value
  (tools/lib/validation-resource-scope.mjs). The database is a parameter: a statement, named by what it
  asks and the quoted values it is given, has rows of texts as its answer, or fails with a message. A map
  or set of the source is a list in its insertion order, without repetition.
\<close>

section \<open>Ordered maps and sets\<close>

definition set_add :: "'a \<Rightarrow> 'a list \<Rightarrow> 'a list" where
  "set_add x xs = (if x \<in> set xs then xs else xs @ [x])"

fun group_add :: "'k \<Rightarrow> 'a \<Rightarrow> ('k \<times> 'a list) list \<Rightarrow> ('k \<times> 'a list) list" where
  "group_add k x [] = [(k, [x])]"
| "group_add k x ((l, xs) # m) = (if l = k then (l, set_add x xs) # m else (l, xs) # group_add k x m)"

lemma set_set_add [simp]: "set (set_add x xs) = insert x (set xs)"
  by (auto simp: set_add_def)

lemma distinct_set_add [simp]: "distinct (set_add x xs) = distinct xs"
  by (simp add: set_add_def)

definition grouped :: "('k \<times> 'a list) list \<Rightarrow> ('k \<times> 'a) set" where
  "grouped m = {(k, x). \<exists>xs. (k, xs) \<in> set m \<and> x \<in> set xs}"

lemma grouped_Nil [simp]: "grouped [] = {}"
  by (simp add: grouped_def)

lemma grouped_Cons: "grouped ((k, xs) # m) = Pair k ` set xs \<union> grouped m"
  by (auto simp: grouped_def)

lemma grouped_add [simp]: "grouped (group_add k x m) = insert (k, x) (grouped m)"
  by (induction k x m rule: group_add.induct) (auto simp: grouped_Cons)

section \<open>The registry\<close>

datatype scope = FINANCIAL | STRUCTURAL | CONDITIONAL | UNKNOWN_SCOPE

definition RESOURCE_SCOPE :: "(string \<times> scope) list" where
  "RESOURCE_SCOPE =
     [(''consumer'', FINANCIAL), (''business'', FINANCIAL), (''merchant'', FINANCIAL), (''test_payer'', FINANCIAL),
      (''wallet_account'', FINANCIAL), (''fixture_project'', CONDITIONAL), (''fixture_workspace'', STRUCTURAL),
      (''fixture_key'', STRUCTURAL), (''webhook_endpoint'', STRUCTURAL), (''merchant_application'', STRUCTURAL),
      (''payment_link'', STRUCTURAL), (''payment_session'', STRUCTURAL), (''rail_state'', STRUCTURAL)]"

text \<open>The kinds whose rows can be asked for apart from their accounts.\<close>

definition has_exists :: "string \<Rightarrow> bool" where
  "has_exists kind \<longleftrightarrow> kind = ''business'' \<or> kind = ''merchant''"

definition scopeOf :: "string \<Rightarrow> scope" where
  "scopeOf kind = (case map_of RESOURCE_SCOPE (js_lower kind) of Some s \<Rightarrow> s | None \<Rightarrow> UNKNOWN_SCOPE)"

definition mayBeFinancial :: "string \<Rightarrow> bool" where
  "mayBeFinancial kind \<longleftrightarrow> scopeOf kind \<in> {FINANCIAL, CONDITIONAL}"

text \<open>A text as a literal of a statement.\<close>

definition sql_escape :: "char \<Rightarrow> string" where
  "sql_escape c = (if c = CHR 0x27 then [CHR 0x27, CHR 0x27] else [c])"

definition lit :: "string \<Rightarrow> string" where
  "lit v = CHR 0x27 # concat (map sql_escape v) @ [CHR 0x27]"

definition lits :: "string list \<Rightarrow> string" where
  "lits ids = join_with '','' (map lit ids)"

section \<open>The database\<close>

datatype statement =
    AskCondition string string
  | AskAccounts string string
  | AskExists string string
  | AskProbe string string "string option"

type_synonym row = "string \<times> string"
type_synonym database = "statement \<Rightarrow> string + row list"

record owned =
  ow_kind :: string
  ow_id :: string

text \<open>A structural scope_entry, an unresolved or an unknown one; an account that was resolved.\<close>

type_synonym scope_entry = "string \<times> string"
type_synonym resolved = "string \<times> string \<times> string"

section \<open>Resolving a manifest\<close>

datatype scope_verdict = RESOLVED | UNKNOWN_ACCOUNTS

record counts =
  ct_owned :: nat
  ct_financial :: nat
  ct_structural :: nat
  ct_unknown :: nat
  ct_accounts :: nat

record scope_result =
  sr_verdict :: scope_verdict
  sr_accounts :: "string list"
  sr_resolved :: "resolved list"
  sr_structural :: "scope_entry list"
  sr_unresolved :: "scope_entry list"
  sr_unknownKinds :: "scope_entry list"
  sr_counts :: counts
  sr_detail :: string

record scope_state =
  sc_byKind :: "(string \<times> string list) list"
  sc_conditional :: "(string \<times> string list) list"
  sc_unknown :: "scope_entry list"
  sc_structural :: "scope_entry list"
  sc_accounts :: "string list"
  sc_resolved :: "resolved list"
  sc_unresolved :: "scope_entry list"

definition new_scope :: scope_state where
  "new_scope = \<lparr> sc_byKind = [], sc_conditional = [], sc_unknown = [], sc_structural = [], sc_accounts = [],
     sc_resolved = [], sc_unresolved = [] \<rparr>"

definition classify_owned :: "owned \<Rightarrow> scope_state \<Rightarrow> scope_state" where
  "classify_owned r s =
     (let kind = js_lower (ow_kind r); ident = js_lower (ow_id r)
      in case map_of RESOURCE_SCOPE kind of
           Some STRUCTURAL \<Rightarrow> s\<lparr>sc_structural := sc_structural s @ [(kind, ow_id r)]\<rparr>
         | Some CONDITIONAL \<Rightarrow> s\<lparr>sc_conditional := group_add kind ident (sc_conditional s)\<rparr>
         | Some _ \<Rightarrow> s\<lparr>sc_byKind := group_add kind ident (sc_byKind s)\<rparr>
         | None \<Rightarrow> s\<lparr>sc_unknown := sc_unknown s @ [(kind, ow_id r)]\<rparr>)"

text \<open>Which of the conditional ones are financial is asked of the schema.\<close>

definition bind_ids :: "string \<Rightarrow> string list \<Rightarrow> string list \<Rightarrow> scope_state \<Rightarrow> scope_state" where
  "bind_ids kind bound ids s =
     foldl (\<lambda>s ident. if ident \<in> set bound then s\<lparr>sc_byKind := group_add kind ident (sc_byKind s)\<rparr>
                  else s\<lparr>sc_structural := sc_structural s @ [(kind, ident)]\<rparr>) s ids"

fun ask_conditions :: "database \<Rightarrow> (string \<times> string list) list \<Rightarrow> scope_state \<Rightarrow> (string \<times> scope_state) + scope_state" where
  "ask_conditions sql [] s = Inr s"
| "ask_conditions sql ((kind, ids) # m) s =
     (case sql (AskCondition kind (lits ids)) of
        Inl e \<Rightarrow> Inl (''could not establish whether '' @ kind @ '' is financial: '' @ take 100 e, s)
      | Inr rows \<Rightarrow> ask_conditions sql m (bind_ids kind (map (\<lambda>r. js_lower (fst r)) rows) ids s))"

definition add_rows :: "string \<Rightarrow> row list \<Rightarrow> scope_state \<Rightarrow> scope_state" where
  "add_rows kind rows s =
     (let rs = filter (\<lambda>r. snd r \<noteq> []) rows
      in s\<lparr>sc_accounts := foldl (\<lambda>a r. set_add (snd r) a) (sc_accounts s) rs,
           sc_resolved := sc_resolved s @ map (\<lambda>r. (kind, fst r, snd r)) rs\<rparr>)"

definition missing_ids :: "string \<Rightarrow> row list \<Rightarrow> string list \<Rightarrow> scope_state \<Rightarrow> string list" where
  "missing_ids kind rows ids s =
     (let seen = map (\<lambda>r. js_lower (fst r)) (filter (\<lambda>r. snd r \<noteq> []) rows)
      in filter (\<lambda>ident. ident \<notin> set seen \<and> \<not> list_ex (\<lambda>(k, i, _). k = kind \<and> js_lower i = ident) (sc_resolved s)) ids)"

definition place_missing :: "string \<Rightarrow> string list \<Rightarrow> string list \<Rightarrow> scope_state \<Rightarrow> scope_state" where
  "place_missing kind present missing s =
     foldl (\<lambda>s ident. if ident \<in> set present then s\<lparr>sc_structural := sc_structural s @ [(kind, ident)]\<rparr>
                  else s\<lparr>sc_unresolved := sc_unresolved s @ [(kind, ident)]\<rparr>) s missing"

fun ask_accounts :: "database \<Rightarrow> (string \<times> string list) list \<Rightarrow> scope_state \<Rightarrow> (string \<times> scope_state) + scope_state" where
  "ask_accounts sql [] s = Inr s"
| "ask_accounts sql ((kind, ids) # m) s =
     (case sql (AskAccounts kind (lits ids)) of
        Inl e \<Rightarrow> Inl (''resolving '' @ kind @ '': '' @ take 120 e, s)
      | Inr rows \<Rightarrow>
          (let s1 = add_rows kind rows s; missing = missing_ids kind rows ids s1
           in if missing \<noteq> [] \<and> has_exists kind then
                (case sql (AskExists kind (lits missing)) of
                   Inl e \<Rightarrow> Inl (''could not establish whether '' @ kind @ '' exists: '' @ take 100 e, s1)
                 | Inr present \<Rightarrow>
                     ask_accounts sql m (place_missing kind (map (\<lambda>r. js_lower (fst r)) present) missing s1))
              else ask_accounts sql m (place_missing kind [] missing s1)))"

definition unknownResult :: "string \<Rightarrow> scope_state \<Rightarrow> scope_result" where
  "unknownResult detail s =
     \<lparr> sr_verdict = UNKNOWN_ACCOUNTS, sr_accounts = sc_accounts s, sr_resolved = sc_resolved s,
       sr_structural = sc_structural s, sr_unresolved = sc_unresolved s, sr_unknownKinds = sc_unknown s,
       sr_counts = \<lparr> ct_owned = length (sc_resolved s) + length (sc_structural s) + length (sc_unknown s),
         ct_financial = length (sc_resolved s), ct_structural = length (sc_structural s),
         ct_unknown = length (sc_unknown s) + length (sc_unresolved s), ct_accounts = length (sc_accounts s) \<rparr>,
       sr_detail = detail \<rparr>"

text \<open>When a statement fails only what is structural or unknown is reported.\<close>

definition failed_scope :: "string \<times> scope_state \<Rightarrow> scope_result" where
  "failed_scope x = unknownResult (fst x) ((snd x)\<lparr>sc_accounts := [], sc_resolved := [], sc_unresolved := []\<rparr>)"

definition unclassified_text :: "scope_state \<Rightarrow> string list" where
  "unclassified_text s =
     (if sc_unknown s = [] then [] else
        [nat_str (length (sc_unknown s)) @ '' unclassified resource type(s): '' @
         join_with '','' (foldl (\<lambda>a k. set_add k a) [] (map fst (sc_unknown s)))]) @
     (if sc_unresolved s = [] then [] else
        [nat_str (length (sc_unresolved s)) @ '' financial resource(s) mapped to no account: '' @
         join_with '','' (map fst (sc_unresolved s))])"

definition resolveFinancialAccounts :: "owned list \<Rightarrow> database \<Rightarrow> scope_result" where
  "resolveFinancialAccounts owned sql =
     (let s0 = foldl (\<lambda>s r. classify_owned r s) new_scope owned
      in case ask_conditions sql (sc_conditional s0) s0 of
           Inl x \<Rightarrow> failed_scope x
         | Inr s1 \<Rightarrow>
             (case ask_accounts sql (sc_byKind s1) s1 of
                Inl x \<Rightarrow> failed_scope x
              | Inr s \<Rightarrow>
                  (if sc_unknown s \<noteq> [] \<or> sc_unresolved s \<noteq> [] then unknownResult (join_with ''; '' (unclassified_text s)) s
                   else \<lparr> sr_verdict = RESOLVED, sr_accounts = sc_accounts s, sr_resolved = sc_resolved s,
                     sr_structural = sc_structural s, sr_unresolved = [], sr_unknownKinds = [],
                     sr_counts = \<lparr> ct_owned = length owned, ct_financial = length (sc_resolved s),
                       ct_structural = length (sc_structural s), ct_unknown = 0, ct_accounts = length (sc_accounts s) \<rparr>,
                     sr_detail = nat_str (length (sc_accounts s)) @ '' account(s) from '' @ nat_str (length (sc_resolved s)) @
                       '' financial resource(s); '' @ nat_str (length (sc_structural s)) @ '' structural'' \<rparr>)))"

section \<open>Completeness\<close>

record fundable_probe =
  fp_container :: string
  fp_missing :: string

definition COMPLETENESS_PROBES :: "fundable_probe list" where
  "COMPLETENESS_PROBES =
     \<lparr> fp_container = ''fixture_project'', fp_missing = ''test_payer'' \<rparr> #
     map (\<lambda>c. \<lparr> fp_container = c, fp_missing = ''wallet_account'' \<rparr>) [''merchant'', ''business'']"

record gap =
  gp_kind :: string
  gp_id :: string
  gp_container :: string
  gp_containerKind :: string

datatype completeness = VERIFIED | INCOMPLETE "gap list" string | UNKNOWN_COMPLETENESS string

definition owned_by_kind :: "owned list \<Rightarrow> (string \<times> string list) list" where
  "owned_by_kind owned = foldl (\<lambda>m r. group_add (js_lower (ow_kind r)) (js_lower (ow_id r)) m) [] owned"

definition declares :: "owned list \<Rightarrow> string \<Rightarrow> string \<Rightarrow> bool" where
  "declares owned kind ref \<longleftrightarrow>
     list_ex (\<lambda>r. js_lower (ow_kind r) @ '':'' @ js_lower (ow_id r) = kind @ '':'' @ ref) owned \<or>
     list_ex (\<lambda>r. js_lower (ow_id r) = ref) owned"

definition probe_gaps :: "owned list \<Rightarrow> fundable_probe \<Rightarrow> row list \<Rightarrow> gap list" where
  "probe_gaps owned p rows =
     map (\<lambda>(i, c). \<lparr> gp_kind = fp_missing p, gp_id = i, gp_container = c, gp_containerKind = fp_container p \<rparr>)
       (filter (\<lambda>(i, c). \<not> declares owned (fp_missing p) (js_lower i)) rows)"

fun ask_probes :: "database \<Rightarrow> string option \<Rightarrow> owned list \<Rightarrow> fundable_probe list \<Rightarrow> string + gap list" where
  "ask_probes sql since owned [] = Inr []"
| "ask_probes sql since owned (p # ps) =
     (case map_of (owned_by_kind owned) (fp_container p) of
        None \<Rightarrow> ask_probes sql since owned ps
      | Some ids \<Rightarrow>
          (case sql (AskProbe (fp_container p) (lits ids) (map_option lit since)) of
             Inl e \<Rightarrow> Inl (''could not probe '' @ fp_container p @ '' for '' @ fp_missing p @ '': '' @ take 100 e)
           | Inr rows \<Rightarrow>
               (case ask_probes sql since owned ps of
                  Inl e \<Rightarrow> Inl e
                | Inr gs \<Rightarrow> Inr (probe_gaps owned p rows @ gs))))"

definition ellipsis :: string where
  "ellipsis = [CHR 0xE2, CHR 0x80, CHR 0xA6]"

definition gap_text :: "gap \<Rightarrow> string" where
  "gap_text g = gp_kind g @ '' under '' @ gp_containerKind g @ '' '' @ take 8 (gp_container g) @ ellipsis"

text \<open>The moment is a text; the empty one counts as none.\<close>

definition ownershipCompleteness :: "owned list \<Rightarrow> database \<Rightarrow> string option \<Rightarrow> completeness" where
  "ownershipCompleteness owned sql since =
     (case ask_probes sql (if since = Some [] then None else since) owned COMPLETENESS_PROBES of
        Inl e \<Rightarrow> UNKNOWN_COMPLETENESS e
      | Inr [] \<Rightarrow> VERIFIED
      | Inr gaps \<Rightarrow> INCOMPLETE gaps (nat_str (length gaps) @
          '' created resource(s) the manifest never declared: '' @ join_with '', '' (map gap_text gaps)))"

section \<open>Literals\<close>

text \<open>A literal read as a database reads it: an escaped quote stands for one, another one ends it.\<close>

fun read_literal :: "string \<Rightarrow> string \<Rightarrow> (string \<times> string) option" where
  "read_literal acc [] = None"
| "read_literal acc (c # cs) =
     (if c \<noteq> CHR 0x27 then read_literal (acc @ [c]) cs
      else (case cs of
              [] \<Rightarrow> Some (acc, [])
            | d # ds \<Rightarrow> if d = CHR 0x27 then read_literal (acc @ [CHR 0x27]) ds else Some (acc, cs)))"

lemma read_literal_escaped:
  assumes "rest = [] \<or> hd rest \<noteq> CHR 0x27"
  shows "read_literal acc (concat (map sql_escape v) @ CHR 0x27 # rest) = Some (acc @ v, rest)"
  using assms
proof (induction v arbitrary: acc)
  case Nil
  then show ?case by (cases rest) auto
next
  case (Cons c v)
  then show ?case by (simp add: sql_escape_def)
qed

section \<open>What a resolved manifest says\<close>

definition grouped_has :: "(string \<times> string list) list \<Rightarrow> string \<Rightarrow> string \<Rightarrow> bool" where
  "grouped_has m k i \<longleftrightarrow> (k, i) \<in> grouped m"

definition structural_because :: "database \<Rightarrow> scope_entry \<Rightarrow> bool" where
  "structural_because sql e \<longleftrightarrow>
     map_of RESOURCE_SCOPE (fst e) = Some STRUCTURAL \<or>
     (map_of RESOURCE_SCOPE (fst e) = Some CONDITIONAL \<and>
       (\<exists>ids rows. sql (AskCondition (fst e) (lits ids)) = Inr rows \<and> snd e \<in> set ids \<and>
          (\<forall>r \<in> set rows. js_lower (fst r) \<noteq> snd e))) \<or>
     (has_exists (fst e) \<and>
       (\<exists>ids rows. sql (AskExists (fst e) (lits ids)) = Inr rows \<and> snd e \<in> set ids \<and>
          (\<exists>r \<in> set rows. js_lower (fst r) = snd e)))"

definition account_read :: "database \<Rightarrow> resolved \<Rightarrow> bool" where
  "account_read sql x \<longleftrightarrow>
     (case x of (k, i, a) \<Rightarrow> a \<noteq> [] \<and> (\<exists>ids rows. sql (AskAccounts k (lits ids)) = Inr rows \<and> (i, a) \<in> set rows))"

definition scope_inv :: "database \<Rightarrow> scope_state \<Rightarrow> bool" where
  "scope_inv sql s \<longleftrightarrow>
     (\<forall>e \<in> set (sc_structural s). structural_because sql e) \<and> (\<forall>x \<in> set (sc_resolved s). account_read sql x) \<and>
     distinct (sc_accounts s) \<and> set (sc_accounts s) = (\<lambda>(k, i, a). a) ` set (sc_resolved s)"

definition has_account :: "scope_state \<Rightarrow> string \<Rightarrow> string \<Rightarrow> bool" where
  "has_account s k i \<longleftrightarrow> (\<exists>j a. (k, j, a) \<in> set (sc_resolved s) \<and> js_lower j = i)"

definition settled :: "scope_state \<Rightarrow> string \<Rightarrow> string \<Rightarrow> bool" where
  "settled s k i \<longleftrightarrow> has_account s k i \<or> (k, i) \<in> set (sc_structural s) \<or> (k, i) \<in> set (sc_unresolved s)"

lemma settled_mono:
  assumes "settled s k i" "set (sc_resolved s) \<subseteq> set (sc_resolved t)" "set (sc_structural s) \<subseteq> set (sc_structural t)"
    "set (sc_unresolved s) \<subseteq> set (sc_unresolved t)"
  shows "settled t k i"
  using assms by (fastforce simp: settled_def has_account_def)

lemma bind_ids_fields:
  "sc_unknown (bind_ids k b ids s) = sc_unknown s \<and> sc_resolved (bind_ids k b ids s) = sc_resolved s \<and>
   sc_unresolved (bind_ids k b ids s) = sc_unresolved s \<and> sc_accounts (bind_ids k b ids s) = sc_accounts s \<and>
   sc_conditional (bind_ids k b ids s) = sc_conditional s \<and>
   grouped (sc_byKind (bind_ids k b ids s)) = grouped (sc_byKind s) \<union> Pair k ` (set ids \<inter> set b) \<and>
   set (sc_structural (bind_ids k b ids s)) = set (sc_structural s) \<union> Pair k ` (set ids - set b)"
  unfolding bind_ids_def by (induction ids arbitrary: s) auto

lemma place_missing_fields:
  "sc_unknown (place_missing k p ids s) = sc_unknown s \<and> sc_resolved (place_missing k p ids s) = sc_resolved s \<and>
   sc_accounts (place_missing k p ids s) = sc_accounts s \<and> sc_byKind (place_missing k p ids s) = sc_byKind s \<and>
   set (sc_unresolved (place_missing k p ids s)) = set (sc_unresolved s) \<union> Pair k ` (set ids - set p) \<and>
   set (sc_structural (place_missing k p ids s)) = set (sc_structural s) \<union> Pair k ` (set ids \<inter> set p)"
  unfolding place_missing_def by (induction ids arbitrary: s) auto

lemma foldl_set_add: "set (foldl (\<lambda>a r. set_add (f r) a) a rs) = set a \<union> f ` set rs"
  by (induction rs arbitrary: a) auto

lemma foldl_set_add_distinct: "distinct (foldl (\<lambda>a r. set_add (f r) a) a rs) = distinct a"
  by (induction rs arbitrary: a) auto

lemma add_rows_fields:
  "sc_unknown (add_rows k rows s) = sc_unknown s \<and> sc_unresolved (add_rows k rows s) = sc_unresolved s \<and>
   sc_structural (add_rows k rows s) = sc_structural s \<and>
   set (sc_resolved (add_rows k rows s)) = set (sc_resolved s) \<union> {(k, i, a) |i a. (i, a) \<in> set rows \<and> a \<noteq> []} \<and>
   set (sc_accounts (add_rows k rows s)) = set (sc_accounts s) \<union> {a. a \<noteq> [] \<and> (\<exists>i. (i, a) \<in> set rows)} \<and>
   distinct (sc_accounts (add_rows k rows s)) = distinct (sc_accounts s)"
  by (auto simp: add_rows_def Let_def foldl_set_add foldl_set_add_distinct image_iff)

lemma add_rows_resolved:
  "(k', i, a) \<in> set (sc_resolved (add_rows k rows s)) \<longleftrightarrow>
     (k', i, a) \<in> set (sc_resolved s) \<or> (k' = k \<and> (i, a) \<in> set rows \<and> a \<noteq> [])"
  using add_rows_fields [of k rows s] by auto

lemma add_rows_inv:
  assumes inv: "scope_inv sql s" and ask: "sql (AskAccounts k (lits ids)) = Inr rows"
  shows "scope_inv sql (add_rows k rows s)"
proof -
  have "account_read sql x" if "x \<in> set (sc_resolved (add_rows k rows s))" for x
  proof -
    obtain k' i a where x: "x = (k', i, a)" by (cases x)
    show ?thesis
    proof (cases "(k', i, a) \<in> set (sc_resolved s)")
      case True
      then show ?thesis using inv x by (simp add: scope_inv_def)
    next
      case False
      then have "k' = k \<and> (i, a) \<in> set rows \<and> a \<noteq> []" using that x by (simp add: add_rows_resolved)
      then show ?thesis using ask x unfolding account_read_def by auto
    qed
  qed
  moreover have "set (sc_accounts (add_rows k rows s)) = (\<lambda>(k, i, a). a) ` set (sc_resolved (add_rows k rows s))"
  proof -
    have "(\<lambda>(k, i, a). a) ` {(k, i, a) |i a. (i, a) \<in> set rows \<and> a \<noteq> []} = {a. a \<noteq> [] \<and> (\<exists>i. (i, a) \<in> set rows)}"
      by (auto simp: image_iff)
    then show ?thesis using inv add_rows_fields [of k rows s] by (simp add: scope_inv_def image_Un)
  qed
  ultimately show ?thesis using inv add_rows_fields [of k rows s] by (simp add: scope_inv_def)
qed

lemma missing_ids_have:
  assumes "i \<in> set ids" "i \<notin> set (missing_ids k rows ids (add_rows k rows s))"
  shows "has_account (add_rows k rows s) k i"
proof -
  from assms have "(\<exists>j a. (j, a) \<in> set rows \<and> a \<noteq> [] \<and> js_lower j = i) \<or> has_account (add_rows k rows s) k i"
    unfolding missing_ids_def Let_def has_account_def list_ex_iff by auto blast
  then show ?thesis unfolding has_account_def add_rows_resolved by blast
qed

lemma missing_ids_sub: "set (missing_ids k rows ids s) \<subseteq> set ids"
  by (auto simp: missing_ids_def Let_def)
lemma bind_ids_inv:
  assumes inv: "scope_inv sql s" and ask: "sql (AskCondition k (lits ids)) = Inr rows"
    and cond: "map_of RESOURCE_SCOPE k = Some CONDITIONAL"
  shows "scope_inv sql (bind_ids k (map (\<lambda>r. js_lower (fst r)) rows) ids s)"
proof -
  let ?b = "map (\<lambda>r. js_lower (fst r)) rows"
  have "structural_because sql e" if "e \<in> set (sc_structural (bind_ids k ?b ids s))" for e
  proof (cases "e \<in> set (sc_structural s)")
    case True
    then show ?thesis using inv by (simp add: scope_inv_def)
  next
    case False
    then have "e \<in> Pair k ` (set ids - set ?b)" using that bind_ids_fields [of k ?b ids s] by simp
    then obtain i where "e = (k, i)" "i \<in> set ids" "i \<notin> set ?b" by blast
    then show ?thesis using cond ask unfolding structural_because_def by fastforce
  qed
  then show ?thesis using inv bind_ids_fields [of k ?b ids s] by (simp add: scope_inv_def)
qed

lemma place_missing_inv:
  assumes inv: "scope_inv sql s"
    and ask: "\<And>i. i \<in> set ids \<Longrightarrow> i \<in> set p \<Longrightarrow> structural_because sql (k, i)"
  shows "scope_inv sql (place_missing k p ids s)"
proof -
  have "structural_because sql e" if "e \<in> set (sc_structural (place_missing k p ids s))" for e
    using that inv ask place_missing_fields [of k p ids s] by (auto simp: scope_inv_def)
  then show ?thesis using inv place_missing_fields [of k p ids s] by (simp add: scope_inv_def)
qed

text \<open>One kind of the financial ones, once its statements are answered.\<close>

definition place_kind :: "string \<Rightarrow> row list \<Rightarrow> string list \<Rightarrow> string list \<Rightarrow> scope_state \<Rightarrow> scope_state" where
  "place_kind k rows p ids s = place_missing k p (missing_ids k rows ids (add_rows k rows s)) (add_rows k rows s)"

lemma place_kind_grows:
  "set (sc_resolved s) \<subseteq> set (sc_resolved (place_kind k rows p ids s)) \<and>
   set (sc_structural s) \<subseteq> set (sc_structural (place_kind k rows p ids s)) \<and>
   set (sc_unresolved s) \<subseteq> set (sc_unresolved (place_kind k rows p ids s)) \<and>
   sc_unknown (place_kind k rows p ids s) = sc_unknown s"
  using place_missing_fields [of k p "missing_ids k rows ids (add_rows k rows s)" "add_rows k rows s"]
    add_rows_fields [of k rows s] unfolding place_kind_def by auto

lemma place_kind_settles:
  assumes "i \<in> set ids"
  shows "settled (place_kind k rows p ids s) k i"
proof (cases "i \<in> set (missing_ids k rows ids (add_rows k rows s))")
  case True
  then show ?thesis
    using place_missing_fields [of k p "missing_ids k rows ids (add_rows k rows s)" "add_rows k rows s"]
    unfolding place_kind_def settled_def by auto
next
  case False
  then have "has_account (add_rows k rows s) k i" using assms missing_ids_have by blast
  then show ?thesis
    using place_missing_fields [of k p "missing_ids k rows ids (add_rows k rows s)" "add_rows k rows s"]
    unfolding place_kind_def settled_def has_account_def by simp
qed

lemma ask_accounts_step:
  assumes "ask_accounts sql ((k, ids) # m) s = Inr t"
  obtains rows p where "sql (AskAccounts k (lits ids)) = Inr rows" "ask_accounts sql m (place_kind k rows p ids s) = Inr t"
    "p = [] \<or> (has_exists k \<and> (\<exists>there. sql (AskExists k (lits (missing_ids k rows ids (add_rows k rows s)))) = Inr there \<and>
       p = map (\<lambda>r. js_lower (fst r)) there))"
  using assms that unfolding place_kind_def
  by (auto simp: Let_def split: sum.splits if_splits)

lemma ask_accounts_grows:
  "ask_accounts sql m s = Inr t \<Longrightarrow>
     set (sc_resolved s) \<subseteq> set (sc_resolved t) \<and> set (sc_structural s) \<subseteq> set (sc_structural t) \<and>
     set (sc_unresolved s) \<subseteq> set (sc_unresolved t) \<and> sc_unknown t = sc_unknown s"
proof (induction m arbitrary: s)
  case Nil
  then show ?case by simp
next
  case (Cons km m)
  obtain k ids where km: "km = (k, ids)" by (cases km)
  from Cons.prems [unfolded km] obtain rows p where t: "ask_accounts sql m (place_kind k rows p ids s) = Inr t"
    by (rule ask_accounts_step)
  show ?case using Cons.IH [OF t] place_kind_grows [of s k rows p ids] by auto
qed

lemma ask_accounts_settles:
  "ask_accounts sql m s = Inr t \<Longrightarrow> (k, i) \<in> grouped m \<Longrightarrow> settled t k i"
proof (induction m arbitrary: s)
  case Nil
  then show ?case by simp
next
  case (Cons km m)
  obtain k' ids where km: "km = (k', ids)" by (cases km)
  from Cons.prems(1) [unfolded km] obtain rows p where t: "ask_accounts sql m (place_kind k' rows p ids s) = Inr t"
    by (rule ask_accounts_step)
  show ?case
  proof (cases "(k, i) \<in> grouped m")
    case True
    then show ?thesis using Cons.IH t by blast
  next
    case False
    then have "k = k'" "i \<in> set ids" using Cons.prems(2) km by (auto simp: grouped_Cons)
    then show ?thesis using settled_mono place_kind_settles ask_accounts_grows [OF t] by blast
  qed
qed

lemma ask_accounts_inv:
  "ask_accounts sql m s = Inr t \<Longrightarrow> scope_inv sql s \<Longrightarrow> scope_inv sql t"
proof (induction m arbitrary: s)
  case Nil
  then show ?case by simp
next
  case (Cons km m)
  obtain k ids where km: "km = (k, ids)" by (cases km)
  from Cons.prems(1) [unfolded km] obtain rows p where
    rows: "sql (AskAccounts k (lits ids)) = Inr rows" and t: "ask_accounts sql m (place_kind k rows p ids s) = Inr t" and
    p: "p = [] \<or> (has_exists k \<and> (\<exists>there. sql (AskExists k (lits (missing_ids k rows ids (add_rows k rows s)))) = Inr there \<and>
       p = map (\<lambda>r. js_lower (fst r)) there))" by (rule ask_accounts_step)
  have "structural_because sql (k, i)" if i: "i \<in> set (missing_ids k rows ids (add_rows k rows s))" "i \<in> set p" for i
  proof -
    obtain there where there: "has_exists k" "sql (AskExists k (lits (missing_ids k rows ids (add_rows k rows s)))) = Inr there"
      "i \<in> (\<lambda>r. js_lower (fst r)) ` set there" using p i(2) by auto
    then have "\<exists>r \<in> set there. js_lower (fst r) = i" by blast
    then show ?thesis using there(1,2) i(1) unfolding structural_because_def fst_conv snd_conv by blast
  qed
  then have "scope_inv sql (place_kind k rows p ids s)"
    unfolding place_kind_def by (intro place_missing_inv add_rows_inv [OF Cons.prems(2) rows])
  then show ?case using Cons.IH t by blast
qed

lemma ask_conditions_grows:
  "ask_conditions sql m s = Inr t \<Longrightarrow>
     grouped (sc_byKind s) \<subseteq> grouped (sc_byKind t) \<and> set (sc_structural s) \<subseteq> set (sc_structural t) \<and>
     sc_unknown t = sc_unknown s \<and> sc_unresolved t = sc_unresolved s"
proof (induction m arbitrary: s)
  case Nil
  then show ?case by simp
next
  case (Cons km m)
  obtain k ids where km: "km = (k, ids)" by (cases km)
  with Cons.prems obtain rows :: "row list" where
    t: "ask_conditions sql m (bind_ids k (map (\<lambda>r. js_lower (fst r)) rows) ids s) = Inr t"
    by (auto split: sum.splits)
  show ?case using Cons.IH [OF t] bind_ids_fields [of k "map (\<lambda>r. js_lower (fst r)) rows" ids s] by auto
qed

lemma ask_conditions_places:
  "ask_conditions sql m s = Inr t \<Longrightarrow> (k, i) \<in> grouped m \<Longrightarrow>
     (k, i) \<in> grouped (sc_byKind t) \<or> (k, i) \<in> set (sc_structural t)"
proof (induction m arbitrary: s)
  case Nil
  then show ?case by simp
next
  case (Cons km m)
  obtain k' ids where km: "km = (k', ids)" by (cases km)
  with Cons.prems(1) obtain rows :: "row list" where
    t: "ask_conditions sql m (bind_ids k' (map (\<lambda>r. js_lower (fst r)) rows) ids s) = Inr t"
    by (auto split: sum.splits)
  show ?case
  proof (cases "(k, i) \<in> grouped m")
    case True
    then show ?thesis using Cons.IH t by blast
  next
    case False
    then have "k = k'" "i \<in> set ids" using Cons.prems(2) km by (auto simp: grouped_Cons)
    then show ?thesis
      using bind_ids_fields [of k' "map (\<lambda>r. js_lower (fst r)) rows" ids s] ask_conditions_grows [OF t] by blast
  qed
qed

lemma ask_conditions_inv:
  "ask_conditions sql m s = Inr t \<Longrightarrow> scope_inv sql s \<Longrightarrow>
     (\<forall>k i. (k, i) \<in> grouped m \<longrightarrow> map_of RESOURCE_SCOPE k = Some CONDITIONAL) \<Longrightarrow>
     list_all (\<lambda>x. snd x \<noteq> []) m \<Longrightarrow> scope_inv sql t"
proof (induction m arbitrary: s)
  case Nil
  then show ?case by simp
next
  case (Cons km m)
  obtain k ids where km: "km = (k, ids)" by (cases km)
  with Cons.prems(1) obtain rows where rows: "sql (AskCondition k (lits ids)) = Inr rows" and
    t: "ask_conditions sql m (bind_ids k (map (\<lambda>r. js_lower (fst r)) rows) ids s) = Inr t"
    by (auto split: sum.splits)
  have "hd ids \<in> set ids" using Cons.prems(4) km by simp
  then have "(k, hd ids) \<in> grouped (km # m)" using km by (simp add: grouped_Cons)
  then have "map_of RESOURCE_SCOPE k = Some CONDITIONAL" using Cons.prems(3) by blast
  then have "scope_inv sql (bind_ids k (map (\<lambda>r. js_lower (fst r)) rows) ids s)"
    using bind_ids_inv [OF Cons.prems(2) rows] by blast
  then show ?case using Cons.IH [OF t] Cons.prems(3,4) km by (auto simp: grouped_Cons)
qed

text \<open>Sorting the owned ones: what each of them becomes.\<close>

definition classified :: "scope_state \<Rightarrow> owned \<Rightarrow> bool" where
  "classified s r \<longleftrightarrow>
     (case map_of RESOURCE_SCOPE (js_lower (ow_kind r)) of
        Some STRUCTURAL \<Rightarrow> (js_lower (ow_kind r), ow_id r) \<in> set (sc_structural s)
      | Some CONDITIONAL \<Rightarrow> (js_lower (ow_kind r), js_lower (ow_id r)) \<in> grouped (sc_conditional s)
      | Some _ \<Rightarrow> (js_lower (ow_kind r), js_lower (ow_id r)) \<in> grouped (sc_byKind s)
      | None \<Rightarrow> (js_lower (ow_kind r), ow_id r) \<in> set (sc_unknown s))"

definition sorted_inv :: "database \<Rightarrow> scope_state \<Rightarrow> bool" where
  "sorted_inv sql s \<longleftrightarrow> scope_inv sql s \<and> sc_unresolved s = [] \<and>
     (\<forall>k i. (k, i) \<in> grouped (sc_conditional s) \<longrightarrow> map_of RESOURCE_SCOPE k = Some CONDITIONAL) \<and>
     list_all (\<lambda>x. snd x \<noteq> []) (sc_conditional s)"

lemma set_add_nonempty: "set_add x xs \<noteq> []"
  by (auto simp: set_add_def)

lemma group_add_nonempty: "list_all (\<lambda>x. snd x \<noteq> []) m \<Longrightarrow> list_all (\<lambda>x. snd x \<noteq> []) (group_add k i m)"
  by (induction k i m rule: group_add.induct) (auto simp: set_add_nonempty)

lemma classify_owned_inv: "sorted_inv sql s \<Longrightarrow> sorted_inv sql (classify_owned r s)"
  unfolding sorted_inv_def scope_inv_def classify_owned_def Let_def structural_because_def
  by (auto simp: group_add_nonempty split: option.split scope.split)

lemma classify_owned_keeps: "classified s q \<Longrightarrow> classified (classify_owned r s) q"
  unfolding classified_def classify_owned_def Let_def by (auto split: option.splits scope.splits)

lemma classify_owned_classifies: "classified (classify_owned r s) r"
  unfolding classified_def classify_owned_def Let_def by (auto split: option.split scope.split)
definition sorted_scope :: "owned list \<Rightarrow> scope_state" where
  "sorted_scope owned = foldl (\<lambda>s r. classify_owned r s) new_scope owned"

lemma foldl_classify:
  "sorted_inv sql s \<Longrightarrow> sorted_inv sql (foldl (\<lambda>s r. classify_owned r s) s rs) \<and>
     (\<forall>r. classified s r \<or> r \<in> set rs \<longrightarrow> classified (foldl (\<lambda>s r. classify_owned r s) s rs) r)"
proof (induction rs arbitrary: s)
  case Nil
  then show ?case by simp
next
  case (Cons q rs)
  show ?case using Cons.IH [OF classify_owned_inv [OF Cons.prems, of q]] classify_owned_keeps classify_owned_classifies
    by (metis foldl_Cons set_ConsD)
qed

lemma sorted_scope_inv: "sorted_inv sql (sorted_scope owned)"
  unfolding sorted_scope_def
  by (rule foldl_classify [THEN conjunct1]) (simp add: sorted_inv_def scope_inv_def new_scope_def)

lemma sorted_scope_classified: "r \<in> set owned \<Longrightarrow> classified (sorted_scope owned) r"
proof -
  have "sorted_inv sql new_scope" for sql by (simp add: sorted_inv_def scope_inv_def new_scope_def)
  then show "r \<in> set owned \<Longrightarrow> classified (sorted_scope owned) r"
    unfolding sorted_scope_def using foldl_classify by blast
qed

lemma resolved_steps:
  assumes "sr_verdict (resolveFinancialAccounts owned sql) = RESOLVED"
  obtains s1 s where "ask_conditions sql (sc_conditional (sorted_scope owned)) (sorted_scope owned) = Inr s1"
    "ask_accounts sql (sc_byKind s1) s1 = Inr s" "sc_unknown s = []" "sc_unresolved s = []"
    "sr_accounts (resolveFinancialAccounts owned sql) = sc_accounts s"
    "sr_resolved (resolveFinancialAccounts owned sql) = sc_resolved s"
    "sr_structural (resolveFinancialAccounts owned sql) = sc_structural s"
  using assms unfolding resolveFinancialAccounts_def sorted_scope_def [symmetric] Let_def
  by (fastforce simp: failed_scope_def unknownResult_def split: sum.splits if_splits)

text \<open>An owned resource has an account of its own, or stands among the structural ones.\<close>

definition priced :: "scope_result \<Rightarrow> owned \<Rightarrow> bool" where
  "priced res r \<longleftrightarrow>
     (\<exists>j a. (js_lower (ow_kind r), j, a) \<in> set (sr_resolved res) \<and> js_lower j = js_lower (ow_id r)) \<or>
     (\<exists>i \<in> {ow_id r, js_lower (ow_id r)}. (js_lower (ow_kind r), i) \<in> set (sr_structural res))"

lemma settled_priced:
  assumes "settled s (js_lower (ow_kind r)) (js_lower (ow_id r))" "sc_unresolved s = []"
    "sr_resolved res = sc_resolved s" "sr_structural res = sc_structural s"
  shows "priced res r"
  using assms by (auto simp: settled_def has_account_def priced_def)

lemma resolved_all_priced:
  assumes "sr_verdict (resolveFinancialAccounts owned sql) = RESOLVED" "r \<in> set owned"
  shows "priced (resolveFinancialAccounts owned sql) r"
proof -
  let ?s0 = "sorted_scope owned" and ?res = "resolveFinancialAccounts owned sql"
  obtain s1 s where c: "ask_conditions sql (sc_conditional ?s0) ?s0 = Inr s1" and a: "ask_accounts sql (sc_byKind s1) s1 = Inr s"
    and e: "sc_unknown s = []" "sc_unresolved s = []" and f: "sr_accounts ?res = sc_accounts s"
    "sr_resolved ?res = sc_resolved s" "sr_structural ?res = sc_structural s"
    by (rule resolved_steps [OF assms(1)])
  note grow = ask_conditions_grows [OF c] ask_accounts_grows [OF a]
  let ?k = "js_lower (ow_kind r)" and ?i = "js_lower (ow_id r)"
  have cl: "classified ?s0 r" using sorted_scope_classified [OF assms(2)] .
  consider "(?k, ow_id r) \<in> set (sc_structural ?s0)" | "(?k, ?i) \<in> grouped (sc_conditional ?s0)"
    | "(?k, ?i) \<in> grouped (sc_byKind ?s0)" | "(?k, ow_id r) \<in> set (sc_unknown ?s0)"
    using cl unfolding classified_def by (auto split: option.splits scope.splits)
  then show ?thesis
  proof cases
    case 1
    then have "(?k, ow_id r) \<in> set (sr_structural ?res)" using grow unfolding f(3) by blast
    then show ?thesis unfolding priced_def by blast
  next
    case 2
    then have "settled s ?k ?i"
      using ask_conditions_places [OF c] ask_accounts_settles [OF a] grow unfolding settled_def by blast
    then show ?thesis by (rule settled_priced [OF _ e(2) f(2,3)])
  next
    case 3
    then have "settled s ?k ?i" using ask_accounts_settles [OF a] grow by blast
    then show ?thesis by (rule settled_priced [OF _ e(2) f(2,3)])
  next
    case 4
    then show ?thesis using grow e(1) by simp
  qed
qed

lemma resolved_inv:
  assumes "sr_verdict (resolveFinancialAccounts owned sql) = RESOLVED"
  obtains s where "scope_inv sql s" "sr_accounts (resolveFinancialAccounts owned sql) = sc_accounts s"
    "sr_resolved (resolveFinancialAccounts owned sql) = sc_resolved s"
    "sr_structural (resolveFinancialAccounts owned sql) = sc_structural s"
proof -
  let ?s0 = "sorted_scope owned"
  obtain s1 s where c: "ask_conditions sql (sc_conditional ?s0) ?s0 = Inr s1" and a: "ask_accounts sql (sc_byKind s1) s1 = Inr s"
    and f: "sr_accounts (resolveFinancialAccounts owned sql) = sc_accounts s"
    "sr_resolved (resolveFinancialAccounts owned sql) = sc_resolved s"
    "sr_structural (resolveFinancialAccounts owned sql) = sc_structural s"
    by (rule resolved_steps [OF assms])
  have "scope_inv sql s"
    using sorted_scope_inv [of sql owned] unfolding sorted_inv_def
    by (blast intro: ask_accounts_inv [OF a] ask_conditions_inv [OF c])
  then show ?thesis using f that by blast
qed

text \<open>C11. When a manifest is resolved nothing owned was dropped: every resource of it either has an account
  the database named, which is then among the accounts, or is listed as structural; and it is listed so only
  because its kind is, because the database does not bind it, or because the database says it exists. The
  accounts are exactly the ones the database gave, each once.\<close>

theorem resolved_drops_nothing:
  assumes "sr_verdict (resolveFinancialAccounts owned sql) = RESOLVED"
  shows "(\<forall>r \<in> set owned. priced (resolveFinancialAccounts owned sql) r) \<and>
    (\<forall>e \<in> set (sr_structural (resolveFinancialAccounts owned sql)). structural_because sql e) \<and>
    (\<forall>x \<in> set (sr_resolved (resolveFinancialAccounts owned sql)). account_read sql x) \<and>
    distinct (sr_accounts (resolveFinancialAccounts owned sql)) \<and>
    set (sr_accounts (resolveFinancialAccounts owned sql)) =
      (\<lambda>(k, i, a). a) ` set (sr_resolved (resolveFinancialAccounts owned sql))"
proof -
  obtain s where s: "scope_inv sql s" "sr_accounts (resolveFinancialAccounts owned sql) = sc_accounts s"
    "sr_resolved (resolveFinancialAccounts owned sql) = sc_resolved s"
    "sr_structural (resolveFinancialAccounts owned sql) = sc_structural s"
    by (rule resolved_inv [OF assms])
  show ?thesis using resolved_all_priced [OF assms] s(1) unfolding s(2-4) scope_inv_def by simp
qed

definition demo_rows :: database where
  "demo_rows q = (case q of
     AskCondition k ids \<Rightarrow> Inr [(''P1'', [])]
   | AskAccounts k ids \<Rightarrow> (if k = ''business'' then Inr [(''B1'', ''acc-1'')] else Inr [(''p1'', ''acc-1'')])
   | AskExists k ids \<Rightarrow> Inr [(''b2'', [])]
   | AskProbe k ids since \<Rightarrow> Inr [])"

definition demo_owned :: "owned list" where
  "demo_owned = map (\<lambda>(k, i). \<lparr> ow_kind = k, ow_id = i \<rparr>)
     [(''BUSINESS'', ''b1''), (''business'', ''b2''), (''FIXTURE_PROJECT'', ''p1''), (''fixture_project'', ''p2''),
      (''fixture_key'', ''K1'')]"

lemma resolved_drops_nothing_witness:
  "sr_verdict (resolveFinancialAccounts demo_owned demo_rows) = RESOLVED \<and>
   sr_accounts (resolveFinancialAccounts demo_owned demo_rows) = [''acc-1''] \<and>
   priced (resolveFinancialAccounts demo_owned demo_rows) \<lparr> ow_kind = ''fixture_project'', ow_id = ''p2'' \<rparr>"
proof -
  have v: "sr_verdict (resolveFinancialAccounts demo_owned demo_rows) = RESOLVED" by code_simp
  have a: "sr_accounts (resolveFinancialAccounts demo_owned demo_rows) = [''acc-1'']" by code_simp
  have m: "\<lparr> ow_kind = ''fixture_project'', ow_id = ''p2'' \<rparr> \<in> set demo_owned" by (simp add: demo_owned_def)
  show ?thesis using v a m resolved_drops_nothing [OF v] by blast
qed

section \<open>A verified manifest\<close>

lemma ask_probes_none:
  "ask_probes sql since owned ps = Inr [] \<Longrightarrow> p \<in> set ps \<Longrightarrow>
     map_of (owned_by_kind owned) (fp_container p) = Some ids \<Longrightarrow>
     \<exists>rows. sql (AskProbe (fp_container p) (lits ids) (map_option lit since)) = Inr rows \<and>
       (\<forall>(i, c) \<in> set rows. declares owned (fp_missing p) (js_lower i))"
proof (induction ps)
  case Nil
  then show ?case by simp
next
  case (Cons q ps)
  show ?case
  proof (cases "p = q")
    case True
    then show ?thesis using Cons.prems by (auto simp: probe_gaps_def filter_empty_conv split: sum.splits option.splits)
  next
    case False
    have "ask_probes sql since owned ps = Inr []"
      using Cons.prems(1) by (auto split: sum.splits option.splits)
    then show ?thesis using Cons.IH Cons.prems False by simp
  qed
qed

lemma group_add_keys: "fst ` set (group_add k i m) = insert k (fst ` set m)"
  by (induction k i m rule: group_add.induct) auto

lemma group_add_distinct: "distinct (map fst m) \<Longrightarrow> distinct (map fst (group_add k i m))"
  by (induction k i m rule: group_add.induct) (auto simp add: group_add_keys)

lemma foldl_group_add:
  "distinct (map fst m) \<Longrightarrow>
     distinct (map fst (foldl (\<lambda>m r. group_add (k r) (i r) m) m rs)) \<and>
     grouped (foldl (\<lambda>m r. group_add (k r) (i r) m) m rs) = grouped m \<union> (\<lambda>r. (k r, i r)) ` set rs"
  by (induction rs arbitrary: m) (simp_all add: group_add_distinct)

lemma owned_by_kind_of:
  assumes "r \<in> set owned"
  shows "\<exists>ids. map_of (owned_by_kind owned) (js_lower (ow_kind r)) = Some ids \<and> js_lower (ow_id r) \<in> set ids"
proof -
  have d: "distinct (map fst (owned_by_kind owned))" and
    g: "(js_lower (ow_kind r), js_lower (ow_id r)) \<in> grouped (owned_by_kind owned)"
    using foldl_group_add [of "[]" "\<lambda>r. js_lower (ow_kind r)" "\<lambda>r. js_lower (ow_id r)" owned] assms
    unfolding owned_by_kind_def by auto
  then obtain ids where "(js_lower (ow_kind r), ids) \<in> set (owned_by_kind owned)" "js_lower (ow_id r) \<in> set ids"
    unfolding grouped_def by blast
  then show ?thesis using d by (auto intro: map_of_is_SomeI)
qed

text \<open>A manifest is called complete only after the database was asked, for every owned container of
  every probe, with the container's id among the quoted ones, and every resource its answer names is declared.\<close>

theorem verified_manifest_is_complete:
  assumes "ownershipCompleteness owned sql since = VERIFIED" "r \<in> set owned" "p \<in> set COMPLETENESS_PROBES"
    "js_lower (ow_kind r) = fp_container p"
  shows "\<exists>ids rows. js_lower (ow_id r) \<in> set ids \<and>
    sql (AskProbe (fp_container p) (lits ids) (if since = Some [] then None else map_option lit since)) = Inr rows \<and>
    (\<forall>(i, c) \<in> set rows. declares owned (fp_missing p) (js_lower i))"
proof -
  have none: "ask_probes sql (if since = Some [] then None else since) owned COMPLETENESS_PROBES = Inr []"
    using assms(1) unfolding ownershipCompleteness_def by (auto split: sum.splits list.splits)
  obtain ids where ids: "map_of (owned_by_kind owned) (fp_container p) = Some ids" "js_lower (ow_id r) \<in> set ids"
    using owned_by_kind_of [OF assms(2)] assms(4) by auto
  have s: "map_option lit (if since = Some [] then None else since) =
    (if since = Some [] then None else map_option lit since)" by simp
  show ?thesis using ask_probes_none [OF none assms(3) ids(1)] ids(2) unfolding s by blast
qed

lemma verified_manifest_is_complete_witness:
  "ownershipCompleteness demo_owned demo_rows None = VERIFIED \<and>
   (\<exists>ids rows. ''p2'' \<in> set ids \<and> demo_rows (AskProbe ''fixture_project'' (lits ids) None) = Inr rows \<and>
      (\<forall>(i, c) \<in> set rows. declares demo_owned ''test_payer'' (js_lower i)))"
proof -
  have v: "ownershipCompleteness demo_owned demo_rows None = VERIFIED" by code_simp
  have m: "\<lparr> ow_kind = ''fixture_project'', ow_id = ''p2'' \<rparr> \<in> set demo_owned" by (simp add: demo_owned_def)
  have p: "\<lparr> fp_container = ''fixture_project'', fp_missing = ''test_payer'' \<rparr> \<in> set COMPLETENESS_PROBES"
    by (simp add: COMPLETENESS_PROBES_def)
  have k: "js_lower ''fixture_project'' = ''fixture_project''" "js_lower ''p2'' = ''p2''" by code_simp+
  show ?thesis using v verified_manifest_is_complete [OF v m p] k by simp
qed

text \<open>A text quoted by \<open>lit\<close> is read back as itself by the database, and as one literal: no text an owner or an id
  holds ends the quoting.\<close>

lemma lit_roundtrip:
  assumes "rest = [] \<or> hd rest \<noteq> CHR 0x27"
  shows "(case lit v @ rest of [] \<Rightarrow> None | c # cs \<Rightarrow> read_literal [] cs) = Some (v, rest)"
  using read_literal_escaped [OF assms, of "[]" v] by (simp add: lit_def)
end
