(* ===== verification/RunExposure.thy ===== *)
theory RunExposure
  imports RunScope JsStd "HOL-Library.Multiset" "HOL-Library.List_Lexorder" "HOL-Library.Char_ord"
    "HOL-Library.Product_Lexorder"
begin

text \<open>
  The most a journey's own accounts ever held at one moment (tools/lib/validation-exposure.mjs), and how
  the runner measures it over the accounts of a manifest (tools/validation-runner.mjs). A moment is a
  text that \<open>new Date\<close>, a parameter, reads as milliseconds or as no date; a sequence number is an
  integer, or what \<open>Number\<close> makes of a text that is none.
\<close>

section \<open>Events\<close>

record ledger_event =
  le_resource :: string
  le_at :: string
  le_delta :: int
  le_posting :: "string option"
  le_seq :: "int option option"

record ev_row =
  rw_resource :: string
  rw_delta :: int
  rw_posting :: "string option"
  rw_t :: int
  rw_group :: string

type_synonym date_parser = "string \<Rightarrow> int option"

definition ev_group :: "string option \<Rightarrow> int \<Rightarrow> string" where
  "ev_group posting t = (case posting of Some p \<Rightarrow> ''p:'' @ p | None \<Rightarrow> ''t:'' @ int_str t)"

definition ev_row_of :: "date_parser \<Rightarrow> ledger_event \<Rightarrow> ev_row" where
  "ev_row_of parse e =
     (let t = the (parse (le_at e))
      in \<lparr> rw_resource = le_resource e, rw_delta = le_delta e, rw_posting = le_posting e, rw_t = t,
           rw_group = ev_group (le_posting e) t \<rparr>)"

definition ev_seq :: "ledger_event \<Rightarrow> nat \<Rightarrow> int option" where
  "ev_seq e i = (case le_seq e of None \<Rightarrow> Some (int i) | Some n \<Rightarrow> n)"

definition numbered_rows :: "date_parser \<Rightarrow> ledger_event list \<Rightarrow> (ev_row \<times> int option) list" where
  "numbered_rows parse events =
     map (\<lambda>(i, e). (ev_row_of parse e, ev_seq e i)) (zip [0 ..< length events] events)"

text \<open>The comparison of \<open>rows.sort\<close>: whether the first of the two may stand before the second. A difference
  that is not a number counts as none.\<close>

definition row_before :: "ev_row \<times> int option \<Rightarrow> ev_row \<times> int option \<Rightarrow> bool" where
  "row_before a b =
     (if rw_t (fst a) \<noteq> rw_t (fst b) then rw_t (fst a) < rw_t (fst b)
      else if rw_group (fst a) < rw_group (fst b) then True
      else if rw_group (fst b) < rw_group (fst a) then False
      else (case (snd a, snd b) of (Some i, Some j) \<Rightarrow> i \<le> j | _ \<Rightarrow> True))"

fun place_row :: "ev_row \<times> int option \<Rightarrow> (ev_row \<times> int option) list \<Rightarrow> (ev_row \<times> int option) list" where
  "place_row x [] = [x]"
| "place_row x (y # ys) = (if row_before x y then x # y # ys else y # place_row x ys)"

definition sort_rows :: "(ev_row \<times> int option) list \<Rightarrow> ev_row list" where
  "sort_rows rows = map fst (foldr place_row rows [])"

section \<open>The peak\<close>

datatype ev_order = DETERMINISTIC | AMBIGUOUS

definition ambiguous_at :: "ev_row list \<Rightarrow> int \<Rightarrow> bool" where
  "ambiguous_at rows t =
     (let evs = filter (\<lambda>r. rw_t r = t) rows
      in 1 < length evs \<and> (list_ex (\<lambda>r. rw_posting r = None) evs \<or> 1 < length (remdups (map rw_group evs))))"

definition ambiguousInstants :: "ev_row list \<Rightarrow> nat" where
  "ambiguousInstants rows = length (filter (ambiguous_at rows) (remdups (map rw_t rows)))"

fun balance_add :: "string \<Rightarrow> int \<Rightarrow> (string \<times> int) list \<Rightarrow> (string \<times> int) list" where
  "balance_add k d [] = [(k, d)]"
| "balance_add k d ((l, v) # m) = (if l = k then (l, v + d) # m else (l, v) # balance_add k d m)"

record exposure =
  xp_peak :: int
  xp_timeline :: "(string \<times> int) list"
  xp_balance :: "(string \<times> int) list"
  xp_peakAt :: "string option"
  xp_peakGroup :: "string option"
  xp_peakAccounts :: "(string \<times> int) list"

definition no_exposure :: exposure where
  "no_exposure = \<lparr> xp_peak = 0, xp_timeline = [], xp_balance = [], xp_peakAt = None, xp_peakGroup = None,
     xp_peakAccounts = [] \<rparr>"

definition measure_boundary :: "ev_row list \<Rightarrow> int \<Rightarrow> string \<Rightarrow> exposure \<Rightarrow> exposure" where
  "measure_boundary seg t g x =
     (let bal = foldl (\<lambda>b r. balance_add (rw_resource r) (rw_delta r) b) (xp_balance x) seg;
          s = sum_list (map snd bal);
          x1 = x\<lparr>xp_balance := bal, xp_timeline := xp_timeline x @ [(toISOString t, s)]\<rparr>
      in if xp_peak x < s
         then x1\<lparr>xp_peak := s, xp_peakAt := Some (toISOString t), xp_peakGroup := Some g,
                xp_peakAccounts := filter (\<lambda>kv. snd kv \<noteq> 0) bal\<rparr>
         else x1)"

function measure_rows :: "ev_row list \<Rightarrow> exposure \<Rightarrow> exposure" where
  "measure_rows rows x =
     (case rows of
        [] \<Rightarrow> x
      | r # rs \<Rightarrow>
          measure_rows (dropWhile (\<lambda>q. rw_group q = rw_group r) rs)
            (measure_boundary (r # takeWhile (\<lambda>q. rw_group q = rw_group r) rs) (rw_t r) (rw_group r) x))"
  by pat_completeness auto
termination
  by (relation "measure (\<lambda>(rows, x). length rows)") (simp_all add: le_imp_less_Suc length_dropWhile_le)

declare measure_rows.simps [simp del]

record exposure_reading =
  er_exposure :: exposure
  er_resources :: nat
  er_events :: nat
  er_ordering :: ev_order
  er_ambiguous :: nat

definition attributablePeak :: "date_parser \<Rightarrow> ledger_event list \<Rightarrow> string + exposure_reading" where
  "attributablePeak parse events =
     (if list_ex (\<lambda>e. parse (le_at e) = None) events then Inl ''attributablePeak: unreadable event timestamp''
      else
        (let rows = sort_rows (numbered_rows parse events); x = measure_rows rows no_exposure;
             n = ambiguousInstants rows
         in Inr \<lparr> er_exposure = x, er_resources = length (xp_balance x), er_events = length rows,
              er_ordering = (if n = 0 then DETERMINISTIC else AMBIGUOUS), er_ambiguous = n \<rparr>))"

section \<open>The verdict on a declaration\<close>

datatype exposure_verdict = EXP_VERIFIED | EXP_UNKNOWN | UNDER_DECLARED

text \<open>The grouping of digits is that of the locale, a parameter.\<close>

definition exposureVerdict ::
  "(int \<Rightarrow> string) \<Rightarrow> int option \<Rightarrow> int option \<Rightarrow> bool \<Rightarrow> bool \<Rightarrow> exposure_verdict \<times> string" where
  "exposureVerdict pt declared actual ownershipKnown fundingCapable =
     (if \<not> fundingCapable then (EXP_VERIFIED, ''journey creates no funded resource'')
      else if \<not> ownershipKnown then (EXP_UNKNOWN, ''ownership of the journey'' @ [CHR 0x27] @ ''s resources could not be established'')
      else (case declared of
        None \<Rightarrow> (EXP_UNKNOWN, ''the journey declares no funded-exposure bound'')
      | Some d \<Rightarrow>
          (case actual of
             None \<Rightarrow> (EXP_UNKNOWN, ''no attributable exposure could be measured'')
           | Some a \<Rightarrow>
               if d < a then (UNDER_DECLARED, ''held '' @ pt a @ '' minor at peak against a declared bound of '' @ pt d)
               else (EXP_VERIFIED, ''peak '' @ pt a @ '' within the declared '' @ pt d))))"

section \<open>Sorting\<close>

definition row_key :: "ev_row \<Rightarrow> int \<times> string" where
  "row_key r = (rw_t r, rw_group r)"

lemma row_before_key: "row_before a b \<Longrightarrow> row_key (fst a) \<le> row_key (fst b)"
  by (auto simp: row_before_def row_key_def less_eq_prod_def split: if_splits)

lemma row_not_before_key: "\<not> row_before a b \<Longrightarrow> row_key (fst b) \<le> row_key (fst a)"
  by (auto simp: row_before_def row_key_def less_eq_prod_def split: if_splits)

lemma mset_place_row [simp]: "mset (place_row x ys) = add_mset x (mset ys)"
  by (induction ys) auto

lemma mset_foldr_place: "mset (foldr place_row rows []) = mset rows"
  by (induction rows) auto

lemma set_place_row [simp]: "set (place_row x ys) = insert x (set ys)"
  by (induction ys) auto

lemma sorted_place_row:
  "sorted (map (row_key \<circ> fst) ys) \<Longrightarrow> sorted (map (row_key \<circ> fst) (place_row x ys))"
proof (induction ys)
  case Nil
  then show ?case by simp
next
  case (Cons y ys)
  show ?case
  proof (cases "row_before x y")
    case True
    then show ?thesis using Cons.prems row_before_key [OF True] by (fastforce intro: order_trans)
  next
    case False
    then show ?thesis using Cons row_not_before_key [OF False] by auto
  qed
qed

lemma sorted_sort_rows: "sorted (map row_key (sort_rows rows))"
proof -
  have "sorted (map (row_key \<circ> fst) (foldr place_row rows []))"
  proof (induction rows)
    case Nil
    then show ?case by simp
  next
    case (Cons r rows)
    show ?case using sorted_place_row [OF Cons.IH, of r] by (simp add: comp_def)
  qed
  then show ?thesis by (simp add: sort_rows_def)
qed

lemma mset_sort_rows: "mset (sort_rows rows) = mset (map fst rows)"
  unfolding sort_rows_def by (simp add: mset_foldr_place)

lemma mset_sorted_events:
  "mset (sort_rows (numbered_rows parse events)) = image_mset (ev_row_of parse) (mset events)"
proof -
  have "map fst (numbered_rows parse events) = map (ev_row_of parse) (map snd (zip [0 ..< length events] events))"
    unfolding numbered_rows_def map_map comp_def case_prod_beta by simp
  then show ?thesis unfolding mset_sort_rows by (simp add: map_snd_zip)
qed

section \<open>Boundaries\<close>

lemma sum_balance_add: "sum_list (map snd (balance_add k d m)) = sum_list (map snd m) + d"
  by (induction k d m rule: balance_add.induct) auto

lemma sum_balance_fold:
  "sum_list (map snd (foldl (\<lambda>b r. balance_add (rw_resource r) (rw_delta r) b) m seg)) =
     sum_list (map snd m) + sum_list (map rw_delta seg)"
  by (induction seg arbitrary: m) (simp_all add: sum_balance_add)

text \<open>The moment, the posting and the sum at each boundary, without the state of the loop.\<close>

function boundaries :: "int \<Rightarrow> ev_row list \<Rightarrow> (int \<times> string \<times> int) list" where
  "boundaries base rows =
     (case rows of
        [] \<Rightarrow> []
      | r # rs \<Rightarrow>
          (let seg = takeWhile (\<lambda>q. rw_group q = rw_group r) rs; s = base + rw_delta r + sum_list (map rw_delta seg)
           in (rw_t r, rw_group r, s) # boundaries s (dropWhile (\<lambda>q. rw_group q = rw_group r) rs)))"
  by pat_completeness auto
termination
  by (relation "measure (\<lambda>(b, rows). length rows)") (simp_all add: le_imp_less_Suc length_dropWhile_le)

declare boundaries.simps [simp del]

lemma boundaries_Nil [simp]: "boundaries base [] = []"
  by (simp add: boundaries.simps)

lemma boundaries_Cons:
  "boundaries base (r # rs) =
     (rw_t r, rw_group r, base + rw_delta r + sum_list (map rw_delta (takeWhile (\<lambda>q. rw_group q = rw_group r) rs))) #
     boundaries (base + rw_delta r + sum_list (map rw_delta (takeWhile (\<lambda>q. rw_group q = rw_group r) rs)))
       (dropWhile (\<lambda>q. rw_group q = rw_group r) rs)"
  by (subst boundaries.simps) (simp add: Let_def)

text \<open>The peak, its moment and its posting as a fold over the boundaries.\<close>

definition raise_peak :: "int \<times> string \<times> int \<Rightarrow> int \<times> string option \<times> string option \<Rightarrow> int \<times> string option \<times> string option" where
  "raise_peak b p = (case b of (t, g, s) \<Rightarrow> if fst p < s then (s, Some (toISOString t), Some g) else p)"

definition peak_of :: "exposure \<Rightarrow> int \<times> string option \<times> string option" where
  "peak_of x = (xp_peak x, xp_peakAt x, xp_peakGroup x)"

lemma measure_boundary_fields:
  assumes "s = sum_list (map snd (xp_balance x)) + sum_list (map rw_delta seg)"
  shows "peak_of (measure_boundary seg t g x) = raise_peak (t, g, s) (peak_of x)"
    and "sum_list (map snd (xp_balance (measure_boundary seg t g x))) = s"
    and "xp_timeline (measure_boundary seg t g x) = xp_timeline x @ [(toISOString t, s)]"
  unfolding assms by (simp_all add: measure_boundary_def raise_peak_def peak_of_def Let_def sum_balance_fold)

lemma measure_rows_boundaries:
  "peak_of (measure_rows rows x) = foldl (\<lambda>p b. raise_peak b p) (peak_of x) (boundaries (sum_list (map snd (xp_balance x))) rows) \<and>
   xp_timeline (measure_rows rows x) = xp_timeline x @
     map (\<lambda>(t, g, s). (toISOString t, s)) (boundaries (sum_list (map snd (xp_balance x))) rows)"
proof (induction rows x rule: measure_rows.induct)
  case (1 rows x)
  show ?case
  proof (cases rows)
    case Nil
    then show ?thesis by (simp add: measure_rows.simps)
  next
    case (Cons r rs)
    let ?seg = "r # takeWhile (\<lambda>q. rw_group q = rw_group r) rs"
    let ?x = "measure_boundary ?seg (rw_t r) (rw_group r) x"
    let ?s = "sum_list (map snd (xp_balance x)) + rw_delta r + sum_list (map rw_delta (takeWhile (\<lambda>q. rw_group q = rw_group r) rs))"
    have s: "?s = sum_list (map snd (xp_balance x)) + sum_list (map rw_delta ?seg)" by simp
    note f = measure_boundary_fields [OF s, where t = "rw_t r" and g = "rw_group r"]
    have m: "measure_rows rows x = measure_rows (dropWhile (\<lambda>q. rw_group q = rw_group r) rs) ?x"
      unfolding Cons by (subst measure_rows.simps) simp
    show ?thesis using 1 [OF Cons, unfolded f] unfolding m [unfolded Cons] Cons boundaries_Cons by simp
  qed
qed
section \<open>The order of the events does not matter\<close>

lemma same_keys:
  assumes "mset xs = mset ys" "sorted (map row_key xs)" "sorted (map row_key ys)"
  shows "map row_key xs = map row_key ys"
  using assms by (metis mset_map sorted_list_of_multiset_mset sorted_sort_id)

lemma key_group: "map rw_group xs = map snd (map row_key xs)"
  by (simp add: row_key_def)

lemma key_t: "map rw_t xs = map fst (map row_key xs)"
  by (simp add: row_key_def)

lemma takeWhile_map_length: "length (takeWhile (\<lambda>x. P (f x)) xs) = length (takeWhile P (map f xs))"
  by (simp add: takeWhile_map comp_def)

text \<open>The first rows of a sorted list, up to a change of key, are those with a smaller key than the next.\<close>

lemma prefix_by_key:
  fixes f :: "'a \<Rightarrow> 'b :: linorder"
  assumes "sorted (map f xs)" "k < length xs" "\<And>i. i < k \<Longrightarrow> f (xs ! i) \<noteq> f (xs ! k)"
  shows "take k xs = filter (\<lambda>x. f x < f (xs ! k)) xs"
proof -
  have le: "f (xs ! i) \<le> f (xs ! j)" if "i \<le> j" "j < length xs" for i j
    using sorted_nth_mono [OF assms(1), of i j] that by simp
  have "filter (\<lambda>x. f x < f (xs ! k)) (take k xs) = take k xs"
  proof (rule filter_True)
    show "\<forall>x \<in> set (take k xs). f x < f (xs ! k)"
    proof
      fix x assume "x \<in> set (take k xs)"
      then obtain i where "i < k" "x = xs ! i" by (auto simp: in_set_conv_nth)
      then show "f x < f (xs ! k)" using le [of i k] assms(2,3) by (simp add: order.not_eq_order_implies_strict)
    qed
  qed
  moreover have "filter (\<lambda>x. f x < f (xs ! k)) (drop k xs) = []"
  proof -
    have "\<not> f x < f (xs ! k)" if "x \<in> set (drop k xs)" for x
    proof -
      obtain i where "i < length (drop k xs)" "x = drop k xs ! i" using \<open>x \<in> set (drop k xs)\<close> by (metis in_set_conv_nth)
      then show ?thesis using le [of k "k + i"] by (simp add: not_less)
    qed
    then show ?thesis by (simp add: filter_empty_conv)
  qed
  ultimately show ?thesis by (metis append_take_drop_id filter_append append_Nil2)
qed

lemma first_segment:
  assumes m: "mset xs = mset ys" and s: "sorted (map row_key xs)" "sorted (map row_key ys)"
  shows "mset (takeWhile (\<lambda>q. rw_group q = g) xs) = mset (takeWhile (\<lambda>q. rw_group q = g) ys)"
proof -
  let ?P = "\<lambda>q. rw_group q = g"
  have keys: "map row_key xs = map row_key ys" by (rule same_keys [OF m s])
  have len: "length xs = length ys" using m by (metis size_mset)
  let ?k = "length (takeWhile ?P xs)"
  have k: "?k = length (takeWhile ?P ys)"
    unfolding takeWhile_map_length [where P = "\<lambda>x. x = g" and f = rw_group] key_group keys ..
  show ?thesis
  proof (cases "?k < length xs")
    case False
    then have "takeWhile ?P xs = xs" "takeWhile ?P ys = ys"
      using len k by (metis length_takeWhile_le le_antisym not_less takeWhile_eq_take take_all order_refl)+
    then show ?thesis using m by metis
  next
    case True
    have pre: "takeWhile ?P zs = filter (\<lambda>x. row_key x < row_key (zs ! length (takeWhile ?P zs))) zs"
      if "sorted (map row_key zs)" "length (takeWhile ?P zs) < length zs" for zs
    proof (rule trans [OF takeWhile_eq_take prefix_by_key [OF that]])
      fix i assume "i < length (takeWhile ?P zs)"
      then have "takeWhile ?P zs ! i \<in> set (takeWhile ?P zs)" "takeWhile ?P zs ! i = zs ! i"
        using nth_mem takeWhile_nth by blast+
      then have "rw_group (zs ! i) = g" using set_takeWhileD by metis
      moreover have "rw_group (zs ! length (takeWhile ?P zs)) \<noteq> g" using nth_length_takeWhile [OF that(2)] .
      ultimately show "row_key (zs ! i) \<noteq> row_key (zs ! length (takeWhile ?P zs))" by (auto simp: row_key_def)
    qed
    let ?c = "row_key (xs ! ?k)"
    have c: "?c = row_key (ys ! length (takeWhile ?P ys))"
      using arg_cong [OF keys, of "\<lambda>l. l ! ?k"] True len k by simp
    have ys: "length (takeWhile ?P ys) < length ys" using True k len by simp
    have "mset (filter (\<lambda>x. row_key x < ?c) xs) = mset (filter (\<lambda>x. row_key x < ?c) ys)" using m by simp
    then show ?thesis using pre [OF s(1) True] pre [OF s(2) ys, folded c] by metis
  qed
qed

lemma segments_agree:
  assumes m: "mset xs = mset ys" and s: "sorted (map row_key xs)" "sorted (map row_key ys)"
  shows "mset (dropWhile (\<lambda>q. rw_group q = g) xs) = mset (dropWhile (\<lambda>q. rw_group q = g) ys)"
proof -
  have "mset (takeWhile (\<lambda>q. rw_group q = g) zs) + mset (dropWhile (\<lambda>q. rw_group q = g) zs) = mset zs" for zs
    by (metis mset_append takeWhile_dropWhile_id)
  then show ?thesis using first_segment [OF assms] m by (metis add_left_cancel)
qed

lemma boundaries_head:
  assumes "rows \<noteq> []"
  shows "boundaries base rows =
    (let g = rw_group (hd rows); s = base + sum_mset (image_mset rw_delta (mset (takeWhile (\<lambda>q. rw_group q = g) rows)))
     in (rw_t (hd rows), g, s) # boundaries s (dropWhile (\<lambda>q. rw_group q = g) rows))"
proof -
  obtain r rs where "rows = r # rs" using assms by (cases rows) auto
  then show ?thesis
    by (simp add: boundaries_Cons Let_def add.assoc sum_mset_sum_list flip: mset_map)
qed

lemma sorted_dropWhile_key: "sorted (map row_key xs) \<Longrightarrow> sorted (map row_key (dropWhile P xs))"
  by (metis dropWhile_eq_drop drop_map sorted_wrt_drop)

lemma boundaries_agree:
  "mset xs = mset ys \<Longrightarrow> sorted (map row_key xs) \<Longrightarrow> sorted (map row_key ys) \<Longrightarrow>
     boundaries base xs = boundaries base ys"
proof (induction "length xs" arbitrary: xs ys base rule: less_induct)
  case less
  show ?case
  proof (cases "xs = []")
    case True
    then show ?thesis using less.prems(1) by simp
  next
    case False
    let ?g = "rw_group (hd xs)"
    have ys: "ys \<noteq> []" using False less.prems(1) by auto
    have "row_key (hd xs) = row_key (hd ys)"
      using same_keys [OF less.prems] False ys by (metis hd_map)
    then have h: "rw_t (hd xs) = rw_t (hd ys)" "?g = rw_group (hd ys)" by (simp_all add: row_key_def)
    have short: "length (dropWhile (\<lambda>q. rw_group q = ?g) xs) < length xs"
      using False by (cases xs) (auto simp: le_imp_less_Suc length_dropWhile_le)
    show ?thesis
      unfolding boundaries_head [OF False] boundaries_head [OF ys] Let_def h(2) [symmetric] h(1)
        first_segment [OF less.prems]
      using less.hyps [OF short segments_agree [OF less.prems] sorted_dropWhile_key [OF less.prems(2)]
          sorted_dropWhile_key [OF less.prems(3)]]
      by simp
  qed
qed

lemma ambiguous_at_mset:
  assumes "mset xs = mset ys"
  shows "ambiguous_at xs t = ambiguous_at ys t"
proof -
  have f: "mset (filter (\<lambda>r. rw_t r = t) xs) = mset (filter (\<lambda>r. rw_t r = t) ys)" using assms by simp
  then have "set (filter (\<lambda>r. rw_t r = t) xs) = set (filter (\<lambda>r. rw_t r = t) ys)" by (metis set_mset_mset)
  moreover have "length (filter (\<lambda>r. rw_t r = t) xs) = length (filter (\<lambda>r. rw_t r = t) ys)" using f by (metis size_mset)
  ultimately show ?thesis
    unfolding ambiguous_at_def Let_def list_ex_iff length_remdups_card_conv set_map by simp
qed

lemma ambiguousInstants_mset:
  assumes "mset xs = mset ys"
  shows "ambiguousInstants xs = ambiguousInstants ys"
proof -
  have "set xs = set ys" using assms by (metis set_mset_mset)
  moreover have "ambiguousInstants zs = card {t \<in> rw_t ` set zs. ambiguous_at zs t}" for zs
    unfolding ambiguousInstants_def by (simp add: distinct_length_filter Int_def conj_commute)
  ultimately show ?thesis using ambiguous_at_mset [OF assms] by simp
qed

lemma balance_keys: "fst ` set (balance_add k d m) = insert k (fst ` set m)"
  by (induction k d m rule: balance_add.induct) auto

lemma balance_distinct: "distinct (map fst m) \<Longrightarrow> distinct (map fst (balance_add k d m))"
  by (induction k d m rule: balance_add.induct) (auto simp: balance_keys)

lemma balance_fold_keys:
  "distinct (map fst m) \<Longrightarrow>
     distinct (map fst (foldl (\<lambda>b r. balance_add (rw_resource r) (rw_delta r) b) m seg)) \<and>
     fst ` set (foldl (\<lambda>b r. balance_add (rw_resource r) (rw_delta r) b) m seg) = fst ` set m \<union> rw_resource ` set seg"
  by (induction seg arbitrary: m) (auto simp: balance_distinct balance_keys)

lemma measure_rows_balance:
  "distinct (map fst (xp_balance x)) \<Longrightarrow>
     distinct (map fst (xp_balance (measure_rows rows x))) \<and>
     fst ` set (xp_balance (measure_rows rows x)) = fst ` set (xp_balance x) \<union> rw_resource ` set rows"
proof (induction rows x rule: measure_rows.induct)
  case (1 rows x)
  show ?case
  proof (cases rows)
    case Nil
    then show ?thesis using 1 by (simp add: measure_rows.simps)
  next
    case (Cons r rs)
    let ?P = "\<lambda>q. rw_group q = rw_group r"
    let ?x = "measure_boundary (r # takeWhile ?P rs) (rw_t r) (rw_group r) x"
    have m: "measure_rows rows x = measure_rows (dropWhile ?P rs) ?x"
      unfolding Cons by (subst measure_rows.simps) simp
    have b: "xp_balance ?x = foldl (\<lambda>b r. balance_add (rw_resource r) (rw_delta r) b) (xp_balance x) (r # takeWhile ?P rs)"
      by (simp add: measure_boundary_def Let_def)
    note k = balance_fold_keys [OF 1(2), of "r # takeWhile ?P rs", folded b]
    have "set (takeWhile ?P rs) \<union> set (dropWhile ?P rs) = set rs"
      by (metis set_append takeWhile_dropWhile_id)
    then have "rw_resource ` set (r # takeWhile ?P rs) \<union> rw_resource ` set (dropWhile ?P rs) = rw_resource ` set rows"
      unfolding Cons by auto
    moreover note 1(1) [OF Cons conjunct1 [OF k]]
    ultimately show ?thesis using k unfolding m by auto
  qed
qed

lemma resources_counted: "length (xp_balance (measure_rows rows no_exposure)) = card (rw_resource ` set rows)"
proof -
  have "distinct (map fst (xp_balance no_exposure))" by (simp add: no_exposure_def)
  note k = measure_rows_balance [OF this, of rows]
  then have "card (fst ` set (xp_balance (measure_rows rows no_exposure))) = length (xp_balance (measure_rows rows no_exposure))"
    by (metis distinct_card length_map set_map)
  then show ?thesis using k by (simp add: no_exposure_def)
qed

text \<open>What is reported of a reading, apart from the order in which the accounts of the peak are listed.\<close>

definition same_reading :: "exposure_reading \<Rightarrow> exposure_reading \<Rightarrow> bool" where
  "same_reading a b \<longleftrightarrow>
     peak_of (er_exposure a) = peak_of (er_exposure b) \<and> xp_timeline (er_exposure a) = xp_timeline (er_exposure b) \<and>
     er_resources a = er_resources b \<and> er_events a = er_events b \<and> er_ordering a = er_ordering b \<and>
     er_ambiguous a = er_ambiguous b"

text \<open>C22. Two readings of the same ledger events agree: however the events are ordered, and whatever sequence
  numbers they carry, the peak, its moment and posting, the timeline, the number of accounts and the verdict
  on the ordering are the same.\<close>

theorem peak_ignores_order:
  assumes "mset events = mset events'" "attributablePeak parse events = Inr a"
  shows "\<exists>b. attributablePeak parse events' = Inr b \<and> same_reading a b"
proof -
  let ?xs = "sort_rows (numbered_rows parse events)" and ?ys = "sort_rows (numbered_rows parse events')"
  have m: "mset ?xs = mset ?ys" unfolding mset_sorted_events assms(1) ..
  then have set: "set ?xs = set ?ys" and len: "length ?xs = length ?ys" by (metis set_mset_mset, metis size_mset)
  have ev: "set events = set events'" using assms(1) by (metis set_mset_mset)
  have b: "boundaries 0 ?xs = boundaries 0 ?ys"
    by (rule boundaries_agree [OF m sorted_sort_rows sorted_sort_rows])
  have read: "list_ex (\<lambda>e. parse (le_at e) = None) events' \<longleftrightarrow> False"
    using assms(2) ev unfolding attributablePeak_def list_ex_iff by (auto split: if_splits)
  have s0: "sum_list (map snd (xp_balance no_exposure)) = 0" by (simp add: no_exposure_def)
  note x = measure_rows_boundaries [of ?xs no_exposure, unfolded s0]
  note y = measure_rows_boundaries [of ?ys no_exposure, unfolded s0]
  have "attributablePeak parse events' = Inr
    \<lparr> er_exposure = measure_rows ?ys no_exposure, er_resources = length (xp_balance (measure_rows ?ys no_exposure)),
      er_events = length ?ys, er_ordering = (if ambiguousInstants ?ys = 0 then DETERMINISTIC else AMBIGUOUS),
      er_ambiguous = ambiguousInstants ?ys \<rparr>"
    unfolding attributablePeak_def Let_def read by simp
  moreover have "a = \<lparr> er_exposure = measure_rows ?xs no_exposure, er_resources = length (xp_balance (measure_rows ?xs no_exposure)),
      er_events = length ?xs, er_ordering = (if ambiguousInstants ?xs = 0 then DETERMINISTIC else AMBIGUOUS),
      er_ambiguous = ambiguousInstants ?xs \<rparr>"
    using assms(2) unfolding attributablePeak_def Let_def by (auto split: if_splits)
  ultimately show ?thesis
    unfolding same_reading_def using x y b len set ambiguousInstants_mset [OF m] by (simp add: resources_counted)
qed
lemma peak_ignores_order_witness:
  "\<exists>b. attributablePeak (\<lambda>s. Some (int (length s)))
        [\<lparr> le_resource = ''b'', le_at = ''1'', le_delta = 100, le_posting = Some ''p'', le_seq = Some None \<rparr>,
         \<lparr> le_resource = ''a'', le_at = ''1'', le_delta = -100, le_posting = Some ''p'', le_seq = Some None \<rparr>,
         \<lparr> le_resource = ''a'', le_at = [], le_delta = 100, le_posting = Some ''g'', le_seq = None \<rparr>] = Inr b \<and>
     xp_peak (er_exposure b) = 100 \<and> er_ordering b = DETERMINISTIC"
proof -
  let ?p = "\<lambda>s :: string. Some (int (length s))"
  let ?a = "\<lparr> le_resource = ''a'', le_at = [], le_delta = 100, le_posting = Some ''g'', le_seq = None \<rparr>"
  let ?b = "\<lparr> le_resource = ''a'', le_at = ''1'', le_delta = -100, le_posting = Some ''p'', le_seq = Some None \<rparr>"
  let ?c = "\<lparr> le_resource = ''b'', le_at = ''1'', le_delta = 100, le_posting = Some ''p'', le_seq = Some None \<rparr>"
  have r: "(case attributablePeak ?p [?a, ?b, ?c] of Inl e \<Rightarrow> False
     | Inr x \<Rightarrow> xp_peak (er_exposure x) = 100 \<and> er_ordering x = DETERMINISTIC)"
    by (simp add: attributablePeak_def numbered_rows_def ev_row_of_def ev_seq_def ev_group_def sort_rows_def row_before_def
        Let_def less_char_def measure_rows.simps measure_boundary_def no_exposure_def ambiguousInstants_def ambiguous_at_def upt_rec)
  then obtain x where x: "attributablePeak ?p [?a, ?b, ?c] = Inr x" "xp_peak (er_exposure x) = 100" "er_ordering x = DETERMINISTIC"
    by (auto split: sum.splits)
  show ?thesis
    using peak_ignores_order [OF _ x(1), of "[?c, ?b, ?a]"] x(2,3) by (auto simp: same_reading_def peak_of_def)
qed

section \<open>The peak is the most that was held\<close>

definition held_by :: "date_parser \<Rightarrow> ledger_event list \<Rightarrow> int \<Rightarrow> int" where
  "held_by parse events t = sum_list (map le_delta (filter (\<lambda>e. the (parse (le_at e)) \<le> t) events))"

definition held_rows :: "ev_row list \<Rightarrow> int \<Rightarrow> int" where
  "held_rows rows t = sum_list (map rw_delta (filter (\<lambda>r. rw_t r \<le> t) rows))"

lemma held_rows_sum: "held_rows rows t = sum_mset (image_mset rw_delta (filter_mset (\<lambda>r. rw_t r \<le> t) (mset rows)))"
  unfolding held_rows_def by (metis mset_filter mset_map sum_mset_sum_list)

lemma held_sorted: "held_rows (sort_rows (numbered_rows parse events)) t = held_by parse events t"
proof -
  have "held_rows (sort_rows (numbered_rows parse events)) t = held_rows (map (ev_row_of parse) events) t"
    unfolding held_rows_sum mset_sorted_events by simp
  also have "\<dots> = held_by parse events t"
    unfolding held_rows_def held_by_def filter_map map_map by (simp add: comp_def ev_row_of_def Let_def)
  finally show ?thesis .
qed

lemma peak_is_max:
  "fst (foldl (\<lambda>p b. raise_peak b p) p bs) = Max (insert (fst p) ((\<lambda>b. snd (snd b)) ` set bs))"
proof (induction bs arbitrary: p)
  case Nil
  then show ?case by simp
next
  case (Cons b bs)
  have "fst (raise_peak b p) = max (fst p) (snd (snd b))" by (auto simp: raise_peak_def split: prod.split)
  moreover have "insert (fst p) ((\<lambda>b. snd (snd b)) ` set (b # bs)) = insert (fst p) (insert (snd (snd b)) ((\<lambda>b. snd (snd b)) ` set bs))"
    by simp
  moreover have "Max (insert (max c d) A) = Max (insert c (insert d A))" if "finite A" for c d :: int and A
    using that by (cases "A = {}") (simp_all add: max.assoc)
  ultimately show ?case using Cons.IH [of "raise_peak b p"] by simp
qed

definition instants_are_groups :: "ev_row list \<Rightarrow> bool" where
  "instants_are_groups rows \<longleftrightarrow> (\<forall>r \<in> set rows. \<forall>q \<in> set rows. rw_t r = rw_t q \<longleftrightarrow> rw_group r = rw_group q)"

lemma filter_takeWhile_id: "filter P (takeWhile P xs) = takeWhile P xs"
  by (induction xs) auto

lemma first_instant:
  assumes s: "sorted (map row_key (r # rs))" and g: "instants_are_groups (r # rs)"
  shows "takeWhile (\<lambda>q. rw_group q = rw_group r) rs = filter (\<lambda>q. rw_t q \<le> rw_t r) rs"
    and "\<forall>q \<in> set (dropWhile (\<lambda>q. rw_group q = rw_group r) rs). rw_t r < rw_t q"
proof -
  let ?P = "\<lambda>q. rw_group q = rw_group r"
  have ge: "rw_t r \<le> rw_t q" if "q \<in> set rs" for q
    using s that by (auto simp: row_key_def less_eq_prod_def)
  have eq: "rw_t q \<le> rw_t r \<longleftrightarrow> rw_group q = rw_group r" if "q \<in> set rs" for q
    using ge [OF that] g that unfolding instants_are_groups_def by force
  have rest: "\<not> ?P q" if q: "q \<in> set (dropWhile ?P rs)" for q
  proof -
    obtain d ds where d: "dropWhile ?P rs = d # ds" using q by (cases "dropWhile ?P rs") auto
    then have "\<not> ?P d \<and> rs = takeWhile ?P rs @ d # ds" unfolding dropWhile_eq_Cons_conv by blast
    then have nd: "\<not> ?P d" and d_in: "d \<in> set rs" by (blast, metis in_set_conv_decomp)
    have "sorted (map row_key (d # ds))" using sorted_dropWhile_key [of rs ?P] s d by simp
    then have "rw_t d \<le> rw_t q" using q d by (auto simp: row_key_def less_eq_prod_def)
    moreover have "rw_t r < rw_t d" using eq [OF d_in] nd by simp
    ultimately show ?thesis using eq [OF set_dropWhileD [OF q]] by simp
  qed
  show "\<forall>q \<in> set (dropWhile ?P rs). rw_t r < rw_t q"
  proof (intro ballI)
    fix q assume q: "q \<in> set (dropWhile ?P rs)"
    show "rw_t r < rw_t q" using eq [OF set_dropWhileD [OF q]] rest [OF q] by simp
  qed
  have "filter (\<lambda>q. rw_t q \<le> rw_t r) rs = filter ?P rs" by (rule filter_cong [OF refl]) (rule eq)
  also have "\<dots> = filter ?P (takeWhile ?P rs) @ filter ?P (dropWhile ?P rs)"
    unfolding filter_append [symmetric] takeWhile_dropWhile_id ..
  also have "\<dots> = takeWhile ?P rs"
  proof -
    have "filter ?P (dropWhile ?P rs) = []" unfolding filter_empty_conv using rest by blast
    moreover have "filter ?P (takeWhile ?P rs) = takeWhile ?P rs" by (rule filter_takeWhile_id)
    ultimately show ?thesis by simp
  qed
  finally show "takeWhile ?P rs = filter (\<lambda>q. rw_t q \<le> rw_t r) rs" ..
qed

lemma boundaries_held:
  "sorted (map row_key rows) \<Longrightarrow> instants_are_groups rows \<Longrightarrow>
     (\<lambda>b. snd (snd b)) ` set (boundaries base rows) = (\<lambda>t. base + held_rows rows t) ` rw_t ` set rows"
proof (induction base rows rule: boundaries.induct)
  case (1 base rows)
  show ?case
  proof (cases rows)
    case Nil
    then show ?thesis by simp
  next
    case (Cons r rs)
    let ?P = "\<lambda>q. rw_group q = rw_group r"
    let ?s = "base + rw_delta r + sum_list (map rw_delta (takeWhile ?P rs))"
    let ?d = "dropWhile ?P rs"
    have s: "sorted (map row_key ?d)" using 1(2) Cons sorted_dropWhile_key by simp
    have g: "instants_are_groups ?d"
      using 1(3) Cons set_dropWhileD [of _ ?P rs] unfolding instants_are_groups_def by (metis list.set_intros(2))
    note fi = first_instant [OF 1(2) [unfolded Cons] 1(3) [unfolded Cons]]
    have split: "rs = takeWhile ?P rs @ ?d" by simp
    have first: "base + held_rows (r # rs) (rw_t r) = ?s" unfolding fi(1) held_rows_def by simp
    have later: "base + held_rows (r # rs) t = ?s + held_rows ?d t" if "rw_t r < t" for t
    proof -
      have "filter (\<lambda>q. rw_t q \<le> t) (takeWhile ?P rs) = takeWhile ?P rs"
        unfolding fi(1) by (rule filter_True) (use that in auto)
      then have "filter (\<lambda>q. rw_t q \<le> t) rs = takeWhile ?P rs @ filter (\<lambda>q. rw_t q \<le> t) ?d"
        by (metis filter_append split)
      then show ?thesis using that by (simp add: held_rows_def)
    qed
    have times: "rw_t ` set (r # rs) = insert (rw_t r) (rw_t ` set ?d)"
    proof -
      have "rw_t q = rw_t r" if "q \<in> set (takeWhile ?P rs)" for q
        using 1(3) Cons set_takeWhileD [OF that] unfolding instants_are_groups_def by auto
      moreover have "set rs = set (takeWhile ?P rs) \<union> set ?d" by (metis set_append split)
      ultimately show ?thesis by (auto simp: image_Un)
    qed
    have "(\<lambda>b. snd (snd b)) ` set (boundaries ?s ?d) = (\<lambda>t. ?s + held_rows ?d t) ` rw_t ` set ?d"
      by (rule 1(1) [OF Cons refl refl s g])
    also have "\<dots> = (\<lambda>t. base + held_rows (r # rs) t) ` rw_t ` set ?d"
      using fi(2) later by (intro image_cong refl) auto
    finally show ?thesis unfolding Cons boundaries_Cons times by (simp add: first)
  qed
qed
lemma ev_group_inj:
  assumes "ev_group p t = ev_group q u"
  shows "p = q \<and> (p = None \<longrightarrow> t = u)"
  using assms by (auto simp: ev_group_def split: option.splits)

lemma unambiguous_groups:
  assumes "ambiguousInstants rows = 0" "r \<in> set rows" "q \<in> set rows" "rw_t r = rw_t q"
  shows "rw_group r = rw_group q"
proof (rule ccontr)
  assume ne: "rw_group r \<noteq> rw_group q"
  let ?evs = "filter (\<lambda>x. rw_t x = rw_t r) rows"
  have mem: "r \<in> set ?evs" "q \<in> set ?evs" using assms(2-4) by simp_all
  have "card {rw_group r, rw_group q} \<le> card (rw_group ` set ?evs)"
    by (rule card_mono) (use mem in auto)
  then have groups: "1 < length (remdups (map rw_group ?evs))" using ne by (simp add: length_remdups_card_conv)
  moreover have "length (remdups (map rw_group ?evs)) \<le> length ?evs"
    by (metis length_map length_remdups_leq)
  ultimately have "ambiguous_at rows (rw_t r)" unfolding ambiguous_at_def Let_def by simp
  moreover have "\<not> ambiguous_at rows (rw_t r)"
    using assms(1,2) unfolding ambiguousInstants_def by (simp add: filter_empty_conv)
  ultimately show False by blast
qed

lemma peak_held:
  assumes "attributablePeak parse events = Inr a" "er_ordering a = DETERMINISTIC"
    and "\<And>d e. \<lbrakk>d \<in> set events; e \<in> set events; le_posting d = le_posting e; le_posting d \<noteq> None\<rbrakk> \<Longrightarrow>
           parse (le_at d) = parse (le_at e)"
  shows "xp_peak (er_exposure a) = Max (insert 0 ((\<lambda>e. held_by parse events (the (parse (le_at e)))) ` set events))"
proof -
  let ?rows = "sort_rows (numbered_rows parse events)"
  have a: "xp_peak (er_exposure a) = fst (peak_of (measure_rows ?rows no_exposure))" "ambiguousInstants ?rows = 0"
    using assms(1,2) unfolding attributablePeak_def Let_def by (auto simp: peak_of_def split: if_splits)
  have rows: "set ?rows = ev_row_of parse ` set events"
    using mset_sorted_events [of parse events] by (metis set_image_mset set_mset_mset)
  have "rw_t r = rw_t q" if r: "r \<in> set ?rows" "q \<in> set ?rows" "rw_group r = rw_group q" for r q
  proof -
    obtain d e where d: "d \<in> set events" "e \<in> set events" "r = ev_row_of parse d" "q = ev_row_of parse e"
      using r rows by auto
    then have "ev_group (le_posting d) (the (parse (le_at d))) = ev_group (le_posting e) (the (parse (le_at e)))"
      using r(3) by (simp add: ev_row_of_def Let_def)
    then show ?thesis using ev_group_inj assms(3) [OF d(1,2)] d by (fastforce simp: ev_row_of_def Let_def)
  qed
  then have "instants_are_groups ?rows"
    unfolding instants_are_groups_def using unambiguous_groups [OF a(2)] by blast
  then have h: "(\<lambda>b. snd (snd b)) ` set (boundaries 0 ?rows) = (\<lambda>t. held_by parse events t) ` rw_t ` set ?rows"
    using boundaries_held [OF sorted_sort_rows] by (simp add: held_sorted)
  have s0: "sum_list (map snd (xp_balance no_exposure)) = 0" "fst (peak_of no_exposure) = 0"
    by (simp_all add: no_exposure_def peak_of_def)
  have "rw_t ` set ?rows = (\<lambda>e. the (parse (le_at e))) ` set events"
    unfolding rows by (simp add: image_image ev_row_of_def Let_def)
  then show ?thesis
    unfolding a(1) conjunct1 [OF measure_rows_boundaries] s0 peak_is_max h by (simp add: image_image)
qed

section \<open>Measuring a journey\<close>

text \<open>The ledger of the accounts, read through the database: the rows of the statement over them, or nothing
  when it fails. A plan declares a bound, or none.\<close>

record measured =
  ms_verdict :: exposure_verdict
  ms_detail :: string
  ms_declared :: "int option"
  ms_actual :: "int option"
  ms_resources :: nat
  ms_events :: nat
  ms_completeness :: completeness
  ms_ordering :: "ev_order option"

definition unmeasured ::
  "(int \<Rightarrow> string) \<Rightarrow> int option \<Rightarrow> completeness \<Rightarrow> ev_order option \<Rightarrow> nat \<Rightarrow> nat \<Rightarrow> string option \<Rightarrow> measured" where
  "unmeasured pt d complete ord resources events detail =
     (let v = exposureVerdict pt d None False True
      in \<lparr> ms_verdict = fst v, ms_detail = (case detail of Some t \<Rightarrow> t | None \<Rightarrow> snd v), ms_declared = d,
           ms_actual = None, ms_resources = resources, ms_events = events, ms_completeness = complete,
           ms_ordering = ord \<rparr>)"

definition completeness_text :: "completeness \<Rightarrow> string" where
  "completeness_text c =
     (case c of
        VERIFIED \<Rightarrow> ''VERIFIED: every fundable resource the schema attributes to an owned container is declared''
      | INCOMPLETE gaps t \<Rightarrow> ''INCOMPLETE: '' @ t
      | UNKNOWN_COMPLETENESS t \<Rightarrow> ''UNKNOWN: '' @ t)"

definition measureExposure ::
  "(int \<Rightarrow> string) \<Rightarrow> date_parser \<Rightarrow> database \<Rightarrow> (string list \<Rightarrow> ledger_event list option) \<Rightarrow> int option \<Rightarrow>
   owned list \<Rightarrow> string + measured" where
  "measureExposure pt parse sql ownedLedgerEvents d owned =
     (let complete = ownershipCompleteness owned sql None; scope = resolveFinancialAccounts owned sql
      in if complete \<noteq> VERIFIED then
           Inr (unmeasured pt d complete None 0 0 (Some (''ownership '' @ completeness_text complete)))
         else if 0 < (case d of None \<Rightarrow> 0 | Some n \<Rightarrow> n) \<and> owned = [] then
           Inr (unmeasured pt d complete None 0 0
             (Some (''declares a bound of '' @ int_str (the d) @ '' and handed over no resource'')))
         else if sr_verdict scope = UNKNOWN_ACCOUNTS then
           Inr (unmeasured pt d complete None (ct_accounts (sr_counts scope)) 0 None)
         else if sr_accounts scope = [] then
           (let v = exposureVerdict pt d (Some 0) True True
            in Inr \<lparr> ms_verdict = fst v,
                 ms_detail = (if owned = [] then ''NO_FUNDED_RESOURCES'' else ''ONLY_STRUCTURAL_RESOURCES'') @ '': '' @ snd v,
                 ms_declared = d, ms_actual = Some 0, ms_resources = 0, ms_events = 0, ms_completeness = complete,
                 ms_ordering = Some DETERMINISTIC \<rparr>)
         else (case ownedLedgerEvents (sr_accounts scope) of
           None \<Rightarrow> Inr (unmeasured pt d complete None (length (sr_accounts scope)) 0 None)
         | Some events \<Rightarrow>
             (case attributablePeak parse events of
                Inl e \<Rightarrow> Inl e
              | Inr r \<Rightarrow>
                  if er_ordering r = AMBIGUOUS then
                    Inr (unmeasured pt d complete (Some AMBIGUOUS) (er_resources r) (er_events r)
                      (Some (nat_str (er_ambiguous r) @
                        '' instant(s) carry unordered postings; the peak could depend on the order chosen'')))
                  else
                    (let v = exposureVerdict pt d (Some (xp_peak (er_exposure r))) True True
                     in Inr \<lparr> ms_verdict = fst v, ms_detail = snd v, ms_declared = d,
                          ms_actual = Some (xp_peak (er_exposure r)), ms_resources = er_resources r,
                          ms_events = er_events r, ms_completeness = complete,
                          ms_ordering = Some (er_ordering r) \<rparr>))))"

lemma exposureVerdict_verified:
  "fst (exposureVerdict pt d a known True) = EXP_VERIFIED \<longleftrightarrow> known \<and> (\<exists>n m. d = Some n \<and> a = Some m \<and> m \<le> n)"
  by (auto simp: exposureVerdict_def split: option.splits)

lemma unmeasured_unverified [simp]: "ms_verdict (unmeasured pt d c ord r e t) \<noteq> EXP_VERIFIED"
  by (simp add: unmeasured_def Let_def exposureVerdict_def)

text \<open>C10. A declaration is verified only on evidence: the manifest is complete and every owned resource is priced;
  and either none of them has an account, or the ledger of exactly the resolved accounts was read, no instant of it
  is ambiguous, and at no instant did the accounts together hold more than the declared bound.\<close>

theorem verified_exposure_is_bounded:
  assumes "measureExposure pt parse sql ledger d owned = Inr m" "ms_verdict m = EXP_VERIFIED"
    and "\<And>accts es x y. \<lbrakk>ledger accts = Some es; x \<in> set es; y \<in> set es; le_posting x = le_posting y; le_posting x \<noteq> None\<rbrakk> \<Longrightarrow>
           parse (le_at x) = parse (le_at y)"
  shows "ownershipCompleteness owned sql None = VERIFIED \<and>
    (\<forall>r \<in> set owned. priced (resolveFinancialAccounts owned sql) r) \<and>
    (\<exists>n. d = Some n \<and> 0 \<le> n \<and>
      (sr_accounts (resolveFinancialAccounts owned sql) \<noteq> [] \<longrightarrow>
        (\<exists>es. ledger (sr_accounts (resolveFinancialAccounts owned sql)) = Some es \<and>
          (\<forall>e \<in> set es. held_by parse es (the (parse (le_at e))) \<le> n))))"
proof -
  let ?scope = "resolveFinancialAccounts owned sql"
  have c: "ownershipCompleteness owned sql None = VERIFIED" and v: "sr_verdict ?scope \<noteq> UNKNOWN_ACCOUNTS"
    using assms(1,2) unfolding measureExposure_def Let_def by (auto split: if_splits)
  then have "sr_verdict ?scope = RESOLVED" by (cases "sr_verdict ?scope") auto
  note total = resolved_all_priced [OF this]
  show ?thesis
  proof (cases "sr_accounts ?scope = []")
    case True
    then have "fst (exposureVerdict pt d (Some 0) True True) = EXP_VERIFIED"
      using assms(1,2) c v unfolding measureExposure_def Let_def by (auto split: if_splits)
    then show ?thesis using c total True by (auto simp: exposureVerdict_verified)
  next
    case False
    then obtain es r where es: "ledger (sr_accounts ?scope) = Some es" "attributablePeak parse es = Inr r"
      "er_ordering r \<noteq> AMBIGUOUS" "fst (exposureVerdict pt d (Some (xp_peak (er_exposure r))) True True) = EXP_VERIFIED"
      using assms(1,2) c v unfolding measureExposure_def Let_def by (auto split: if_splits option.splits sum.splits)
    then have det: "er_ordering r = DETERMINISTIC" by (cases "er_ordering r") auto
    have peak: "xp_peak (er_exposure r) = Max (insert 0 ((\<lambda>e. held_by parse es (the (parse (le_at e)))) ` set es))"
      by (rule peak_held [OF es(2) det assms(3) [OF es(1)]])
    obtain n where n: "d = Some n" "xp_peak (er_exposure r) \<le> n" using es(4) by (auto simp: exposureVerdict_verified)
    then have "0 \<le> n" "\<forall>e \<in> set es. held_by parse es (the (parse (le_at e))) \<le> n" using peak by auto
    then show ?thesis using c total es(1) n(1) by blast
  qed
qed
definition demo_events :: "ledger_event list" where
  "demo_events =
     [\<lparr> le_resource = ''acc-1'', le_at = [], le_delta = 100, le_posting = Some ''g'', le_seq = Some None \<rparr>,
      \<lparr> le_resource = ''acc-1'', le_at = ''1'', le_delta = -30, le_posting = Some ''p'', le_seq = Some None \<rparr>]"

definition demo_ledger :: "string list \<Rightarrow> ledger_event list option" where
  "demo_ledger accts = Some demo_events"

lemma verified_exposure_is_bounded_witness:
  "\<exists>m. measureExposure int_str (\<lambda>s. Some (int (length s))) demo_rows demo_ledger (Some 100) demo_owned = Inr m \<and>
     ms_verdict m = EXP_VERIFIED \<and> ms_actual m = Some 100 \<and>
     (\<forall>r \<in> set demo_owned. priced (resolveFinancialAccounts demo_owned demo_rows) r)"
proof -
  let ?p = "\<lambda>s :: string. Some (int (length s))"
  have c: "ownershipCompleteness demo_owned demo_rows None = VERIFIED" by code_simp
  have r: "sr_verdict (resolveFinancialAccounts demo_owned demo_rows) = RESOLVED" by code_simp
  have a: "sr_accounts (resolveFinancialAccounts demo_owned demo_rows) = [''acc-1'']" by code_simp
  have "(case attributablePeak ?p demo_events of Inl e \<Rightarrow> False | Inr x \<Rightarrow> er_ordering x = DETERMINISTIC \<and> xp_peak (er_exposure x) = 100)"
    by (simp add: demo_events_def attributablePeak_def numbered_rows_def ev_row_of_def ev_seq_def ev_group_def sort_rows_def
        row_before_def Let_def less_char_def measure_rows.simps measure_boundary_def no_exposure_def ambiguousInstants_def
        ambiguous_at_def upt_rec)
  then obtain x where x: "attributablePeak ?p demo_events = Inr x" "er_ordering x = DETERMINISTIC" "xp_peak (er_exposure x) = 100"
    by (auto split: sum.splits)
  obtain m where m: "measureExposure int_str ?p demo_rows demo_ledger (Some 100) demo_owned = Inr m"
    "ms_verdict m = EXP_VERIFIED" "ms_actual m = Some 100"
    by (simp add: measureExposure_def Let_def c r a demo_ledger_def x exposureVerdict_def demo_owned_def [THEN arg_cong, of "\<lambda>l. l = []"])
  have p: "?p (le_at x) = ?p (le_at y)"
    if "demo_ledger accts = Some es" "x \<in> set es" "y \<in> set es" "le_posting x = le_posting y" for accts es x y
    using that by (auto simp: demo_ledger_def demo_events_def)
  have "\<forall>r \<in> set demo_owned. priced (resolveFinancialAccounts demo_owned demo_rows) r"
    by (rule verified_exposure_is_bounded [OF m(1,2), THEN conjunct2, THEN conjunct1]) (rule p)
  then show ?thesis using m by blast
qed
end
