(* ===== verification/RunHarness.thy ===== *)
theory RunHarness
  imports Regex JsStd
begin

text \<open>
  What running one harness costs, read from its source text: an application submit
  (tools/lib/validation-capacity.mjs) and developer workspaces, per actor
  (tools/lib/validation-workspace-capacity.mjs). The expression that \<open>new RegExp\<close> reads in the name of an
  assigned variable is a parameter, nothing when the constructor throws.
\<close>

section \<open>Expressions over lines\<close>

text \<open>A match of a sequence of groups at the beginning of a line that ends at the end of one; what the groups matched.\<close>

fun find_line :: "rx list \<Rightarrow> bool \<Rightarrow> string \<Rightarrow> string list option" where
  "find_line rs start s =
     (case (if start then List.find (\<lambda>(ps, u). u = [] \<or> line_end (hd u)) (rx_groups rs s) else None) of
        Some (ps, u) \<Rightarrow> Some ps
      | None \<Rightarrow> (case s of [] \<Rightarrow> None | c # q \<Rightarrow> find_line rs (line_end c) q))"

declare find_line.simps [simp del]

text \<open>The boundary of a word, between what precedes and what follows.\<close>

definition word_end :: "string \<Rightarrow> bool" where
  "word_end s \<longleftrightarrow> s = [] \<or> \<not> rx_word_char (hd s)"

text \<open>A word, or an expression that begins with one, anywhere in a text.\<close>

fun after_boundary :: "bool \<Rightarrow> (string \<Rightarrow> bool) \<Rightarrow> string \<Rightarrow> bool" where
  "after_boundary outside p [] \<longleftrightarrow> outside \<and> p []"
| "after_boundary outside p (c # s) \<longleftrightarrow> (outside \<and> p (c # s)) \<or> after_boundary (\<not> rx_word_char c) p s"

definition rx_spaces :: rx where "rx_spaces = Star rx_space"

section \<open>An application submit\<close>

datatype bucket = RunnerBucket | VmBucket

definition rx_provision :: rx where
  "rx_provision = rx_seq [rx_lit ''provisionBusiness'', rx_spaces, rx_lit ''('']"

definition rx_not_path :: rx where
  "rx_not_path = NotAhead (Cls (\<lambda>c. c = CHR ''/'' \<or> rx_word_char c \<or> c = CHR ''-''))"

definition rx_applications :: rx where
  "rx_applications = Seq (rx_lit ''/v1/merchant/applications'') rx_not_path"

definition ends_with :: "string \<Rightarrow> string \<Rightarrow> bool" where
  "ends_with s t \<longleftrightarrow> length t \<le> length s \<and> drop (length s - length t) s = t"

definition submitCost :: "string \<Rightarrow> string \<Rightarrow> bucket option" where
  "submitCost harness src =
     (if \<not> (rx_test rx_provision src \<or> rx_test rx_applications src) then None
      else Some (if ends_with harness ''.sh'' then VmBucket else RunnerBucket))"

section \<open>Who a creation is charged to\<close>

definition SHARED_FIXTURE_ACTOR :: string where
  "SHARED_FIXTURE_ACTOR = ''11111111-2222-4333-8444-555555555555''"

definition rx_hex :: rx where
  "rx_hex = Cls (\<lambda>c. is_digit c \<or> js_lower [c] \<in> {''a'', ''b'', ''c'', ''d'', ''e'', ''f''})"

definition rx_uuid :: rx where
  "rx_uuid = rx_seq [rx_times 8 rx_hex, rx_lit ''-'', rx_times 4 rx_hex, rx_lit ''-'', rx_times 4 rx_hex, rx_lit ''-'',
     rx_times 4 rx_hex, rx_lit ''-'', rx_times 12 rx_hex]"

definition rx_minted :: rx where
  "rx_minted = rx_alt [rx_lit ''e2e_ephemeral_actor'', rx_lit ''uuidgen'', rx_lit ''random/uuid'',
     rx_seq [rx_lit ''randomuuid'', rx_spaces, rx_lit ''('']]"

text \<open>The flag that ignores case, over the lower-case text.\<close>

definition minted :: "string \<Rightarrow> bool" where
  "minted s \<longleftrightarrow> rx_test rx_minted (js_lower s)"

definition uuid_in :: "string \<Rightarrow> string option" where
  "uuid_in s = map_option (\<lambda>(b, m, t). js_lower m) (rx_find rx_uuid s)"

datatype actor =
    Shared string string
  | Ephemeral string string
  | UnknownActor string

text \<open>\<open>^\\$\\{?|\\}?$\<close>, removed everywhere: a leading reference sign and a closing brace.\<close>

definition strip_reference :: "string \<Rightarrow> string" where
  "strip_reference s =
     (let a = (case s of c # t \<Rightarrow> if c = CHR ''$'' then (case t of d # u \<Rightarrow> if d = CHR 0x7B then u else t | [] \<Rightarrow> []) else s
               | [] \<Rightarrow> [])
      in if a \<noteq> [] \<and> last a = CHR 0x7D then butlast a else a)"

definition rx_to_newline :: rx where "rx_to_newline = Star (Cls (\<lambda>c. c \<noteq> CHR 0x0A))"

definition rx_assignment :: "rx \<Rightarrow> rx list" where
  "rx_assignment name =
     [rx_seq [rx_spaces, rx_opt (rx_alt [rx_lit ''const'', rx_lit ''let'', rx_lit ''var'']), rx_spaces, name, rx_spaces,
        rx_lit ''='', rx_spaces], rx_to_newline]"

definition resolveActor :: "(string \<Rightarrow> rx option) \<Rightarrow> string option \<Rightarrow> string \<Rightarrow> string + actor" where
  "resolveActor name_rx ref src =
     (let name = js_trim (strip_reference (case ref of Some r \<Rightarrow> r | None \<Rightarrow> []))
      in if name = [] then Inr (UnknownActor ''no created_by reference'')
         else (case uuid_in name of
           Some u \<Rightarrow> Inr (Shared u ''literal'')
         | None \<Rightarrow>
             if name = ''ST_ACTOR'' then
               (case find_line [Seq rx_spaces (rx_lit ''ST_ACTOR=''), rx_to_newline] True src of
                  Some [_, v] \<Rightarrow>
                    if minted v then Inr (Ephemeral (''ephemeral:'' @ name) ''minted per run'')
                    else (case uuid_in v of
                            Some u \<Rightarrow> Inr (Shared u ''harness override'')
                          | None \<Rightarrow> Inr (UnknownActor ''ST_ACTOR overridden with something unreadable''))
                | _ \<Rightarrow> Inr (Shared SHARED_FIXTURE_ACTOR ''synthetic-tenant default''))
             else (case name_rx name of
               None \<Rightarrow> Inl (''Invalid regular expression: '' @ name)
             | Some r \<Rightarrow>
                 (case find_line (rx_assignment r) True src of
                    Some [_, v] \<Rightarrow>
                      if minted v then Inr (Ephemeral (''ephemeral:'' @ name) ''minted per run'')
                      else (case uuid_in v of
                              Some u \<Rightarrow> Inr (Shared u ''literal'')
                            | None \<Rightarrow> Inr (UnknownActor (''unreadable assignment: '' @ take 40 (js_trim v))))
                  | _ \<Rightarrow> Inr (UnknownActor ''no assignment found'')))))"

section \<open>Developer workspaces\<close>

definition is_comment :: "string \<Rightarrow> bool" where
  "is_comment l \<longleftrightarrow> rx_match (Seq rx_spaces (rx_lit ''#'')) l \<noteq> [] \<or> rx_match (Seq rx_spaces (rx_lit ''//'')) l \<noteq> []"

definition rx_tenant :: rx where
  "rx_tenant = rx_seq [rx_lit ''synthetic_tenant'', rx_plus rx_space, rx_nonspace]"

definition calls_tenant :: "string \<Rightarrow> bool" where
  "calls_tenant l \<longleftrightarrow> rx_match rx_tenant l \<noteq> [] \<or>
     rx_test (rx_seq [rx_one_of '';&|'', rx_spaces, rx_tenant]) l"

definition names_fixture_route :: "string \<Rightarrow> bool" where
  "names_fixture_route l \<longleftrightarrow>
     rx_test (Seq (rx_lit ''/internal/v1/fixture-projects'') rx_not_path) l \<and> \<not> rx_test (rx_lit ''retire'') l"

definition word_post :: "string \<Rightarrow> bool" where
  "word_post l \<longleftrightarrow> after_boundary True (\<lambda>s. list_ex word_end (rx_match (rx_lit ''POST'') s)) l"

definition posts_route :: "string \<Rightarrow> bool" where
  "posts_route l \<longleftrightarrow> word_post l \<or> rx_test (rx_seq [rx_lit ''devInternal'', rx_spaces, rx_lit ''('']) l"

definition rx_quote_mark :: rx where
  "rx_quote_mark = Seq (rx_opt (rx_lit [CHR 0x5C])) (rx_opt (rx_one_of [CHR 0x22, CHR 0x27]))"

definition rx_created_by :: "rx list" where
  "rx_created_by =
     [rx_seq [rx_lit ''created_by'', rx_quote_mark, rx_spaces, rx_lit '':'', rx_spaces, rx_quote_mark],
      rx_plus (Cls (\<lambda>c. \<not> (c \<in> {CHR 0x22, CHR 0x27, CHR 0x5C, CHR '','', CHR 0x7D} \<or> js_ws c)))]"

fun find_groups :: "rx list \<Rightarrow> string \<Rightarrow> string list option" where
  "find_groups rs s =
     (case rx_groups rs s of
        (ps, u) # _ \<Rightarrow> Some ps
      | [] \<Rightarrow> (case s of [] \<Rightarrow> None | c # q \<Rightarrow> find_groups rs q))"

declare find_groups.simps [simp del]

definition created_by_ref :: "string \<Rightarrow> string option" where
  "created_by_ref l = (case find_groups rx_created_by l of Some [_, v] \<Rightarrow> Some v | _ \<Rightarrow> None)"

record site =
  st_line :: nat
  st_actor :: actor
  st_via :: string

definition actor_unknown :: "actor \<Rightarrow> string option" where
  "actor_unknown a = (case a of UnknownActor w \<Rightarrow> Some w | _ \<Rightarrow> None)"

text \<open>One line of the source: a site of creation, none, or a name that is no expression.\<close>

definition line_site :: "(string \<Rightarrow> rx option) \<Rightarrow> string \<Rightarrow> nat \<Rightarrow> string \<Rightarrow> string + site option" where
  "line_site name_rx src i l =
     (if is_comment l then Inr None
      else if calls_tenant l then
        (case resolveActor name_rx (Some ''ST_ACTOR'') src of
           Inl e \<Rightarrow> Inl e
         | Inr a \<Rightarrow> Inr (Some \<lparr> st_line = i + 1, st_actor = a, st_via = ''synthetic_tenant'' \<rparr>))
      else if names_fixture_route l \<and> posts_route l then
        (case resolveActor name_rx (created_by_ref l) src of
           Inl e \<Rightarrow> Inl e
         | Inr a \<Rightarrow> Inr (Some \<lparr> st_line = i + 1, st_actor = a, st_via = ''fixture-projects'' \<rparr>))
      else Inr None)"

fun line_sites :: "(string \<Rightarrow> rx option) \<Rightarrow> string \<Rightarrow> nat \<Rightarrow> string list \<Rightarrow> string + site list" where
  "line_sites name_rx src i [] = Inr []"
| "line_sites name_rx src i (l # ls) =
     (case line_site name_rx src i l of
        Inl e \<Rightarrow> Inl e
      | Inr s \<Rightarrow>
          (case line_sites name_rx src (i + 1) ls of
             Inl e \<Rightarrow> Inl e
           | Inr ss \<Rightarrow> Inr ((case s of Some x \<Rightarrow> [x] | None \<Rightarrow> []) @ ss)))"

text \<open>A loop around a line, looked for in the forty lines up to it, from the nearest on.\<close>

definition closes_block :: "string \<Rightarrow> bool" where
  "closes_block l \<longleftrightarrow> list_ex word_end (rx_match (Seq rx_spaces (rx_lit ''done'')) l) \<or>
     rx_whole (rx_seq [rx_spaces, rx_lit [CHR 0x7D], rx_spaces]) l"

definition opens_loop :: "string \<Rightarrow> bool" where
  "opens_loop l \<longleftrightarrow>
     list_ex word_end (rx_match (Seq rx_spaces (rx_alt [rx_lit ''for'', rx_lit ''while'', rx_lit ''until''])) l) \<or>
     after_boundary True
       (\<lambda>s. rx_match (rx_seq [rx_alt [rx_lit ''for'', rx_lit ''while''], rx_spaces, rx_lit ''('']) s \<noteq> []) l"

fun loop_above :: "nat \<Rightarrow> string list \<Rightarrow> bool" where
  "loop_above depth [] = False"
| "loop_above depth (l # ls) =
     (let d = (if closes_block l then depth + 1 else depth)
      in if opens_loop l then (if d = 0 then True else loop_above (d - 1) ls) else loop_above d ls)"

definition insideLoop :: "string list \<Rightarrow> nat \<Rightarrow> bool" where
  "insideLoop ls idx = loop_above 0 (take 40 (rev (take (idx + 1) ls)))"

record workspace_cost =
  wc_harness :: string
  wc_sites :: "site list"
  wc_unresolved :: "(nat \<times> string) list"
  wc_looped :: "site list"

definition workspaceCost :: "(string \<Rightarrow> rx option) \<Rightarrow> string \<Rightarrow> string \<Rightarrow> string + workspace_cost option" where
  "workspaceCost name_rx harness src =
     (let ls = split_on (CHR 0x0A) src
      in case line_sites name_rx src 0 ls of
           Inl e \<Rightarrow> Inl e
         | Inr [] \<Rightarrow> Inr None
         | Inr sites \<Rightarrow>
             Inr (Some \<lparr> wc_harness = harness, wc_sites = sites,
               wc_unresolved = concat (map (\<lambda>s. if st_via s = ''fixture-projects'' then
                 (case actor_unknown (st_actor s) of Some w \<Rightarrow> [(st_line s, w)] | None \<Rightarrow> []) else []) sites),
               wc_looped = filter (\<lambda>s. insideLoop ls (st_line s - 1)) sites \<rparr>))"

text \<open>The count of the sites is what the harness creates only when it is precise.\<close>

definition precise :: "workspace_cost \<Rightarrow> bool" where
  "precise c \<longleftrightarrow> wc_unresolved c = [] \<and> wc_looped c = []"

end
