(* ===== verification/RunCapacity.thy ===== *)
theory RunCapacity
  imports RunHarness "HOL-Library.AList" "HOL-Library.List_Lexorder" "HOL-Library.Char_ord"
begin

text \<open>
  The scarce resources of a validation run and the gates over them: application submits and aggregate
  funds (tools/lib/validation-capacity.mjs), developer workspaces (tools/lib/validation-workspace-capacity.mjs).
  The limiter's buckets, the registries and the database's answers are inputs.
\<close>

section \<open>The plan\<close>

datatype plan_kind = JOURNEY | CONTROL

record plan_entry =
  pe_journey :: string
  pe_suite :: string
  pe_name :: string
  pe_kind :: plan_kind
  pe_harness :: "string option"
  pe_control :: "string option"
  pe_controlReason :: "string option"
  pe_notProven :: "string option"
  pe_exposure :: "int option"
  pe_submits :: "bucket option"
  pe_adapter :: "string option"
  pe_args :: "string list"
  pe_evidenceStem :: "string option"
  pe_timeoutMs :: int
  pe_retries :: int
  pe_blocking :: bool
  pe_disposable :: nat
  pe_allowed :: int

definition no_harness :: "plan_entry \<Rightarrow> bool" where
  "no_harness p \<longleftrightarrow> pe_harness p = None \<or> pe_harness p = Some []"

section \<open>Application submits\<close>

definition SUBMIT_LIMIT :: int where "SUBMIT_LIMIT = 30"

definition SUBMIT_WINDOW_SECONDS :: int where "SUBMIT_WINDOW_SECONDS = 24 * 60 * 60"

record submit_bucket =
  bk_ip :: "string option"
  bk_used :: int
  bk_free :: int
  bk_nextFreeAt :: "string option"
  bk_isVM :: bool
  bk_observed :: bool

text \<open>The suffix \<open>/64\<close>, and an address no public client can present.\<close>

definition strip_mask :: "string \<Rightarrow> string" where
  "strip_mask a =
     (let r = rev a; ds = takeWhile is_digit r; q = dropWhile is_digit r
      in if ds \<noteq> [] \<and> q \<noteq> [] \<and> hd q = CHR ''/'' then rev (tl q) else a)"

definition isInternalSubmitter :: "string \<Rightarrow> string \<Rightarrow> bool" where
  "isInternalSubmitter host ip =
     (let a = js_lower (js_trim ip); bare = strip_mask a
      in a \<noteq> [] \<and>
         (ends_with a (last (split_on (CHR ''@'') host)) \<or> bare = ''::'' \<or> bare = ''::1'' \<or> bare = ''localhost'' \<or>
          take 4 bare = ''127.''))"

text \<open>One key of the limiter: what it has spent in the window, and when its oldest submit leaves it.\<close>

definition read_bucket :: "string \<Rightarrow> string \<times> int \<times> int option \<Rightarrow> submit_bucket" where
  "read_bucket host k =
     (case k of (ip, used, oldest) \<Rightarrow>
        \<lparr> bk_ip = Some ip, bk_used = used, bk_free = max 0 (SUBMIT_LIMIT - used),
          bk_nextFreeAt = (case oldest of
             None \<Rightarrow> None
           | Some ms \<Rightarrow> if ms = 0 then None else Some (toISOString (ms + SUBMIT_WINDOW_SECONDS * 1000))),
          bk_isVM = isInternalSubmitter host ip, bk_observed = True \<rparr>)"

definition unseen_bucket :: "bool \<Rightarrow> submit_bucket" where
  "unseen_bucket vm = \<lparr> bk_ip = None, bk_used = 0, bk_free = SUBMIT_LIMIT, bk_nextFreeAt = None, bk_isVM = vm,
     bk_observed = False \<rparr>"

text \<open>The first of the busiest.\<close>

fun busiest :: "submit_bucket \<Rightarrow> submit_bucket list \<Rightarrow> submit_bucket" where
  "busiest b [] = b"
| "busiest b (c # cs) = busiest (if bk_used b < bk_used c then c else b) cs"

definition runnerBucket :: "submit_bucket list \<Rightarrow> submit_bucket" where
  "runnerBucket buckets =
     (case filter (\<lambda>b. \<not> bk_isVM b) buckets of
        [] \<Rightarrow> unseen_bucket False
      | b # bs \<Rightarrow> (busiest b bs)\<lparr>bk_observed := True\<rparr>)"

definition vmBucket :: "submit_bucket list \<Rightarrow> submit_bucket option" where
  "vmBucket buckets =
     (case List.find bk_isVM buckets of
        Some b \<Rightarrow> Some (b\<lparr>bk_observed := True\<rparr>)
      | None \<Rightarrow> if 1 < length (filter (\<lambda>b. \<not> bk_isVM b) buckets) then None else Some (unseen_bucket True))"

section \<open>Aggregate funds\<close>

definition REGISTRATION_GRANT :: int where "REGISTRATION_GRANT = 1000000"

record peak_funds =
  pf_cumulative :: int
  pf_concurrent :: int
  pf_barrier :: bool
  pf_peak :: int
  pf_unknown :: "string list"
  pf_inert :: "string list"

text \<open>The exposure a journey declares, by the registry when one is given.\<close>

definition exposure_of :: "(string \<Rightarrow> int option option) option \<Rightarrow> plan_entry \<Rightarrow> int option" where
  "exposure_of journeysById p =
     (case journeysById of
        None \<Rightarrow> pe_exposure p
      | Some m \<Rightarrow> (case m (pe_journey p) of Some v \<Rightarrow> v | None \<Rightarrow> pe_exposure p))"

definition plan_funds_step :: "(string \<Rightarrow> int option option) option \<Rightarrow> peak_funds \<Rightarrow> plan_entry \<Rightarrow> peak_funds" where
  "plan_funds_step journeysById f p =
     (if pe_harness p = None then f\<lparr>pf_inert := pf_inert f @ [pe_journey p]\<rparr>
      else (case exposure_of journeysById p of
        None \<Rightarrow> f\<lparr>pf_unknown := pf_unknown f @ [pe_journey p]\<rparr>
      | Some v \<Rightarrow> f\<lparr>pf_cumulative := pf_cumulative f + v, pf_concurrent := max (pf_concurrent f) v\<rparr>))"

definition plannedPeakFunds :: "plan_entry list \<Rightarrow> (string \<Rightarrow> int option option) option \<Rightarrow> bool \<Rightarrow> peak_funds" where
  "plannedPeakFunds plan journeysById barrier =
     (let f = foldl (plan_funds_step journeysById)
            \<lparr> pf_cumulative = 0, pf_concurrent = 0, pf_barrier = barrier, pf_peak = 0, pf_unknown = [], pf_inert = [] \<rparr> plan
      in f\<lparr>pf_peak := if barrier then pf_concurrent f else pf_cumulative f\<rparr>)"

record funds_headroom =
  fh_plannedPeakMax :: int
  fh_failedRunResidualMax :: int
  fh_retryPeakMax :: int
  fh_required :: int

definition requiredFundsHeadroom :: "int \<Rightarrow> funds_headroom" where
  "requiredFundsHeadroom peak =
     \<lparr> fh_plannedPeakMax = peak, fh_failedRunResidualMax = peak, fh_retryPeakMax = peak, fh_required = peak + peak \<rparr>"

section \<open>The limits on workspaces\<close>

record ws_limits =
  wl_active :: int
  wl_creation :: int
  wl_windowHours :: int

definition LIMITS_SOURCE :: string where
  "LIMITS_SOURCE = ''services/developer-api/internal/developer/limits.go''"

definition rx_digits :: rx where "rx_digits = rx_plus rx_digit"

definition named_limit :: "string \<Rightarrow> string \<Rightarrow> int option" where
  "named_limit name src =
     (case find_groups [rx_seq [rx_lit name, rx_spaces, rx_lit ''='', rx_spaces], rx_digits] src of
        Some [_, d] \<Rightarrow> Some (int (dec_val d)) | _ \<Rightarrow> None)"

definition window_hours :: "string \<Rightarrow> int option" where
  "window_hours src =
     (case find_groups [rx_lit ''Add(-'', rx_digits, rx_seq [rx_spaces, rx_lit ''*'', rx_spaces, rx_lit ''time.Hour)'']] src of
        Some [_, d, _] \<Rightarrow> Some (int (dec_val d)) | _ \<Rightarrow> None)"

text \<open>The text of the source of the limits, or nothing when it cannot be read.\<close>

definition workspaceLimits :: "string option \<Rightarrow> string + ws_limits" where
  "workspaceLimits src =
     (case src of
        None \<Rightarrow> Inl (''cannot read '' @ LIMITS_SOURCE)
      | Some s \<Rightarrow>
          (case (named_limit ''MaxActiveWorkspacesPerUser'' s, named_limit ''MaxWorkspacesCreatedPerDay'' s) of
             (Some a, Some c) \<Rightarrow>
               Inr \<lparr> wl_active = a, wl_creation = c,
                 wl_windowHours = (case window_hours s of Some h \<Rightarrow> h | None \<Rightarrow> 24) \<rparr>
           | _ \<Rightarrow> Inl (LIMITS_SOURCE @ '' no longer declares both limits'')))"

section \<open>What a plan consumes\<close>

datatype actor_kind = SHARED | EPHEMERAL | UNKNOWN_ACTOR

record consumer_rec =
  cr_actor :: "string option"
  cr_kind :: actor_kind
  cr_planned :: int
  cr_perJourneyMax :: int
  cr_maxConcurrent :: int
  cr_journeys :: "(string \<times> int) list"

record consumption =
  cn_byActor :: "consumer_rec list"
  cn_unknown :: "string list"
  cn_inert :: "string list"
  cn_barrier :: bool

text \<open>An actor that was not resolved has no id.\<close>

definition actor_id :: "string \<Rightarrow> actor \<Rightarrow> string option" where
  "actor_id journey a =
     (case a of Shared i w \<Rightarrow> Some i | Ephemeral i w \<Rightarrow> Some (i @ ''@'' @ journey) | UnknownActor w \<Rightarrow> None)"

definition actor_kind_of :: "actor \<Rightarrow> actor_kind" where
  "actor_kind_of a = (case a of Shared i w \<Rightarrow> SHARED | Ephemeral i w \<Rightarrow> EPHEMERAL | UnknownActor w \<Rightarrow> UNKNOWN_ACTOR)"

fun count_actor :: "string option \<Rightarrow> actor_kind \<Rightarrow> (string option \<times> actor_kind \<times> int) list \<Rightarrow> (string option \<times> actor_kind \<times> int) list" where
  "count_actor i k [] = [(i, k, 1)]"
| "count_actor i k ((j, l, n) # m) = (if j = i then (j, k, n + 1) # m else (j, l, n) # count_actor i k m)"

definition per_actor :: "string \<Rightarrow> site list \<Rightarrow> (string option \<times> actor_kind \<times> int) list" where
  "per_actor journey sites =
     foldl (\<lambda>m s. count_actor (actor_id journey (st_actor s)) (actor_kind_of (st_actor s)) m) [] sites"

fun bump :: "string \<Rightarrow> string option \<times> actor_kind \<times> int \<Rightarrow> consumer_rec list \<Rightarrow> consumer_rec list" where
  "bump journey (i, k, n) [] =
     [\<lparr> cr_actor = i, cr_kind = k, cr_planned = n, cr_perJourneyMax = max 0 n, cr_maxConcurrent = 0,
        cr_journeys = [(journey, n)] \<rparr>]"
| "bump journey (i, k, n) (r # rs) =
     (if cr_actor r = i then
        r\<lparr>cr_planned := cr_planned r + n, cr_kind := k, cr_perJourneyMax := max (cr_perJourneyMax r) n,
          cr_journeys := cr_journeys r @ [(journey, n)]\<rparr> # rs
      else r # bump journey (i, k, n) rs)"

definition imprecise_text :: "plan_entry \<Rightarrow> workspace_cost \<Rightarrow> string" where
  "imprecise_text p c =
     pe_journey p @ '': '' @
     (let whys = join_with ''; '' (map snd (wc_unresolved c))
      in if whys \<noteq> [] then whys
         else nat_str (length (wc_looped c)) @ '' creation site(s) inside a loop'')"

definition consume_entry ::
  "(string \<Rightarrow> rx option) \<Rightarrow> (string \<Rightarrow> string option) \<Rightarrow> plan_entry \<Rightarrow> consumption \<Rightarrow> string + consumption" where
  "consume_entry name_rx read p c =
     (if no_harness p then Inr (c\<lparr>cn_inert := cn_inert c @ [pe_journey p]\<rparr>)
      else (case read (the (pe_harness p)) of
        None \<Rightarrow> Inr (c\<lparr>cn_inert := cn_inert c @ [pe_journey p]\<rparr>)
      | Some src \<Rightarrow>
          (case workspaceCost name_rx (the (pe_harness p)) src of
             Inl e \<Rightarrow> Inl e
           | Inr None \<Rightarrow> Inr c
           | Inr (Some cost) \<Rightarrow>
               if \<not> precise cost then Inr (c\<lparr>cn_unknown := cn_unknown c @ [imprecise_text p cost]\<rparr>)
               else Inr (c\<lparr>cn_byActor :=
                      foldl (\<lambda>m x. bump (pe_journey p) x m) (cn_byActor c) (per_actor (pe_journey p) (wc_sites cost))\<rparr>))))"

fun consume_plan ::
  "(string \<Rightarrow> rx option) \<Rightarrow> (string \<Rightarrow> string option) \<Rightarrow> plan_entry list \<Rightarrow> consumption \<Rightarrow> string + consumption" where
  "consume_plan name_rx read [] c = Inr c"
| "consume_plan name_rx read (p # ps) c =
     (case consume_entry name_rx read p c of Inl e \<Rightarrow> Inl e | Inr d \<Rightarrow> consume_plan name_rx read ps d)"

definition concurrent_of :: "bool \<Rightarrow> consumer_rec \<Rightarrow> consumer_rec" where
  "concurrent_of barrier r = r\<lparr>cr_maxConcurrent := if barrier then cr_perJourneyMax r else cr_planned r\<rparr>"

definition workspaceConsumption ::
  "(string \<Rightarrow> rx option) \<Rightarrow> (string \<Rightarrow> string option) \<Rightarrow> plan_entry list \<Rightarrow> bool \<Rightarrow> string + consumption" where
  "workspaceConsumption name_rx read plan barrier =
     (case consume_plan name_rx read plan \<lparr> cn_byActor = [], cn_unknown = [], cn_inert = [], cn_barrier = barrier \<rparr> of
        Inl e \<Rightarrow> Inl e
      | Inr c \<Rightarrow> Inr (c\<lparr>cn_byActor := map (concurrent_of barrier) (cn_byActor c)\<rparr>))"

section \<open>The reserve\<close>

datatype reserve = Declared string nat | Undeclared string

record workspace_policy =
  wp_model :: "string option"
  wp_retries :: "int option"

record capacity_policy =
  cp_profiles :: "(string \<times> workspace_policy option) list"
  cp_models :: "string list"

text \<open>The policy, or nothing when it cannot be read; a count of retries that is no whole number is none.\<close>

definition retryReserve :: "string \<Rightarrow> capacity_policy option \<Rightarrow> reserve" where
  "retryReserve profileID policy =
     (case policy of
        None \<Rightarrow> Undeclared ''capacity-policy.yaml is unreadable''
      | Some doc \<Rightarrow>
          (case map_of (cp_profiles doc) profileID of
             Some (Some ws) \<Rightarrow>
               (case wp_model ws of
                  None \<Rightarrow> Undeclared (''no workspace retry policy declared for '' @ profileID)
                | Some m \<Rightarrow>
                    if m = [] then Undeclared (''no workspace retry policy declared for '' @ profileID)
                    else if m \<notin> set (cp_models doc) then Undeclared (''unknown reserve model '' @ m)
                    else (case wp_retries ws of
                      None \<Rightarrow> Undeclared (''permitted_retries is not a whole number for '' @ profileID)
                    | Some n \<Rightarrow> if n < 0 then Undeclared (''permitted_retries is not a whole number for '' @ profileID)
                        else Declared m (nat n)))
           | _ \<Rightarrow> Undeclared (''no workspace retry policy declared for '' @ profileID)))"

definition reserveFor :: "reserve \<Rightarrow> int \<Rightarrow> int option" where
  "reserveFor r planned =
     (case r of
        Undeclared d \<Rightarrow> None
      | Declared m n \<Rightarrow> if m = ''one_full_retry'' then Some (int n * planned) else None)"

text \<open>The sum with a number that may be null, which counts as zero.\<close>

definition plus_null :: "int \<Rightarrow> int option \<Rightarrow> int" where
  "plus_null n r = n + (case r of Some m \<Rightarrow> m | None \<Rightarrow> 0)"

definition null_text :: "int option \<Rightarrow> string" where
  "null_text r = (case r of Some n \<Rightarrow> int_str n | None \<Rightarrow> ''null'')"

section \<open>The two gates\<close>

definition FAMILY_ACTIVE :: string where "FAMILY_ACTIVE = ''WORKSPACE_ACTIVE_CAPACITY''"

definition FAMILY_CREATION :: string where "FAMILY_CREATION = ''WORKSPACE_24H_CREATION_CAPACITY''"

record live_usage =
  lv_active :: int
  lv_created :: int
  lv_creations :: "string list"

type_synonym usage_map = "(string option \<times> live_usage) list"

record gate_actor =
  ga_actor :: "string option"
  ga_kind :: actor_kind
  ga_used :: int
  ga_limit :: int
  ga_free :: int
  ga_planned :: int
  ga_maxConcurrent :: int
  ga_need :: int
  ga_reserve :: "int option"
  ga_required :: int
  ga_ok :: bool
  ga_journeys :: "(string \<times> int) list"

datatype gate_reason = UNKNOWN_CAPACITY | INSUFFICIENT_CAPACITY

record gate =
  gt_name :: string
  gt_closed :: "gate_reason option"
  gt_detail :: string
  gt_actors :: "gate_actor list"

text \<open>The resource a gate is about: the concurrent one, or the one of creations.\<close>

definition need_of :: "bool \<Rightarrow> consumer_rec \<Rightarrow> int" where
  "need_of creation r = (if creation then cr_planned r else cr_maxConcurrent r)"

definition used_of :: "bool \<Rightarrow> live_usage \<Rightarrow> int" where
  "used_of creation u = (if creation then lv_created u else lv_active u)"

definition limit_of :: "bool \<Rightarrow> ws_limits \<Rightarrow> int" where
  "limit_of creation l = (if creation then wl_creation l else wl_active l)"

definition live_of :: "usage_map \<Rightarrow> consumer_rec \<Rightarrow> live_usage option" where
  "live_of u r =
     (if cr_kind r = EPHEMERAL then Some \<lparr> lv_active = 0, lv_created = 0, lv_creations = [] \<rparr>
      else map_of u (cr_actor r))"

definition gate_actor_of :: "bool \<Rightarrow> int \<Rightarrow> reserve \<Rightarrow> consumer_rec \<Rightarrow> live_usage \<Rightarrow> gate_actor" where
  "gate_actor_of creation limit res r live =
     (let need = need_of creation r; rv = reserveFor res need; used = used_of creation live; free = max 0 (limit - used);
          required = plus_null need rv
      in \<lparr> ga_actor = cr_actor r, ga_kind = cr_kind r, ga_used = used, ga_limit = limit, ga_free = free,
           ga_planned = cr_planned r, ga_maxConcurrent = cr_maxConcurrent r, ga_need = need, ga_reserve = rv,
           ga_required = required, ga_ok = (required \<le> free), ga_journeys = cr_journeys r \<rparr>)"

text \<open>The actors up to the first without a reading, and that one.\<close>

fun gate_actors ::
  "bool \<Rightarrow> int \<Rightarrow> reserve \<Rightarrow> usage_map \<Rightarrow> consumer_rec list \<Rightarrow> gate_actor list \<times> consumer_rec option" where
  "gate_actors creation limit res u [] = ([], None)"
| "gate_actors creation limit res u (r # rs) =
     (case live_of u r of
        None \<Rightarrow> ([], Some r)
      | Some live \<Rightarrow>
          (case gate_actors creation limit res u rs of
             (as, miss) \<Rightarrow> (gate_actor_of creation limit res r live # as, miss)))"

definition dots :: string where "dots = [CHR 0xE2, CHR 0x80, CHR 0xA6]"

definition at_least :: string where "at_least = [CHR 0xE2, CHR 0x89, CHR 0xA5]"

definition middle_dot :: string where "middle_dot = [CHR 0xC2, CHR 0xB7]"

text \<open>The short name of an actor: the method of a missing one throws.\<close>

definition short_actor :: "string option \<Rightarrow> string + string" where
  "short_actor a =
     (case a of
        None \<Rightarrow> Inl ''Cannot read properties of undefined''
      | Some i \<Rightarrow> Inr (if take 10 i = ''ephemeral:'' then i else take 8 i @ dots))"

fun actors_text :: "(string \<Rightarrow> gate_actor \<Rightarrow> string) \<Rightarrow> gate_actor list \<Rightarrow> string + string list" where
  "actors_text f [] = Inr []"
| "actors_text f (a # as) =
     (case short_actor (ga_actor a) of
        Inl e \<Rightarrow> Inl e
      | Inr n \<Rightarrow> (case actors_text f as of Inl e \<Rightarrow> Inl e | Inr ts \<Rightarrow> Inr (f n a # ts)))"

definition blocked_text :: "string \<Rightarrow> gate_actor \<Rightarrow> string" where
  "blocked_text n a = n @ '' free '' @ int_str (ga_free a) @ '' < required '' @ int_str (ga_required a) @ '' ('' @
     int_str (ga_need a) @ ''+'' @ null_text (ga_reserve a) @ '')''"

definition open_text :: "string \<Rightarrow> gate_actor \<Rightarrow> string" where
  "open_text n a = n @ '' '' @ int_str (ga_free a) @ '' free '' @ at_least @ '' '' @ int_str (ga_required a) @ '' required''"

definition closed_gate :: "string \<Rightarrow> string \<Rightarrow> gate_actor list \<Rightarrow> gate" where
  "closed_gate name detail as =
     \<lparr> gt_name = name, gt_closed = Some UNKNOWN_CAPACITY, gt_detail = detail, gt_actors = as \<rparr>"

definition perActor ::
  "bool \<Rightarrow> string \<Rightarrow> usage_map \<Rightarrow> consumption \<Rightarrow> string + ws_limits \<Rightarrow> reserve \<Rightarrow> string + gate" where
  "perActor creation name usage cn limits res =
     (case limits of
        Inl d \<Rightarrow> Inr (closed_gate name d [])
      | Inr l \<Rightarrow>
          if cn_unknown cn \<noteq> [] then
            Inr (closed_gate name (''plan consumption not derivable: '' @ join_with '' | '' (cn_unknown cn)) [])
          else (case res of
            Undeclared d \<Rightarrow> Inr (closed_gate name d [])
          | Declared m n \<Rightarrow>
              (case gate_actors creation (limit_of creation l) res usage (cn_byActor cn) of
                 (as, Some r) \<Rightarrow>
                   Inr (closed_gate name (''no usage reading for actor '' @
                     (case cr_actor r of Some i \<Rightarrow> i | None \<Rightarrow> ''undefined'')) as)
               | (as, None) \<Rightarrow>
                   (let blocked = filter (\<lambda>a. \<not> ga_ok a) as
                    in if blocked \<noteq> [] then
                         (case actors_text blocked_text blocked of
                            Inl e \<Rightarrow> Inl e
                          | Inr ts \<Rightarrow> Inr \<lparr> gt_name = name, gt_closed = Some INSUFFICIENT_CAPACITY,
                              gt_detail = join_with '' | '' ts, gt_actors = as \<rparr>)
                       else
                         (case actors_text open_text as of
                            Inl e \<Rightarrow> Inl e
                          | Inr ts \<Rightarrow> Inr \<lparr> gt_name = name, gt_closed = None,
                              gt_detail = (let t = join_with ('' '' @ middle_dot @ '' '') ts
                                           in if t = [] then ''no actor consumes this resource'' else t),
                              gt_actors = as \<rparr>)))))"

definition activeHeadroom :: "usage_map \<Rightarrow> consumption \<Rightarrow> string + ws_limits \<Rightarrow> reserve \<Rightarrow> string + gate" where
  "activeHeadroom = perActor False FAMILY_ACTIVE"

definition creationHeadroom :: "usage_map \<Rightarrow> consumption \<Rightarrow> string + ws_limits \<Rightarrow> reserve \<Rightarrow> string + gate" where
  "creationHeadroom = perActor True FAMILY_CREATION"

section \<open>When a closed gate would open\<close>

datatype forecast =
    AlreadyOpen
  | NeverOpens nat
  | OpensAt string nat string

definition earliestSufficient ::
  "(string \<Rightarrow> int option) \<Rightarrow> string list \<Rightarrow> int \<Rightarrow> int \<Rightarrow> int \<Rightarrow> int \<Rightarrow> string + forecast" where
  "earliestSufficient parse creations used limit required windowHours =
     (let free = max 0 (limit - used); need = nat (required - free);
          expiries = map (\<lambda>t. map_option (\<lambda>ms. ms + windowHours * 3600 * 1000) (parse t)) (sort creations)
      in if required \<le> free then Inr AlreadyOpen
         else if length expiries < need then Inr (NeverOpens (length expiries))
         else (case (expiries ! (need - 1), expiries ! 0) of
           (Some a, Some b) \<Rightarrow> Inr (OpensAt (toISOString a) need (toISOString b))
         | _ \<Rightarrow> Inl ''Invalid time value''))"

section \<open>What the actors hold\<close>

text \<open>The rows of the limiter's own query: an actor, its active workspaces, those it created in the window and when.\<close>

type_synonym usage_row = "string \<times> int \<times> int \<times> string"

definition workspaceUsage :: "usage_row list \<Rightarrow> usage_map" where
  "workspaceUsage rows =
     foldl (\<lambda>m (a, active, created, stamps).
       AList.update (Some (js_lower a))
         \<lparr> lv_active = active, lv_created = created, lv_creations = filter (\<lambda>s. s \<noteq> []) (split_on (CHR '','') stamps) \<rparr> m)
       [] rows"

definition never_seen :: live_usage where
  "never_seen = \<lparr> lv_active = 0, lv_created = 0, lv_creations = [] \<rparr>"

definition withKnownActors :: "usage_map \<Rightarrow> consumption \<Rightarrow> usage_map" where
  "withKnownActors usage cn =
     foldl (\<lambda>m r. if cr_kind r = EPHEMERAL \<or> map_of m (cr_actor r) \<noteq> None then m
                  else m @ [(cr_actor r, never_seen)]) usage (cn_byActor cn)"
section \<open>The executor's check before the claim\<close>

datatype admission = Admitted | Refused string | Crashed string

definition start8 :: "string option \<Rightarrow> string + string" where
  "start8 a = (case a of None \<Rightarrow> Inl ''Cannot read properties of undefined'' | Some i \<Rightarrow> Inr (take 8 i @ dots))"

text \<open>The names said of a gate: every actor that is not ephemeral is sliced.\<close>

definition said_names :: "gate \<Rightarrow> string + unit" where
  "said_names g =
     (if list_ex (\<lambda>a. ga_kind a \<noteq> EPHEMERAL \<and> ga_actor a = None) (gt_actors g)
      then Inl ''Cannot read properties of undefined'' else Inr ())"

definition forecast_text :: "int \<Rightarrow> int \<Rightarrow> string \<Rightarrow> forecast \<Rightarrow> string" where
  "forecast_text windowHours required n w =
     (case w of
        NeverOpens k \<Rightarrow> n @ '': the '' @ int_str windowHours @ ''h window cannot supply '' @ int_str required @
          '' even when every current creation ages out''
      | OpensAt t k nxt \<Rightarrow> n @ '': would open at '' @ t @ '' if nothing else is created (forecast, not an authorisation)''
      | AlreadyOpen \<Rightarrow> n @ '': no forecast'')"

fun forecasts ::
  "(string \<Rightarrow> int option) \<Rightarrow> usage_map \<Rightarrow> int \<Rightarrow> gate_actor list \<Rightarrow> string + string list" where
  "forecasts parse usage windowHours [] = Inr []"
| "forecasts parse usage windowHours (a # as) =
     (case forecasts parse usage windowHours as of
        Inl e \<Rightarrow> Inl e
      | Inr ts \<Rightarrow>
          if ga_ok a then Inr ts
          else (case map_of usage (ga_actor a) of
            None \<Rightarrow> Inr ts
          | Some live \<Rightarrow>
              (case earliestSufficient parse (lv_creations live) (ga_used a) (ga_limit a) (ga_required a) windowHours of
                 Inl e \<Rightarrow> Inl e
               | Inr w \<Rightarrow>
                   (case start8 (ga_actor a) of
                      Inl e \<Rightarrow> Inl e
                    | Inr n \<Rightarrow> Inr (forecast_text windowHours (ga_required a) n w # ts)))))"

definition reason_text :: "gate_reason option \<Rightarrow> string" where
  "reason_text r = (case r of None \<Rightarrow> ''null'' | Some UNKNOWN_CAPACITY \<Rightarrow> ''UNKNOWN_CAPACITY''
     | Some INSUFFICIENT_CAPACITY \<Rightarrow> ''INSUFFICIENT_CAPACITY'')"

definition gate_text :: "gate \<Rightarrow> string" where
  "gate_text g = gt_name g @ ''='' @ reason_text (gt_closed g) @ '': '' @ gt_detail g"

definition checkWorkspaceCapacity ::
  "(string \<Rightarrow> rx option) \<Rightarrow> (string \<Rightarrow> string option) \<Rightarrow> (string \<Rightarrow> int option) \<Rightarrow> plan_entry list \<Rightarrow>
   string + ws_limits \<Rightarrow> reserve \<Rightarrow> string + usage_row list \<Rightarrow> bool \<Rightarrow> admission" where
  "checkWorkspaceCapacity name_rx read parse plan limits res rows barrier =
     (case workspaceConsumption name_rx read plan barrier of
        Inl e \<Rightarrow> Crashed e
      | Inr cn \<Rightarrow>
          (case rows of
             Inl e \<Rightarrow> Refused (''VALIDATION_WORKSPACE_CAPACITY_UNKNOWN: cannot read workspace usage ('' @ e @
               ''). An unreadable quota is not an empty one; the run is left QUEUED and unspent.'')
           | Inr rs \<Rightarrow>
               (let usage = withKnownActors (workspaceUsage rs) cn;
                    hours = (case limits of Inl d \<Rightarrow> 24 | Inr l \<Rightarrow> wl_windowHours l)
                in case (activeHeadroom usage cn limits res, creationHeadroom usage cn limits res) of
                     (Inr a, Inr c) \<Rightarrow>
                       (case (said_names a, said_names c) of
                          (Inr _, Inr _) \<Rightarrow>
                            (let blocked = filter (\<lambda>g. gt_closed g \<noteq> None) [a, c]
                             in if blocked = [] then Admitted
                                else (case forecasts parse usage hours (concat (map gt_actors blocked)) of
                                  Inl e \<Rightarrow> Crashed e
                                | Inr ts \<Rightarrow> Refused (''VALIDATION_WORKSPACE_CAPACITY_INSUFFICIENT: '' @
                                    join_with '' | '' (map gate_text blocked) @ ''. '' @
                                    (if ts = [] then [] else join_with '' | '' ts @ ''. '') @
                                    ''The reserve is policy and is never lowered to fit. The run is left QUEUED and unspent.'')))
                        | (Inl e, _) \<Rightarrow> Crashed e
                        | (_, Inl e) \<Rightarrow> Crashed e)
                   | (Inl e, _) \<Rightarrow> Crashed e
                   | (_, Inl e) \<Rightarrow> Crashed e)))"

section \<open>What an open gate leaves\<close>

lemma gate_actors_all:
  "gate_actors creation limit res u rs = (as, None) \<Longrightarrow> r \<in> set rs \<Longrightarrow>
     \<exists>live. live_of u r = Some live \<and> gate_actor_of creation limit res r live \<in> set as"
proof (induction rs arbitrary: as)
  case Nil
  then show ?case by simp
next
  case (Cons q rs)
  obtain live as' where l: "live_of u q = Some live" and a: "gate_actors creation limit res u rs = (as', None)"
    and as: "as = gate_actor_of creation limit res q live # as'"
    using Cons.prems(1) by (auto split: option.splits prod.splits)
  show ?case
  proof (cases "r = q")
    case True
    then show ?thesis using l as by auto
  next
    case False
    then show ?thesis using Cons.IH [OF a] Cons.prems(2) as by auto
  qed
qed

text \<open>An actor's consumption fits when, with what is used, it stays within the limit, or when there is none.\<close>

definition fits :: "int \<Rightarrow> int \<Rightarrow> int \<Rightarrow> bool" where
  "fits limit used required \<longleftrightarrow> required \<le> 0 \<or> used + required \<le> limit"

lemma perActor_open:
  assumes "perActor creation name usage cn limits res = Inr g" "gt_closed g = None"
  obtains l m n where "limits = Inr l" "res = Declared m n" "cn_unknown cn = []"
    "\<And>r. r \<in> set (cn_byActor cn) \<Longrightarrow> \<exists>live. live_of usage r = Some live \<and>
       fits (limit_of creation l) (used_of creation live) (plus_null (need_of creation r) (reserveFor res (need_of creation r)))"
proof -
  obtain l where l: "limits = Inr l" using assms by (cases limits) (auto simp: perActor_def closed_gate_def)
  have u: "cn_unknown cn = []" using assms l by (auto simp: perActor_def closed_gate_def split: if_splits)
  obtain m n where r: "res = Declared m n" using assms l u by (cases res) (auto simp: perActor_def closed_gate_def)
  obtain as miss where a: "gate_actors creation (limit_of creation l) res usage (cn_byActor cn) = (as, miss)"
    by (cases "gate_actors creation (limit_of creation l) res usage (cn_byActor cn)")
  have miss: "miss = None" using assms l u r a by (cases miss) (auto simp: perActor_def closed_gate_def)
  have ok: "filter (\<lambda>a. \<not> ga_ok a) as = []"
    using assms l u r a miss by (auto simp: perActor_def Let_def split: if_splits sum.splits)
  have "\<exists>live. live_of usage q = Some live \<and>
       fits (limit_of creation l) (used_of creation live) (plus_null (need_of creation q) (reserveFor res (need_of creation q)))"
    if q: "q \<in> set (cn_byActor cn)" for q
  proof -
    obtain live where live: "live_of usage q = Some live" "gate_actor_of creation (limit_of creation l) res q live \<in> set as"
      using gate_actors_all [OF a [unfolded miss] q] by blast
    then have "ga_ok (gate_actor_of creation (limit_of creation l) res q live)" using ok by (auto simp: filter_empty_conv)
    then show ?thesis using live(1) by (auto simp: gate_actor_of_def Let_def fits_def max_def split: if_splits)
  qed
  then show ?thesis using that l r u by blast
qed

section \<open>What a plan creates\<close>

definition creations :: "(string \<Rightarrow> rx option) \<Rightarrow> (string \<Rightarrow> string option) \<Rightarrow> string option \<Rightarrow> plan_entry \<Rightarrow> int" where
  "creations name_rx read i p =
     (if no_harness p then 0
      else (case read (the (pe_harness p)) of
        None \<Rightarrow> 0
      | Some src \<Rightarrow>
          (case workspaceCost name_rx (the (pe_harness p)) src of
             Inr (Some cost) \<Rightarrow> int (length (filter (\<lambda>s. actor_id (pe_journey p) (st_actor s) = i) (wc_sites cost)))
           | _ \<Rightarrow> 0)))"

definition planned_of :: "consumer_rec list \<Rightarrow> string option \<Rightarrow> int" where
  "planned_of m i = (case List.find (\<lambda>r. cr_actor r = i) m of Some r \<Rightarrow> cr_planned r | None \<Rightarrow> 0)"

definition journey_max :: "consumer_rec list \<Rightarrow> string option \<Rightarrow> int" where
  "journey_max m i = (case List.find (\<lambda>r. cr_actor r = i) m of Some r \<Rightarrow> cr_perJourneyMax r | None \<Rightarrow> 0)"

definition counted :: "(string option \<times> actor_kind \<times> int) list \<Rightarrow> string option \<Rightarrow> int" where
  "counted m i = (case map_of m i of Some (k, n) \<Rightarrow> n | None \<Rightarrow> 0)"

lemma planned_of_bump: "planned_of (bump j (i, k, n) m) i' = planned_of m i' + (if i = i' then n else 0)"
  by (induction j "(i, k, n)" m rule: bump.induct) (auto simp: planned_of_def)

lemma journey_max_bump:
  "journey_max (bump j (i, k, n) m) i' = (if i = i' then max (journey_max m i') n else journey_max m i')"
  by (induction j "(i, k, n)" m rule: bump.induct) (auto simp: journey_max_def)

lemma counted_count_actor: "counted (count_actor i k m) i' = counted m i' + (if i = i' then 1 else 0)"
  by (induction i k m rule: count_actor.induct) (auto simp: counted_def)

lemma count_actor_keys: "fst ` set (count_actor i k m) = insert i (fst ` set m)"
  by (induction i k m rule: count_actor.induct) auto

lemma count_actor_distinct: "distinct (map fst m) \<Longrightarrow> distinct (map fst (count_actor i k m))"
  by (induction i k m rule: count_actor.induct) (auto simp: count_actor_keys)

lemma count_actor_pos:
  "\<forall>x \<in> set m. 0 < snd (snd x) \<Longrightarrow> \<forall>x \<in> set (count_actor i k m). 0 < snd (snd x)"
  by (induction i k m rule: count_actor.induct) auto

lemma per_actor_facts:
  "distinct (map fst (per_actor j sites)) \<and> (\<forall>x \<in> set (per_actor j sites). 0 < snd (snd x)) \<and>
   counted (per_actor j sites) i = int (length (filter (\<lambda>s. actor_id j (st_actor s) = i) sites))"
proof -
  let ?step = "\<lambda>m s. count_actor (actor_id j (st_actor s)) (actor_kind_of (st_actor s)) m"
  have d: "distinct (map fst m) \<Longrightarrow> distinct (map fst (foldl ?step m sites))" for m
    by (induction sites arbitrary: m) (simp_all add: count_actor_distinct)
  have p: "\<forall>x \<in> set m. 0 < snd (snd x) \<Longrightarrow> \<forall>x \<in> set (foldl ?step m sites). 0 < snd (snd x)" for m
  proof (induction sites arbitrary: m)
    case Nil
    then show ?case by simp
  next
    case (Cons s sites)
    show ?case using Cons.IH [OF count_actor_pos [OF Cons.prems]] by simp
  qed
  have c: "counted (foldl ?step m sites) i =
      counted m i + int (length (filter (\<lambda>s. actor_id j (st_actor s) = i) sites))" for m
    by (induction sites arbitrary: m) (simp_all add: counted_count_actor)
  show ?thesis unfolding per_actor_def using d [of "[]"] p [of "[]"] c [of "[]"] by (simp add: counted_def)
qed

lemma foldl_bump:
  "distinct (map fst xs) \<Longrightarrow>
     planned_of (foldl (\<lambda>m x. bump j x m) m xs) i = planned_of m i + counted xs i \<and>
     journey_max (foldl (\<lambda>m x. bump j x m) m xs) i =
       (if i \<in> fst ` set xs then max (journey_max m i) (counted xs i) else journey_max m i)"
proof (induction xs arbitrary: m)
  case Nil
  then show ?case by (simp add: counted_def)
next
  case (Cons x xs)
  obtain k a n where x: "x = (k, a, n)" by (cases x)
  have notin: "map_of xs k = None" using Cons.prems x by (simp add: map_of_eq_None_iff)
  show ?case
    using Cons.IH [of "bump j (k, a, n) m"] Cons.prems notin
    by (auto simp: x planned_of_bump journey_max_bump counted_def)
qed

definition zero_consumption :: "bool \<Rightarrow> consumption" where
  "zero_consumption barrier = \<lparr> cn_byActor = [], cn_unknown = [], cn_inert = [], cn_barrier = barrier \<rparr>"

lemma consume_entry_known:
  assumes "consume_entry name_rx read p c = Inr d" "cn_unknown d = []"
  shows "cn_unknown c = [] \<and> planned_of (cn_byActor d) i = planned_of (cn_byActor c) i + creations name_rx read i p \<and>
    (0 < creations name_rx read i p \<longrightarrow>
       journey_max (cn_byActor d) i = max (journey_max (cn_byActor c) i) (creations name_rx read i p)) \<and>
    (\<not> 0 < creations name_rx read i p \<longrightarrow> journey_max (cn_byActor d) i = journey_max (cn_byActor c) i)"
proof (cases "no_harness p \<or> read (the (pe_harness p)) = None \<or>
    (\<exists>s. read (the (pe_harness p)) = Some s \<and> workspaceCost name_rx (the (pe_harness p)) s = Inr None)")
  case True
  then show ?thesis
    using assms unfolding consume_entry_def creations_def by (auto split: option.splits if_splits)
next
  case False
  then obtain s cost where s: "\<not> no_harness p" "read (the (pe_harness p)) = Some s"
    "workspaceCost name_rx (the (pe_harness p)) s = Inr (Some cost)"
    using assms(1) unfolding consume_entry_def by (auto split: option.splits sum.splits)
  then have prec: "precise cost"
    using assms unfolding consume_entry_def by (auto split: if_splits)
  let ?xs = "per_actor (pe_journey p) (wc_sites cost)"
  have d: "d = c\<lparr>cn_byActor := foldl (\<lambda>m x. bump (pe_journey p) x m) (cn_byActor c) ?xs\<rparr>"
    using assms(1) s prec unfolding consume_entry_def by simp
  note f = per_actor_facts [of "pe_journey p" "wc_sites cost" i]
  have cr: "creations name_rx read i p = counted ?xs i" using s f by (simp add: creations_def)
  have "0 < counted ?xs i \<longleftrightarrow> i \<in> fst ` set ?xs"
  proof
    assume "0 < counted ?xs i"
    then show "i \<in> fst ` set ?xs" by (auto simp: counted_def map_of_eq_None_iff split: option.splits dest: map_of_SomeD intro: rev_image_eqI)
  next
    assume "i \<in> fst ` set ?xs"
    then obtain y where "map_of ?xs i = Some y" by (metis map_of_eq_None_iff not_None_eq)
    then show "0 < counted ?xs i" using f by (auto simp: counted_def split: prod.splits dest!: map_of_SomeD)
  qed
  then show ?thesis using assms(2) foldl_bump [of ?xs "pe_journey p" "cn_byActor c" i] f unfolding d cr by simp
qed

lemma consume_plan_known:
  "consume_plan name_rx read ps c = Inr d \<Longrightarrow> cn_unknown d = [] \<Longrightarrow>
     cn_unknown c = [] \<and> planned_of (cn_byActor d) i = planned_of (cn_byActor c) i + sum_list (map (creations name_rx read i) ps) \<and>
     journey_max (cn_byActor c) i \<le> journey_max (cn_byActor d) i \<and>
     (\<forall>p \<in> set ps. 0 < creations name_rx read i p \<longrightarrow> creations name_rx read i p \<le> journey_max (cn_byActor d) i)"
proof (induction ps arbitrary: c)
  case Nil
  then show ?case by simp
next
  case (Cons p ps)
  then obtain e where e: "consume_entry name_rx read p c = Inr e" "consume_plan name_rx read ps e = Inr d"
    by (auto split: sum.splits)
  note ih = Cons.IH [OF e(2) Cons.prems(2)]
  note st = consume_entry_known [OF e(1), of i]
  show ?case using ih st by (cases "0 < creations name_rx read i p") auto
qed

lemma bump_keys: "cr_actor ` set (bump j (i, k, n) m) = insert i (cr_actor ` set m)"
  by (induction j "(i, k, n)" m rule: bump.induct) auto

lemma creations_nonneg: "0 \<le> creations name_rx read i p"
  by (auto simp: creations_def split: option.split sum.split)

lemma sum_creations_nonneg: "0 \<le> sum_list (map (creations name_rx read i) ps)"
  by (induction ps) (simp_all add: creations_nonneg)

lemma find_planned:
  assumes "planned_of m i \<noteq> 0"
  shows "\<exists>r \<in> set m. cr_actor r = i \<and> cr_planned r = planned_of m i \<and> cr_perJourneyMax r = journey_max m i"
  using assms unfolding planned_of_def journey_max_def by (induction m) auto

lemma creations_le_sum: "p \<in> set ps \<Longrightarrow> creations name_rx read i p \<le> sum_list (map (creations name_rx read i) ps)"
proof (induction ps)
  case Nil
  then show ?case by simp
next
  case (Cons q ps)
  show ?case
  proof (cases "p = q")
    case True
    then show ?thesis using sum_creations_nonneg [of name_rx read i ps] by simp
  next
    case False
    then show ?thesis using Cons creations_nonneg [of name_rx read i q] by force
  qed
qed

definition demo_entry :: "string \<Rightarrow> string \<Rightarrow> plan_entry" where
  "demo_entry j h =
     \<lparr> pe_journey = j, pe_suite = ''S'', pe_name = j, pe_kind = JOURNEY, pe_harness = Some h, pe_control = None,
       pe_controlReason = None, pe_notProven = None, pe_exposure = Some 10, pe_submits = None, pe_adapter = None,
       pe_args = [], pe_evidenceStem = None, pe_timeoutMs = 1, pe_retries = 0, pe_blocking = True, pe_disposable = 1,
       pe_allowed = 0 \<rparr>"

definition demo_read :: "string \<Rightarrow> string option" where
  "demo_read h = (if h = ''a'' then Some ''synthetic_tenant x'' else if h = ''b'' then Some (''ST_ACTOR=?'' @ [CHR 0x0A] @ ''synthetic_tenant x'') else None)"

definition demo_limits :: ws_limits where
  "demo_limits = \<lparr> wl_active = 5, wl_creation = 20, wl_windowHours = 24 \<rparr>"

section \<open>Where the gates do not hold what they promise\<close>

definition gate_opens :: "string + gate \<Rightarrow> bool" where
  "gate_opens g \<longleftrightarrow> (case g of Inr h \<Rightarrow> gt_closed h = None | Inl e \<Rightarrow> False)"

lemma gate_actors_same:
  assumes "\<And>need. plus_null need (reserveFor a need) = plus_null need (reserveFor b need)"
  shows "map (\<lambda>x. (ga_actor x, ga_kind x, ga_ok x)) (fst (gate_actors creation limit a u rs)) =
      map (\<lambda>x. (ga_actor x, ga_kind x, ga_ok x)) (fst (gate_actors creation limit b u rs)) \<and>
    snd (gate_actors creation limit a u rs) = snd (gate_actors creation limit b u rs)"
  by (induction rs) (auto simp: gate_actor_of_def Let_def assms split: option.split prod.splits)

lemma actors_text_fails:
  "(\<exists>e. actors_text f as = Inl e) \<longleftrightarrow> list_ex (\<lambda>a. ga_actor a = None) as"
  by (induction as) (auto simp: short_actor_def split: option.splits sum.splits)

lemma actors_text_names:
  "(\<exists>ts. actors_text f as = Inr ts) \<longleftrightarrow> \<not> list_ex (\<lambda>a. ga_actor a = None) as"
  using actors_text_fails [of f as] by (cases "actors_text f as") auto

lemma perActor_opens:
  "gate_opens (perActor creation name usage cn (Inr l) (Declared m n)) \<longleftrightarrow>
     cn_unknown cn = [] \<and>
     snd (gate_actors creation (limit_of creation l) (Declared m n) usage (cn_byActor cn)) = None \<and>
     list_all (\<lambda>a. ga_ok a \<and> ga_actor a \<noteq> None)
       (fst (gate_actors creation (limit_of creation l) (Declared m n) usage (cn_byActor cn)))"
proof -
  obtain as miss where g: "gate_actors creation (limit_of creation l) (Declared m n) usage (cn_byActor cn) = (as, miss)"
    by (cases "gate_actors creation (limit_of creation l) (Declared m n) usage (cn_byActor cn)")
  show ?thesis
  proof (cases "cn_unknown cn = [] \<and> miss = None")
    case False
    then show ?thesis using g by (cases miss) (simp_all add: perActor_def gate_opens_def closed_gate_def)
  next
    case known: True
    then have miss: "miss = None" and u: "cn_unknown cn = []" by simp_all
    have p: "perActor creation name usage cn (Inr l) (Declared m n) =
      (let blocked = filter (\<lambda>a. \<not> ga_ok a) as
       in if blocked \<noteq> [] then
            (case actors_text blocked_text blocked of
               Inl e \<Rightarrow> Inl e
             | Inr ts \<Rightarrow> Inr \<lparr> gt_name = name, gt_closed = Some INSUFFICIENT_CAPACITY,
                 gt_detail = join_with '' | '' ts, gt_actors = as \<rparr>)
          else
            (case actors_text open_text as of
               Inl e \<Rightarrow> Inl e
             | Inr ts \<Rightarrow> Inr \<lparr> gt_name = name, gt_closed = None,
                 gt_detail = (let t = join_with ('' '' @ middle_dot @ '' '') ts
                              in if t = [] then ''no actor consumes this resource'' else t),
                 gt_actors = as \<rparr>))"
      unfolding perActor_def sum.case reserve.case g prod.case miss option.case using u by simp
    show ?thesis
    proof (cases "filter (\<lambda>a. \<not> ga_ok a) as = []")
      case False
      have c: "\<not> gate_opens (perActor creation name usage cn (Inr l) (Declared m n))"
        unfolding p Let_def gate_opens_def using False by (simp split: sum.split)
      have "\<not> list_all (\<lambda>a. ga_ok a \<and> ga_actor a \<noteq> None) as" using False by (auto simp: filter_empty_conv list_all_iff)
      then show ?thesis using c g by simp
    next
      case True
      have "gate_opens (perActor creation name usage cn (Inr l) (Declared m n)) \<longleftrightarrow> (\<exists>ts. actors_text open_text as = Inr ts)"
        unfolding p Let_def gate_opens_def using True by (auto split: sum.split)
      also have "\<dots> \<longleftrightarrow> list_all (\<lambda>a. ga_ok a \<and> ga_actor a \<noteq> None) as"
        unfolding actors_text_names using True by (auto simp: filter_empty_conv list_all_iff list_ex_iff)
      finally show ?thesis using g miss u by simp
    qed
  qed
qed

lemma gate_actors_ok_cong:
  assumes "map (\<lambda>x. (ga_actor x, ga_kind x, ga_ok x)) as = map (\<lambda>x. (ga_actor x, ga_kind x, ga_ok x)) bs"
  shows "list_all (\<lambda>a. ga_ok a \<and> ga_actor a \<noteq> None) as = list_all (\<lambda>a. ga_ok a \<and> ga_actor a \<noteq> None) bs"
proof -
  have "list_all (\<lambda>a. ga_ok a \<and> ga_actor a \<noteq> None) cs =
      list_all (\<lambda>(i, k, ok). ok \<and> i \<noteq> None) (map (\<lambda>x. (ga_actor x, ga_kind x, ga_ok x)) cs)" for cs
    by (induction cs) simp_all
  from this [of as] this [of bs] show ?thesis unfolding assms by simp
qed

lemma perActor_opens_same:
  assumes "\<And>need. plus_null need (reserveFor (Declared m n) need) = plus_null need (reserveFor (Declared k j) need)"
  shows "gate_opens (perActor creation name usage cn limits (Declared m n)) =
    gate_opens (perActor creation name usage cn limits (Declared k j))"
proof (cases limits)
  case (Inl d)
  then show ?thesis by (simp add: perActor_def)
next
  case (Inr l)
  note same = gate_actors_same [OF assms, of creation "limit_of creation l" usage "cn_byActor cn"]
  show ?thesis unfolding Inr perActor_opens gate_actors_ok_cong [OF conjunct1 [OF same]] conjunct2 [OF same] ..
qed

text \<open>A reserve model other than the one the code knows is accepted by the policy reader and then reserves nothing:
  the gate over such a declaration opens exactly when one with no permitted retry does, whatever number of retries is
  declared.\<close>

theorem other_model_reserves_nothing:
  assumes "m \<noteq> ''one_full_retry''" "m \<noteq> []"
  shows "retryReserve pid (Some \<lparr> cp_profiles = [(pid, Some \<lparr> wp_model = Some m, wp_retries = Some (int n) \<rparr>)],
      cp_models = [''one_full_retry'', m] \<rparr>) = Declared m n \<and>
    gate_opens (creationHeadroom usage cn limits (Declared m n)) =
      gate_opens (creationHeadroom usage cn limits (Declared ''one_full_retry'' 0)) \<and>
    gate_opens (activeHeadroom usage cn limits (Declared m n)) =
      gate_opens (activeHeadroom usage cn limits (Declared ''one_full_retry'' 0))"
proof -
  have same: "plus_null need (reserveFor (Declared m n) need) =
      plus_null need (reserveFor (Declared ''one_full_retry'' 0) need)" for need
    using assms(1) by (simp add: reserveFor_def plus_null_def)
  show ?thesis
    unfolding creationHeadroom_def activeHeadroom_def
    using perActor_opens_same [OF same] assms(2) by (simp add: retryReserve_def)
qed

lemma other_model_reserves_nothing_witness:
  "gate_opens (creationHeadroom [(Some ''a'', \<lparr> lv_active = 0, lv_created = 15, lv_creations = [] \<rparr>)]
     \<lparr> cn_byActor = [\<lparr> cr_actor = Some ''a'', cr_kind = SHARED, cr_planned = 5, cr_perJourneyMax = 5, cr_maxConcurrent = 5,
         cr_journeys = [(''J'', 5)] \<rparr>], cn_unknown = [], cn_inert = [], cn_barrier = True \<rparr>
     (Inr demo_limits) (Declared ''two_full_retries'' 2)) \<and>
   \<not> gate_opens (creationHeadroom [(Some ''a'', \<lparr> lv_active = 0, lv_created = 15, lv_creations = [] \<rparr>)]
     \<lparr> cn_byActor = [\<lparr> cr_actor = Some ''a'', cr_kind = SHARED, cr_planned = 5, cr_perJourneyMax = 5, cr_maxConcurrent = 5,
         cr_journeys = [(''J'', 5)] \<rparr>], cn_unknown = [], cn_inert = [], cn_barrier = True \<rparr>
     (Inr demo_limits) (Declared ''one_full_retry'' 1))"
proof -
  let ?u = "[(Some ''a'', \<lparr> lv_active = 0, lv_created = 15, lv_creations = [] \<rparr>)]"
  let ?c = "\<lparr> cn_byActor = [\<lparr> cr_actor = Some ''a'', cr_kind = SHARED, cr_planned = 5, cr_perJourneyMax = 5,
     cr_maxConcurrent = 5, cr_journeys = [(''J'', 5)] \<rparr>], cn_unknown = [], cn_inert = [], cn_barrier = True \<rparr>"
  have z: "gate_opens (creationHeadroom ?u ?c (Inr demo_limits) (Declared ''one_full_retry'' 0))" by code_simp
  have o: "\<not> gate_opens (creationHeadroom ?u ?c (Inr demo_limits) (Declared ''one_full_retry'' 1))" by code_simp
  have "''two_full_retries'' \<noteq> ''one_full_retry''" "''two_full_retries'' \<noteq> []" by simp_all
  from other_model_reserves_nothing [OF this, of _ 2 ?u ?c "Inr demo_limits"] show ?thesis using z o by simp
qed

text \<open>An actor without an id is one that was not resolved.\<close>

lemma count_actor_kinds:
  assumes "k = UNKNOWN_ACTOR \<longleftrightarrow> i = None" "\<forall>(j, l, n) \<in> set m. l = UNKNOWN_ACTOR \<longleftrightarrow> j = None"
  shows "\<forall>(j, l, n) \<in> set (count_actor i k m). l = UNKNOWN_ACTOR \<longleftrightarrow> j = None"
  using assms by (induction i k m rule: count_actor.induct) auto

lemma per_actor_kinds: "\<forall>(j, l, n) \<in> set (per_actor jn sites). l = UNKNOWN_ACTOR \<longleftrightarrow> j = None"
proof -
  have "actor_kind_of a = UNKNOWN_ACTOR \<longleftrightarrow> actor_id jn a = None" for a
    by (simp add: actor_kind_of_def actor_id_def split: actor.split)
  then have k: "actor_kind_of a = UNKNOWN_ACTOR \<longleftrightarrow> actor_id jn a = None" for a .
  have "\<forall>(j, l, n) \<in> set m. l = UNKNOWN_ACTOR \<longleftrightarrow> j = None \<Longrightarrow>
      \<forall>(j, l, n) \<in> set (foldl (\<lambda>m s. count_actor (actor_id jn (st_actor s)) (actor_kind_of (st_actor s)) m) m sites).
        l = UNKNOWN_ACTOR \<longleftrightarrow> j = None" for m
  proof (induction sites arbitrary: m)
    case Nil
    then show ?case by simp
  next
    case (Cons s sites)
    show ?case using Cons.IH [OF count_actor_kinds [OF k Cons.prems]] by simp
  qed
  from this [of "[]"] show ?thesis by (simp add: per_actor_def)
qed

definition kinds_fit :: "consumer_rec list \<Rightarrow> bool" where
  "kinds_fit m \<longleftrightarrow> (\<forall>r \<in> set m. cr_kind r = UNKNOWN_ACTOR \<longleftrightarrow> cr_actor r = None)"

lemma bump_kinds: "(k = UNKNOWN_ACTOR \<longleftrightarrow> i = None) \<Longrightarrow> kinds_fit m \<Longrightarrow> kinds_fit (bump j (i, k, n) m)"
  unfolding kinds_fit_def by (induction j "(i, k, n)" m rule: bump.induct) auto

lemma foldl_bump_kinds:
  "\<forall>(j, l, n) \<in> set xs. l = UNKNOWN_ACTOR \<longleftrightarrow> j = None \<Longrightarrow> kinds_fit m \<Longrightarrow> kinds_fit (foldl (\<lambda>m x. bump j' x m) m xs)"
proof (induction xs arbitrary: m)
  case Nil
  then show ?case by simp
next
  case (Cons x xs)
  obtain i k n where "x = (i, k, n)" by (cases x)
  then show ?case using Cons.IH [of "bump j' x m"] Cons.prems bump_kinds by auto
qed

lemma consume_plan_kinds:
  "consume_plan name_rx read ps c = Inr d \<Longrightarrow> kinds_fit (cn_byActor c) \<Longrightarrow> kinds_fit (cn_byActor d)"
proof (induction ps arbitrary: c)
  case Nil
  then show ?case by simp
next
  case (Cons p ps)
  then obtain e where e: "consume_entry name_rx read p c = Inr e" "consume_plan name_rx read ps e = Inr d"
    by (auto split: sum.splits)
  have "kinds_fit (cn_byActor e)"
    using e(1) Cons.prems(2) foldl_bump_kinds [OF per_actor_kinds]
    unfolding consume_entry_def by (auto split: option.splits sum.splits if_splits)
  then show ?case using Cons.IH [OF e(2)] by blast
qed

lemma withKnownActors_reads:
  "r \<in> set (cn_byActor cn) \<Longrightarrow> live_of (withKnownActors usage cn) r \<noteq> None"
proof -
  have keep: "map_of m k \<noteq> None \<Longrightarrow>
      map_of (foldl (\<lambda>m r. if cr_kind r = EPHEMERAL \<or> map_of m (cr_actor r) \<noteq> None then m
        else m @ [(cr_actor r, never_seen)]) m rs) k \<noteq> None" for m rs k
    by (induction rs arbitrary: m) (auto simp: map_add_def map_of_append split: option.splits)
  have known: "r \<in> set rs \<Longrightarrow> cr_kind r = EPHEMERAL \<or>
      map_of (foldl (\<lambda>m r. if cr_kind r = EPHEMERAL \<or> map_of m (cr_actor r) \<noteq> None then m
        else m @ [(cr_actor r, never_seen)]) m rs) (cr_actor r) \<noteq> None" for m rs
  proof (induction rs arbitrary: m)
    case Nil
    then show ?case by simp
  next
    case (Cons q rs)
    show ?case
    proof (cases "r = q")
      case True
      define m' where "m' = (if cr_kind q = EPHEMERAL \<or> map_of m (cr_actor q) \<noteq> None then m else m @ [(cr_actor q, never_seen)])"
      have "cr_kind q = EPHEMERAL \<or> map_of m' (cr_actor q) \<noteq> None"
        unfolding m'_def by (auto simp: map_add_def split: option.split)
      then show ?thesis using keep [of m' "cr_actor q" rs] True unfolding m'_def by auto
    next
      case False
      then show ?thesis using Cons.IH Cons.prems by (simp del: not_None_eq)
    qed
  qed
  assume "r \<in> set (cn_byActor cn)"
  from known [OF this, of usage] show "live_of (withKnownActors usage cn) r \<noteq> None"
    unfolding withKnownActors_def live_of_def by (auto simp del: not_None_eq)
qed

lemma gate_actors_readable:
  "(\<And>r. r \<in> set rs \<Longrightarrow> live_of u r \<noteq> None) \<Longrightarrow>
     \<exists>as. gate_actors creation limit res u rs = (as, None) \<and>
       (\<forall>r \<in> set rs. \<exists>a \<in> set as. ga_actor a = cr_actor r \<and> ga_kind a = cr_kind r)"
proof (induction rs)
  case Nil
  then show ?case by simp
next
  case (Cons r rs)
  then obtain as where as: "gate_actors creation limit res u rs = (as, None)"
    "\<forall>r \<in> set rs. \<exists>a \<in> set as. ga_actor a = cr_actor r \<and> ga_kind a = cr_kind r" by auto
  obtain live where "live_of u r = Some live" using Cons.prems by fastforce
  then show ?case using as by (auto simp: gate_actor_of_def Let_def)
qed

lemma perActor_shows:
  assumes "perActor creation name u cn (Inr l) (Declared m n) = Inr g" "cn_unknown cn = []"
    and "gate_actors creation (limit_of creation l) (Declared m n) u (cn_byActor cn) = (as, None)"
  shows "gt_actors g = as"
  using assms by (auto simp: perActor_def Let_def split: if_splits sum.splits)

text \<open>A tenant created under an actor that cannot be resolved is charged to no one the gates can name: the sites
  are counted as precise, and the check neither admits nor refuses, it throws.\<close>

theorem unresolved_actor_crashes:
  assumes "workspaceConsumption name_rx read plan barrier = Inr cn" "cn_unknown cn = []"
    and "r \<in> set (cn_byActor cn)" "cr_actor r = None"
  shows "\<exists>e. checkWorkspaceCapacity name_rx read parse plan (Inr l) (Declared m n) (Inr rows) barrier = Crashed e"
proof -
  let ?u = "withKnownActors (workspaceUsage rows) cn"
  obtain d where d: "consume_plan name_rx read plan (zero_consumption barrier) = Inr d"
    "cn = d\<lparr>cn_byActor := map (concurrent_of barrier) (cn_byActor d)\<rparr>"
    using assms(1) unfolding workspaceConsumption_def zero_consumption_def by (auto split: sum.splits)
  have "kinds_fit (cn_byActor d)" using consume_plan_kinds [OF d(1)] by (simp add: zero_consumption_def kinds_fit_def)
  then have kind: "cr_kind r = UNKNOWN_ACTOR" using assms(3,4) d(2) by (auto simp: kinds_fit_def concurrent_of_def)
  have said: "said_names g = Inl ''Cannot read properties of undefined''"
    if "perActor creation name ?u cn (Inr l) (Declared m n) = Inr g" for creation name g
  proof -
    obtain as where as: "gate_actors creation (limit_of creation l) (Declared m n) ?u (cn_byActor cn) = (as, None)"
      "\<exists>a \<in> set as. ga_actor a = cr_actor r \<and> ga_kind a = cr_kind r"
      using gate_actors_readable [of "cn_byActor cn" ?u creation "limit_of creation l" "Declared m n"]
        withKnownActors_reads assms(3) by blast
    then show ?thesis
      using perActor_shows [OF that assms(2) as(1)] kind assms(4) by (force simp: said_names_def list_ex_iff)
  qed
  show ?thesis
    unfolding checkWorkspaceCapacity_def assms(1) sum.case Let_def activeHeadroom_def creationHeadroom_def
    using said by (auto split: sum.split)
qed

lemma unresolved_actor_crashes_witness:
  "\<exists>e. checkWorkspaceCapacity (\<lambda>_. None) demo_read (\<lambda>_. None) [demo_entry ''J'' ''b''] (Inr demo_limits)
     (Declared ''one_full_retry'' 1) (Inr []) True = Crashed e"
proof -
  have "(case workspaceConsumption (\<lambda>_. None) demo_read [demo_entry ''J'' ''b''] True of Inl e \<Rightarrow> False
     | Inr cn \<Rightarrow> cn_unknown cn = [] \<and> map cr_actor (cn_byActor cn) = [None])" by code_simp
  then obtain cn where cn: "workspaceConsumption (\<lambda>_. None) demo_read [demo_entry ''J'' ''b''] True = Inr cn"
    "cn_unknown cn = []" "map cr_actor (cn_byActor cn) = [None]" by (auto split: sum.splits)
  then obtain r where "r \<in> set (cn_byActor cn)" "cr_actor r = None" by (cases "cn_byActor cn") auto
  then show ?thesis using unresolved_actor_crashes [OF cn(1,2)] by blast
qed

text \<open>The search for a loop is not conservative: a block that closes between the head of the loop and the site hides
  the loop, so the site counts as one creation however often the body runs.\<close>

theorem nested_block_hides_loop:
  assumes "opens_loop h" "\<not> closes_block h" "closes_block c" "\<not> opens_loop c" "\<not> closes_block s" "\<not> opens_loop s"
    and "list_all (\<lambda>l. \<not> closes_block l \<and> \<not> opens_loop l) (as @ bs)"
    and "length as + length bs < 37"
  shows "insideLoop (h # as @ [s]) (length as + 1) \<and> \<not> insideLoop (h # as @ c # bs @ [s]) (length as + length bs + 2)"
proof -
  have skip: "loop_above k (ls @ rest) = loop_above k rest"
    if "list_all (\<lambda>l. \<not> closes_block l \<and> \<not> opens_loop l) ls" for k ls rest
    using that by (induction ls) simp_all
  have a: "list_all (\<lambda>l. \<not> closes_block l \<and> \<not> opens_loop l) (s # rev as)"
    and b: "list_all (\<lambda>l. \<not> closes_block l \<and> \<not> opens_loop l) (s # rev bs)"
    and c: "list_all (\<lambda>l. \<not> closes_block l \<and> \<not> opens_loop l) (rev as)"
    using assms(5-7) by auto
  have "insideLoop (h # as @ [s]) (length as + 1) = loop_above 0 ((s # rev as) @ [h])"
    using assms(8) by (simp add: insideLoop_def)
  moreover have "insideLoop (h # as @ c # bs @ [s]) (length as + length bs + 2) = loop_above 0 ((s # rev bs) @ c # rev as @ [h])"
    using assms(8) by (simp add: insideLoop_def)
  ultimately show ?thesis
    unfolding skip [OF a] skip [OF b] using assms(1-4) by (simp add: skip [OF c])
qed

lemma nested_block_hides_loop_witness:
  "insideLoop [''for (const p of ps) {'', ''if (p) {'', ''await devInternal(path);''] (length [''if (p) {''] + 1) \<and>
   \<not> insideLoop [''for (const p of ps) {'', ''if (p) {'', [CHR 0x7D], ''await devInternal(path);''] (length [''if (p) {''] + 0 + 2)"
proof -
  have h: "opens_loop ''for (const p of ps) {'' \<and> \<not> closes_block ''for (const p of ps) {''" by code_simp
  have c: "closes_block [CHR 0x7D] \<and> \<not> opens_loop [CHR 0x7D]" by code_simp
  have s: "\<not> closes_block ''await devInternal(path);'' \<and> \<not> opens_loop ''await devInternal(path);''" by code_simp
  have i: "\<not> closes_block ''if (p) {'' \<and> \<not> opens_loop ''if (p) {''" by code_simp
  show ?thesis
    using nested_block_hides_loop [of "''for (const p of ps) {''" "[CHR 0x7D]" "''await devInternal(path);''" "[''if (p) {'']" "[]"]
      h c s i by simp
qed
end
