(* ===== verification/RunLoop.thy ===== *)
theory RunLoop
  imports RunExposure RunCapacity
begin

text \<open>
  The validation runner (tools/validation-runner.mjs): the plan of a profile, the checks before a run starts,
  the loop over its journeys, and the verdict. The registries, the harnesses, the readings of funds and limiters
  and the moments at which an owner cancels are inputs; the database is the rows and the state of the run. The
  order of \<open>localeCompare\<close> and the grouping of digits are parameters.
\<close>

section \<open>The plan of a profile\<close>

record suite_spec =
  su_id :: string
  su_name :: "string option"
  su_blocking :: bool
  su_notProven :: bool
  su_class :: "string option"
  su_blockerDetail :: string

record journey_spec =
  jo_id :: string
  jo_suite :: string
  jo_name :: string
  jo_harness :: "string option"
  jo_exposure :: "int option"
  jo_adapter :: "string option"
  jo_args :: "string list"
  jo_evidenceStem :: "string option"
  jo_timeout :: "int option"
  jo_retryNone :: bool
  jo_retries :: "int option"
  jo_disposable :: nat
  jo_allowed :: int

record profile_spec =
  pr_id :: string
  pr_suites :: "string list"
  pr_escalate :: "string list"
  pr_max_applications :: int
  pr_ceiling :: int

text \<open>Every run of white space becomes a space.\<close>

fun squeeze :: "bool \<Rightarrow> string \<Rightarrow> string" where
  "squeeze inside [] = []"
| "squeeze inside (c # s) = (if js_ws c then (if inside then squeeze True s else CHR '' '' # squeeze True s) else c # squeeze False s)"

definition undefined_text :: "string option \<Rightarrow> string" where
  "undefined_text v = (case v of Some s \<Rightarrow> s | None \<Rightarrow> ''undefined'')"

definition control_entry :: "suite_spec list \<Rightarrow> (string \<Rightarrow> bool) \<Rightarrow> string \<Rightarrow> plan_entry" where
  "control_entry suites blocking suiteID =
     (let s = List.find (\<lambda>x. su_id x = suiteID) suites;
          notProven = (case s of Some x \<Rightarrow> su_notProven x | None \<Rightarrow> False)
      in \<lparr> pe_journey = suiteID @ ''-NOT-PROVEN'', pe_suite = suiteID,
           pe_name = (case s of Some x \<Rightarrow> (case su_name x of Some n \<Rightarrow> n | None \<Rightarrow> suiteID) | None \<Rightarrow> suiteID),
           pe_kind = CONTROL, pe_harness = None,
           pe_control = (if notProven then Some ''NOT_PROVEN'' else None),
           pe_controlReason = (if notProven then su_class (the s) else None),
           pe_notProven = Some (if notProven
             then undefined_text (su_class (the s)) @ '': '' @ take 400 (js_trim (squeeze False (su_blockerDetail (the s))))
             else ''no journey declared and no blocker recorded''),
           pe_exposure = None, pe_submits = None, pe_adapter = None, pe_args = [], pe_evidenceStem = None,
           pe_timeoutMs = 0, pe_retries = 0, pe_blocking = blocking suiteID, pe_disposable = 0, pe_allowed = 0 \<rparr>)"

definition journey_entry :: "(string \<Rightarrow> string option) \<Rightarrow> (string \<Rightarrow> bool) \<Rightarrow> string \<Rightarrow> journey_spec \<Rightarrow> plan_entry" where
  "journey_entry read blocking suiteID j =
     \<lparr> pe_journey = jo_id j, pe_suite = suiteID, pe_name = jo_name j, pe_kind = JOURNEY, pe_harness = jo_harness j,
       pe_control = None, pe_controlReason = None, pe_notProven = None, pe_exposure = jo_exposure j,
       pe_submits = (case jo_harness j of
          None \<Rightarrow> None
        | Some h \<Rightarrow> if h = [] then None else (case read h of None \<Rightarrow> None | Some src \<Rightarrow> submitCost h src)),
       pe_adapter = jo_adapter j, pe_args = jo_args j, pe_evidenceStem = jo_evidenceStem j,
       pe_timeoutMs = (case jo_timeout j of Some t \<Rightarrow> t | None \<Rightarrow> 720) * 1000,
       pe_retries = (if jo_retryNone j then 0 else (case jo_retries j of Some n \<Rightarrow> n | None \<Rightarrow> 0)),
       pe_blocking = blocking suiteID, pe_disposable = jo_disposable j, pe_allowed = jo_allowed j \<rparr>"

fun place_journey :: "(string \<Rightarrow> string \<Rightarrow> bool) \<Rightarrow> journey_spec \<Rightarrow> journey_spec list \<Rightarrow> journey_spec list" where
  "place_journey before j [] = [j]"
| "place_journey before j (k # ks) = (if before (jo_id j) (jo_id k) then j # k # ks else k # place_journey before j ks)"

definition suite_entries ::
  "(string \<Rightarrow> string \<Rightarrow> bool) \<Rightarrow> (string \<Rightarrow> string option) \<Rightarrow> suite_spec list \<Rightarrow> journey_spec list \<Rightarrow> (string \<Rightarrow> bool) \<Rightarrow>
   string \<Rightarrow> plan_entry list" where
  "suite_entries before read suites journeys blocking suiteID =
     (case foldr (place_journey before) (filter (\<lambda>j. jo_suite j = suiteID) journeys) [] of
        [] \<Rightarrow> [control_entry suites blocking suiteID]
      | js \<Rightarrow> map (journey_entry read blocking suiteID) js)"

definition planFor ::
  "(string \<Rightarrow> string \<Rightarrow> bool) \<Rightarrow> (string \<Rightarrow> string option) \<Rightarrow> profile_spec list \<Rightarrow> suite_spec list \<Rightarrow> journey_spec list \<Rightarrow>
   string \<Rightarrow> (profile_spec \<times> plan_entry list) option" where
  "planFor before read profiles suites journeys profileID =
     (case List.find (\<lambda>p. pr_id p = profileID) profiles of
        None \<Rightarrow> None
      | Some profile \<Rightarrow>
          (let blocking = (\<lambda>s. s \<in> set (map su_id (filter su_blocking suites) @ pr_escalate profile))
           in Some (profile, concat (map (suite_entries before read suites journeys blocking) (pr_suites profile)))))"

section \<open>The checks before a run\<close>

definition long_dash :: string where "long_dash = [CHR 0xE2, CHR 0x80, CHR 0x94]"

definition planned_submits :: "plan_entry list \<Rightarrow> bucket \<Rightarrow> int" where
  "planned_submits plan b = int (length (filter (\<lambda>p. pe_submits p = Some b) plan))"

definition bucket_name :: "bucket \<Rightarrow> string" where
  "bucket_name b = (case b of RunnerBucket \<Rightarrow> ''the runner'' @ [CHR 0x27] @ ''s address''
     | VmBucket \<Rightarrow> ''the Sandbox VM'' @ [CHR 0x27] @ ''s address'')"

definition bucket_of :: "bucket \<Rightarrow> submit_bucket list \<Rightarrow> submit_bucket option" where
  "bucket_of b buckets = (case b of RunnerBucket \<Rightarrow> Some (runnerBucket buckets) | VmBucket \<Rightarrow> vmBucket buckets)"

definition next_free :: "submit_bucket \<Rightarrow> string" where
  "next_free b = (case bk_nextFreeAt b of Some t \<Rightarrow> t | None \<Rightarrow> ''an unknown time'')"

text \<open>The refusal for one bucket, when there is one.\<close>

definition budget_refusal :: "plan_entry list \<Rightarrow> submit_bucket list \<Rightarrow> bucket \<Rightarrow> string option" where
  "budget_refusal plan buckets b =
     (let want = planned_submits plan b
      in if want = 0 then None
         else (case bucket_of b buckets of
           None \<Rightarrow> Some (''refusing to start: the plan needs '' @ int_str want @ '' submit(s) from '' @ bucket_name b @
             '', and the limiter has no record of that bucket. An unknown bucket is not a free one.'')
         | Some have \<Rightarrow>
             if bk_free have < want then
               Some (''refusing to start: the plan needs '' @ int_str want @ '' submit(s) from '' @ bucket_name b @
                 '' and only '' @ int_str (bk_free have) @ '' remain. The next slot returns at '' @ next_free have @ ''.'')
             else None))"

text \<open>The run may start, or the process ends with a message.\<close>

definition checkApplicationBudget :: "profile_spec \<Rightarrow> plan_entry list \<Rightarrow> string + submit_bucket list \<Rightarrow> string option" where
  "checkApplicationBudget profile plan buckets =
     (let total = planned_submits plan RunnerBucket + planned_submits plan VmBucket
      in if pr_max_applications profile < total then
           Some (''refusing to start: the plan spends '' @ int_str total @ '' application submit(s) but '' @ pr_id profile @
             '' declares a budget of '' @ int_str (pr_max_applications profile) @ ''. Fix the profile or the plan '' @
             long_dash @ '' a budget that is smaller than the plan is not a budget.'')
         else (case buckets of
           Inl e \<Rightarrow> Some (''refusing to start: cannot read the application-submit limiter ('' @ e @
             ''). An unknown window is not an empty one.'')
         | Inr bs \<Rightarrow>
             (case budget_refusal plan bs RunnerBucket of
                Some t \<Rightarrow> Some t
              | None \<Rightarrow> budget_refusal plan bs VmBucket)))"

definition actualSubmits :: "submit_bucket list \<Rightarrow> submit_bucket list option \<Rightarrow> int option" where
  "actualSubmits baseline current =
     map_option (\<lambda>bs. sum_list (map (\<lambda>b. max 0 (bk_used b -
       (case List.find (\<lambda>x. bk_ip x = bk_ip b) baseline of Some x \<Rightarrow> bk_used x | None \<Rightarrow> 0))) bs)) current"

record funds_reading =
  fr_cap :: int
  fr_used :: int
  fr_available :: int

definition aggregateFunds :: "int \<Rightarrow> int \<Rightarrow> funds_reading" where
  "aggregateFunds cap used = \<lparr> fr_cap = cap, fr_used = used, fr_available = max 0 (cap - used) \<rparr>"

definition checkFundsBudget :: "plan_entry list \<Rightarrow> bool \<Rightarrow> string + funds_reading \<Rightarrow> string option" where
  "checkFundsBudget plan barrier live =
     (let planned = plannedPeakFunds plan None barrier; bound = requiredFundsHeadroom (pf_peak planned)
      in if pf_unknown planned \<noteq> [] then
           Some (''VALIDATION_AGGREGATE_FUNDS_PEAK_UNKNOWN: '' @ nat_str (length (pf_unknown planned)) @
             '' journey(s) do not declare max_synthetic_funds_exposure_minor ('' @ join_with '', '' (pf_unknown planned) @
             ''). An undeclared exposure is not a zero exposure, and a floor must not authorise a run.'')
         else (case live of
           Inl e \<Rightarrow> Some (''refusing to start: cannot read aggregate Sandbox funds ('' @ e @ ''). An unknown cap is not an empty one.'')
         | Inr f \<Rightarrow>
             if fr_available f < fh_required bound then
               Some (''VALIDATION_AGGREGATE_FUNDS_CAP_INSUFFICIENT: cap='' @ int_str (fr_cap f) @ '' currently_used='' @
                 int_str (fr_used f) @ '' available='' @ int_str (fr_available f) @
                 '' planned_peak_max='' @ int_str (fh_plannedPeakMax bound) @
                 '' failed_run_residual_max='' @ int_str (fh_failedRunResidualMax bound) @
                 '' retry_peak_max='' @ int_str (fh_retryPeakMax bound) @
                 '' required_headroom='' @ int_str (fh_required bound) @
                 ''. Synthetic actors holding funded balances are the usual cause '' @ long_dash @
                 '' run tools/validation-synthetic-audit.mjs before retiring anything.'')
             else None))"

text \<open>Before the claim: the reserve counts too.\<close>

definition capacity_refusal :: "reserve \<Rightarrow> plan_entry list \<Rightarrow> submit_bucket list \<Rightarrow> bucket \<Rightarrow> string option" where
  "capacity_refusal res plan buckets b =
     (let n = planned_submits plan b; required = plus_null n (reserveFor res n)
      in if n = 0 then None
         else (case bucket_of b buckets of
           None \<Rightarrow> Some (''VALIDATION_APPLICATION_CAPACITY_UNKNOWN: the plan needs '' @ int_str required @
             '' submit(s) from '' @ bucket_name b @
             '' and the limiter cannot identify that bucket. An unknown bucket is not a free one; the run is left QUEUED and unspent.'')
         | Some have \<Rightarrow>
             if bk_free have < required then
               Some (''VALIDATION_APPLICATION_CAPACITY_INSUFFICIENT: '' @ bucket_name b @ '' has '' @ int_str (bk_free have) @
                 '' free and the run requires '' @ int_str required @ '' ('' @ int_str n @ '' planned + '' @
                 int_str (required - n) @ '' retry). The next slot returns at '' @ next_free have @
                 ''. The reserve is policy and is never lowered to fit; the run is left QUEUED and unspent.'')
             else None))"

definition checkApplicationCapacity :: "reserve \<Rightarrow> plan_entry list \<Rightarrow> string + submit_bucket list \<Rightarrow> string option" where
  "checkApplicationCapacity res plan buckets =
     (case res of
        Undeclared d \<Rightarrow> Some (''VALIDATION_APPLICATION_CAPACITY_UNKNOWN: '' @ d @
          ''. An undeclared reserve is not a reserve of zero; the run is left QUEUED and unspent.'')
      | Declared m k \<Rightarrow>
          (case buckets of
             Inl e \<Rightarrow> Some (''VALIDATION_APPLICATION_CAPACITY_UNKNOWN: cannot read the application-submit limiter ('' @ e @
               ''). An unreadable window is not an empty one; the run is left QUEUED and unspent.'')
           | Inr bs \<Rightarrow>
               (case capacity_refusal res plan bs RunnerBucket of
                  Some t \<Rightarrow> Some t
                | None \<Rightarrow> capacity_refusal res plan bs VmBucket)))"

section \<open>The database of a run\<close>

datatype run_status = RUNNING | CANCELLED | COMPLETED | ABANDONED

datatype verdict = PASS | FAIL

datatype outcome = PLANNED | OBSERVED | PASSED | FAILED | UNAVAILABLE | NOT_REACHED

datatype cleanup_result = CLEAN_NOT_REQUIRED | CLEAN_VERIFIED | CLEAN_FAILED | CLEAN_UNDECLARED | CLEAN_NOT_REACHED

record journey_row =
  jr_journey :: string
  jr_kind :: plan_kind
  jr_outcome :: outcome
  jr_detail :: "string option"
  jr_functional :: "bool option"
  jr_cleanup :: "(cleanup_result \<times> string) option"

record run_db =
  rd_status :: run_status
  rd_verdict :: "verdict option"
  rd_rows :: "journey_row list"

text \<open>The plan is materialised first; a row that is there stays.\<close>

definition planned_row :: "plan_entry \<Rightarrow> journey_row" where
  "planned_row p = \<lparr> jr_journey = pe_journey p, jr_kind = pe_kind p, jr_outcome = PLANNED, jr_detail = None,
     jr_functional = None, jr_cleanup = None \<rparr>"

definition insert_row :: "plan_entry \<Rightarrow> journey_row list \<Rightarrow> journey_row list" where
  "insert_row p rows = (if pe_journey p \<in> jr_journey ` set rows then rows else rows @ [planned_row p])"

definition materialise :: "plan_entry list \<Rightarrow> journey_row list \<Rightarrow> journey_row list" where
  "materialise plan rows = foldl (\<lambda>rs p. insert_row p rs) rows plan"

definition update_row :: "string \<Rightarrow> (journey_row \<Rightarrow> journey_row) \<Rightarrow> run_db \<Rightarrow> run_db" where
  "update_row j f db = db\<lparr>rd_rows := map (\<lambda>r. if jr_journey r = j then f r else r) (rd_rows db)\<rparr>"

text \<open>The two results are written only into a schema that has columns for them.\<close>

definition mark :: "bool \<Rightarrow> plan_entry \<Rightarrow> outcome \<Rightarrow> string \<Rightarrow> (bool option \<times> cleanup_result \<times> string) option \<Rightarrow> run_db \<Rightarrow> run_db" where
  "mark barrier p out detail results =
     update_row (pe_journey p)
       (\<lambda>r. (case results of
               Some (f, c) \<Rightarrow> if barrier then r\<lparr>jr_functional := f, jr_cleanup := Some c\<rparr> else r
             | None \<Rightarrow> r)\<lparr>jr_outcome := out, jr_detail := Some detail\<rparr>)"

section \<open>Cleanup\<close>

definition allowance_text :: "(int \<Rightarrow> string) \<Rightarrow> int \<Rightarrow> string" where
  "allowance_text pt allowed = (if allowed \<noteq> 0 then '' against an allowance of '' @ pt allowed else '' (allowance 0)'')"

definition cleanupVerdict ::
  "(int \<Rightarrow> string) \<Rightarrow> plan_entry \<Rightarrow> int option \<Rightarrow> int option \<Rightarrow> string option \<Rightarrow> cleanup_result \<times> string" where
  "cleanupVerdict pt p baseline after unreadable =
     (if pe_disposable p = 0 then (CLEAN_NOT_REQUIRED, ''the registry declares nothing disposable for this journey'')
      else (case baseline of
        None \<Rightarrow> (CLEAN_UNDECLARED, ''no funded-value baseline was readable before the journey'')
      | Some b \<Rightarrow>
          (case (unreadable, after) of
             (None, Some a) \<Rightarrow>
               (let residual = a - b
                in if pe_allowed p < residual then
                     (CLEAN_FAILED, pt residual @ '' minor of funded value remained'' @ allowance_text pt (pe_allowed p))
                   else (CLEAN_VERIFIED,
                     if residual = 0 then ''funded value returned to its pre-journey total''
                     else ''funded value '' @ (if residual < 0 then ''fell by'' else ''rose by'') @ '' '' @ pt \<bar>residual\<bar> @
                       '' minor, within the allowance''))
           | (Some u, _) \<Rightarrow> (CLEAN_UNDECLARED, ''funded value unreadable after the journey: '' @ u)
           | (None, None) \<Rightarrow> (CLEAN_UNDECLARED, ''funded value unreadable after the journey: no reading''))))"

definition verifyCleanup :: "(int \<Rightarrow> string) \<Rightarrow> plan_entry \<Rightarrow> int option \<Rightarrow> string + int \<Rightarrow> cleanup_result \<times> string" where
  "verifyCleanup pt p baseline reading =
     (case baseline of
        None \<Rightarrow> cleanupVerdict pt p None None None
      | Some b \<Rightarrow>
          (case reading of
             Inl e \<Rightarrow> cleanupVerdict pt p (Some b) None (Some (take 120 e))
           | Inr a \<Rightarrow> cleanupVerdict pt p (Some b) (Some a) None))"

definition stops_run :: "cleanup_result \<Rightarrow> bool" where
  "stops_run c \<longleftrightarrow> c = CLEAN_FAILED \<or> c = CLEAN_UNDECLARED"

section \<open>Funds samples\<close>

datatype funds_phase = BASELINE | PRE_JOURNEY | POST_FUNCTIONAL | POST_CLEANUP | RUN_TERMINAL

record funds_sample =
  fs_phase :: funds_phase
  fs_journey :: "string option"
  fs_used :: int
  fs_delta :: int

definition take_sample :: "int \<Rightarrow> funds_phase \<Rightarrow> string option \<Rightarrow> int option \<Rightarrow> funds_sample list \<Rightarrow> funds_sample list" where
  "take_sample baseline phase j reading ss =
     (case reading of
        None \<Rightarrow> ss
      | Some used \<Rightarrow> ss @ [\<lparr> fs_phase = phase, fs_journey = j, fs_used = used, fs_delta = used - baseline \<rparr>])"

definition peakFromSamples :: "funds_sample list \<Rightarrow> int \<Rightarrow> int option \<times> bool \<times> nat" where
  "peakFromSamples ss finalResidual =
     (let ds = map fs_delta ss; peak = (case ds of [] \<Rightarrow> None | d # es \<Rightarrow> Some (foldl max d es))
      in (peak, 0 < finalResidual \<and> (case peak of None \<Rightarrow> True | Some k \<Rightarrow> k < finalResidual), length ss))"

section \<open>One journey\<close>

text \<open>What happens around one entry of the plan: an owner cancels before it, the credit read before it, the readings
  of funds, what the harness returned (a gate is a note or an assertion), the exposure measured or the failure of
  recording it, and, when the run stops here, the moments at which an owner cancels while the rest is marked.\<close>

record happening =
  hp_cancel :: bool
  hp_credit :: "string + int"
  hp_pre :: "int option"
  hp_ok :: bool
  hp_reason :: string
  hp_notes :: "bool list"
  hp_post :: "int option"
  hp_after :: "string + int"
  hp_cleaned :: "int option"
  hp_exposure :: "string + exposure_verdict \<times> string"
  hp_cancels :: "bool list"

record run_config =
  rc_pt :: "int \<Rightarrow> string"
  rc_barrier :: bool
  rc_ceiling :: int
  rc_baseline :: int

record loop_state =
  lp_db :: run_db
  lp_passed :: nat
  lp_failed :: nat
  lp_failedBlocking :: nat
  lp_skipped :: nat
  lp_notReached :: nat
  lp_spent :: int
  lp_budgetStopped :: "string option"
  lp_cleanupStopped :: "string option"
  lp_underDeclared :: "string list"
  lp_samples :: "funds_sample list"

definition cancel_when :: "bool \<Rightarrow> run_db \<Rightarrow> run_db" where
  "cancel_when b db = (if b then db\<lparr>rd_status := CANCELLED\<rparr> else db)"

definition unavailable :: "run_config \<Rightarrow> plan_entry \<Rightarrow> loop_state \<Rightarrow> loop_state" where
  "unavailable c p lp =
     lp\<lparr>lp_db := mark (rc_barrier c) p UNAVAILABLE
          (case pe_notProven p of Some t \<Rightarrow> t | None \<Rightarrow> ''no harness declared for this journey'') None (lp_db lp),
        lp_skipped := lp_skipped lp + 1\<rparr>"

definition clean_text :: "cleanup_result \<Rightarrow> string" where
  "clean_text r = (case r of CLEAN_NOT_REQUIRED \<Rightarrow> ''NOT_REQUIRED'' | CLEAN_VERIFIED \<Rightarrow> ''VERIFIED'' | CLEAN_FAILED \<Rightarrow> ''FAILED''
     | CLEAN_UNDECLARED \<Rightarrow> ''UNDECLARED'' | CLEAN_NOT_REACHED \<Rightarrow> ''NOT_REACHED'')"

definition entry_passes :: "bool \<Rightarrow> cleanup_result \<Rightarrow> bool" where
  "entry_passes ok r \<longleftrightarrow> ok \<and> (r = CLEAN_VERIFIED \<or> r = CLEAN_NOT_REQUIRED)"

definition entry_detail :: "happening \<Rightarrow> cleanup_result \<times> string \<Rightarrow> string" where
  "entry_detail i cl =
     (if hp_ok i then
        (let asserted = length (filter (\<lambda>n. \<not> n) (hp_notes i))
         in nat_str asserted @ '' assertions, '' @ nat_str (length (hp_notes i) - asserted) @ '' measurements'' @
            (if entry_passes True (fst cl) then []
             else '' '' @ long_dash @ '' cleanup '' @ clean_text (fst cl) @ '': '' @ snd cl))
      else hp_reason i)"

text \<open>The journey runs; when the measure of its exposure fails the whole run does.\<close>

definition run_entry ::
  "run_config \<Rightarrow> plan_entry \<Rightarrow> happening \<Rightarrow> loop_state \<Rightarrow> loop_state \<times> cleanup_result \<times> string \<times> string option" where
  "run_entry c p i lp =
     (let j = Some (pe_journey p);
          cl = verifyCleanup (rc_pt c) p (hp_pre i) (hp_after i);
          ss = take_sample (rc_baseline c) POST_CLEANUP j (hp_cleaned i)
                 (take_sample (rc_baseline c) POST_FUNCTIONAL j (hp_post i)
                   (take_sample (rc_baseline c) PRE_JOURNEY j (hp_pre i) (lp_samples lp)));
          lp1 = lp\<lparr>lp_db := update_row (pe_journey p) (\<lambda>r. r\<lparr>jr_outcome := OBSERVED\<rparr>) (lp_db lp), lp_samples := ss\<rparr>
      in case hp_exposure i of
           Inl e \<Rightarrow> (lp1, fst cl, snd cl, Some e)
         | Inr (v, d) \<Rightarrow>
             (let ok = entry_passes (hp_ok i) (fst cl)
              in (lp1\<lparr>lp_underDeclared := lp_underDeclared lp @ (if v = UNDER_DECLARED then [pe_journey p @ '': '' @ d] else []),
                      lp_db := mark (rc_barrier c) p (if ok then PASSED else FAILED) (entry_detail i cl)
                                 (Some (Some (hp_ok i), cl)) (lp_db lp1),
                      lp_passed := lp_passed lp + (if ok then 1 else 0),
                      lp_failed := lp_failed lp + (if ok then 0 else 1),
                      lp_failedBlocking := lp_failedBlocking lp + (if \<not> ok \<and> pe_blocking p then 1 else 0)\<rparr>,
                  fst cl, snd cl, None)))"

text \<open>The rest of the plan, after a journey that did not clean up.\<close>

fun not_reached :: "run_config \<Rightarrow> string \<Rightarrow> plan_entry list \<Rightarrow> bool list \<Rightarrow> loop_state \<Rightarrow> loop_state" where
  "not_reached c at_journey [] cancels lp = lp"
| "not_reached c at_journey (p # ps) cancels lp =
     (let db = cancel_when (case cancels of b # _ \<Rightarrow> b | [] \<Rightarrow> False) (lp_db lp)
      in if rd_status db = CANCELLED then lp\<lparr>lp_db := db\<rparr>
         else not_reached c at_journey ps (tl cancels)
           (lp\<lparr>lp_db := mark (rc_barrier c) p NOT_REACHED ''not started: the run stopped at a cleanup barrier''
                  (Some (None, CLEAN_NOT_REACHED, ''stopped at '' @ at_journey)) db,
               lp_notReached := lp_notReached lp + 1\<rparr>))"

section \<open>The loop\<close>

definition over_budget :: "run_config \<Rightarrow> int \<Rightarrow> string" where
  "over_budget c spent = ''run spent '' @ rc_pt c spent @ '' minor against a declared ceiling of '' @ rc_pt c (rc_ceiling c)"

fun run_journeys :: "run_config \<Rightarrow> (plan_entry \<times> happening) list \<Rightarrow> loop_state \<Rightarrow> loop_state \<times> string option" where
  "run_journeys c [] lp = (lp, None)"
| "run_journeys c ((p, i) # rest) lp =
     (let lp0 = lp\<lparr>lp_db := cancel_when (hp_cancel i) (lp_db lp)\<rparr>
      in if rd_status (lp_db lp0) = CANCELLED then (lp0, None)
         else (case (if 0 < rc_ceiling c then hp_credit i else Inr (lp_spent lp)) of
           Inl e \<Rightarrow> (lp0, Some e)
         | Inr spent \<Rightarrow>
             (let lp1 = lp0\<lparr>lp_spent := spent\<rparr>
              in if 0 < rc_ceiling c \<and> rc_ceiling c < spent then (lp1\<lparr>lp_budgetStopped := Some (over_budget c spent)\<rparr>, None)
                 else if no_harness p then run_journeys c rest (unavailable c p lp1)
                 else (case run_entry c p i lp1 of
                   (lp2, r, d, Some e) \<Rightarrow> (lp2, Some e)
                 | (lp2, r, d, None) \<Rightarrow>
                     if stops_run r then
                       (not_reached c (pe_journey p) (map fst rest) (hp_cancels i)
                          (lp2\<lparr>lp_cleanupStopped := Some (pe_journey p @ '' '' @ long_dash @ '' cleanup '' @ clean_text r @ '': '' @ d)\<rparr>),
                        None)
                     else run_journeys c rest lp2))))"

definition start_loop :: "run_db \<Rightarrow> loop_state" where
  "start_loop db = \<lparr> lp_db = db, lp_passed = 0, lp_failed = 0, lp_failedBlocking = 0, lp_skipped = 0, lp_notReached = 0,
     lp_spent = 0, lp_budgetStopped = None, lp_cleanupStopped = None, lp_underDeclared = [], lp_samples = [] \<rparr>"

section \<open>The end of a run\<close>

text \<open>What happens after the loop: an owner cancels before the state is read, the credit and the submits read last, the
  last reading of funds, and an owner cancels between the reading of the state and the writing of the verdict.\<close>

record ending =
  en_cancel :: bool
  en_credit :: "string + int"
  en_terminal :: "int option"
  en_submits :: "submit_bucket list option"
  en_lateCancel :: bool

datatype run_end =
    WasCancelled
  | Completed verdict
  | Abandoned string
  | ProcessExit string

text \<open>The state is guarded when a run is abandoned, and not when it is completed.\<close>

definition abandon :: "string \<Rightarrow> loop_state \<Rightarrow> loop_state \<times> run_end" where
  "abandon e lp =
     (let db = lp_db lp
      in (lp\<lparr>lp_db := db\<lparr>rd_status := (if rd_status db = RUNNING then ABANDONED else rd_status db),
             rd_rows := map (\<lambda>r. if jr_outcome r = PLANNED
               then r\<lparr>jr_outcome := NOT_REACHED,
                      jr_detail := Some (case jr_detail r of Some d \<Rightarrow> d | None \<Rightarrow> ''not started: the run was abandoned'')\<rparr>
               else r) (rd_rows db)\<rparr>\<rparr>, Abandoned e))"

definition over_submits :: "profile_spec \<Rightarrow> int option \<Rightarrow> string option \<Rightarrow> string option" where
  "over_submits profile submits before =
     (case submits of
        None \<Rightarrow> before
      | Some n \<Rightarrow>
          if pr_max_applications profile < n then
            Some (''run spent '' @ int_str n @ '' application submit(s) against a declared budget of '' @
              int_str (pr_max_applications profile))
          else before)"

definition run_verdict :: "loop_state \<Rightarrow> string option \<Rightarrow> verdict" where
  "run_verdict lp budgetStopped =
     (if lp_failedBlocking lp = 0 \<and> lp_failed lp = 0 \<and> budgetStopped = None \<and> lp_cleanupStopped lp = None \<and>
         lp_underDeclared lp = [] then PASS else FAIL)"

definition finish_run ::
  "run_config \<Rightarrow> profile_spec \<Rightarrow> submit_bucket list \<Rightarrow> ending \<Rightarrow> loop_state \<Rightarrow> loop_state \<times> run_end" where
  "finish_run c profile buckets e lp =
     (let lp0 = lp\<lparr>lp_db := cancel_when (en_cancel e) (lp_db lp)\<rparr>
      in if rd_status (lp_db lp0) = CANCELLED then (lp0, WasCancelled)
         else (case (if 0 < rc_ceiling c then en_credit e else Inr (lp_spent lp)) of
           Inl m \<Rightarrow> abandon m lp0
         | Inr spent \<Rightarrow>
             (let stopped = over_submits profile (actualSubmits buckets (en_submits e)) (lp_budgetStopped lp);
                  v = run_verdict lp stopped;
                  ss = take_sample (rc_baseline c) RUN_TERMINAL None (en_terminal e) (lp_samples lp)
              in (lp0\<lparr>lp_spent := spent, lp_budgetStopped := stopped, lp_samples := ss,
                      lp_db := (cancel_when (en_lateCancel e) (lp_db lp0))\<lparr>rd_status := COMPLETED, rd_verdict := Some v\<rparr>\<rparr>,
                  Completed v))))"

definition run_claimed ::
  "(int \<Rightarrow> string) \<Rightarrow> bool \<Rightarrow> profile_spec \<Rightarrow> (plan_entry \<times> happening) list \<Rightarrow> journey_row list \<Rightarrow>
   string + submit_bucket list \<Rightarrow> string + funds_reading \<Rightarrow> int option \<Rightarrow> ending \<Rightarrow> loop_state \<times> run_end" where
  "run_claimed pt barrier profile steps rows buckets funds first e =
     (let plan = map fst steps;
          lp = start_loop \<lparr> rd_status = RUNNING, rd_verdict = None, rd_rows = materialise plan rows \<rparr>
      in case checkApplicationBudget profile plan buckets of
           Some m \<Rightarrow> (lp, ProcessExit m)
         | None \<Rightarrow>
             (case (checkFundsBudget plan barrier funds, buckets, funds) of
                (None, Inr bs, Inr f) \<Rightarrow>
                  (let c = \<lparr> rc_pt = pt, rc_barrier = barrier, rc_ceiling = pr_ceiling profile, rc_baseline = fr_used f \<rparr>
                   in case run_journeys c steps (lp\<lparr>lp_samples := take_sample (fr_used f) BASELINE None first []\<rparr>) of
                        (lp1, Some m) \<Rightarrow> abandon m lp1
                      | (lp1, None) \<Rightarrow> finish_run c profile bs e lp1)
              | (Some m, _) \<Rightarrow> (lp, ProcessExit m)
              | _ \<Rightarrow> (lp, ProcessExit [])))"

section \<open>The record read back\<close>

definition rows_with :: "plan_kind \<Rightarrow> outcome \<Rightarrow> journey_row list \<Rightarrow> nat" where
  "rows_with k out rows = length (filter (\<lambda>r. jr_kind r = k \<and> jr_outcome r = out) rows)"

definition drift_of :: "string \<Rightarrow> nat \<Rightarrow> nat \<Rightarrow> string list" where
  "drift_of what expected n =
     (if n = expected then [] else [what @ '' '' @ nat_str expected @ [CHR 0xE2, CHR 0x86, CHR 0x92] @ nat_str n])"

definition summarise_drift :: "loop_state \<Rightarrow> string list" where
  "summarise_drift lp =
     (let rows = rd_rows (lp_db lp)
      in drift_of ''passed'' (lp_passed lp) (rows_with JOURNEY PASSED rows) @
         drift_of ''failed'' (lp_failed lp) (rows_with JOURNEY FAILED rows) @
         drift_of ''unavailable'' (lp_skipped lp) (rows_with JOURNEY UNAVAILABLE rows) @
         drift_of ''not reached'' (lp_notReached lp) (rows_with JOURNEY NOT_REACHED rows))"
section \<open>What the loop touches\<close>

definition rows_of :: "string \<Rightarrow> run_db \<Rightarrow> journey_row list" where
  "rows_of j db = filter (\<lambda>r. jr_journey r = j) (rd_rows db)"

lemma names_cancel [simp]: "rd_rows (cancel_when b db) = rd_rows db"
  by (simp add: cancel_when_def)

lemma rows_of_cancel [simp]: "rows_of j (cancel_when b db) = rows_of j db"
  by (simp add: rows_of_def cancel_when_def)

definition row_name :: "journey_row \<Rightarrow> string \<times> plan_kind" where
  "row_name r = (jr_journey r, jr_kind r)"

definition keeps_name :: "(journey_row \<Rightarrow> journey_row) \<Rightarrow> bool" where
  "keeps_name f \<longleftrightarrow> (\<forall>r. row_name (f r) = row_name r)"

lemma rows_of_update:
  assumes "keeps_name f"
  shows "rows_of j (update_row k f db) = (if j = k then map f (rows_of j db) else rows_of j db)"
proof -
  have "filter (\<lambda>r. jr_journey r = j) (map (\<lambda>r. if jr_journey r = k then f r else r) rs) =
      (if j = k then map f (filter (\<lambda>r. jr_journey r = j) rs) else filter (\<lambda>r. jr_journey r = j) rs)" for rs
    using assms by (induction rs) (auto simp: keeps_name_def row_name_def)
  then show ?thesis by (simp add: rows_of_def update_row_def)
qed

definition marked :: "bool \<Rightarrow> outcome \<Rightarrow> string \<Rightarrow> (bool option \<times> cleanup_result \<times> string) option \<Rightarrow> journey_row \<Rightarrow> journey_row" where
  "marked barrier out detail results r =
     (case results of Some (f, c) \<Rightarrow> if barrier then r\<lparr>jr_functional := f, jr_cleanup := Some c\<rparr> else r
        | None \<Rightarrow> r)\<lparr>jr_outcome := out, jr_detail := Some detail\<rparr>"

lemma mark_marked: "mark barrier p out detail results = update_row (pe_journey p) (marked barrier out detail results)"
  unfolding mark_def marked_def ..

lemma marked_fields [simp]:
  "jr_journey (marked b out d res r) = jr_journey r" "jr_kind (marked b out d res r) = jr_kind r"
  "jr_outcome (marked b out d res r) = out"
  by (simp_all add: marked_def split: option.split prod.split)

lemma marked_cleanup:
  "jr_cleanup (marked b out d (Some (f, c)) r) = (if b then Some c else jr_cleanup r)"
  "jr_cleanup (marked b out d None r) = jr_cleanup r"
  by (simp_all add: marked_def)

lemma rows_of_mark:
  "rows_of j (mark barrier p out detail results db) =
     (if j = pe_journey p then map (marked barrier out detail results) (rows_of j db) else rows_of j db)"
  unfolding mark_marked by (rule rows_of_update) (simp add: keeps_name_def row_name_def)

lemma status_update [simp]: "rd_status (update_row k f db) = rd_status db"
  by (simp add: update_row_def)

lemma status_mark [simp]: "rd_status (mark barrier p out detail results db) = rd_status db"
  by (simp add: mark_def)

lemma rows_of_observed:
  "rows_of j (update_row k (\<lambda>r. r\<lparr>jr_outcome := OBSERVED\<rparr>) db) =
     (if j = k then map (\<lambda>r. r\<lparr>jr_outcome := OBSERVED\<rparr>) (rows_of j db) else rows_of j db)"
  by (rule rows_of_update) (simp add: keeps_name_def row_name_def)

lemma unavailable_rows:
  "rows_of j (lp_db (unavailable c p lp)) = (if j = pe_journey p
     then map (marked (rc_barrier c) UNAVAILABLE (case pe_notProven p of Some t \<Rightarrow> t | None \<Rightarrow> ''no harness declared for this journey'') None)
       (rows_of j (lp_db lp))
     else rows_of j (lp_db lp))"
  by (simp add: unavailable_def rows_of_mark)

lemma run_entry_other:
  assumes "run_entry c p i lp = (lp', r, d, x)" "j \<noteq> pe_journey p"
  shows "rows_of j (lp_db lp') = rows_of j (lp_db lp)"
  using assms by (auto simp: run_entry_def Let_def rows_of_mark rows_of_observed split: sum.splits)

text \<open>What a journey that ran without failing leaves in its row.\<close>

lemma run_entry_done:
  assumes "run_entry c p i lp = (lp', r, d, None)"
  shows "(r, d) = verifyCleanup (rc_pt c) p (hp_pre i) (hp_after i) \<and>
    (\<exists>v t. hp_exposure i = Inr (v, t) \<and>
       lp_underDeclared lp' = lp_underDeclared lp @ (if v = UNDER_DECLARED then [pe_journey p @ '': '' @ t] else [])) \<and>
    rows_of (pe_journey p) (lp_db lp') =
      map (\<lambda>q. marked (rc_barrier c) (if entry_passes (hp_ok i) r then PASSED else FAILED) (entry_detail i (r, d))
          (Some (Some (hp_ok i), r, d)) (q\<lparr>jr_outcome := OBSERVED\<rparr>)) (rows_of (pe_journey p) (lp_db lp)) \<and>
    lp_passed lp' = lp_passed lp + (if entry_passes (hp_ok i) r then 1 else 0) \<and>
    lp_failed lp' = lp_failed lp + (if entry_passes (hp_ok i) r then 0 else 1) \<and>
    lp_skipped lp' = lp_skipped lp \<and> lp_budgetStopped lp' = lp_budgetStopped lp \<and>
    lp_cleanupStopped lp' = lp_cleanupStopped lp \<and> rd_status (lp_db lp') = rd_status (lp_db lp)"
  using assms
  by (auto simp: run_entry_def Let_def rows_of_mark rows_of_observed comp_def split: sum.splits)

lemma not_reached_other:
  "j \<notin> pe_journey ` set ps \<Longrightarrow> rows_of j (lp_db (not_reached c n ps cs lp)) = rows_of j (lp_db lp)"
  by (induction c n ps cs lp rule: not_reached.induct) (simp_all add: Let_def rows_of_mark)

lemma not_reached_fields:
  "lp_failed (not_reached c n ps cs lp) = lp_failed lp \<and> lp_cleanupStopped (not_reached c n ps cs lp) = lp_cleanupStopped lp \<and>
   lp_underDeclared (not_reached c n ps cs lp) = lp_underDeclared lp \<and>
   lp_budgetStopped (not_reached c n ps cs lp) = lp_budgetStopped lp"
  by (induction c n ps cs lp rule: not_reached.induct) (simp_all add: Let_def)

lemma not_reached_outcomes:
  assumes "distinct (map pe_journey ps)" "q \<in> set ps"
    and "\<forall>r \<in> set (rows_of (pe_journey q) (lp_db lp)). jr_outcome r = PLANNED"
  shows "\<forall>r \<in> set (rows_of (pe_journey q) (lp_db (not_reached c n ps cs lp))). jr_outcome r \<in> {PLANNED, NOT_REACHED}"
  using assms
proof (induction c n ps cs lp rule: not_reached.induct)
  case (1 c n cs lp)
  then show ?case by simp
next
  case (2 c n p ps cs lp)
  let ?db = "cancel_when (case cs of b # _ \<Rightarrow> b | [] \<Rightarrow> False) (lp_db lp)"
  show ?case
  proof (cases "rd_status ?db = CANCELLED")
    case True
    then show ?thesis using 2(4) by (simp add: Let_def)
  next
    case False
    let ?lp = "lp\<lparr>lp_db := mark (rc_barrier c) p NOT_REACHED ''not started: the run stopped at a cleanup barrier''
      (Some (None, CLEAN_NOT_REACHED, ''stopped at '' @ n)) ?db, lp_notReached := lp_notReached lp + 1\<rparr>"
    have step: "not_reached c n (p # ps) cs lp = not_reached c n ps (tl cs) ?lp"
      using False by (simp add: Let_def)
    show ?thesis
    proof (cases "q = p")
      case True
      then have "pe_journey q \<notin> pe_journey ` set ps" using 2(2) by simp
      then show ?thesis unfolding step using True by (simp add: not_reached_other rows_of_mark)
    next
      case ne: False
      then have q: "q \<in> set ps" using 2(3) by simp
      then have "pe_journey q \<in> pe_journey ` set ps" by simp
      then have "pe_journey q \<noteq> pe_journey p" using 2(2) by auto
      with q 2(1) [OF refl False] 2(2,4) show ?thesis unfolding step by (simp add: rows_of_mark)
    qed
  qed
qed

section \<open>One step of the loop\<close>

lemma run_step_cases:
  assumes "run_journeys c ((p, i) # rest) lp = (lp', None)"
  obtains
    (stopped) "rd_status (lp_db lp') = CANCELLED \<or> lp_budgetStopped lp' \<noteq> None"
      "rd_rows (lp_db lp') = rd_rows (lp_db lp)" "lp_failed lp' = lp_failed lp" "lp_underDeclared lp' = lp_underDeclared lp"
  | (skipped) lp1 where "no_harness p" "run_journeys c rest (unavailable c p lp1) = (lp', None)"
      "lp_db lp1 = cancel_when (hp_cancel i) (lp_db lp)" "lp_failed lp1 = lp_failed lp"
      "lp_underDeclared lp1 = lp_underDeclared lp" "lp_passed lp1 = lp_passed lp" "lp_skipped lp1 = lp_skipped lp"
  | (ran) lp1 lp2 r d where "\<not> no_harness p" "run_entry c p i lp1 = (lp2, r, d, None)" "\<not> stops_run r"
      "run_journeys c rest lp2 = (lp', None)" "lp_db lp1 = cancel_when (hp_cancel i) (lp_db lp)"
      "lp_failed lp1 = lp_failed lp" "lp_underDeclared lp1 = lp_underDeclared lp" "lp_passed lp1 = lp_passed lp"
      "lp_skipped lp1 = lp_skipped lp" "0 < rc_ceiling c \<longrightarrow> (\<exists>s. hp_credit i = Inr s \<and> s \<le> rc_ceiling c)"
  | (barred) lp1 lp2 r d where "\<not> no_harness p" "run_entry c p i lp1 = (lp2, r, d, None)" "stops_run r"
      "lp' = not_reached c (pe_journey p) (map fst rest) (hp_cancels i)
         (lp2\<lparr>lp_cleanupStopped := Some (pe_journey p @ '' '' @ long_dash @ '' cleanup '' @ clean_text r @ '': '' @ d)\<rparr>)"
      "lp_db lp1 = cancel_when (hp_cancel i) (lp_db lp)" "lp_failed lp1 = lp_failed lp" "lp_underDeclared lp1 = lp_underDeclared lp"
proof -
  let ?lp0 = "lp\<lparr>lp_db := cancel_when (hp_cancel i) (lp_db lp)\<rparr>"
  show ?thesis
  proof (cases "rd_status (lp_db ?lp0) = CANCELLED")
    case True
    then have "lp' = ?lp0" using assms by (simp add: Let_def)
    then show ?thesis using stopped True by simp
  next
    case running: False
    obtain spent where s: "(if 0 < rc_ceiling c then hp_credit i else Inr (lp_spent lp)) = Inr spent"
      using assms running by (cases "if 0 < rc_ceiling c then hp_credit i else Inr (lp_spent lp)") (auto simp: Let_def)
    let ?lp1 = "?lp0\<lparr>lp_spent := spent\<rparr>"
    note eq = assms [unfolded run_journeys.simps Let_def if_not_P [OF running] s sum.case]
    show ?thesis
    proof (cases "0 < rc_ceiling c \<and> rc_ceiling c < spent")
      case True
      then have "lp' = ?lp1\<lparr>lp_budgetStopped := Some (over_budget c spent)\<rparr>"
        using eq [unfolded if_P [OF True]] by simp
      then show ?thesis using stopped by simp
    next
      case under: False
      note eq = eq [unfolded if_not_P [OF under]]
      have credit: "0 < rc_ceiling c \<longrightarrow> (\<exists>s. hp_credit i = Inr s \<and> s \<le> rc_ceiling c)"
        using under s by auto
      show ?thesis
      proof (cases "no_harness p")
        case True
        show ?thesis using skipped [OF True eq [unfolded if_P [OF True]]] by simp
      next
        case harness: False
        note eq = eq [unfolded if_not_P [OF harness]]
        obtain lp2 r d x where e: "run_entry c p i ?lp1 = (lp2, r, d, x)" by (cases "run_entry c p i ?lp1")
        have x: "x = None" using eq e by (cases x) auto
        note eq = eq [unfolded e x prod.case option.case]
        show ?thesis
        proof (cases "stops_run r")
          case True
          show ?thesis using barred [OF harness e [unfolded x] True] eq [unfolded if_P [OF True]] by simp
        next
          case False
          show ?thesis using ran [OF harness e [unfolded x] False eq [unfolded if_not_P [OF False]] _ _ _ _ _ credit] by simp
        qed
      qed
    qed
  qed
qed

lemma run_journeys_other:
  "run_journeys c steps lp = (lp', None) \<Longrightarrow> j \<notin> pe_journey ` fst ` set steps \<Longrightarrow>
     rows_of j (lp_db lp') = rows_of j (lp_db lp)"
proof (induction steps arbitrary: lp)
  case Nil
  then show ?case by simp
next
  case (Cons pi steps)
  obtain p i where pi: "pi = (p, i)" by (cases pi)
  have ne: "j \<noteq> pe_journey p" "j \<notin> pe_journey ` fst ` set steps" using Cons.prems(2) pi by auto
  show ?case
    using Cons.prems(1) [unfolded pi]
  proof (cases rule: run_step_cases)
    case stopped
    then show ?thesis by (simp add: rows_of_def)
  next
    case (skipped lp1)
    then show ?thesis using Cons.IH [OF skipped(2) ne(2)] ne(1) by (simp add: unavailable_rows)
  next
    case (ran lp1 lp2 r d)
    then show ?thesis using Cons.IH [OF ran(4) ne(2)] run_entry_other [OF ran(2) ne(1)] by simp
  next
    case (barred lp1 lp2 r d)
    have "j \<notin> pe_journey ` set (map fst steps)" using ne(2) by (simp add: image_image)
    then show ?thesis using not_reached_other run_entry_other [OF barred(2) ne(1)] barred(4,5) by simp
  qed
qed

lemma run_journeys_grows:
  "run_journeys c steps lp = (lp', None) \<Longrightarrow> lp_failed lp' = 0 \<and> lp_underDeclared lp' = [] \<Longrightarrow>
     lp_failed lp = 0 \<and> lp_underDeclared lp = []"
proof (induction steps arbitrary: lp)
  case Nil
  then show ?case by simp
next
  case (Cons pi steps)
  obtain p i where pi: "pi = (p, i)" by (cases pi)
  show ?case
    using Cons.prems(1) [unfolded pi]
  proof (cases rule: run_step_cases)
    case stopped
    then show ?thesis using Cons.prems(2) by simp
  next
    case (skipped lp1)
    then show ?thesis using Cons.IH [OF skipped(2) Cons.prems(2)] by (simp add: unavailable_def)
  next
    case (ran lp1 lp2 r d)
    then show ?thesis using Cons.IH [OF ran(4) Cons.prems(2)] run_entry_done [OF ran(2)] by (auto split: if_splits)
  next
    case (barred lp1 lp2 r d)
    have "lp_failed lp2 = 0 \<and> lp_underDeclared lp2 = []"
      using Cons.prems(2) not_reached_fields [of c "pe_journey p" "map fst steps" "hp_cancels i"] barred(4) by simp
    then show ?thesis using run_entry_done [OF barred(2)] barred(6,7) by (auto split: if_splits)
  qed
qed

lemma names_update: "keeps_name f \<Longrightarrow> map row_name (rd_rows (update_row k f db)) = map row_name (rd_rows db)"
  by (simp add: update_row_def keeps_name_def)

lemma names_mark: "map row_name (rd_rows (mark b p out d res db)) = map row_name (rd_rows db)"
  unfolding mark_marked by (rule names_update) (simp add: keeps_name_def row_name_def)

lemma names_not_reached: "map row_name (rd_rows (lp_db (not_reached c n ps cs lp))) = map row_name (rd_rows (lp_db lp))"
  by (induction c n ps cs lp rule: not_reached.induct) (simp_all add: Let_def names_mark)

lemma names_run_entry:
  "run_entry c p i lp = (lp', r, d, x) \<Longrightarrow> map row_name (rd_rows (lp_db lp')) = map row_name (rd_rows (lp_db lp))"
  by (auto simp: run_entry_def Let_def names_mark names_update keeps_name_def row_name_def split: sum.splits)

lemma names_run:
  "run_journeys c steps lp = (lp', None) \<Longrightarrow> map row_name (rd_rows (lp_db lp')) = map row_name (rd_rows (lp_db lp))"
proof (induction steps arbitrary: lp)
  case Nil
  then show ?case by simp
next
  case (Cons pi steps)
  obtain p i where pi: "pi = (p, i)" by (cases pi)
  show ?case
    using Cons.prems [unfolded pi]
  proof (cases rule: run_step_cases)
    case stopped
    then show ?thesis by simp
  next
    case (skipped lp1)
    then show ?thesis using Cons.IH [OF skipped(2)] by (simp add: unavailable_def names_mark)
  next
    case (ran lp1 lp2 r d)
    then show ?thesis using Cons.IH [OF ran(4)] names_run_entry [OF ran(2)] by simp
  next
    case (barred lp1 lp2 r d)
    then show ?thesis using names_run_entry [OF barred(2)] names_not_reached by simp
  qed
qed

lemma names_materialise: "jr_journey ` set (materialise plan rows) = jr_journey ` set rows \<union> pe_journey ` set plan"
proof -
  have "jr_journey ` set (insert_row p rs) = insert (pe_journey p) (jr_journey ` set rs)" for p rs
    by (auto simp: insert_row_def planned_row_def)
  then show ?thesis unfolding materialise_def by (induction plan arbitrary: rows) auto
qed

lemma rows_of_name: "rows_of j db \<noteq> [] \<longleftrightarrow> j \<in> fst ` set (map row_name (rd_rows db))"
  by (auto simp: rows_of_def filter_empty_conv row_name_def image_iff)

lemma entry_in: "(q, h) \<in> set xs \<Longrightarrow> q \<in> set (map fst xs)"
  by (metis fst_conv image_eqI set_map)

section \<open>A pass is earned\<close>

definition earned :: "(int \<Rightarrow> string) \<Rightarrow> int \<Rightarrow> plan_entry \<Rightarrow> happening \<Rightarrow> run_db \<Rightarrow> bool" where
  "earned pt ceiling p i db \<longleftrightarrow>
     (if no_harness p then \<forall>r \<in> set (rows_of (pe_journey p) db). jr_outcome r = UNAVAILABLE
      else hp_ok i \<and> fst (verifyCleanup pt p (hp_pre i) (hp_after i)) \<in> {CLEAN_VERIFIED, CLEAN_NOT_REQUIRED} \<and>
        (\<exists>v t. hp_exposure i = Inr (v, t) \<and> v \<noteq> UNDER_DECLARED) \<and>
        (0 < ceiling \<longrightarrow> (\<exists>s. hp_credit i = Inr s \<and> s \<le> ceiling)) \<and>
        (\<forall>r \<in> set (rows_of (pe_journey p) db). jr_outcome r = PASSED))"

lemma earned_rows:
  "rows_of (pe_journey p) db = rows_of (pe_journey p) db' \<Longrightarrow> earned pt ceiling p i db = earned pt ceiling p i db'"
  by (simp add: earned_def)

lemma run_journeys_earned:
  "run_journeys c steps lp = (lp', None) \<Longrightarrow> distinct (map (\<lambda>x. pe_journey (fst x)) steps) \<Longrightarrow>
     rd_status (lp_db lp') \<noteq> CANCELLED \<Longrightarrow>
     lp_failed lp' = 0 \<and> lp_underDeclared lp' = [] \<and> lp_budgetStopped lp' = None \<and> lp_cleanupStopped lp' = None \<Longrightarrow>
     \<forall>(p, i) \<in> set steps. earned (rc_pt c) (rc_ceiling c) p i (lp_db lp')"
proof (induction steps arbitrary: lp)
  case Nil
  then show ?case by simp
next
  case (Cons pi steps)
  obtain p i where pi: "pi = (p, i)" by (cases pi)
  have out: "pe_journey p \<notin> pe_journey ` fst ` set steps" using Cons.prems(2) pi by (auto simp: image_image)
  have dist: "distinct (map (\<lambda>x. pe_journey (fst x)) steps)" using Cons.prems(2) by simp
  show ?case
    using Cons.prems(1) [unfolded pi]
  proof (cases rule: run_step_cases)
    case stopped
    then show ?thesis using Cons.prems(3,4) by simp
  next
    case (skipped lp1)
    have "rows_of (pe_journey p) (lp_db lp') = rows_of (pe_journey p) (lp_db (unavailable c p lp1))"
      by (rule run_journeys_other [OF skipped(2) out])
    then have "earned (rc_pt c) (rc_ceiling c) p i (lp_db lp')" using skipped(1) by (simp add: earned_def unavailable_rows)
    then show ?thesis using Cons.IH [OF skipped(2) dist Cons.prems(3,4)] pi by simp
  next
    case (ran lp1 lp2 r d)
    note res = run_entry_done [OF ran(2)]
    have "lp_failed lp2 = 0 \<and> lp_underDeclared lp2 = []" using run_journeys_grows [OF ran(4)] Cons.prems(4) by blast
    then have ok: "entry_passes (hp_ok i) r" and u: "\<exists>v t. hp_exposure i = Inr (v, t) \<and> v \<noteq> UNDER_DECLARED"
      using res by (auto split: if_splits)
    have "rows_of (pe_journey p) (lp_db lp') = rows_of (pe_journey p) (lp_db lp2)"
      by (rule run_journeys_other [OF ran(4) out])
    then have "\<forall>q \<in> set (rows_of (pe_journey p) (lp_db lp')). jr_outcome q = PASSED" using res ok by auto
    then have "earned (rc_pt c) (rc_ceiling c) p i (lp_db lp')"
      using ran(1,10) ok u res by (auto simp: earned_def entry_passes_def prod_eq_iff)
    then show ?thesis using Cons.IH [OF ran(4) dist Cons.prems(3,4)] pi by simp
  next
    case (barred lp1 lp2 r d)
    then show ?thesis using Cons.prems(4) not_reached_fields by simp
  qed
qed

lemma run_claimed_completed:
  assumes "run_claimed pt barrier profile steps rows buckets funds first e = (lp, Completed v)"
  obtains bs f lp1 where "checkApplicationBudget profile (map fst steps) buckets = None"
    "checkFundsBudget (map fst steps) barrier funds = None" "buckets = Inr bs" "funds = Inr f"
    "run_journeys \<lparr> rc_pt = pt, rc_barrier = barrier, rc_ceiling = pr_ceiling profile, rc_baseline = fr_used f \<rparr> steps
       ((start_loop \<lparr> rd_status = RUNNING, rd_verdict = None, rd_rows = materialise (map fst steps) rows \<rparr>)
          \<lparr>lp_samples := take_sample (fr_used f) BASELINE None first []\<rparr>) = (lp1, None)"
    "finish_run \<lparr> rc_pt = pt, rc_barrier = barrier, rc_ceiling = pr_ceiling profile, rc_baseline = fr_used f \<rparr> profile bs e lp1 =
       (lp, Completed v)"
  using assms unfolding run_claimed_def Let_def
  by (auto simp: abandon_def Let_def split: option.splits sum.splits prod.splits)

lemma finish_completed:
  assumes "finish_run c profile bs e lp1 = (lp, Completed v)"
  shows "rd_status (cancel_when (en_cancel e) (lp_db lp1)) \<noteq> CANCELLED \<and> rd_rows (lp_db lp) = rd_rows (lp_db lp1) \<and>
    v = run_verdict lp1 (over_submits profile (actualSubmits bs (en_submits e)) (lp_budgetStopped lp1)) \<and>
    rd_status (lp_db lp) = COMPLETED \<and> rd_verdict (lp_db lp) = Some v \<and>
    lp_passed lp = lp_passed lp1 \<and> lp_skipped lp = lp_skipped lp1 \<and> lp_notReached lp = lp_notReached lp1 \<and> lp_failed lp = lp_failed lp1"
  using assms unfolding finish_run_def
  by (auto simp: Let_def abandon_def cancel_when_def split: if_splits sum.splits)

text \<open>C8. A run that completes with a pass has earned it: its plan was within the declared submits, and so was what the
  limiter says was spent; every entry with a harness ran and passed, returned the funds it took, or had none to return,
  was not seen to hold more than it declared, and began within the ceiling of credit; and an entry is not recorded as
  passed unless it ran. Every entry has its row.\<close>

theorem pass_is_earned:
  assumes "run_claimed pt barrier profile steps rows buckets funds first e = (lp, Completed PASS)"
    and "distinct (map (\<lambda>x. pe_journey (fst x)) steps)"
  shows "(\<forall>(p, i) \<in> set steps. rows_of (pe_journey p) (lp_db lp) \<noteq> [] \<and> earned pt (pr_ceiling profile) p i (lp_db lp)) \<and>
    planned_submits (map fst steps) RunnerBucket + planned_submits (map fst steps) VmBucket \<le> pr_max_applications profile \<and>
    (\<forall>bs n. buckets = Inr bs \<and> actualSubmits bs (en_submits e) = Some n \<longrightarrow> n \<le> pr_max_applications profile)"
proof -
  obtain bs f lp1 where b: "checkApplicationBudget profile (map fst steps) buckets = None"
    and "checkFundsBudget (map fst steps) barrier funds = None" and bs: "buckets = Inr bs" and "funds = Inr f" and run: "run_journeys \<lparr> rc_pt = pt, rc_barrier = barrier, rc_ceiling = pr_ceiling profile, rc_baseline = fr_used f \<rparr> steps
       ((start_loop \<lparr> rd_status = RUNNING, rd_verdict = None, rd_rows = materialise (map fst steps) rows \<rparr>)
          \<lparr>lp_samples := take_sample (fr_used f) BASELINE None first []\<rparr>) = (lp1, None)"
    and fin: "finish_run \<lparr> rc_pt = pt, rc_barrier = barrier, rc_ceiling = pr_ceiling profile, rc_baseline = fr_used f \<rparr> profile bs e lp1 =
       (lp, Completed PASS)"
    by (rule run_claimed_completed [OF assms(1)])
  note res = finish_completed [OF fin]
  have v: "lp_failed lp1 = 0 \<and> lp_underDeclared lp1 = [] \<and> lp_cleanupStopped lp1 = None \<and>
      over_submits profile (actualSubmits bs (en_submits e)) (lp_budgetStopped lp1) = None"
    using res by (auto simp: run_verdict_def split: if_splits)
  then have nb: "lp_budgetStopped lp1 = None" and sub: "\<forall>n. actualSubmits bs (en_submits e) = Some n \<longrightarrow> n \<le> pr_max_applications profile"
    by (auto simp: over_submits_def split: option.splits if_splits)
  have nc: "rd_status (lp_db lp1) \<noteq> CANCELLED" using res by (auto simp: cancel_when_def split: if_splits)
  have "\<forall>(p, i) \<in> set steps. earned pt (pr_ceiling profile) p i (lp_db lp1)"
    using run_journeys_earned [OF run assms(2) nc] v nb by simp
  then have won: "earned pt (pr_ceiling profile) p i (lp_db lp1)" if "(p, i) \<in> set steps" for p i using that by blast
  have same: "rows_of j (lp_db lp) = rows_of j (lp_db lp1)" for j using res by (simp add: rows_of_def)
  have there: "rows_of (pe_journey p) (lp_db lp1) \<noteq> []" if "(p, i) \<in> set steps" for p i
  proof -
    have "pe_journey p \<in> jr_journey ` set (materialise (map fst steps) rows)"
      unfolding names_materialise using entry_in [OF that] by blast
    then show ?thesis unfolding rows_of_name names_run [OF run] by (auto simp: start_loop_def row_name_def image_iff)
  qed
  have "\<forall>(p, i) \<in> set steps. rows_of (pe_journey p) (lp_db lp) \<noteq> [] \<and> earned pt (pr_ceiling profile) p i (lp_db lp)"
  proof clarify
    fix p i assume m: "(p, i) \<in> set steps"
    show "rows_of (pe_journey p) (lp_db lp) \<noteq> [] \<and> earned pt (pr_ceiling profile) p i (lp_db lp)"
      using won [OF m] there [OF m] earned_rows [OF same] unfolding same by blast
  qed
  moreover have "planned_submits (map fst steps) RunnerBucket + planned_submits (map fst steps) VmBucket \<le> pr_max_applications profile"
    using b by (auto simp: checkApplicationBudget_def Let_def split: if_splits)
  ultimately show ?thesis using sub bs by blast
qed
section \<open>The barrier\<close>

definition untouched :: "string \<Rightarrow> run_db \<Rightarrow> bool" where
  "untouched j db \<longleftrightarrow> (\<forall>r \<in> set (rows_of j db). jr_outcome r = PLANNED \<and> jr_cleanup r = None)"

definition not_clean :: "string \<Rightarrow> run_db \<Rightarrow> bool" where
  "not_clean j db \<longleftrightarrow> (\<exists>r \<in> set (rows_of j db). \<exists>c t. jr_cleanup r = Some (c, t) \<and> c \<in> {CLEAN_FAILED, CLEAN_UNDECLARED})"

lemma not_clean_stops: "not_clean j db \<longleftrightarrow> list_ex (\<lambda>r. case jr_cleanup r of Some (c, t) \<Rightarrow> stops_run c | None \<Rightarrow> False) (rows_of j db)"
  unfolding not_clean_def list_ex_iff stops_run_def by (rule bex_cong [OF refl]) (simp split: option.split)

definition never_ran :: "string \<Rightarrow> run_db \<Rightarrow> bool" where
  "never_ran j db \<longleftrightarrow> (\<forall>r \<in> set (rows_of j db). jr_outcome r \<in> {PLANNED, NOT_REACHED})"

lemma row_states_cong:
  assumes "rows_of j db = rows_of j db'"
  shows "untouched j db = untouched j db'" "not_clean j db = not_clean j db'" "never_ran j db = never_ran j db'"
  unfolding untouched_def not_clean_def never_ran_def assms by (rule refl)+

lemma untouched_clean: "untouched j db \<Longrightarrow> \<not> not_clean j db"
  by (auto simp: untouched_def not_clean_def)

lemma name_in: "(q, h) \<in> set xs \<Longrightarrow> pe_journey q \<in> pe_journey ` fst ` set xs"
  by (metis fst_conv imageI)

lemma barrier_holds:
  "run_journeys c (pre @ (p, i) # post) lp = (lp', None) \<Longrightarrow>
     distinct (map (\<lambda>x. pe_journey (fst x)) (pre @ (p, i) # post)) \<Longrightarrow>
     (\<And>q h. (q, h) \<in> set (pre @ (p, i) # post) \<Longrightarrow> untouched (pe_journey q) (lp_db lp)) \<Longrightarrow>
     not_clean (pe_journey p) (lp_db lp') \<Longrightarrow>
     lp_cleanupStopped lp' \<noteq> None \<and> (\<forall>(q, h) \<in> set post. never_ran (pe_journey q) (lp_db lp'))"
proof (induction pre arbitrary: lp)
  case Nil
  have out: "pe_journey p \<notin> pe_journey ` fst ` set post" using Nil.prems(2) by (auto simp: image_image)
  have fresh: "untouched (pe_journey p) (lp_db lp)" using Nil.prems(3) by auto
  show ?case
    using Nil.prems(1) [unfolded append_Nil]
  proof (cases rule: run_step_cases)
    case stopped
    then have "rows_of (pe_journey p) (lp_db lp') = rows_of (pe_journey p) (lp_db lp)" by (simp add: rows_of_def)
    then show ?thesis using untouched_clean [OF fresh] row_states_cong(2) Nil.prems(4) by blast
  next
    case (skipped lp1)
    have "rows_of (pe_journey p) (lp_db lp') = rows_of (pe_journey p) (lp_db (unavailable c p lp1))"
      by (rule run_journeys_other [OF skipped(2) out])
    then have "\<not> not_clean (pe_journey p) (lp_db lp')"
      using fresh skipped(3) by (auto simp: not_clean_def untouched_def unavailable_rows marked_cleanup)
    then show ?thesis using Nil.prems(4) by blast
  next
    case (ran lp1 lp2 r d)
    have "rows_of (pe_journey p) (lp_db lp') = rows_of (pe_journey p) (lp_db lp2)"
      by (rule run_journeys_other [OF ran(4) out])
    then have "\<not> not_clean (pe_journey p) (lp_db lp')"
      using fresh ran(3) [unfolded stops_run_def] ran(5) run_entry_done [OF ran(2)]
      by (auto simp: not_clean_def untouched_def marked_cleanup split: if_splits)
    then show ?thesis using Nil.prems(4) by blast
  next
    case (barred lp1 lp2 r d)
    have "never_ran (pe_journey q) (lp_db lp')" if q: "(q, h) \<in> set post" for q h
    proof -
      have ne: "pe_journey q \<noteq> pe_journey p" using name_in [OF q] out by metis
      have "untouched (pe_journey q) (lp_db lp)" using Nil.prems(3) q by auto
      then have u: "\<forall>r \<in> set (rows_of (pe_journey q) (lp_db lp2)). jr_outcome r = PLANNED"
        using run_entry_other [OF barred(2) ne] barred(5) by (simp add: untouched_def)
      have "distinct (map pe_journey (map fst post))" using Nil.prems(2) by (simp add: comp_def)
      moreover have "q \<in> set (map fst post)" using q by (rule entry_in)
      ultimately show ?thesis unfolding never_ran_def barred(4) by (rule not_reached_outcomes) (use u in simp)
    qed
    moreover have "lp_cleanupStopped lp' \<noteq> None" unfolding barred(4) using not_reached_fields by simp
    ultimately show ?thesis by blast
  qed
next
  case (Cons pi pre)
  obtain q h where pi: "pi = (q, h)" by (cases pi)
  let ?rest = "pre @ (p, i) # post"
  have dist: "distinct (map (\<lambda>x. pe_journey (fst x)) ?rest)" using Cons.prems(2) by simp
  have other: "pe_journey k \<noteq> pe_journey q" if "(k, g) \<in> set ?rest" for k g
  proof -
    have "pe_journey q \<notin> pe_journey ` fst ` set ?rest" using Cons.prems(2) pi by (simp add: image_image image_Un)
    then show ?thesis using name_in [OF that] by metis
  qed
  have keep: "untouched (pe_journey k) (lp_db l)"
    if "(k, g) \<in> set ?rest" "rows_of (pe_journey k) (lp_db l) = rows_of (pe_journey k) (lp_db lp)" for k g l
  proof -
    have "(k, g) \<in> set ((pi # pre) @ (p, i) # post)" using that(1) by simp
    then show ?thesis using Cons.prems(3) unfolding row_states_cong(1) [OF that(2)] by blast
  qed
  show ?case
    using Cons.prems(1) [unfolded pi append_Cons]
  proof (cases rule: run_step_cases)
    case stopped
    then have "rows_of (pe_journey p) (lp_db lp') = rows_of (pe_journey p) (lp_db lp)" by (simp add: rows_of_def)
    then show ?thesis using untouched_clean [OF keep [of p i lp']] Cons.prems(4) by auto
  next
    case (skipped lp1)
    show ?thesis
    proof (rule Cons.IH [OF skipped(2) dist _ Cons.prems(4)])
      fix k g assume k: "(k, g) \<in> set ?rest"
      show "untouched (pe_journey k) (lp_db (unavailable c q lp1))"
        by (rule keep [OF k]) (use other [OF k] skipped(3) in \<open>simp add: unavailable_rows\<close>)
    qed
  next
    case (ran lp1 lp2 r d)
    show ?thesis
    proof (rule Cons.IH [OF ran(4) dist _ Cons.prems(4)])
      fix k g assume k: "(k, g) \<in> set ?rest"
      show "untouched (pe_journey k) (lp_db lp2)"
        by (rule keep [OF k]) (use run_entry_other [OF ran(2) other [OF k]] ran(5) in simp)
    qed
  next
    case (barred lp1 lp2 r d)
    have l: "lp_cleanupStopped lp' \<noteq> None" unfolding barred(4) using not_reached_fields by simp
    have "never_ran (pe_journey k) (lp_db lp')" if k: "(k, g) \<in> set ?rest" for k g
    proof -
      have u: "\<forall>r \<in> set (rows_of (pe_journey k) (lp_db lp2)). jr_outcome r = PLANNED"
        using keep [OF k, of lp] run_entry_other [OF barred(2) other [OF k]] barred(5) unfolding untouched_def by simp
      have "distinct (map pe_journey (map fst ?rest))" using dist by (simp add: comp_def)
      moreover have "k \<in> set (map fst ?rest)" using k by (rule entry_in)
      ultimately show ?thesis unfolding never_ran_def barred(4) by (rule not_reached_outcomes) (use u in simp)
    qed
    then show ?thesis using l by auto
  qed
qed

lemma materialised_untouched:
  assumes "\<forall>r \<in> set rows. jr_outcome r = PLANNED \<and> jr_cleanup r = None"
  shows "untouched j \<lparr> rd_status = st, rd_verdict = v, rd_rows = materialise plan rows \<rparr>"
proof -
  let ?fresh = "\<lambda>rs. \<forall>r \<in> set rs. jr_outcome r = PLANNED \<and> jr_cleanup r = None"
  have step: "?fresh rs \<Longrightarrow> ?fresh (insert_row p rs)" for p rs
    by (simp add: insert_row_def planned_row_def)
  have "?fresh rs \<Longrightarrow> ?fresh (foldl (\<lambda>rs p. insert_row p rs) rs plan)" for rs
  proof (induction plan arbitrary: rs)
    case Nil
    then show ?case by simp
  next
    case (Cons p plan)
    show ?case using Cons.IH [OF step [OF Cons.prems]] by simp
  qed
  from this [OF assms] have "?fresh (materialise plan rows)" unfolding materialise_def .
  then show ?thesis by (simp add: untouched_def rows_of_def)
qed

text \<open>C9. The cleanup barrier: in a run that completes, when the record of a journey says that it left funds behind, or
  that this could not be measured, the run did not pass, and no journey after it in the plan was run.\<close>

theorem barrier_stops_run:
  assumes "run_claimed pt barrier profile (pre @ (p, i) # post) rows buckets funds first e = (lp, Completed v)"
    and "distinct (map (\<lambda>x. pe_journey (fst x)) (pre @ (p, i) # post))"
    and "\<forall>r \<in> set rows. jr_outcome r = PLANNED \<and> jr_cleanup r = None"
    and "not_clean (pe_journey p) (lp_db lp)"
  shows "v = FAIL \<and> (\<forall>(q, h) \<in> set post. never_ran (pe_journey q) (lp_db lp))"
proof -
  obtain bs f lp1 where "checkApplicationBudget profile (map fst (pre @ (p, i) # post)) buckets = None"
    and "checkFundsBudget (map fst (pre @ (p, i) # post)) barrier funds = None" and "buckets = Inr bs" and "funds = Inr f"
    and run: "run_journeys \<lparr> rc_pt = pt, rc_barrier = barrier, rc_ceiling = pr_ceiling profile, rc_baseline = fr_used f \<rparr>
       (pre @ (p, i) # post)
       ((start_loop \<lparr> rd_status = RUNNING, rd_verdict = None, rd_rows = materialise (map fst (pre @ (p, i) # post)) rows \<rparr>)
          \<lparr>lp_samples := take_sample (fr_used f) BASELINE None first []\<rparr>) = (lp1, None)"
    and fin: "finish_run \<lparr> rc_pt = pt, rc_barrier = barrier, rc_ceiling = pr_ceiling profile, rc_baseline = fr_used f \<rparr> profile bs e lp1 =
       (lp, Completed v)"
    by (rule run_claimed_completed [OF assms(1)])
  note res = finish_completed [OF fin]
  have same: "rows_of j (lp_db lp) = rows_of j (lp_db lp1)" for j using res by (simp add: rows_of_def)
  have "lp_cleanupStopped lp1 \<noteq> None \<and> (\<forall>(q, h) \<in> set post. never_ran (pe_journey q) (lp_db lp1))"
  proof (rule barrier_holds [OF run assms(2)])
    show "not_clean (pe_journey p) (lp_db lp1)" using assms(4) row_states_cong(2) [OF same] by blast
  qed (use materialised_untouched [OF assms(3)] in \<open>simp add: start_loop_def\<close>)
  moreover have "v = run_verdict lp1 (over_submits profile (actualSubmits bs (en_submits e)) (lp_budgetStopped lp1))" using res by blast
  ultimately show ?thesis using row_states_cong(3) [OF same] by (auto simp: run_verdict_def)
qed
section \<open>What the verdict does not see\<close>

text \<open>The credit read after the last journey is recorded and not compared: however far it is above the ceiling, a run
  that passed passes. And the last write has no guard: an owner who cancels after the state was read for the last time
  finds the run completed, with its verdict.\<close>

theorem last_reading_never_counts:
  assumes "run_claimed pt barrier profile steps rows buckets funds first e = (lp, Completed PASS)" "0 < pr_ceiling profile"
  shows "\<exists>lp'. run_claimed pt barrier profile steps rows buckets funds first (e\<lparr>en_credit := Inr s, en_lateCancel := late\<rparr>) =
      (lp', Completed PASS) \<and> lp_spent lp' = s \<and> rd_status (lp_db lp') = COMPLETED"
proof -
  obtain bs f lp1 where b: "checkApplicationBudget profile (map fst steps) buckets = None"
    and fb: "checkFundsBudget (map fst steps) barrier funds = None" and bs: "buckets = Inr bs" and f: "funds = Inr f"
    and run: "run_journeys \<lparr> rc_pt = pt, rc_barrier = barrier, rc_ceiling = pr_ceiling profile, rc_baseline = fr_used f \<rparr> steps
       ((start_loop \<lparr> rd_status = RUNNING, rd_verdict = None, rd_rows = materialise (map fst steps) rows \<rparr>)
          \<lparr>lp_samples := take_sample (fr_used f) BASELINE None first []\<rparr>) = (lp1, None)"
    and fin: "finish_run \<lparr> rc_pt = pt, rc_barrier = barrier, rc_ceiling = pr_ceiling profile, rc_baseline = fr_used f \<rparr> profile bs e lp1 =
       (lp, Completed PASS)"
    by (rule run_claimed_completed [OF assms(1)])
  note res = finish_completed [OF fin]
  have "run_claimed pt barrier profile steps rows buckets funds first (e\<lparr>en_credit := Inr s, en_lateCancel := late\<rparr>) =
    finish_run \<lparr> rc_pt = pt, rc_barrier = barrier, rc_ceiling = pr_ceiling profile, rc_baseline = fr_used f \<rparr> profile bs
      (e\<lparr>en_credit := Inr s, en_lateCancel := late\<rparr>) lp1"
    using b fb bs f run by (simp add: run_claimed_def Let_def)
  moreover have "rd_status (cancel_when (en_cancel e) (lp_db lp1)) \<noteq> CANCELLED"
    "run_verdict lp1 (over_submits profile (actualSubmits bs (en_submits e)) (lp_budgetStopped lp1)) = PASS"
    using res by auto
  ultimately show ?thesis using assms(2) by (simp add: finish_run_def Let_def)
qed

lemma run_journeys_nothing:
  "list_all (\<lambda>(p, i). no_harness p \<and> \<not> hp_cancel i \<and> (\<exists>s. hp_credit i = Inr s \<and> s \<le> rc_ceiling c)) steps \<Longrightarrow>
     rd_status (lp_db lp) = RUNNING \<Longrightarrow>
     \<exists>lp'. run_journeys c steps lp = (lp', None) \<and> rd_status (lp_db lp') = RUNNING \<and> lp_passed lp' = lp_passed lp \<and>
       lp_failed lp' = lp_failed lp \<and> lp_failedBlocking lp' = lp_failedBlocking lp \<and>
       lp_budgetStopped lp' = lp_budgetStopped lp \<and> lp_cleanupStopped lp' = lp_cleanupStopped lp \<and>
       lp_underDeclared lp' = lp_underDeclared lp"
proof (induction steps arbitrary: lp)
  case Nil
  then show ?case by simp
next
  case (Cons pi steps)
  obtain p i where pi: "pi = (p, i)" by (cases pi)
  obtain s where s: "hp_credit i = Inr s" "s \<le> rc_ceiling c" using Cons.prems(1) pi by auto
  let ?spent = "if 0 < rc_ceiling c then s else lp_spent lp"
  have step: "run_journeys c (pi # steps) lp = run_journeys c steps (unavailable c p (lp\<lparr>lp_spent := ?spent\<rparr>))"
    using Cons.prems pi s by (auto simp: cancel_when_def Let_def)
  show ?case
    unfolding step using Cons.IH [of "unavailable c p (lp\<lparr>lp_spent := ?spent\<rparr>)"] Cons.prems
    by (simp add: unavailable_def)
qed

text \<open>A run in which nothing could be executed passes: every entry of the plan is unavailable, none passed, and the
  verdict is a pass all the same.\<close>

theorem nothing_executed_passes:
  assumes "list_all (\<lambda>(p, i). no_harness p \<and> \<not> hp_cancel i \<and> (\<exists>s. hp_credit i = Inr s \<and> s \<le> pr_ceiling profile)) steps"
    and "checkApplicationBudget profile (map fst steps) (Inr bs) = None" "checkFundsBudget (map fst steps) barrier (Inr f) = None"
    and "\<not> en_cancel e" "en_credit e = Inr s" "en_submits e = None"
  shows "\<exists>lp. run_claimed pt barrier profile steps [] (Inr bs) (Inr f) first e = (lp, Completed PASS) \<and> lp_passed lp = 0"
proof -
  let ?c = "\<lparr> rc_pt = pt, rc_barrier = barrier, rc_ceiling = pr_ceiling profile, rc_baseline = fr_used f \<rparr>"
  let ?lp = "(start_loop \<lparr> rd_status = RUNNING, rd_verdict = None, rd_rows = materialise (map fst steps) [] \<rparr>)
    \<lparr>lp_samples := take_sample (fr_used f) BASELINE None first []\<rparr>"
  obtain lp1 where "run_journeys ?c steps ?lp = (lp1, None)" "rd_status (lp_db lp1) = RUNNING" "lp_passed lp1 = 0"
    "lp_failed lp1 = 0" "lp_failedBlocking lp1 = 0" "lp_budgetStopped lp1 = None" "lp_cleanupStopped lp1 = None"
    "lp_underDeclared lp1 = []"
    using run_journeys_nothing [of ?c steps ?lp] assms(1) by (auto simp: start_loop_def)
  then show ?thesis
    using assms by (auto simp: run_claimed_def finish_run_def Let_def cancel_when_def actualSubmits_def over_submits_def run_verdict_def)
qed

section \<open>The divergence reported of a run\<close>

lemma run_journeys_skipped:
  "run_journeys c steps lp = (lp', None) \<Longrightarrow> rd_status (lp_db lp') \<noteq> CANCELLED \<Longrightarrow>
     lp_budgetStopped lp' = None \<and> lp_cleanupStopped lp' = None \<Longrightarrow>
     lp_skipped lp' = lp_skipped lp + length (filter (\<lambda>x. no_harness (fst x)) steps)"
proof (induction steps arbitrary: lp)
  case Nil
  then show ?case by simp
next
  case (Cons pi steps)
  obtain p i where pi: "pi = (p, i)" by (cases pi)
  show ?case
    using Cons.prems(1) [unfolded pi]
  proof (cases rule: run_step_cases)
    case stopped
    then show ?thesis using Cons.prems(2,3) by simp
  next
    case (skipped lp1)
    then show ?thesis using Cons.IH [OF skipped(2) Cons.prems(2,3)] pi by (simp add: unavailable_def)
  next
    case (ran lp1 lp2 r d)
    then show ?thesis using Cons.IH [OF ran(4) Cons.prems(2,3)] run_entry_done [OF ran(2)] pi by simp
  next
    case (barred lp1 lp2 r d)
    then show ?thesis using Cons.prems(3) not_reached_fields by simp
  qed
qed

lemma materialise_fresh:
  "distinct (map pe_journey plan) \<Longrightarrow> pe_journey ` set plan \<inter> jr_journey ` set rows = {} \<Longrightarrow>
     materialise plan rows = rows @ map planned_row plan"
proof (induction plan arbitrary: rows)
  case Nil
  then show ?case by (simp add: materialise_def)
next
  case (Cons p plan)
  have i: "insert_row p rows = rows @ [planned_row p]" using Cons.prems(2) by (auto simp: insert_row_def)
  have "materialise (p # plan) rows = materialise plan (rows @ [planned_row p])"
    by (simp add: materialise_def i)
  also have "\<dots> = (rows @ [planned_row p]) @ map planned_row plan"
    by (rule Cons.IH) (use Cons.prems in \<open>auto simp: planned_row_def\<close>)
  finally show ?case by simp
qed

lemma count_unavailable:
  assumes "map row_name rows = map (\<lambda>p. (pe_journey p, pe_kind p)) plan"
    and "\<And>r p. \<lbrakk>r \<in> set rows; p \<in> set plan; jr_journey r = pe_journey p; jr_outcome r = UNAVAILABLE\<rbrakk> \<Longrightarrow> no_harness p"
  shows "rows_with JOURNEY UNAVAILABLE rows \<le> length (filter (\<lambda>p. no_harness p \<and> pe_kind p = JOURNEY) plan)"
  using assms
proof (induction rows arbitrary: plan)
  case Nil
  then show ?case by (simp add: rows_with_def)
next
  case (Cons r rows)
  then obtain p ps where plan: "plan = p # ps" by (cases plan) auto
  have "rows_with JOURNEY UNAVAILABLE rows \<le> length (filter (\<lambda>p. no_harness p \<and> pe_kind p = JOURNEY) ps)"
    by (rule Cons.IH) (use Cons.prems plan in auto)
  moreover have "jr_journey r = pe_journey p" "jr_kind r = pe_kind p" using Cons.prems(1) plan by (auto simp: row_name_def)
  moreover have "jr_outcome r = UNAVAILABLE \<Longrightarrow> no_harness p" using Cons.prems(2) [of r p] calculation(2) plan by simp
  ultimately show ?case unfolding plan by (auto simp: rows_with_def)
qed

text \<open>The summary of a run that passed reports a divergence whenever the plan holds a control entry: the loop counts it
  among the unavailable, the record does not.\<close>

theorem control_entry_drifts:
  assumes "run_claimed pt barrier profile steps [] buckets funds first e = (lp, Completed PASS)"
    and "distinct (map (\<lambda>x. pe_journey (fst x)) steps)" "(p, i) \<in> set steps" "pe_kind p = CONTROL" "no_harness p"
  shows "summarise_drift lp \<noteq> []"
proof -
  obtain bs f lp1 where "checkApplicationBudget profile (map fst steps) buckets = None"
    and "checkFundsBudget (map fst steps) barrier funds = None" and "buckets = Inr bs" and "funds = Inr f"
    and run: "run_journeys \<lparr> rc_pt = pt, rc_barrier = barrier, rc_ceiling = pr_ceiling profile, rc_baseline = fr_used f \<rparr> steps
       ((start_loop \<lparr> rd_status = RUNNING, rd_verdict = None, rd_rows = materialise (map fst steps) [] \<rparr>)
          \<lparr>lp_samples := take_sample (fr_used f) BASELINE None first []\<rparr>) = (lp1, None)"
    and fin: "finish_run \<lparr> rc_pt = pt, rc_barrier = barrier, rc_ceiling = pr_ceiling profile, rc_baseline = fr_used f \<rparr> profile bs e lp1 =
       (lp, Completed PASS)"
    by (rule run_claimed_completed [OF assms(1)])
  note res = finish_completed [OF fin]
  have nc: "rd_status (lp_db lp1) \<noteq> CANCELLED" using res by (auto simp: cancel_when_def split: if_splits)
  have ok: "lp_failed lp1 = 0 \<and> lp_underDeclared lp1 = [] \<and> lp_budgetStopped lp1 = None \<and> lp_cleanupStopped lp1 = None"
    using res by (auto simp: run_verdict_def over_submits_def split: if_splits option.splits)
  have skipped: "lp_skipped lp1 = length (filter (\<lambda>x. no_harness (fst x)) steps)"
    using run_journeys_skipped [OF run nc] ok by (simp add: start_loop_def)
  have dist: "distinct (map pe_journey (map fst steps))" using assms(2) by (simp add: comp_def)
  have names: "map row_name (rd_rows (lp_db lp1)) = map (\<lambda>p. (pe_journey p, pe_kind p)) (map fst steps)"
    using names_run [OF run] materialise_fresh [OF dist, of "[]"]
    by (simp add: start_loop_def row_name_def planned_row_def comp_def)
  note won = run_journeys_earned [OF run assms(2) nc ok]
  have "rows_with JOURNEY UNAVAILABLE (rd_rows (lp_db lp1)) \<le>
      length (filter (\<lambda>p. no_harness p \<and> pe_kind p = JOURNEY) (map fst steps))"
  proof (rule count_unavailable [OF names])
    fix r q assume r: "r \<in> set (rd_rows (lp_db lp1))" "q \<in> set (map fst steps)" "jr_journey r = pe_journey q"
      "jr_outcome r = UNAVAILABLE"
    then obtain h where "(q, h) \<in> set steps" by auto
    then have "earned pt (pr_ceiling profile) q h (lp_db lp1)" using won by auto
    moreover have "r \<in> set (rows_of (pe_journey q) (lp_db lp1))" using r by (simp add: rows_of_def)
    ultimately show "no_harness q" using r(4) by (auto simp: earned_def split: if_splits)
  qed
  also have "\<dots> < length (filter (\<lambda>p. no_harness p) (map fst steps))"
  proof -
    have "length (filter (\<lambda>p. no_harness p \<and> pe_kind p = JOURNEY) ps) \<le> length (filter no_harness ps)" for ps
      by (induction ps) auto
    moreover have "p \<in> set ps \<Longrightarrow> length (filter (\<lambda>p. no_harness p \<and> pe_kind p = JOURNEY) ps) < length (filter no_harness ps)" for ps
    proof (induction ps)
      case Nil
      then show ?case by simp
    next
      case (Cons q ps)
      show ?case
      proof (cases "p = q")
        case True
        then show ?thesis using assms(4,5) calculation [of ps] by (simp add: le_imp_less_Suc)
      next
        case False
        then show ?thesis using Cons by auto
      qed
    qed
    ultimately show ?thesis using entry_in [OF assms(3)] by blast
  qed
  also have "length (filter (\<lambda>p. no_harness p) (map fst steps)) = length (filter (\<lambda>x. no_harness (fst x)) steps)"
    by (simp add: filter_map comp_def)
  finally have "rows_with JOURNEY UNAVAILABLE (rd_rows (lp_db lp)) < lp_skipped lp" using res skipped by simp
  then show ?thesis by (simp add: summarise_drift_def Let_def drift_of_def)
qed
section \<open>A run at work\<close>

definition demo_happening :: "bool \<Rightarrow> int \<Rightarrow> happening" where
  "demo_happening ok after =
     \<lparr> hp_cancel = False, hp_credit = Inr 5, hp_pre = Some 100, hp_ok = ok, hp_reason = ''exit 1'', hp_notes = [False],
       hp_post = Some 110, hp_after = Inr after, hp_cleaned = Some after, hp_exposure = Inr (EXP_VERIFIED, []), hp_cancels = [] \<rparr>"

definition demo_profile :: profile_spec where
  "demo_profile = \<lparr> pr_id = ''GOLDEN'', pr_suites = [''S''], pr_escalate = [], pr_max_applications = 1, pr_ceiling = 50 \<rparr>"

definition demo_ending :: ending where
  "demo_ending = \<lparr> en_cancel = False, en_credit = Inr 7, en_terminal = Some 100, en_submits = None, en_lateCancel = False \<rparr>"

definition demo_control :: plan_entry where
  "demo_control = control_entry [] (\<lambda>_. False) ''Z''"

definition demo_run :: "(plan_entry \<times> happening) list \<Rightarrow> loop_state \<times> run_end" where
  "demo_run steps = run_claimed int_str True demo_profile steps [] (Inr []) (Inr (aggregateFunds 1000 100)) (Some 100) demo_ending"

definition demo_steps :: "(plan_entry \<times> happening) list" where
  "demo_steps = [(demo_entry ''A'' ''a'', demo_happening True 100), (demo_control, demo_happening True 100)]"

definition demo_leak :: "(plan_entry \<times> happening) list" where
  "demo_leak = [(demo_entry ''A'' ''a'', demo_happening True 100), (demo_entry ''B'' ''b'', demo_happening True 130),
     (demo_entry ''C'' ''c'', demo_happening True 100)]"

lemma demo_passes: "\<exists>lp. demo_run demo_steps = (lp, Completed PASS)"
proof -
  have "snd (demo_run demo_steps) = Completed PASS" by code_simp
  then show ?thesis by (cases "demo_run demo_steps") auto
qed

lemma demo_distinct: "distinct (map (\<lambda>x. pe_journey (fst x)) demo_steps)" by code_simp

lemma pass_is_earned_witness:
  "\<exists>lp. demo_run demo_steps = (lp, Completed PASS) \<and>
     (\<forall>(p, i) \<in> set demo_steps. rows_of (pe_journey p) (lp_db lp) \<noteq> [] \<and> earned int_str 50 p i (lp_db lp))"
proof -
  obtain lp where lp: "demo_run demo_steps = (lp, Completed PASS)" using demo_passes by blast
  have "pr_ceiling demo_profile = 50" by (simp add: demo_profile_def)
  then show ?thesis using lp pass_is_earned [OF lp [unfolded demo_run_def] demo_distinct] by auto
qed

lemma barrier_stops_run_witness:
  "\<exists>lp. demo_run demo_leak = (lp, Completed FAIL) \<and> never_ran ''C'' (lp_db lp) \<and> not_clean ''B'' (lp_db lp)"
proof -
  have e: "snd (demo_run demo_leak) = Completed FAIL" by code_simp
  have n: "list_ex (\<lambda>r. case jr_cleanup r of Some (c, t) \<Rightarrow> stops_run c | None \<Rightarrow> False) (rows_of ''B'' (lp_db (fst (demo_run demo_leak))))"
    by code_simp
  obtain lp where lp: "demo_run demo_leak = (lp, Completed FAIL)" using e by (cases "demo_run demo_leak") auto
  have nc: "not_clean ''B'' (lp_db lp)"
    using n lp by (simp add: not_clean_stops)
  have split: "demo_leak = [(demo_entry ''A'' ''a'', demo_happening True 100)] @ (demo_entry ''B'' ''b'', demo_happening True 130) #
     [(demo_entry ''C'' ''c'', demo_happening True 100)]" by (simp add: demo_leak_def)
  have d: "distinct (map (\<lambda>x. pe_journey (fst x)) demo_leak)" by code_simp
  have j: "pe_journey (demo_entry ''B'' ''b'') = ''B''" "pe_journey (demo_entry ''C'' ''c'') = ''C''" by (simp_all add: demo_entry_def)
  show ?thesis
    using barrier_stops_run [OF lp [unfolded demo_run_def split] d [unfolded split]] lp nc j by simp
qed

lemma last_reading_never_counts_witness:
  "\<exists>lp'. run_claimed int_str True demo_profile demo_steps [] (Inr []) (Inr (aggregateFunds 1000 100)) (Some 100)
      (demo_ending\<lparr>en_credit := Inr 5000, en_lateCancel := True\<rparr>) = (lp', Completed PASS) \<and> lp_spent lp' = 5000 \<and>
     rd_status (lp_db lp') = COMPLETED"
proof -
  obtain lp where lp: "demo_run demo_steps = (lp, Completed PASS)" using demo_passes by blast
  have "0 < pr_ceiling demo_profile" by (simp add: demo_profile_def)
  from last_reading_never_counts [OF lp [unfolded demo_run_def] this] show ?thesis by blast
qed

lemma nothing_executed_passes_witness:
  "\<exists>lp. run_claimed int_str True demo_profile [(demo_control, demo_happening True 100)] [] (Inr [])
      (Inr (aggregateFunds 1000 100)) (Some 100) demo_ending = (lp, Completed PASS) \<and> lp_passed lp = 0"
proof (rule nothing_executed_passes)
  show "list_all (\<lambda>(p, i). no_harness p \<and> \<not> hp_cancel i \<and> (\<exists>s. hp_credit i = Inr s \<and> s \<le> pr_ceiling demo_profile))
      [(demo_control, demo_happening True 100)]"
    by (simp add: demo_control_def control_entry_def no_harness_def demo_happening_def demo_profile_def Let_def)
  show "checkApplicationBudget demo_profile (map fst [(demo_control, demo_happening True 100)]) (Inr []) = None" by code_simp
  show "checkFundsBudget (map fst [(demo_control, demo_happening True 100)]) True (Inr (aggregateFunds 1000 100)) = None" by code_simp
qed (simp_all add: demo_ending_def)

lemma control_entry_drifts_witness:
  "\<exists>lp. demo_run demo_steps = (lp, Completed PASS) \<and> summarise_drift lp \<noteq> []"
proof -
  obtain lp where lp: "demo_run demo_steps = (lp, Completed PASS)" using demo_passes by blast
  have m: "(demo_control, demo_happening True 100) \<in> set demo_steps" by (simp add: demo_steps_def)
  have k: "pe_kind demo_control = CONTROL" "no_harness demo_control"
    by (simp_all add: demo_control_def control_entry_def no_harness_def Let_def)
  show ?thesis using lp control_entry_drifts [OF lp [unfolded demo_run_def] demo_distinct m k] by blast
qed

section \<open>The plan covers the profile\<close>

lemma set_place_journey: "set (place_journey before j ks) = insert j (set ks)"
  by (induction ks) auto

lemma set_placed: "set (foldr (place_journey before) js []) = set js"
  by (induction js) (simp_all add: set_place_journey)

lemma suite_entries_cover:
  "\<exists>p \<in> set (suite_entries before read suites journeys blocking s). pe_suite p = s"
  "j \<in> set journeys \<Longrightarrow> jo_suite j = s \<Longrightarrow> journey_entry read blocking s j \<in> set (suite_entries before read suites journeys blocking s)"
proof -
  let ?js = "foldr (place_journey before) (filter (\<lambda>j. jo_suite j = s) journeys) []"
  show "\<exists>p \<in> set (suite_entries before read suites journeys blocking s). pe_suite p = s"
    by (cases ?js) (auto simp: suite_entries_def control_entry_def journey_entry_def Let_def)
  assume "j \<in> set journeys" "jo_suite j = s"
  then have "j \<in> set ?js" by (simp add: set_placed)
  then show "journey_entry read blocking s j \<in> set (suite_entries before read suites journeys blocking s)"
    by (cases ?js) (auto simp: suite_entries_def)
qed

text \<open>The plan leaves nothing of the profile out: every suite of it has an entry, and every journey of such a suite
  has its own, with its harness and the exposure it declares.\<close>

theorem plan_covers_profile:
  assumes "planFor before read profiles suites journeys profileID = Some (profile, plan)" "s \<in> set (pr_suites profile)"
  shows "(\<exists>p \<in> set plan. pe_suite p = s) \<and>
    (\<forall>j \<in> set journeys. jo_suite j = s \<longrightarrow>
      (\<exists>p \<in> set plan. pe_journey p = jo_id j \<and> pe_suite p = s \<and> pe_kind p = JOURNEY \<and> pe_harness p = jo_harness j \<and>
         pe_exposure p = jo_exposure j))"
proof -
  obtain blocking where plan: "plan = concat (map (suite_entries before read suites journeys blocking) (pr_suites profile))"
    using assms(1) by (auto simp: planFor_def Let_def split: option.splits)
  have inpl: "p \<in> set plan" if "p \<in> set (suite_entries before read suites journeys blocking s)" for p
    unfolding plan using that assms(2) by auto
  have "\<exists>p \<in> set plan. pe_journey p = jo_id j \<and> pe_suite p = s \<and> pe_kind p = JOURNEY \<and> pe_harness p = jo_harness j \<and>
         pe_exposure p = jo_exposure j" if "j \<in> set journeys" "jo_suite j = s" for j
    using inpl [OF suite_entries_cover(2) [OF that]] by (rule rev_bexI) (simp add: journey_entry_def)
  then show ?thesis using suite_entries_cover(1) inpl by blast
qed

section \<open>The headroom\<close>

text \<open>What a plan can hold at any moment of a run that failed at its worst, and of the retry after it.\<close>

lemma plan_funds_fold:
  "pf_unknown (foldl (plan_funds_step m) f plan) = [] \<Longrightarrow> pf_unknown f = [] \<and>
     (\<forall>p \<in> set plan. pe_harness p \<noteq> None \<longrightarrow> (\<exists>v. exposure_of m p = Some v \<and> v \<le> pf_concurrent (foldl (plan_funds_step m) f plan))) \<and>
     pf_concurrent f \<le> pf_concurrent (foldl (plan_funds_step m) f plan) \<and>
     pf_cumulative (foldl (plan_funds_step m) f plan) = pf_cumulative f +
       sum_list (map (\<lambda>p. if pe_harness p = None then 0 else the (exposure_of m p)) plan)"
proof (induction plan arbitrary: f)
  case Nil
  then show ?case by simp
next
  case (Cons p plan)
  have ih: "pf_unknown (foldl (plan_funds_step m) (plan_funds_step m f p) plan) = []" using Cons.prems by simp
  show ?case using Cons.IH [OF ih]
    by (cases "pe_harness p"; cases "exposure_of m p") (auto simp: plan_funds_step_def split: if_splits)
qed

lemma funds_admitted:
  assumes "checkFundsBudget plan barrier (Inr f) = None" "p \<in> set plan" "pe_harness p \<noteq> None" "barrier"
  shows "\<exists>v. pe_exposure p = Some v \<and> 2 * v \<le> fr_available f"
proof -
  let ?f0 = "\<lparr> pf_cumulative = 0, pf_concurrent = 0, pf_barrier = barrier, pf_peak = 0, pf_unknown = [], pf_inert = [] \<rparr>"
  have u: "pf_unknown (foldl (plan_funds_step None) ?f0 plan) = []"
    using assms(1) by (simp add: checkFundsBudget_def plannedPeakFunds_def Let_def split: if_splits)
  have a: "pf_concurrent (foldl (plan_funds_step None) ?f0 plan) * 2 \<le> fr_available f"
    using assms(1,4) by (simp add: checkFundsBudget_def plannedPeakFunds_def Let_def requiredFundsHeadroom_def split: if_splits)
  show ?thesis using plan_funds_fold [OF u] a assms(2,3) by (fastforce simp: exposure_of_def)
qed
lemma plan_covers_profile_witness:
  "\<exists>profile plan. planFor (\<le>) (\<lambda>_. None) [demo_profile]  []
     [\<lparr> jo_id = ''S2'', jo_suite = ''S'', jo_name = ''n'', jo_harness = Some ''h.mjs'', jo_exposure = Some 3, jo_adapter = None,
        jo_args = [], jo_evidenceStem = None, jo_timeout = None, jo_retryNone = True, jo_retries = None, jo_disposable = 0,
        jo_allowed = 0 \<rparr>] ''GOLDEN'' = Some (profile, plan) \<and>
     (\<exists>p \<in> set plan. pe_journey p = ''S2'' \<and> pe_harness p = Some ''h.mjs'')"
proof -
  let ?j = "\<lparr> jo_id = ''S2'', jo_suite = ''S'', jo_name = ''n'', jo_harness = Some ''h.mjs'', jo_exposure = Some 3, jo_adapter = None,
    jo_args = [], jo_evidenceStem = None, jo_timeout = None, jo_retryNone = True, jo_retries = None, jo_disposable = 0, jo_allowed = 0 \<rparr>"
  obtain profile plan where p: "planFor (\<le>) (\<lambda>_. None) [demo_profile] [] [?j] ''GOLDEN'' = Some (profile, plan)" "profile = demo_profile"
    by (simp add: planFor_def Let_def demo_profile_def)
  have "''S'' \<in> set (pr_suites profile)" using p(2) by (simp add: demo_profile_def)
  from plan_covers_profile [OF p(1) this] show ?thesis using p(1) by fastforce
qed
end
