(* ===== verification/WebConsole.thy ===== *)
theory WebConsole
  imports UrlPath
begin

text \<open>
  The addresses of the website (apps/website): the Developers Console on its own host and the marketing
  hosts (lib/console-routing.ts), the middleware that redirects and rewrites them and attaches the content
  policy (middleware.ts, lib/csp.ts), the spelling of proof references (lib/proof-ref.ts) and the path a
  sign-in returns to (lib/return-path.ts).
\<close>

section \<open>Console paths (lib/console-routing.ts)\<close>

definition CONSOLE_HOST :: string where "CONSOLE_HOST = ''developers.banzami.com''"

definition CONSOLE_ORIGIN :: string where "CONSOLE_ORIGIN = ''https://'' @ CONSOLE_HOST"

definition MARKETING_HOSTS :: "string list" where "MARKETING_HOSTS = [''banzami.com'', ''www.banzami.com'']"

definition INTERNAL_PREFIX :: string where "INTERNAL_PREFIX = ''/developers''"

definition isDocsPath :: "string \<Rightarrow> bool" where
  "isDocsPath p \<longleftrightarrow> p = ''/docs'' \<or> p = INTERNAL_PREFIX @ ''/docs'' \<or> startsWith p (INTERNAL_PREFIX @ ''/docs/'')"

definition isConsoleSubPath :: "string \<Rightarrow> bool" where
  "isConsoleSubPath p \<longleftrightarrow> startsWith p (INTERNAL_PREFIX @ ''/'')"

definition isLegacyConsolePath :: "string \<Rightarrow> bool" where
  "isLegacyConsolePath p \<longleftrightarrow> p = INTERNAL_PREFIX \<or> startsWith p (INTERNAL_PREFIX @ ''/'')"

definition legacyToClean :: "string \<Rightarrow> string" where
  "legacyToClean p =
     (if p = INTERNAL_PREFIX \<or> p = ''/developers/dashboard'' then ''/''
      else if p = ''/developers/accept-invite'' then ''/invites/accept''
      else if startsWith p (INTERNAL_PREFIX @ ''/'') then drop (length INTERNAL_PREFIX) p
      else p)"

definition cleanToInternal :: "string \<Rightarrow> string" where
  "cleanToInternal p = (if p = ''/'' then ''/developers/dashboard'' else INTERNAL_PREFIX @ p)"

definition marketingToConsoleUrl :: "string \<Rightarrow> string" where
  "marketingToConsoleUrl p = CONSOLE_ORIGIN @ legacyToClean p"

text \<open>The page of a clean path leads back to it, but for the two names the Console does not keep.\<close>

lemma clean_roundtrip:
  "startsWith p ''/'' \<Longrightarrow> p \<notin> {''/dashboard'', ''/accept-invite''} \<Longrightarrow> legacyToClean (cleanToInternal p) = p"
  by (auto simp: legacyToClean_def cleanToInternal_def INTERNAL_PREFIX_def prefix_def)

lemma legacy_shrinks: "isLegacyConsolePath p \<Longrightarrow> length (legacyToClean p) < length p"
  by (auto simp: isLegacyConsolePath_def legacyToClean_def INTERNAL_PREFIX_def prefix_def)

section \<open>The content policy (lib/csp.ts)\<close>

definition KYB_UPLOAD_ORIGIN :: string where "KYB_UPLOAD_ORIGIN = ''https://*.r2.cloudflarestorage.com''"

definition quoted :: "string \<Rightarrow> string" where "quoted s = CHR 0x27 # s @ [CHR 0x27]"

text \<open>The two addresses a deployment may set, and the origin of one, if it has any.\<close>

record web_env =
  we_apiUrl :: "string option"
  we_developerApiUrl :: "string option"

definition originOf :: "url_parser \<Rightarrow> string option \<Rightarrow> string" where
  "originOf parse_url raw =
     (case raw of
        None \<Rightarrow> []
      | Some r \<Rightarrow> if r = [] then [] else (case parse_url r of None \<Rightarrow> [] | Some u \<Rightarrow> u_origin u))"

definition connectOrigins :: "url_parser \<Rightarrow> web_env \<Rightarrow> string list" where
  "connectOrigins parse_url env =
     filter (\<lambda>o'. o' \<noteq> [])
       [quoted ''self'', ''https://api.banzami.com'', ''https://sandbox-api.banzami.com'',
        ''https://developer-api.banzami.com'', KYB_UPLOAD_ORIGIN,
        originOf parse_url (we_apiUrl env), originOf parse_url (we_developerApiUrl env)]"

definition contentSecurityPolicy :: "url_parser \<Rightarrow> string \<Rightarrow> web_env \<Rightarrow> string" where
  "contentSecurityPolicy parse_url nonce env = join_with ''; ''
     [''default-src '' @ quoted ''self'',
      ''script-src '' @ quoted ''self'' @ '' '' @ quoted (''nonce-'' @ nonce) @ '' '' @ quoted ''strict-dynamic'',
      ''style-src '' @ quoted ''self'' @ '' '' @ quoted ''unsafe-inline'' @ '' https://fonts.googleapis.com'',
      ''font-src '' @ quoted ''self'' @ '' https://fonts.gstatic.com'',
      ''img-src '' @ quoted ''self'' @ '' data: blob:'',
      ''connect-src '' @ join_with '' '' (connectOrigins parse_url env),
      ''frame-src '' @ quoted ''self'' @ '' https://app.banzami.com'',
      ''frame-ancestors '' @ quoted ''none'',
      ''base-uri '' @ quoted ''self'',
      ''form-action '' @ quoted ''self'',
      ''object-src '' @ quoted ''none'']"

section \<open>Proof references (lib/proof-ref.ts)\<close>

definition PROOF_REF_ALPHABET :: string where "PROOF_REF_ALPHABET = ''0123456789ABCDEFGHJKMNPQRSTVWXYZ''"

text \<open>Groups of four symbols, each after a dash, to the end of the text.\<close>

fun ref_groups :: "nat \<Rightarrow> string \<Rightarrow> string \<Rightarrow> bool" where
  "ref_groups 0 alphabet s = (s = [])"
| "ref_groups (Suc n) alphabet s =
     (case s of
        x # a # b # c # d # t \<Rightarrow> x = CHR ''-'' \<and> {a, b, c, d} \<subseteq> set alphabet \<and> ref_groups n alphabet t
      | _ \<Rightarrow> False)"

definition SECURE_V1 :: "string \<Rightarrow> bool" where
  "SECURE_V1 s \<longleftrightarrow> startsWith s ''BZM'' \<and> ref_groups 6 PROOF_REF_ALPHABET (drop 3 s)"

definition LEGACY_V0 :: "string \<Rightarrow> bool" where
  "LEGACY_V0 s \<longleftrightarrow> startsWith s ''BZM'' \<and> ref_groups 2 ''0123456789ABCDEF'' (drop 3 s)"

definition isProofRef :: "string \<Rightarrow> bool" where
  "isProofRef ref \<longleftrightarrow> SECURE_V1 ref \<or> LEGACY_V0 ref"

text \<open>The printed link, with its scheme or without: what follows \<open>/r/\<close>, as it is written.\<close>

definition VERIFICATION_LINK :: "string \<Rightarrow> string option" where
  "VERIFICATION_LINK s =
     (let t = (if startsWith s ''https://'' then drop 8 s else s)
      in if startsWith t ''banzami.com/r/'' \<and> list_all (\<lambda>c. c \<notin> set ''/?#'') (drop 14 t) then Some (drop 14 t) else None)"

datatype proof_refusal = RefusedEmpty | RefusedWhitespace | RefusedFormat

definition invisible :: "char \<Rightarrow> bool" where "invisible c \<longleftrightarrow> js_ws c \<or> c = CHR 0xAD"

definition parseProofInput :: "string \<Rightarrow> proof_refusal + string" where
  "parseProofInput input =
     (if input = [] then Inl RefusedEmpty
      else if list_ex invisible input then Inl RefusedWhitespace
      else if isProofRef input then Inr input
      else (case VERIFICATION_LINK input of
              Some ref \<Rightarrow> if isProofRef ref then Inr ref else Inl RefusedFormat
            | None \<Rightarrow> Inl RefusedFormat))"

definition NOT_A_REFERENCE_PATH :: string where "NOT_A_REFERENCE_PATH = ''/r/_''"

definition proofPagePath :: "string \<Rightarrow> string option" where
  "proofPagePath raw =
     (if \<not> startsWith raw ''/r/'' then None
      else Some (if isProofRef (drop 3 raw) then raw else NOT_A_REFERENCE_PATH))"

section \<open>The middleware (middleware.ts)\<close>

text \<open>
  A request: the header that names the host, the path as the request line carried it, and the origin, path and
  query of the framework's URL. An answer redirects, or gives a document: the page of a path or of another
  one, with the content policy and, for the Console, the word to the search engines.
\<close>

record web_request =
  rq_host :: "string option"
  rq_rawPath :: string
  rq_origin :: string
  rq_path :: string
  rq_query :: string

datatype web_route = Redirect308 url | RewriteTo string string | PassOn

record web_answer =
  an_route :: web_route
  an_policy :: "string option"
  an_noindex :: bool

definition harden :: "url_parser \<Rightarrow> string \<Rightarrow> web_env \<Rightarrow> web_route \<Rightarrow> web_answer" where
  "harden parse_url nonce env r =
     \<lparr> an_route = r, an_policy = Some (contentSecurityPolicy parse_url nonce env), an_noindex = False \<rparr>"

definition redirect :: "url \<Rightarrow> web_answer" where
  "redirect u = \<lparr> an_route = Redirect308 u, an_policy = None, an_noindex = False \<rparr>"

definition request_url :: "web_request \<Rightarrow> url" where
  "request_url q = \<lparr> u_origin = rq_origin q, u_pathname = rq_path q, u_search = rq_query q, u_hash = [] \<rparr>"

definition host_of :: "web_request \<Rightarrow> string" where
  "host_of q = js_lower (hd (split_on (CHR '':'') (case rq_host q of Some h \<Rightarrow> h | None \<Rightarrow> [])))"

definition drop_slashes :: "string \<Rightarrow> string" where
  "drop_slashes s = rev (dropWhile (\<lambda>c. c = CHR ''/'') (rev s))"

definition clean_path :: "string \<Rightarrow> string" where
  "clean_path p = (if drop_slashes p = [] then ''/'' else drop_slashes p)"

definition retired :: "(string \<times> string) list" where
  "retired = [(''/faq'', ''/suporte#faq''), (''/ecras'', ''/produto#app''), (''/app-demo'', ''https://app.banzami.com'')]"

definition retired_url :: "web_request \<Rightarrow> string \<Rightarrow> url" where
  "retired_url q target =
     (if startsWith target ''http'' then \<lparr> u_origin = target, u_pathname = ''/'', u_search = [], u_hash = [] \<rparr>
      else (case split_on (CHR ''#'') target of
              p # h # _ \<Rightarrow> (request_url q)\<lparr>u_pathname := p, u_hash := (if h \<noteq> [] then CHR ''#'' # h else []), u_search := []\<rparr>
            | p # _ \<Rightarrow> (request_url q)\<lparr>u_pathname := p, u_search := []\<rparr>
            | [] \<Rightarrow> request_url q))"

definition isDocs :: "string \<Rightarrow> bool" where
  "isDocs p \<longleftrightarrow> p = ''/docs'' \<or> startsWith p ''/docs/''"

definition middleware :: "url_parser \<Rightarrow> string \<Rightarrow> web_env \<Rightarrow> web_request \<Rightarrow> web_answer" where
  "middleware parse_url nonce env q =
     (let host = host_of q; give = harden parse_url nonce env
      in if proofPagePath (rq_rawPath q) = Some NOT_A_REFERENCE_PATH then give (RewriteTo NOT_A_REFERENCE_PATH [])
         else if host = CONSOLE_HOST then
           (if isLegacyConsolePath (rq_path q) then redirect ((request_url q)\<lparr>u_pathname := legacyToClean (rq_path q)\<rparr>)
            else (give (RewriteTo (cleanToInternal (rq_path q)) (rq_query q)))\<lparr>an_noindex := \<not> isDocs (rq_path q)\<rparr>)
         else if host \<in> set MARKETING_HOSTS then
           (case map_of retired (clean_path (rq_path q)) of
                 Some target \<Rightarrow> redirect (retired_url q target)
               | None \<Rightarrow>
                   if isConsoleSubPath (rq_path q) then
                     redirect ((path_url CONSOLE_ORIGIN (legacyToClean (rq_path q)))\<lparr>u_search := rq_query q\<rparr>)
                   else if isDocsPath (rq_path q) then
                     redirect \<lparr> u_origin = CONSOLE_ORIGIN, u_pathname = ''/docs'', u_search = [], u_hash = [] \<rparr>
                   else give PassOn)
         else give PassOn)"

section \<open>A browser that follows redirects\<close>

text \<open>The request a browser makes for an address: the host is the origin's, and the path is sent as it is.\<close>

definition ask :: "url \<Rightarrow> web_request" where
  "ask u = \<lparr> rq_host = Some (drop 8 (u_origin u)), rq_rawPath = u_pathname u, rq_origin = u_origin u,
     rq_path = u_pathname u, rq_query = u_search u \<rparr>"

fun browse :: "(web_request \<Rightarrow> web_answer) \<Rightarrow> nat \<Rightarrow> url \<Rightarrow> (url \<times> web_answer) option" where
  "browse serve 0 u = None"
| "browse serve (Suc n) u =
     (case an_route (serve (ask u)) of
        Redirect308 v \<Rightarrow> browse serve n v
      | _ \<Rightarrow> Some (u, serve (ask u)))"

definition console_page :: "string \<Rightarrow> string \<Rightarrow> url" where
  "console_page p query = \<lparr> u_origin = CONSOLE_ORIGIN, u_pathname = p, u_search = query, u_hash = [] \<rparr>"

lemma host_of_ask [simp]:
  "u_origin u = CONSOLE_ORIGIN \<Longrightarrow> host_of (ask u) = CONSOLE_HOST"
  by (simp add: host_of_def ask_def CONSOLE_ORIGIN_def CONSOLE_HOST_def) code_simp

definition browse_ends :: "(web_request \<Rightarrow> web_answer) \<Rightarrow> url \<Rightarrow> bool" where
  "browse_ends serve u \<longleftrightarrow> (\<exists>n v. browse serve n u = Some (v, serve (ask v)))"

lemma browse_ends_redirect:
  assumes "an_route (serve (ask u)) = Redirect308 v" "browse_ends serve v"
  shows "browse_ends serve u"
proof -
  obtain n w where "browse serve n v = Some (w, serve (ask w))" using assms(2) by (auto simp: browse_ends_def)
  then have "browse serve (Suc n) u = Some (w, serve (ask w))" using assms(1) by simp
  then show ?thesis unfolding browse_ends_def by blast
qed

lemma ends_document: "(\<And>v. an_route (serve (ask u)) \<noteq> Redirect308 v) \<Longrightarrow> browse_ends serve u"
  unfolding browse_ends_def by (intro exI [of _ "Suc 0"] exI [of _ u]) (simp split: web_route.split)

lemma routes [simp]: "an_route (harden parse_url nonce env r) = r" "an_route (redirect u) = Redirect308 u"
  by (simp_all add: harden_def redirect_def)

lemma ask_parts [simp]: "rq_origin (ask u) = u_origin u" "rq_path (ask u) = u_pathname u" "rq_query (ask u) = u_search u"
  by (simp_all add: ask_def)

lemma host_of_same: "u_origin u = u_origin v \<Longrightarrow> host_of (ask u) = host_of (ask v)"
  by (simp add: host_of_def ask_def)

lemma console_answer:
  assumes "host_of q = CONSOLE_HOST" "an_route (middleware parse_url nonce env q) = Redirect308 v"
  shows "isLegacyConsolePath (rq_path q) \<and> v = (request_url q)\<lparr>u_pathname := legacyToClean (rq_path q)\<rparr>"
  using assms by (auto simp: middleware_def Let_def split: if_splits)

lemma console_ends: "host_of (ask u) = CONSOLE_HOST \<Longrightarrow> browse_ends (middleware parse_url nonce env) u"
proof (induction "length (u_pathname u)" arbitrary: u rule: less_induct)
  case less
  show ?case
  proof (cases "\<exists>v. an_route (middleware parse_url nonce env (ask u)) = Redirect308 v")
    case True
    then obtain v where v: "an_route (middleware parse_url nonce env (ask u)) = Redirect308 v" ..
    note c = console_answer [OF less.prems v]
    have "length (u_pathname v) < length (u_pathname u)" using c legacy_shrinks by (simp add: request_url_def)
    moreover have "host_of (ask v) = CONSOLE_HOST"
      using less.prems c host_of_same [of v u] by (simp add: request_url_def)
    ultimately show ?thesis using browse_ends_redirect [where serve = "middleware parse_url nonce env", OF v] less.hyps by blast
  next
    case False
    then show ?thesis by (intro ends_document) blast
  qed
qed

lemma marketing_answer:
  assumes "host_of q \<noteq> CONSOLE_HOST" "an_route (middleware parse_url nonce env q) = Redirect308 v"
  shows "(\<exists>t. map_of retired (clean_path (rq_path q)) = Some t \<and> v = retired_url q t) \<or>
    (isConsoleSubPath (rq_path q) \<or> isDocsPath (rq_path q)) \<and> u_origin v = CONSOLE_ORIGIN"
  using assms unfolding middleware_def Let_def path_url_def
  by (simp split: if_splits option.splits) auto

lemma plain_marketing:
  assumes "host_of (ask u) \<noteq> CONSOLE_HOST" "u_pathname u \<in> {''/suporte'', ''/produto''}"
  shows "browse_ends (middleware parse_url nonce env) u"
proof (rule ends_document)
  have c: "map_of retired (clean_path ''/suporte'') = None" "map_of retired (clean_path ''/produto'') = None"
    "\<not> isConsoleSubPath ''/suporte''" "\<not> isConsoleSubPath ''/produto''" "\<not> isDocsPath ''/suporte''" "\<not> isDocsPath ''/produto''"
    by code_simp+
  fix v
  show "an_route (middleware parse_url nonce env (ask u)) \<noteq> Redirect308 v"
    using marketing_answer [OF assms(1), of parse_url nonce env v] assms(2) c by auto
qed

lemma other_host:
  assumes "host_of (ask u) \<noteq> CONSOLE_HOST" "host_of (ask u) \<notin> set MARKETING_HOSTS"
  shows "browse_ends (middleware parse_url nonce env) u"
  using assms by (intro ends_document) (auto simp: middleware_def Let_def)

text \<open>C17. No redirect goes round: from any address, of the Console, of the marketing site or of another host, a browser
  that follows the redirects of the site comes to a document after finitely many of them.\<close>

theorem redirects_end: "\<exists>n v. browse (middleware parse_url nonce env) n u = Some (v, middleware parse_url nonce env (ask v))"
proof -
  let ?serve = "middleware parse_url nonce env"
  have "browse_ends ?serve u"
  proof (cases "host_of (ask u) \<in> set MARKETING_HOSTS \<and> (\<exists>v. an_route (?serve (ask u)) = Redirect308 v)")
    case True
    then obtain v where h: "host_of (ask u) \<in> set MARKETING_HOSTS" and v: "an_route (?serve (ask u)) = Redirect308 v" by blast
    have n: "host_of (ask u) \<noteq> CONSOLE_HOST" using h by (auto simp: MARKETING_HOSTS_def CONSOLE_HOST_def)
    consider t where "map_of retired (clean_path (u_pathname u)) = Some t" "v = retired_url (ask u) t" | "u_origin v = CONSOLE_ORIGIN"
      using marketing_answer [OF n v] by auto
    then have "browse_ends ?serve v"
    proof cases
      case 1
      then have "t \<in> snd ` set retired" "v = retired_url (ask u) t" by (force dest: map_of_SomeD)+
      then consider "v = \<lparr> u_origin = ''https://app.banzami.com'', u_pathname = ''/'', u_search = [], u_hash = [] \<rparr>"
        | "u_origin v = u_origin u" "u_pathname v \<in> {''/suporte'', ''/produto''}"
        by (auto simp: retired_def retired_url_def request_url_def)
      then show ?thesis
      proof cases
        case 1
        have "host_of (ask v) = ''app.banzami.com''" unfolding 1 host_of_def ask_def by simp code_simp
        then show ?thesis by (intro other_host) (simp_all add: CONSOLE_HOST_def MARKETING_HOSTS_def)
      next
        case 2
        then show ?thesis using n host_of_same [of v u] plain_marketing [of v parse_url nonce env] by simp
      qed
    next
      case 2
      then show ?thesis using console_ends by simp
    qed
    then show ?thesis by (rule browse_ends_redirect [where serve = ?serve, OF v])
  next
    case False
    then show ?thesis using console_ends other_host ends_document by blast
  qed
  then show ?thesis by (simp add: browse_ends_def)
qed

section \<open>What the console host answers\<close>

text \<open>The Console's host: an address of the old shape is redirected to its clean one, on the same origin and with its
  query; every other path but a misspelled proof reference is answered by the page that the path names, which
  leads back to it, and every document carries the policy and is hidden from the search engines unless it is
  documentation. A misspelled proof reference is never looked up: it is answered by the page that says so.\<close>

theorem console_host_answers:
  assumes "host_of q = CONSOLE_HOST" "startsWith (rq_path q) ''/''"
  shows "case an_route (middleware parse_url nonce env q) of
      Redirect308 v \<Rightarrow> isLegacyConsolePath (rq_path q) \<and> u_origin v = rq_origin q \<and> u_search v = rq_query q \<and>
        length (u_pathname v) < length (rq_path q)
    | RewriteTo p query \<Rightarrow> an_policy (middleware parse_url nonce env q) = Some (contentSecurityPolicy parse_url nonce env) \<and>
        (if startsWith (rq_rawPath q) ''/r/'' \<and> \<not> isProofRef (drop 3 (rq_rawPath q)) then p = ''/r/_'' \<and> query = []
         else query = rq_query q \<and> startsWith p ''/developers/'' \<and> \<not> isLegacyConsolePath (rq_path q) \<and>
           (rq_path q \<in> {''/dashboard'', ''/accept-invite''} \<or> legacyToClean p = rq_path q) \<and>
           (an_noindex (middleware parse_url nonce env q) \<longleftrightarrow> \<not> isDocs (rq_path q)))
    | PassOn \<Rightarrow> False"
proof -
  have ref: "proofPagePath (rq_rawPath q) = Some NOT_A_REFERENCE_PATH \<longleftrightarrow>
      startsWith (rq_rawPath q) ''/r/'' \<and> \<not> isProofRef (drop 3 (rq_rawPath q))"
  proof -
    have "\<not> isProofRef (drop 3 (rq_rawPath q))" if "rq_rawPath q = NOT_A_REFERENCE_PATH"
      unfolding that by code_simp
    then show ?thesis by (auto simp: proofPagePath_def)
  qed
  have under: "startsWith (cleanToInternal (rq_path q)) ''/developers/''"
    using assms(2) by (auto simp: cleanToInternal_def INTERNAL_PREFIX_def prefix_def)
  show ?thesis
  proof (cases "proofPagePath (rq_rawPath q) = Some NOT_A_REFERENCE_PATH")
    case True
    then have "middleware parse_url nonce env q = harden parse_url nonce env (RewriteTo NOT_A_REFERENCE_PATH [])"
      by (simp add: middleware_def Let_def)
    then show ?thesis using True ref by (simp add: harden_def NOT_A_REFERENCE_PATH_def)
  next
    case False
    show ?thesis
    proof (cases "isLegacyConsolePath (rq_path q)")
      case True
      then have "middleware parse_url nonce env q = redirect ((request_url q)\<lparr>u_pathname := legacyToClean (rq_path q)\<rparr>)"
        using False assms(1) by (simp add: middleware_def Let_def)
      then show ?thesis using True legacy_shrinks [OF True] by (simp add: request_url_def)
    next
      case clean: False
      then have m: "middleware parse_url nonce env q =
          (harden parse_url nonce env (RewriteTo (cleanToInternal (rq_path q)) (rq_query q)))\<lparr>an_noindex := \<not> isDocs (rq_path q)\<rparr>"
        using False assms(1) by (simp add: middleware_def Let_def)
      show ?thesis
        unfolding m using False ref under clean clean_roundtrip [OF assms(2)] by (auto simp: harden_def)
    qed
  qed
qed

definition demo_env :: web_env where "demo_env = \<lparr> we_apiUrl = None, we_developerApiUrl = None \<rparr>"

lemma console_host_answers_witness:
  "host_of (ask (console_page ''/developers/login'' [])) = CONSOLE_HOST \<and> startsWith ''/developers/login'' ''/'' \<and>
   (\<exists>v. an_route (middleware (\<lambda>_. None) ''n'' demo_env (ask (console_page ''/developers/login'' []))) = Redirect308 v \<and>
      u_origin v = CONSOLE_ORIGIN)"
proof -
  let ?q = "ask (console_page ''/developers/login'' [])"
  have h: "host_of ?q = CONSOLE_HOST" "startsWith (rq_path ?q) ''/''" "startsWith ''/developers/login'' ''/''"
    by (simp_all add: console_page_def)
  have o: "rq_origin ?q = CONSOLE_ORIGIN" by (simp add: console_page_def)
  have "case an_route (middleware (\<lambda>_. None) ''n'' demo_env ?q) of Redirect308 _ \<Rightarrow> True | _ \<Rightarrow> False" by code_simp
  then obtain v where "an_route (middleware (\<lambda>_. None) ''n'' demo_env ?q) = Redirect308 v" by (auto split: web_route.splits)
  then show ?thesis using console_host_answers [OF h(1,2), of "\<lambda>_. None" "''n''" demo_env] h o by simp
qed

section \<open>Where a sign-in returns to (lib/return-path.ts)\<close>

definition return_forbidden :: "char \<Rightarrow> bool" where
  "return_forbidden c \<longleftrightarrow> unit_code c < 0x20 \<or> c = CHR 0x7F \<or> c = CHR 0x5C"

definition CONSOLE_INVALID :: string where "CONSOLE_INVALID = ''https://console.invalid''"

definition safeReturnPath :: "string option \<Rightarrow> string" where
  "safeReturnPath raw =
     (case raw of
        None \<Rightarrow> ''/''
      | Some r \<Rightarrow>
          if r = [] \<or> 512 < length r then ''/''
          else if \<not> startsWith r ''/'' \<or> startsWith r ''//'' \<or> startsWith r [CHR ''/'', CHR 0x5C] then ''/''
          else if list_ex return_forbidden r then ''/''
          else (let u = path_url CONSOLE_INVALID r
                in if u_origin u \<noteq> CONSOLE_INVALID then ''/''
                   else if u_pathname u = ''/login'' \<or> u_pathname u = ''/verify'' then ''/''
                   else u_pathname u @ u_search u @ u_hash u))"

text \<open>A reference that starts with two slashes names another host to a browser.\<close>

definition leaves_site :: "string \<Rightarrow> bool" where "leaves_site r \<longleftrightarrow> startsWith r ''//''"

definition dotted :: "string \<Rightarrow> bool" where
  "dotted r \<longleftrightarrow> list_ex (\<lambda>x. single_dot x \<or> double_dot x) (url_segs (url_input r))"

lemma url_input_clean:
  assumes "\<not> list_ex return_forbidden r"
  obtains t where "r = url_input r @ t" "url_input (CHR ''/'' # r') = CHR ''/'' # drop 1 (url_input (CHR ''/'' # r'))"
proof -
  have f: "filter (\<lambda>c. c \<notin> set [CHR 0x09, CHR 0x0A, CHR 0x0D]) r = r"
  proof (rule filter_True, rule ballI)
    fix c assume "c \<in> set r"
    then have "\<not> return_forbidden c" using assms by (auto simp: list_ex_iff)
    then show "c \<notin> set [CHR 0x09, CHR 0x0A, CHR 0x0D]" by (auto simp: return_forbidden_def unit_code_def)
  qed
  have "r = url_input r @ rev (takeWhile (\<lambda>c. unit_code c \<le> 0x20) (rev r))"
    unfolding url_input_def f by (metis rev_append rev_rev_ident takeWhile_dropWhile_id)
  moreover have "\<exists>u. url_input (CHR ''/'' # r') = CHR ''/'' # u"
  proof -
    have "\<exists>u. dropWhile (\<lambda>c. unit_code c \<le> 0x20) (xs @ [CHR ''/'']) = u @ [CHR ''/'']" for xs
    proof (induction xs)
      case (Cons a xs)
      then show ?case by (cases "unit_code a \<le> 0x20") (auto intro: exI [of _ "a # xs"])
    qed (simp add: unit_code_def)
    then obtain u where "dropWhile (\<lambda>c. unit_code c \<le> 0x20) (rev (filter (\<lambda>c. c \<notin> set [CHR 0x09, CHR 0x0A, CHR 0x0D]) r') @ [CHR ''/'']) = u @ [CHR ''/'']"
      by blast
    then show ?thesis by (simp add: url_input_def)
  qed
  ultimately show ?thesis using that by force
qed

lemma path_of_undotted:
  assumes "\<not> list_ex (\<lambda>x. single_dot x \<or> double_dot x) (url_segs s)" "CHR 0x5C \<notin> set s" "startsWith s ''/''"
  shows "fetch_path s = takeWhile (\<lambda>c. c \<noteq> CHR ''#'' \<and> c \<noteq> CHR ''?'') s"
proof -
  let ?q = "takeWhile (\<lambda>c. c \<noteq> CHR ''#'' \<and> c \<noteq> CHR ''?'') s"
  have m: "map (\<lambda>c. if c = CHR 0x5C then CHR ''/'' else c) ?q = ?q"
    using assms(2) by (intro map_idI) (auto dest: set_takeWhileD)
  obtain s' where s': "s = CHR ''/'' # s'" using assms(3) by (auto simp: prefix_def)
  let ?segs = "split_on (CHR ''/'') (takeWhile (\<lambda>c. c \<noteq> CHR ''#'' \<and> c \<noteq> CHR ''?'') s')"
  have u: "url_segs s = ?segs" unfolding url_segs_def m using s' by simp
  have "resolve_segs [] ?segs = ?segs"
    using assms(1) resolve_plain [of ?segs "[]"] unfolding u by (auto simp: list_ex_iff list_all_iff)
  then show ?thesis
    unfolding fetch_path_def u concat_slash using s' by (simp add: join_split)
qed

lemma pct_unit_head: "pct_unit special c = [c] \<or> (\<exists>t. pct_unit special c = CHR ''%'' # t)"
  by (auto simp: pct_unit_def utf8_def pct_def)

lemma alnum_not_dots: "is_alnum (hd s) \<Longrightarrow> s \<noteq> [] \<Longrightarrow> \<not> single_dot s \<and> \<not> double_dot s"
proof -
  assume a: "is_alnum (hd s)" "s \<noteq> []"
  have "lower_char c \<noteq> CHR ''.'' \<and> lower_char c \<noteq> CHR ''%''" if "is_alnum c" for c
  proof -
    have "unit_code c \<notin> {0x2E, 0x25}" using that by (auto simp: is_alnum_def char_class_defs unit_code_def)
    moreover have "unit_code c = of_char (CHR ''.'') \<longleftrightarrow> c = CHR ''.''" "unit_code c = of_char (CHR ''%'') \<longleftrightarrow> c = CHR ''%''"
      unfolding unit_code_def by (simp_all only: of_char_eq_iff)
    ultimately show ?thesis by (auto simp: lower_char_def char_class_defs unit_code_def dest: arg_cong [where f = "of_char :: char \<Rightarrow> nat"])
  qed
  then have "hd (js_lower s) \<noteq> CHR ''.'' \<and> hd (js_lower s) \<noteq> CHR ''%''" using a by (simp add: js_lower_def hd_map)
  then show ?thesis by (auto simp: single_dot_def double_dot_def)
qed

text \<open>C37. Where a sign-in returns to. The filter is meant to accept paths of the site only; it does so for every path
  without dot segments. But it inspects the text before the dots are resolved: for every host there is a path
  it accepts and turns into a reference to that host, so a link to the page that verifies the code can send
  whoever signs in to any site.\<close>

theorem return_path_dots:
  "(\<not> dotted r \<longrightarrow> \<not> leaves_site (safeReturnPath (Some r))) \<and>
   (list_all (\<lambda>c. is_alnum c \<or> c = CHR ''.'' \<or> c = CHR ''-'') host \<and> is_alnum (hd host) \<and> host \<noteq> [] \<and> length host \<le> 508 \<longrightarrow>
     safeReturnPath (Some (''/.//'' @ host)) = ''//'' @ host \<and> leaves_site (safeReturnPath (Some (''/.//'' @ host))))"
proof (intro conjI impI)
  assume d: "\<not> dotted r"
  show "\<not> leaves_site (safeReturnPath (Some r))"
  proof (cases "safeReturnPath (Some r) = ''/''")
    case True
    then show ?thesis by (simp add: leaves_site_def)
  next
    case False
    then have start: "startsWith r ''/''" "\<not> startsWith r ''//''" and ok: "\<not> list_ex return_forbidden r"
      and res: "safeReturnPath (Some r) = u_pathname (path_url CONSOLE_INVALID r) @ u_search (path_url CONSOLE_INVALID r) @ u_hash (path_url CONSOLE_INVALID r)"
      by (auto simp: safeReturnPath_def Let_def split: if_splits)
    obtain r' where r': "r = CHR ''/'' # r'" using start(1) by (auto simp: prefix_def)
    obtain t where t: "r = url_input r @ t" "url_input r = CHR ''/'' # drop 1 (url_input r)"
      using url_input_clean [OF ok, of r' thesis] r' by blast
    let ?s = "url_input r"
    have bs: "CHR 0x5C \<notin> set ?s" using ok t(1) by (metis Un_iff list_ex_iff return_forbidden_def set_append)
    have sl: "startsWith ?s ''/''" using t(2) by (metis prefix_Cons prefix_bot.bot_least)
    have p: "fetch_path ?s = takeWhile (\<lambda>c. c \<noteq> CHR ''#'' \<and> c \<noteq> CHR ''?'') ?s"
      using path_of_undotted [OF _ bs sl] d by (simp add: dotted_def)
    have nn: "\<not> startsWith ?s ''//''" using start(2) t(1) by (metis prefix_order.dual_order.trans prefixI)
    have slash: "\<not> in_path (CHR ''/'')" by code_simp
    show ?thesis
    proof (cases "drop 1 ?s")
      case Nil
      then have s: "?s = ''/''" using t(2) by simp
      show ?thesis unfolding res path_url_def Let_def s by code_simp
    next
      case (Cons c w)
      then have s: "?s = CHR ''/'' # c # w" using t(2) by simp
      have c: "c \<noteq> CHR ''/''" using nn s by auto
      show ?thesis
      proof (cases "c = CHR ''#'' \<or> c = CHR ''?''")
        case True
        then have "u_pathname (path_url CONSOLE_INVALID r) = ''/''"
          unfolding path_url_def Let_def p using s slash by (auto simp: pct_unit_def)
        then show ?thesis
          unfolding res leaves_site_def by (auto simp: path_url_def Let_def)
      next
        case False
        then obtain z where "u_pathname (path_url CONSOLE_INVALID r) = CHR ''/'' # pct_unit in_path c @ z"
          unfolding path_url_def Let_def p using s slash by (auto simp: pct_unit_def)
        then show ?thesis
          unfolding res leaves_site_def using pct_unit_head [of in_path c] c by auto
      qed
    qed
  qed
next
  assume h: "list_all (\<lambda>c. is_alnum c \<or> c = CHR ''.'' \<or> c = CHR ''-'') host \<and> is_alnum (hd host) \<and> host \<noteq> [] \<and> length host \<le> 508"
  let ?r = "''/.//'' @ host"
  have plain: "\<not> return_forbidden c \<and> \<not> in_path c \<and> c \<notin> set ''/#?'' \<and> c \<noteq> CHR 0x5C \<and> 0x20 < unit_code c" if "c \<in> set host" for c
  proof -
    have "is_alnum c \<or> c = CHR ''.'' \<or> c = CHR ''-''" using that h by (simp add: list_all_iff)
    then have "45 \<le> unit_code c \<and> unit_code c \<le> 122 \<and> unit_code c \<notin> {0x2F, 0x3C, 0x3E, 0x3F, 0x5C, 0x5E, 0x60}"
      by (auto simp: is_alnum_def is_digit_def is_ascii_upper_def is_ascii_lower_def unit_code_def)
    then show ?thesis
      by (auto simp: return_forbidden_def in_path_def url_control_def unit_code_def)
  qed
  show e: "safeReturnPath (Some ?r) = ''//'' @ host"
  proof -
    have f: "filter (\<lambda>c. c \<notin> set [CHR 0x09, CHR 0x0A, CHR 0x0D]) host = host"
      by (rule filter_True) (use plain in \<open>force simp: unit_code_def\<close>)
    obtain b where b: "rev host = last host # b" "last host \<in> set host" using h by (cases host rule: rev_cases) auto
    have i: "url_input ?r = ?r"
    proof -
      have "dropWhile (\<lambda>c. unit_code c \<le> 0x20) (rev host) = rev host" unfolding b(1) using plain [OF b(2)] by simp
      then have "dropWhile (\<lambda>c. unit_code c \<le> 0x20) (rev host @ x) = rev host @ x" for x
        using dropWhile_append1 [of "last host" "rev host" "\<lambda>c. unit_code c \<le> 0x20" x] b(2) plain [OF b(2)] by simp
      then show ?thesis unfolding url_input_def using f by simp
    qed
    have q: "takeWhile (\<lambda>c. c \<noteq> CHR ''#'' \<and> c \<noteq> CHR ''?'') ?r = ?r" "dropWhile (\<lambda>c. c \<noteq> CHR ''#'' \<and> c \<noteq> CHR ''?'') ?r = []"
      using plain by (auto simp: takeWhile_eq_all_conv)
    have m: "map (\<lambda>c. if c = CHR 0x5C then CHR ''/'' else c) ?r = ?r"
      using plain by (intro map_idI) auto
    have dots: "\<not> single_dot host" "\<not> double_dot host"
      using alnum_not_dots [of host] h by auto
    have one: "single_dot ''.''" "\<not> double_dot ''.''" "\<not> single_dot []" "\<not> double_dot []" by code_simp+
    have "CHR ''/'' \<notin> set host" using plain by force
    then have segs: "url_segs ?r = [''.'', [], host]" unfolding url_segs_def q(1) m by simp
    have "fetch_path ?r = ''//'' @ host" unfolding fetch_path_def segs using dots one by simp
    moreover have "pct_encode in_path (''//'' @ host) = ''//'' @ host"
      by (rule pct_encode_plain) (use plain in \<open>auto simp: list_all_iff in_path_def url_control_def unit_code_def\<close>)
    ultimately have u: "path_url CONSOLE_INVALID ?r = \<lparr> u_origin = CONSOLE_INVALID, u_pathname = ''//'' @ host, u_search = [], u_hash = [] \<rparr>"
      unfolding path_url_def Let_def i q(2) by simp
    have "\<not> list_ex return_forbidden ?r"
      using plain by (auto simp: list_ex_iff return_forbidden_def unit_code_def)
    then show ?thesis unfolding safeReturnPath_def option.case Let_def u using h by simp
  qed
  show "leaves_site (safeReturnPath (Some ?r))" unfolding e leaves_site_def by simp
qed

lemma return_path_dots_witness:
  "safeReturnPath (Some ''/.//evil.example'') = ''//evil.example'' \<and> \<not> leaves_site (safeReturnPath (Some ''/api-keys?tab=1''))"
proof -
  have "\<not> dotted ''/api-keys?tab=1''" by code_simp
  moreover have "list_all (\<lambda>c. is_alnum c \<or> c = CHR ''.'' \<or> c = CHR ''-'') ''evil.example''" "is_alnum (hd ''evil.example'')" by code_simp+
  ultimately show ?thesis
    using return_path_dots [of "''/api-keys?tab=1''" "''evil.example''"] by simp
qed

section \<open>The spelling of a reference\<close>

definition ref_char :: "char \<Rightarrow> bool" where "ref_char c \<longleftrightarrow> c \<in> set (PROOF_REF_ALPHABET @ ''-'')"

lemma ref_groups_chars: "ref_groups n alphabet s \<Longrightarrow> set s \<subseteq> insert (CHR ''-'') (set alphabet) \<and> length s = 5 * n"
  by (induction n alphabet s rule: ref_groups.induct) (auto split: list.splits)

lemma proof_ref_shape:
  assumes "isProofRef ref"
  shows "startsWith ref ''BZM''" "list_all ref_char ref" "length ref = 33 \<or> length ref = 13"
proof -
  obtain t where t: "ref = ''BZM'' @ t" "ref_groups 6 PROOF_REF_ALPHABET t \<or> ref_groups 2 ''0123456789ABCDEF'' t"
    using assms by (auto simp: isProofRef_def SECURE_V1_def LEGACY_V0_def prefix_def)
  show "startsWith ref ''BZM''" using t(1) by simp
  have "set ''0123456789ABCDEF'' \<subseteq> set PROOF_REF_ALPHABET" by (simp add: PROOF_REF_ALPHABET_def)
  then have c: "set t \<subseteq> insert (CHR ''-'') (set PROOF_REF_ALPHABET)" using t(2) ref_groups_chars by blast
  have b: "list_all ref_char ''BZM''" by code_simp
  have "\<forall>c \<in> set t. ref_char c" using c by (auto simp: ref_char_def)
  then show "list_all ref_char ref" unfolding t(1) using b by (simp add: list_all_iff)
  show "length ref = 33 \<or> length ref = 13" using t ref_groups_chars by fastforce
qed

lemma ref_char_visible: "ref_char c \<Longrightarrow> \<not> invisible c \<and> c \<notin> set ''/?#''"
proof -
  have "list_all (\<lambda>c. \<not> invisible c \<and> c \<notin> set ''/?#'') (PROOF_REF_ALPHABET @ ''-'')" by code_simp
  then show "ref_char c \<Longrightarrow> \<not> invisible c \<and> c \<notin> set ''/?#''" unfolding list_all_iff ref_char_def by blast
qed

lemma link_of_ref:
  assumes "isProofRef ref" "s = ''banzami.com/r/'' @ ref \<or> s = ''https://banzami.com/r/'' @ ref"
  shows "VERIFICATION_LINK s = Some ref" "\<not> isProofRef s" "\<not> list_ex invisible s"
proof -
  have c: "\<forall>c \<in> set ref. \<not> invisible c \<and> c \<notin> set ''/?#''"
    using proof_ref_shape(2) [OF assms(1)] ref_char_visible unfolding list_all_iff by blast
  then show "VERIFICATION_LINK s = Some ref" using assms(2) unfolding VERIFICATION_LINK_def Let_def list_all_iff by (elim disjE) simp_all
  have "hd s \<noteq> CHR ''B''" using assms(2) by (elim disjE) simp_all
  moreover have "hd s = CHR ''B''" if "isProofRef s" using proof_ref_shape(1) [OF that] by (auto simp: prefix_def)
  ultimately show "\<not> isProofRef s" by blast
  have "\<not> list_ex invisible ''https://banzami.com/r/''" "\<not> list_ex invisible ''banzami.com/r/''" by code_simp+
  moreover have "\<not> list_ex invisible ref" using c unfolding list_ex_iff by blast
  ultimately show "\<not> list_ex invisible s" using assms(2) by (metis list_ex_append)
qed

text \<open>A proof reference is read exactly: what is typed is accepted only when it is a canonical reference, or the printed
  link of one with its scheme or without, and then the reference is taken as it is written; every such text is
  accepted; and the page of the reference is the one address that keeps its path.\<close>

theorem proof_reference_exact:
  "(parseProofInput s = Inr ref \<longleftrightarrow>
      isProofRef ref \<and> (s = ref \<or> s = ''banzami.com/r/'' @ ref \<or> s = ''https://banzami.com/r/'' @ ref)) \<and>
   (proofPagePath (''/r/'' @ s) = Some (''/r/'' @ s) \<longleftrightarrow> isProofRef s \<or> s = ''_'')"
proof
  show "parseProofInput s = Inr ref \<longleftrightarrow>
      isProofRef ref \<and> (s = ref \<or> s = ''banzami.com/r/'' @ ref \<or> s = ''https://banzami.com/r/'' @ ref)"
  proof
    assume p: "parseProofInput s = Inr ref"
    then have "isProofRef ref \<and> (s = ref \<or> VERIFICATION_LINK s = Some ref)"
      by (auto simp: parseProofInput_def split: if_splits option.splits)
    moreover have "s = ''banzami.com/r/'' @ ref \<or> s = ''https://banzami.com/r/'' @ ref" if "VERIFICATION_LINK s = Some ref"
      using that by (auto simp: VERIFICATION_LINK_def Let_def prefix_def split: if_splits)
    ultimately show "isProofRef ref \<and> (s = ref \<or> s = ''banzami.com/r/'' @ ref \<or> s = ''https://banzami.com/r/'' @ ref)" by blast
  next
    assume r: "isProofRef ref \<and> (s = ref \<or> s = ''banzami.com/r/'' @ ref \<or> s = ''https://banzami.com/r/'' @ ref)"
    show "parseProofInput s = Inr ref"
    proof (cases "s = ref")
      case True
      have "isProofRef ref" using r by blast
      note shape = proof_ref_shape [OF this]
      have "ref \<noteq> []" using shape(1) by auto
      moreover have "\<not> list_ex invisible ref" using shape(2) ref_char_visible unfolding list_all_iff list_ex_iff by blast
      ultimately have "ref \<noteq> []" "\<not> list_ex invisible ref" .
      then show ?thesis using r True by (simp add: parseProofInput_def)
    next
      case False
      then have s: "s = ''banzami.com/r/'' @ ref \<or> s = ''https://banzami.com/r/'' @ ref" and ref: "isProofRef ref" using r by auto
      have "s \<noteq> []" using s by auto
      then show ?thesis using link_of_ref [OF ref s] ref by (simp add: parseProofInput_def)
    qed
  qed
next
  show "proofPagePath (''/r/'' @ s) = Some (''/r/'' @ s) \<longleftrightarrow> isProofRef s \<or> s = ''_''"
    by (auto simp: proofPagePath_def NOT_A_REFERENCE_PATH_def)
qed

end
