(* ===== verification/WebProof.thy ===== *)
theory WebProof
  imports WebConsole Json
begin

text \<open>
  The public verification of a proof (apps/website): the platform mode and the stack that answers for it, the
  lookup (lib/api.ts), the header that names the reader (lib/proof-reader.ts) and the status the page answers
  with (lib/proof-view.ts).

  The network is a parameter: what a request is answered, a status and a body that may not parse, or
  nothing at all. Texts for people are left out; a result keeps the members it was given.
\<close>

section \<open>Requests and the platform mode (lib/api.ts)\<close>

record web_call =
  wc_url :: string
  wc_headers :: "(string \<times> string) list"

record web_reply =
  wy_status :: nat
  wy_body :: "json option"

type_synonym web_net = "web_call \<Rightarrow> web_reply option"

definition reply_ok :: "web_reply \<Rightarrow> bool" where
  "reply_ok r \<longleftrightarrow> 200 \<le> wy_status r \<and> wy_status r \<le> 299"

datatype platform_mode = LIVE_MODE | SANDBOX_MODE

definition LIVE_API_BASE :: string where "LIVE_API_BASE = ''https://api.banzami.com''"

definition SANDBOX_API_BASE :: string where "SANDBOX_API_BASE = ''https://sandbox-api.banzami.com''"

text \<open>The address the deployment was built with, without its trailing slashes.\<close>

definition web_api_base :: "string option \<Rightarrow> string" where
  "web_api_base configured = drop_slashes (case configured of Some u \<Rightarrow> if u = [] then LIVE_API_BASE else u | None \<Rightarrow> LIVE_API_BASE)"

definition KNOWN_PROD_BASE :: "string \<Rightarrow> bool" where
  "KNOWN_PROD_BASE base \<longleftrightarrow> base = LIVE_API_BASE \<or> suffix ''sandbox-api.banzami.com'' base"

definition baseForMode :: "string \<Rightarrow> platform_mode \<Rightarrow> string" where
  "baseForMode base m =
     (if \<not> KNOWN_PROD_BASE base then base
      else case m of SANDBOX_MODE \<Rightarrow> SANDBOX_API_BASE | LIVE_MODE \<Rightarrow> LIVE_API_BASE)"

definition mode_call :: "string \<Rightarrow> web_call" where
  "mode_call base = \<lparr> wc_url = base @ ''/v1/platform-mode'', wc_headers = [] \<rparr>"

definition mode_of :: "json \<Rightarrow> platform_mode option" where
  "mode_of j =
     (if jget ''mode'' j = Some (JStr ''LIVE'') then Some LIVE_MODE
      else if jget ''mode'' j = Some (JStr ''SANDBOX'') then Some SANDBOX_MODE else None)"

definition readPlatformMode :: "web_net \<Rightarrow> string \<Rightarrow> platform_mode option" where
  "readPlatformMode net base =
     (case net (mode_call base) of
        None \<Rightarrow> None
      | Some r \<Rightarrow> if \<not> reply_ok r then None else (case wy_body r of None \<Rightarrow> None | Some j \<Rightarrow> mode_of j))"

text \<open>What the site shows; on any failure the Sandbox.\<close>

record mode_info =
  mi_mode :: platform_mode
  mi_banner :: bool

definition getPlatformMode :: "web_net \<Rightarrow> string \<Rightarrow> mode_info" where
  "getPlatformMode net base =
     (let fallback = \<lparr> mi_mode = SANDBOX_MODE, mi_banner = True \<rparr>
      in case net (mode_call base) of
           None \<Rightarrow> fallback
         | Some r \<Rightarrow>
             if \<not> reply_ok r then fallback
             else (case wy_body r of
                     None \<Rightarrow> fallback
                   | Some j \<Rightarrow>
                       (case mode_of j of
                          None \<Rightarrow> fallback
                        | Some m \<Rightarrow> \<lparr> mi_mode = m, mi_banner = json_truthy (jget ''public_banner'' j) \<rparr>)))"

text \<open>The stack of the mode, remembered for half a minute.\<close>

definition platformTarget ::
  "web_net \<Rightarrow> string \<Rightarrow> int \<Rightarrow> (int \<times> string \<times> platform_mode) option \<Rightarrow>
   (string \<times> platform_mode) \<times> (int \<times> string \<times> platform_mode) option" where
  "platformTarget net base now memo =
     (case memo of
        Some (at, v) \<Rightarrow>
          if now - at < 30000 then (v, memo)
          else (let m = mi_mode (getPlatformMode net base); w = (baseForMode base m, m) in (w, Some (now, w)))
      | None \<Rightarrow> (let m = mi_mode (getPlatformMode net base); w = (baseForMode base m, m) in (w, Some (now, w))))"

section \<open>Who is reading (lib/proof-reader.ts)\<close>

definition PROOF_READER_HEADER :: string where "PROOF_READER_HEADER = ''X-Banzami-Reader-IP''"

text \<open>A number up to 255 without a leading zero, as the alternatives of the expression spell it.\<close>

definition octet :: "string \<Rightarrow> bool" where
  "octet s \<longleftrightarrow> s \<noteq> [] \<and> length s \<le> 3 \<and> list_all is_digit s \<and> (length s > 1 \<longrightarrow> hd s \<noteq> CHR ''0'') \<and> dec_val s \<le> 255"

definition IPV4 :: "string \<Rightarrow> bool" where
  "IPV4 v \<longleftrightarrow> length (split_on (CHR ''.'') v) = 4 \<and> list_all octet (split_on (CHR ''.'') v)"

definition hex_any :: "char \<Rightarrow> bool" where
  "hex_any c \<longleftrightarrow> is_digit c \<or> c \<in> set ''abcdefABCDEF''"

definition IPV6 :: "string \<Rightarrow> bool" where
  "IPV6 v \<longleftrightarrow> 2 \<le> length v \<and> length v \<le> 39 \<and> list_all (\<lambda>c. hex_any c \<or> c = CHR '':'') v"

text \<open>How many parts \<open>v.split('::')\<close> gives.\<close>

fun colon_parts :: "string \<Rightarrow> nat" where
  "colon_parts (a # b # s) = (if a = CHR '':'' \<and> b = CHR '':'' then Suc (colon_parts s) else colon_parts (b # s))"
| "colon_parts _ = 1"

definition isAddress :: "string \<Rightarrow> bool" where
  "isAddress v \<longleftrightarrow> IPV4 v \<or> IPV6 v \<and> 2 \<le> length (filter (\<lambda>c. c = CHR '':'') v) \<and> colon_parts v \<le> 2"

definition readerIpFrom :: "(string \<Rightarrow> string option) \<Rightarrow> string option" where
  "readerIpFrom header =
     (let v = js_trim (case header ''x-real-ip'' of Some h \<Rightarrow> h | None \<Rightarrow> []) in if isAddress v then Some v else None)"

definition proofReaderHeaders :: "string option \<Rightarrow> (string \<times> string) list" where
  "proofReaderHeaders ip =
     (case ip of
        Some v \<Rightarrow> if v \<noteq> [] \<and> isAddress v then [(PROOF_READER_HEADER, v)] else []
      | None \<Rightarrow> [])"

section \<open>The lookup (lib/api.ts)\<close>

record proof_result =
  pr_exists :: bool
  pr_status :: "json option"
  pr_reason :: "string option"
  pr_environment :: "platform_mode option"
  pr_members :: "(string \<times> json) list"

definition refused_reference :: proof_result where
  "refused_reference = \<lparr> pr_exists = False, pr_status = Some (JStr ''INVALID_REFERENCE''), pr_reason = None,
     pr_environment = None, pr_members = [] \<rparr>"

definition proof_unavailable :: "platform_mode option \<Rightarrow> string \<Rightarrow> proof_result" where
  "proof_unavailable asked why = \<lparr> pr_exists = False, pr_status = Some (JStr ''UNAVAILABLE''), pr_reason = Some why,
     pr_environment = asked, pr_members = [] \<rparr>"

definition proof_limited :: "platform_mode option \<Rightarrow> proof_result" where
  "proof_limited asked = \<lparr> pr_exists = False, pr_status = Some (JStr ''RATE_LIMITED''), pr_reason = None,
     pr_environment = asked, pr_members = [] \<rparr>"

definition members_of :: "json \<Rightarrow> (string \<times> json) list" where
  "members_of j = (case j of JObj ms \<Rightarrow> ms | _ \<Rightarrow> [])"

definition proof_call :: "string \<Rightarrow> string \<Rightarrow> string option \<Rightarrow> web_call" where
  "proof_call base ref ip =
     \<lparr> wc_url = base @ ''/v1/public/proofs/'' @ encodeURIComponent ref, wc_headers = proofReaderHeaders ip \<rparr>"

text \<open>The environment of a body: the stack's when the body does not name one, none when it cannot be read.\<close>

definition body_environment :: "platform_mode \<Rightarrow> json \<Rightarrow> platform_mode option" where
  "body_environment m j =
     (case jget ''environment'' j of
        None \<Rightarrow> Some m
      | Some (JStr s) \<Rightarrow> if s = ''LIVE'' then Some LIVE_MODE else if s = ''SANDBOX'' then Some SANDBOX_MODE else None
      | Some _ \<Rightarrow> None)"

definition readProof :: "platform_mode \<Rightarrow> web_reply option \<Rightarrow> proof_result" where
  "readProof m reply =
     (case reply of
        None \<Rightarrow> proof_unavailable (Some m) ''network_error''
      | Some r \<Rightarrow>
          if 500 \<le> wy_status r then proof_unavailable (Some m) (''upstream_'' @ nat_str (wy_status r))
          else if wy_status r = 429 then proof_limited (Some m)
          else (case wy_body r of
                  None \<Rightarrow> proof_unavailable (Some m) ''unparseable_response''
                | Some j \<Rightarrow>
                    (case jget ''exists'' j of
                       Some (JBool b) \<Rightarrow>
                         (case body_environment m j of
                            None \<Rightarrow> proof_unavailable (Some m) ''proof_environment_unknown''
                          | Some env \<Rightarrow>
                              if wy_status r = 404 then
                                \<lparr> pr_exists = False,
                                  pr_status = (if json_truthy (jget ''status'' j) then jget ''status'' j else Some (JStr ''NOT_FOUND'')),
                                  pr_reason = None, pr_environment = Some env, pr_members = members_of j \<rparr>
                              else if wy_status r \<noteq> 200 then
                                proof_unavailable (Some m) (''unexpected_status_'' @ nat_str (wy_status r))
                              else
                                \<lparr> pr_exists = b, pr_status = jget ''status'' j, pr_reason = None, pr_environment = Some env,
                                  pr_members = members_of j \<rparr>)
                     | _ \<Rightarrow> proof_unavailable (Some m) ''unparseable_response'')))"

text \<open>The result of a lookup, with the requests it made.\<close>

definition getProof :: "web_net \<Rightarrow> string \<Rightarrow> string \<Rightarrow> string option \<Rightarrow> proof_result \<times> web_call list" where
  "getProof net base ref ip =
     (if \<not> isProofRef ref then (refused_reference, [])
      else (case readPlatformMode net base of
              None \<Rightarrow> (proof_unavailable None ''platform_mode_unknown'', [mode_call base])
            | Some m \<Rightarrow>
                (let call = proof_call (baseForMode base m) ref ip
                 in (readProof m (net call), [mode_call base, call]))))"

section \<open>The status of the page (lib/proof-view.ts)\<close>

definition INCONCLUSIVE :: "(string \<times> nat) list" where
  "INCONCLUSIVE = [(''UNAVAILABLE'', 503), (''ERROR'', 503), (''RATE_LIMITED'', 429)]"

definition proofHttpStatus :: "proof_result \<Rightarrow> nat" where
  "proofHttpStatus p =
     (if pr_exists p then 200
      else (case pr_status p of
              Some (JStr s) \<Rightarrow> (case map_of INCONCLUSIVE s of Some n \<Rightarrow> n | None \<Rightarrow> 404)
            | _ \<Rightarrow> 404))"

definition proofDefinitivelyAbsent :: "proof_result \<Rightarrow> bool" where
  "proofDefinitivelyAbsent p \<longleftrightarrow> proofHttpStatus p = 404"

section \<open>What a lookup may conclude\<close>

definition proof_answered :: "web_net \<Rightarrow> string \<Rightarrow> string \<Rightarrow> string option \<Rightarrow> web_reply \<Rightarrow> bool \<Rightarrow> bool" where
  "proof_answered net base ref ip r b \<longleftrightarrow>
     isProofRef ref \<and>
     (\<exists>m j. readPlatformMode net base = Some m \<and> net (proof_call (baseForMode base m) ref ip) = Some r \<and>
        wy_body r = Some j \<and> jget ''exists'' j = Some (JBool b) \<and> body_environment m j \<noteq> None)"

lemma unavailable_status [simp]:
  "proofHttpStatus (proof_unavailable m why) = 503" "proofHttpStatus (proof_limited m) = 429"
  "proofHttpStatus refused_reference = 404"
  unfolding proofHttpStatus_def proof_unavailable_def proof_limited_def refused_reference_def INCONCLUSIVE_def by simp_all

lemma no_result [simp]:
  "\<not> pr_exists (proof_unavailable m why)" "\<not> pr_exists (proof_limited m)" "\<not> pr_exists refused_reference"
  by (simp_all add: proof_unavailable_def proof_limited_def refused_reference_def)

lemma readProof_cases:
  obtains (inconclusive) "proofHttpStatus (readProof m reply) \<in> {503, 429}" "\<not> pr_exists (readProof m reply)"
  | (absent) r j b where "reply = Some r" "wy_body r = Some j" "jget ''exists'' j = Some (JBool b)" "wy_status r = 404"
      "\<not> pr_exists (readProof m reply)" "body_environment m j \<noteq> None"
  | (told) r j b env where "reply = Some r" "wy_body r = Some j" "jget ''exists'' j = Some (JBool b)" "wy_status r = 200"
      "pr_exists (readProof m reply) = b" "body_environment m j = Some env" "pr_environment (readProof m reply) = Some env"
proof -
  have "proofHttpStatus (readProof m reply) \<in> {503, 429} \<and> \<not> pr_exists (readProof m reply) \<or>
    (\<exists>r j b. reply = Some r \<and> wy_body r = Some j \<and> jget ''exists'' j = Some (JBool b) \<and> wy_status r = 404 \<and>
      \<not> pr_exists (readProof m reply) \<and> body_environment m j \<noteq> None) \<or>
    (\<exists>r j b env. reply = Some r \<and> wy_body r = Some j \<and> jget ''exists'' j = Some (JBool b) \<and> wy_status r = 200 \<and>
      pr_exists (readProof m reply) = b \<and> body_environment m j = Some env \<and> pr_environment (readProof m reply) = Some env)"
  proof (cases reply)
    case None
    then show ?thesis by (simp add: readProof_def)
  next
    case (Some r)
    show ?thesis
    proof (cases "500 \<le> wy_status r \<or> wy_status r = 429")
      case True
      then show ?thesis using Some by (auto simp: readProof_def)
    next
      case False
      then show ?thesis
        using Some by (auto simp: readProof_def split: option.split json.split if_split)
    qed
  qed
  then show thesis using that by blast
qed

lemma status_cases: "proofHttpStatus p \<in> {200, 404, 429, 503}"
  by (auto simp: proofHttpStatus_def INCONCLUSIVE_def split: option.splits json.splits if_splits)

lemma exists_status: "pr_exists p \<longleftrightarrow> proofHttpStatus p = 200"
  by (auto simp: proofHttpStatus_def INCONCLUSIVE_def split: option.splits json.splits if_splits)

lemma no_mode:
  assumes "isProofRef ref" "readPlatformMode net base = None"
  shows "fst (getProof net base ref ip) = proof_unavailable None ''platform_mode_unknown''"
  using assms by (simp add: getProof_def)

lemma with_mode:
  assumes "isProofRef ref" "readPlatformMode net base = Some m"
  shows "fst (getProof net base ref ip) = readProof m (net (proof_call (baseForMode base m) ref ip))"
  using assms by (simp add: getProof_def Let_def)

text \<open>C14. The page calls a proof absent only on an answer. Its status is 200, 404, 429 or 503; it is 404 only for a text that
  is no reference, or when the stack of the known platform mode was asked for it and gave a readable body, with
  404, or with 200 and no such proof; it is 200 exactly when that stack said, with 200, that the proof exists. Whatever
  else the network does, nothing is said of the proof. And a text that is no reference is never sent.\<close>

theorem absence_needs_an_answer:
  "proofHttpStatus (fst (getProof net base ref ip)) \<in> {200, 404, 429, 503} \<and>
   (proofDefinitivelyAbsent (fst (getProof net base ref ip)) \<longrightarrow>
      \<not> isProofRef ref \<or>
      (\<exists>r b. proof_answered net base ref ip r b \<and> (wy_status r = 404 \<or> wy_status r = 200 \<and> \<not> b))) \<and>
   (proofHttpStatus (fst (getProof net base ref ip)) = 200 \<longleftrightarrow>
      (\<exists>r. proof_answered net base ref ip r True \<and> wy_status r = 200)) \<and>
   (\<not> isProofRef ref \<longrightarrow> snd (getProof net base ref ip) = [])"
proof (cases "isProofRef ref")
  case False
  then show ?thesis by (simp add: getProof_def proof_answered_def)
next
  case ref: True
  show ?thesis
  proof (cases "readPlatformMode net base")
    case None
    then show ?thesis using no_mode [OF ref None] ref by (simp add: proof_answered_def proofDefinitivelyAbsent_def)
  next
    case (Some m)
    note g = with_mode [OF ref Some, of ip]
    show ?thesis
    proof (cases rule: readProof_cases [of m "net (proof_call (baseForMode base m) ref ip)"])
      case inconclusive
      have "\<not> (proof_answered net base ref ip r True \<and> wy_status r = 200)" for r
        using inconclusive(2) Some by (auto simp: proof_answered_def readProof_def)
      then show ?thesis unfolding g using inconclusive ref by (auto simp: proofDefinitivelyAbsent_def)
    next
      case (absent r j b)
      then show ?thesis unfolding g using ref Some status_cases
        by (auto simp: proofDefinitivelyAbsent_def proof_answered_def exists_status)
    next
      case (told r j b env)
      then show ?thesis unfolding g using ref Some status_cases
        by (auto simp: proofDefinitivelyAbsent_def proof_answered_def exists_status)
    qed
  qed
qed

definition demo_ref :: string where "demo_ref = ''BZM-0123-4567''"

definition demo_net :: web_net where
  "demo_net c =
     (if wc_url c = ''https://api.banzami.com/v1/platform-mode''
      then Some \<lparr> wy_status = 200, wy_body = Some (JObj [(''mode'', JStr ''SANDBOX'')]) \<rparr>
      else if wc_url c = ''https://sandbox-api.banzami.com/v1/public/proofs/BZM-0123-4567''
      then Some \<lparr> wy_status = 404, wy_body = Some (JObj [(''exists'', JBool False)]) \<rparr>
      else None)"

lemma absence_needs_an_answer_witness:
  "proofDefinitivelyAbsent (fst (getProof demo_net LIVE_API_BASE demo_ref None)) \<and> isProofRef demo_ref \<and>
   (\<exists>r b. proof_answered demo_net LIVE_API_BASE demo_ref None r b) \<and> snd (getProof demo_net LIVE_API_BASE ''BZM-O123-4567'' None) = []"
proof -
  have "proofDefinitivelyAbsent (fst (getProof demo_net LIVE_API_BASE demo_ref None))" "isProofRef demo_ref" "\<not> isProofRef ''BZM-O123-4567''"
    by code_simp+
  then show ?thesis
    using absence_needs_an_answer [of demo_net LIVE_API_BASE demo_ref None]
      absence_needs_an_answer [of demo_net LIVE_API_BASE "''BZM-O123-4567''" None] by blast
qed

text \<open>The header that names the reader carries one short word of hexadecimal digits, dots and colons, so nothing
  that ends a header or starts another. It need not be one address, though.\<close>

lemma octet_digits: "octet s \<Longrightarrow> list_all is_digit s \<and> length s \<le> 3"
  by (simp add: octet_def)

lemma address_chars:
  assumes "isAddress v"
  shows "list_all (\<lambda>c. hex_any c \<or> c = CHR '':'' \<or> c = CHR ''.'') v"
proof (cases "IPV4 v")
  case True
  then have "\<forall>p \<in> set (split_on (CHR ''.'') v). \<forall>c \<in> set p. is_digit c"
    using octet_digits by (auto simp: IPV4_def list_all_iff)
  then have "\<forall>c \<in> set v. is_digit c \<or> c = CHR ''.''"
  proof (induction v)
    case (Cons x v)
    obtain p ps where "split_on (CHR ''.'') v = p # ps" by (meson split_on_nonempty neq_Nil_conv)
    then show ?case using Cons by (auto split: if_splits)
  qed simp
  then show ?thesis unfolding list_all_iff hex_any_def by blast
next
  case False
  then show ?thesis using assms by (auto simp: isAddress_def IPV6_def list_all_iff)
qed

lemma reader_header_plain:
  assumes "c \<in> set (snd (getProof net base ref ip))" "(h, v) \<in> set (wc_headers c)"
  shows "h = PROOF_READER_HEADER \<and> ip = Some v \<and> list_all (\<lambda>c. hex_any c \<or> c = CHR '':'' \<or> c = CHR ''.'') v"
  using assms address_chars
  by (auto simp: getProof_def proof_call_def mode_call_def proofReaderHeaders_def Let_def split: if_splits option.splits)

lemma three_colons_pass: "isAddress '':::'' \<and> isAddress ''1:2:3:4:5:6:7:8:9:a:b:c:d''"
  by code_simp

end
