(* ===== verification/WebDevelopers.thy ===== *)
theory WebDevelopers
  imports WebConsole
begin

text \<open>
  The Developers Console's own rules (apps/website/lib): who may do what in a workspace (developer-roles.ts), the
  submission of a sign-in code (otp-submit-coordinator.ts) and the financial onboarding of a project
  (financial-onboarding.ts): the state that is shown, the documents that may be sent, the consent codes and the
  fields of the form. Texts for people are left out.
\<close>

section \<open>Roles (lib/developer-roles.ts)\<close>

definition ROLES :: "string list" where
  "ROLES = [''OWNER'', ''ADMIN'', ''DEVELOPER'', ''FINANCE'', ''VIEWER'']"

text \<open>The operator \<open>in\<close> also finds what every object inherits.\<close>

definition object_names :: "string list" where
  "object_names = [''constructor'', ''__defineGetter__'', ''__defineSetter__'', ''hasOwnProperty'', ''__lookupGetter__'',
     ''__lookupSetter__'', ''isPrototypeOf'', ''propertyIsEnumerable'', ''toString'', ''valueOf'', ''__proto__'', ''toLocaleString'']"

definition isKnownRole :: "string \<Rightarrow> bool" where "isKnownRole r \<longleftrightarrow> r \<in> set ROLES \<or> r \<in> set object_names"

definition isManager :: "string \<Rightarrow> bool" where "isManager r \<longleftrightarrow> r = ''OWNER'' \<or> r = ''ADMIN''"

definition canBuild :: "string \<Rightarrow> bool" where
  "canBuild r \<longleftrightarrow> r = ''OWNER'' \<or> r = ''ADMIN'' \<or> r = ''DEVELOPER''"

definition canRefund :: "string \<Rightarrow> bool" where "canRefund r \<longleftrightarrow> r = ''OWNER'' \<or> r = ''ADMIN''"

definition canAssign :: "string \<Rightarrow> string \<Rightarrow> bool" where
  "canAssign actor target =
     (if actor = ''OWNER'' then True
      else if actor = ''ADMIN'' then target = ''DEVELOPER'' \<or> target = ''FINANCE'' \<or> target = ''VIEWER''
      else False)"

definition canModifyTarget :: "string \<Rightarrow> string \<Rightarrow> bool" where
  "canModifyTarget actor target =
     (if actor = ''OWNER'' then True
      else if actor = ''ADMIN'' then target \<noteq> ''OWNER'' \<and> target \<noteq> ''ADMIN''
      else False)"

definition assignableRoles :: "string \<Rightarrow> string list" where
  "assignableRoles actor = filter (canAssign actor) ROLES"

definition at_least_as :: "string \<Rightarrow> string \<Rightarrow> bool" where
  "at_least_as a t \<longleftrightarrow>
     (canBuild t \<longrightarrow> canBuild a) \<and> (canRefund t \<longrightarrow> canRefund a) \<and> (isManager t \<longrightarrow> isManager a) \<and>
     (\<forall>x. canAssign t x \<longrightarrow> canAssign a x) \<and> (\<forall>x. canModifyTarget t x \<longrightarrow> canModifyTarget a x)"

lemmas role_defs = canBuild_def canRefund_def isManager_def canAssign_def canModifyTarget_def

text \<open>Nobody hands out or takes away more than they hold: a role that may be granted, and a role whose member may be
  changed, can do nothing its giver cannot; what may be granted is what is offered, and only managers are offered
  anything. But an administrator may change a member whose role this build does not know, which it may not grant.\<close>

theorem roles_do_not_escalate:
  "(canAssign a t \<or> canModifyTarget a t \<longrightarrow> at_least_as a t) \<and>
   (t \<in> set (assignableRoles a) \<longleftrightarrow> t \<in> set ROLES \<and> canAssign a t) \<and> (assignableRoles a \<noteq> [] \<longleftrightarrow> isManager a) \<and>
   (\<not> isKnownRole t \<longrightarrow> canModifyTarget ''ADMIN'' t \<and> \<not> canAssign ''ADMIN'' t)"
proof (intro conjI impI)
  show "at_least_as a t" if "canAssign a t \<or> canModifyTarget a t"
    using that unfolding at_least_as_def by (auto simp: role_defs split: if_splits)
  show "t \<in> set (assignableRoles a) \<longleftrightarrow> t \<in> set ROLES \<and> canAssign a t"
    by (auto simp: assignableRoles_def)
  show "assignableRoles a \<noteq> [] \<longleftrightarrow> isManager a"
  proof -
    have "assignableRoles ''OWNER'' \<noteq> []" "assignableRoles ''ADMIN'' \<noteq> []" by code_simp+
    moreover have "assignableRoles a = []" if "\<not> isManager a"
      using that by (simp add: assignableRoles_def isManager_def canAssign_def)
    ultimately show ?thesis by (auto simp: isManager_def)
  qed
qed (auto simp: isKnownRole_def ROLES_def role_defs)

lemma roles_do_not_escalate_witness:
  "at_least_as ''ADMIN'' ''FINANCE'' \<and> canModifyTarget ''ADMIN'' ''OWNER_DELEGATE'' \<and> \<not> canAssign ''ADMIN'' ''OWNER_DELEGATE''"
  using roles_do_not_escalate [of "''ADMIN''" "''FINANCE''"] roles_do_not_escalate [of "''ADMIN''" "''OWNER_DELEGATE''"]
  by (simp add: canAssign_def isKnownRole_def ROLES_def object_names_def)

section \<open>The submission of a code (lib/otp-submit-coordinator.ts)\<close>

text \<open>
  What the page does: a complete code arrives, and the attempt it may start returns a promise or throws before
  it does; an attempt settles; the code becomes incomplete. What is seen: an attempt starts, is answered, and
  submission is armed again.
\<close>

datatype otp_event = CodeTyped string bool | AttemptSettled | CodeIncomplete

datatype otp_seen = Started string | Answered | Rearmed

record coordinator =
  co_inFlight :: bool
  co_lastSubmitted :: string
  co_running :: nat

definition createSubmitCoordinator :: coordinator where
  "createSubmitCoordinator = \<lparr> co_inFlight = False, co_lastSubmitted = [], co_running = 0 \<rparr>"

definition otp_submit :: "nat \<Rightarrow> string \<Rightarrow> bool \<Rightarrow> coordinator \<Rightarrow> coordinator \<times> otp_seen list" where
  "otp_submit n code throws c =
     (if length code \<noteq> n then (c, [])
      else if co_inFlight c \<or> co_lastSubmitted c = code then (c, [])
      else (c\<lparr>co_inFlight := True, co_lastSubmitted := code, co_running := (if throws then co_running c else Suc (co_running c))\<rparr>,
            [Started code]))"

definition otp_settle :: "coordinator \<Rightarrow> coordinator \<times> otp_seen list" where
  "otp_settle c =
     (if co_running c = 0 then (c, [])
      else (c\<lparr>co_inFlight := False, co_running := co_running c - 1\<rparr>, [Answered]))"

definition otp_invalidate :: "coordinator \<Rightarrow> coordinator \<times> otp_seen list" where
  "otp_invalidate c = (c\<lparr>co_lastSubmitted := []\<rparr>, [Rearmed])"

fun otp_step :: "nat \<Rightarrow> otp_event \<Rightarrow> coordinator \<Rightarrow> coordinator \<times> otp_seen list" where
  "otp_step n (CodeTyped code throws) c = otp_submit n code throws c"
| "otp_step n AttemptSettled c = otp_settle c"
| "otp_step n CodeIncomplete c = otp_invalidate c"

fun otp_run :: "nat \<Rightarrow> otp_event list \<Rightarrow> coordinator \<Rightarrow> coordinator \<times> otp_seen list" where
  "otp_run n [] c = (c, [])"
| "otp_run n (e # es) c = (case otp_step n e c of (d, seen) \<Rightarrow> (case otp_run n es d of (d', more') \<Rightarrow> (d', seen @ more')))"

text \<open>What is known of a coordinator from what has been seen: the last attempt, what followed it, and the attempts
  under way.\<close>

definition no_start :: "otp_seen list \<Rightarrow> bool" where "no_start ys \<longleftrightarrow> (\<forall>c. Started c \<notin> set ys)"

definition otp_known :: "coordinator \<Rightarrow> otp_seen list \<Rightarrow> bool" where
  "otp_known c past \<longleftrightarrow>
     co_running c \<le> 1 \<and> (co_running c = 1 \<longrightarrow> co_inFlight c) \<and>
     (\<forall>xs a ys. past = xs @ Started a # ys \<longrightarrow> no_start ys \<longrightarrow>
        (co_inFlight c \<or> Answered \<in> set ys) \<and> (co_lastSubmitted c = a \<or> Rearmed \<in> set ys))"

definition once :: "otp_seen list \<Rightarrow> bool" where
  "once past \<longleftrightarrow>
     (\<forall>xs a ys b zs. past = xs @ Started a # ys @ Started b # zs \<longrightarrow> no_start ys \<longrightarrow>
        Answered \<in> set ys \<and> (a = b \<longrightarrow> Rearmed \<in> set ys))"

lemma snoc_split: "xs @ [x] = as @ b # cs \<longleftrightarrow> (cs = [] \<and> xs = as \<and> x = b) \<or> (\<exists>cs'. cs = cs' @ [x] \<and> xs = as @ b # cs')"
  by (cases cs rule: rev_cases) auto

lemma known_quiet:
  assumes "otp_known c past" "\<And>a. x \<noteq> Started a" "co_running d \<le> 1" "co_running d = 1 \<longrightarrow> co_inFlight d"
    and "co_inFlight c \<Longrightarrow> co_inFlight d \<or> x = Answered"
    and "co_lastSubmitted d = co_lastSubmitted c \<or> x = Rearmed"
  shows "otp_known d (past @ [x])"
  unfolding otp_known_def
proof (intro conjI allI impI)
  fix xs a ys
  assume s: "past @ [x] = xs @ Started a # ys" and n: "no_start ys"
  obtain ys' where ys: "ys = ys' @ [x]" "past = xs @ Started a # ys'" using s assms(2) unfolding snoc_split by blast
  have "no_start ys'" using n ys(1) by (simp add: no_start_def)
  then have k: "(co_inFlight c \<or> Answered \<in> set ys') \<and> (co_lastSubmitted c = a \<or> Rearmed \<in> set ys')"
    using assms(1) ys(2) unfolding otp_known_def by blast
  then show "co_inFlight d \<or> Answered \<in> set ys" using assms(5) ys(1) by auto
  show "co_lastSubmitted d = a \<or> Rearmed \<in> set ys" using k assms(6) ys(1) by auto
qed (use assms(3,4) in blast)+

lemma known_started:
  assumes "otp_known c past" "\<not> co_inFlight c" "co_lastSubmitted c \<noteq> b"
    and "d = c\<lparr>co_inFlight := True, co_lastSubmitted := b, co_running := r\<rparr>" "r \<le> 1"
  shows "otp_known d (past @ [Started b])"
  unfolding otp_known_def
proof (intro conjI allI impI)
  fix xs a ys
  assume s: "past @ [Started b] = xs @ Started a # ys" and n: "no_start ys"
  then have "ys = [] \<and> a = b" unfolding snoc_split no_start_def by auto
  then show "co_inFlight d \<or> Answered \<in> set ys" "co_lastSubmitted d = a \<or> Rearmed \<in> set ys" using assms(4) by simp_all
qed (use assms(4,5) in simp_all)

lemma once_quiet: "once past \<Longrightarrow> (\<And>a. x \<noteq> Started a) \<Longrightarrow> once (past @ [x])"
  unfolding once_def
proof (intro allI impI)
  fix xs a ys b zs
  assume p: "\<forall>xs a ys b zs. past = xs @ Started a # ys @ Started b # zs \<longrightarrow> no_start ys \<longrightarrow>
      Answered \<in> set ys \<and> (a = b \<longrightarrow> Rearmed \<in> set ys)"
    and x: "\<And>a. x \<noteq> Started a" and s: "past @ [x] = xs @ Started a # ys @ Started b # zs" and n: "no_start ys"
  have "past @ [x] = (xs @ Started a # ys) @ Started b # zs" using s by simp
  then obtain zs' where "past = xs @ Started a # ys @ Started b # zs'" using x unfolding snoc_split by fastforce
  then show "Answered \<in> set ys \<and> (a = b \<longrightarrow> Rearmed \<in> set ys)" using p n by blast
qed

lemma once_started:
  assumes "once past" "otp_known c past" "\<not> co_inFlight c" "co_lastSubmitted c \<noteq> b"
  shows "once (past @ [Started b])"
  unfolding once_def
proof (intro allI impI)
  fix xs a ys b' zs
  assume s: "past @ [Started b] = xs @ Started a # ys @ Started b' # zs" and n: "no_start ys"
  show "Answered \<in> set ys \<and> (a = b' \<longrightarrow> Rearmed \<in> set ys)"
  proof (cases zs rule: rev_cases)
    case Nil
    then have p: "past = xs @ Started a # ys" "b' = b" using s by simp_all
    have "(co_inFlight c \<or> Answered \<in> set ys) \<and> (co_lastSubmitted c = a \<or> Rearmed \<in> set ys)"
      using assms(2) p(1) n unfolding otp_known_def by blast
    then show ?thesis using assms(3,4) p(2) by auto
  next
    case (snoc zs' z)
    then have "past = xs @ Started a # ys @ Started b' # zs'" using s by simp
    then show ?thesis using assms(1) n unfolding once_def by blast
  qed
qed

lemma otp_step_keeps:
  assumes "otp_known c past" "once past" "otp_step n e c = (d, seen)"
  shows "otp_known d (past @ seen) \<and> once (past @ seen)"
proof (cases e)
  case (CodeTyped code throws)
  let ?r = "if throws then co_running c else Suc (co_running c)"
  show ?thesis
  proof (cases "length code \<noteq> n \<or> co_inFlight c \<or> co_lastSubmitted c = code")
    case True
    then have "d = c" "seen = []" using assms(3) CodeTyped by (auto simp: otp_submit_def split: if_splits)
    then show ?thesis using assms by simp
  next
    case False
    then have st: "seen = [Started code]" "d = c\<lparr>co_inFlight := True, co_lastSubmitted := code, co_running := ?r\<rparr>"
      using assms(3) CodeTyped by (simp_all add: otp_submit_def)
    have "?r \<le> 1" using assms(1) False unfolding otp_known_def by (auto simp: le_Suc_eq)
    then show ?thesis
      using known_started [OF assms(1) _ _ st(2)] once_started [OF assms(2,1), of code] False st(1) by simp
  qed
next
  case AttemptSettled
  then consider "d = c" "seen = []" | "seen = [Answered]" "d = c\<lparr>co_inFlight := False, co_running := co_running c - 1\<rparr>"
    using assms(3) by (auto simp: otp_settle_def split: if_splits)
  then show ?thesis
  proof cases
    case 2
    have "co_running d = 0" using assms(1) 2(2) unfolding otp_known_def by simp
    then show ?thesis using known_quiet [OF assms(1), of Answered d] once_quiet [OF assms(2), of Answered] 2 by simp
  qed (use assms in simp)
next
  case CodeIncomplete
  then have s: "seen = [Rearmed]" "d = c\<lparr>co_lastSubmitted := []\<rparr>" using assms(3) by (simp_all add: otp_invalidate_def)
  have "co_running d \<le> 1 \<and> (co_running d = 1 \<longrightarrow> co_inFlight d)" using assms(1) s(2) unfolding otp_known_def by simp
  then show ?thesis using known_quiet [OF assms(1), of Rearmed d] once_quiet [OF assms(2), of Rearmed] s by simp
qed

lemma otp_run_keeps:
  "otp_known c past \<Longrightarrow> once past \<Longrightarrow> otp_run n es c = (d, seen) \<Longrightarrow> otp_known d (past @ seen) \<and> once (past @ seen)"
proof (induction es arbitrary: c past d seen)
  case Nil
  then show ?case by simp
next
  case (Cons e es)
  obtain c' s' where st: "otp_step n e c = (c', s')" by fastforce
  obtain d' s'' where r: "otp_run n es c' = (d', s'')" by fastforce
  have eq: "d = d'" "seen = s' @ s''" using Cons.prems(3) st r by simp_all
  note k = otp_step_keeps [OF Cons.prems(1,2) st]
  show ?case using Cons.IH [OF conjunct1 [OF k] conjunct2 [OF k] r] eq by simp
qed



section \<open>The state that is shown (lib/financial-onboarding.ts)\<close>

datatype setup_state = UNCONFIGURED | SETUP_READY | SEALED | SETUP_UNAVAILABLE

text \<open>
  What the server says of a project: the setup state, the onboarding state where it sends one (a text, since a newer
  server may name a state this build does not know) with whether this member may act, and the settlement blockers
  where the readiness could be read.
\<close>

record project_setup =
  fs_state :: setup_state
  fs_can_configure :: bool
  fs_onboarding :: "(string \<times> bool) option"
  fs_blockers :: "string list option"
  fs_readiness_unavailable :: bool

definition ONBOARDING_STATES :: "string list" where
  "ONBOARDING_STATES = [''NOT_CONFIGURED'', ''IN_REVIEW'', ''INFORMATION_REQUIRED'', ''APPROVED_PROVISIONING'', ''REJECTED'',
     ''READY'', ''BLOCKED'', ''READINESS_UNKNOWN'']"

definition onboardingViewOf :: "project_setup \<Rightarrow> string" where
  "onboardingViewOf f =
     (if fs_state f = SETUP_UNAVAILABLE then ''UNAVAILABLE''
      else (let s = map_option fst (fs_onboarding f)
            in if s = Some ''READY'' \<and> fs_readiness_unavailable f then ''READINESS_UNKNOWN''
               else if (case s of Some v \<Rightarrow> v \<in> set ONBOARDING_STATES | None \<Rightarrow> False) then the s
               else if fs_state f = SETUP_READY \<or> fs_state f = SEALED then
                 (if fs_readiness_unavailable f then ''READINESS_UNKNOWN''
                  else if (case fs_blockers f of Some bs \<Rightarrow> 0 < length bs | None \<Rightarrow> False) then ''BLOCKED'' else ''READY'')
               else ''NOT_CONFIGURED''))"

definition canActOn :: "project_setup \<Rightarrow> bool" where
  "canActOn f =
     (if fs_state f = SETUP_UNAVAILABLE then False
      else case fs_onboarding f of Some (_, can) \<Rightarrow> can | None \<Rightarrow> fs_can_configure f)"

definition isFinancialActor :: "string \<Rightarrow> bool" where
  "isFinancialActor r \<longleftrightarrow> r = ''OWNER'' \<or> r = ''ADMIN''"

text \<open>A project is shown as ready only when the server says so, in either of its vocabularies, and never next to a readiness
  that could not be read; a known onboarding state is shown as it is sent. But an onboarding state this build does
  not know, and a readiness that is missing without the flag that says so, are both shown as ready when the
  setup itself is.\<close>

theorem ready_is_never_guessed:
  "(onboardingViewOf f = ''READY'' \<longleftrightarrow>
      fs_state f \<noteq> SETUP_UNAVAILABLE \<and> \<not> fs_readiness_unavailable f \<and>
      (map_option fst (fs_onboarding f) = Some ''READY'' \<or>
       (\<forall>s. map_option fst (fs_onboarding f) = Some s \<longrightarrow> s \<notin> set ONBOARDING_STATES) \<and>
       fs_state f \<in> {SETUP_READY, SEALED} \<and> fs_blockers f \<in> {None, Some []})) \<and>
   (fs_state f \<noteq> SETUP_UNAVAILABLE \<and> map_option fst (fs_onboarding f) = Some s \<and> s \<in> set ONBOARDING_STATES \<and> s \<noteq> ''READY'' \<longrightarrow>
      onboardingViewOf f = s)"
proof -
  have r: "''READY'' \<in> set ONBOARDING_STATES" by code_simp
  let ?s = "map_option fst (fs_onboarding f)"
  let ?ready = "fs_state f \<in> {SETUP_READY, SEALED} \<and> fs_blockers f \<in> {None, Some []}"
  have m: "onboardingViewOf f = ''READY'' \<longleftrightarrow> fs_state f \<noteq> SETUP_UNAVAILABLE \<and> \<not> fs_readiness_unavailable f \<and>
      (case ?s of Some s \<Rightarrow> if s \<in> set ONBOARDING_STATES then s = ''READY'' else ?ready | None \<Rightarrow> ?ready)"
    unfolding onboardingViewOf_def Let_def by (auto split: option.splits if_splits)
  show ?thesis
  proof (intro conjI impI)
    show "onboardingViewOf f = ''READY'' \<longleftrightarrow> fs_state f \<noteq> SETUP_UNAVAILABLE \<and> \<not> fs_readiness_unavailable f \<and>
      (?s = Some ''READY'' \<or> (\<forall>s. ?s = Some s \<longrightarrow> s \<notin> set ONBOARDING_STATES) \<and>
       fs_state f \<in> {SETUP_READY, SEALED} \<and> fs_blockers f \<in> {None, Some []})"
      unfolding m
    proof (cases ?s)
      case (Some v)
      show "(fs_state f \<noteq> SETUP_UNAVAILABLE \<and> \<not> fs_readiness_unavailable f \<and>
          (case ?s of Some s \<Rightarrow> if s \<in> set ONBOARDING_STATES then s = ''READY'' else ?ready | None \<Rightarrow> ?ready)) \<longleftrightarrow>
        (fs_state f \<noteq> SETUP_UNAVAILABLE \<and> \<not> fs_readiness_unavailable f \<and>
          (?s = Some ''READY'' \<or> (\<forall>s. ?s = Some s \<longrightarrow> s \<notin> set ONBOARDING_STATES) \<and> ?ready))"
        unfolding Some option.case using r by (cases "v \<in> set ONBOARDING_STATES") auto
    qed simp
  next
    assume "fs_state f \<noteq> SETUP_UNAVAILABLE \<and> ?s = Some s \<and> s \<in> set ONBOARDING_STATES \<and> s \<noteq> ''READY''"
    then obtain can where "fs_onboarding f = Some (s, can)" "s \<in> set ONBOARDING_STATES" "s \<noteq> ''READY''" "fs_state f \<noteq> SETUP_UNAVAILABLE"
      by (cases "fs_onboarding f") auto
    then show "onboardingViewOf f = s" unfolding onboardingViewOf_def Let_def by simp
  qed
qed

lemma ready_is_never_guessed_witness:
  "onboardingViewOf \<lparr> fs_state = SETUP_READY, fs_can_configure = True, fs_onboarding = Some (''IN_REVIEW'', True), fs_blockers = None,
      fs_readiness_unavailable = False \<rparr> = ''IN_REVIEW'' \<and>
   onboardingViewOf \<lparr> fs_state = SEALED, fs_can_configure = True, fs_onboarding = Some (''SUSPENDED'', True), fs_blockers = None,
      fs_readiness_unavailable = False \<rparr> = ''READY''"
  using ready_is_never_guessed [of "\<lparr> fs_state = SETUP_READY, fs_can_configure = True, fs_onboarding = Some (''IN_REVIEW'', True),
      fs_blockers = None, fs_readiness_unavailable = False \<rparr>" "''IN_REVIEW''"]
    ready_is_never_guessed [of "\<lparr> fs_state = SEALED, fs_can_configure = True, fs_onboarding = Some (''SUSPENDED'', True), fs_blockers = None,
      fs_readiness_unavailable = False \<rparr>" "[]"]
  by (simp add: ONBOARDING_STATES_def)

section \<open>Documents (lib/financial-onboarding.ts)\<close>

record requirement =
  rqm_code :: string
  rqm_kind :: string

record requirements =
  ap_currently_due :: "requirement list"
  ap_pending :: "requirement list"
  ap_errors :: "requirement list"
  ap_accepted :: "requirement list"

definition UPLOADABLE_TYPES :: "string list" where
  "UPLOADABLE_TYPES = [''BUSINESS_REGISTRATION'', ''REPRESENTATIVE_ID'', ''TAX_ID'', ''OTHER'']"

text \<open>A \<open>Set\<close> built from a list keeps the first of equal elements.\<close>

definition firsts :: "'a list \<Rightarrow> 'a list" where "firsts xs = rev (remdups (rev xs))"

lemma firsts_facts [simp]: "set (firsts xs) = set xs" "distinct (firsts xs)"
  by (simp_all add: firsts_def)

definition uploadableDocuments :: "requirements \<Rightarrow> string list" where
  "uploadableDocuments app =
     (let wanted = filter (\<lambda>c. c \<in> set UPLOADABLE_TYPES)
            (map rqm_code (filter (\<lambda>r. rqm_kind r = ''document'') (ap_currently_due app @ ap_errors app)));
          out = firsts wanted
      in if ''OTHER'' \<in> set out then out else out @ [''OTHER''])"

text \<open>The fields and documents a policy requires, or those of the copy when it cannot be read.\<close>

definition FALLBACK_REQUIRED_FIELDS :: "string list" where
  "FALLBACK_REQUIRED_FIELDS =
     [''business_name'', ''desired_handle'', ''category'', ''email'', ''phone'', ''nif'', ''province'', ''municipality'',
      ''address'', ''legal_representative'', ''representative_role'', ''business_activity'', ''terms_accepted'']"

definition FALLBACK_REQUIRED_DOCUMENTS :: "string list" where
  "FALLBACK_REQUIRED_DOCUMENTS = [''BUSINESS_REGISTRATION'', ''REPRESENTATIVE_ID'']"

definition requiredFrom :: "requirement list option \<Rightarrow> string set \<times> string set" where
  "requiredFrom policy =
     (case policy of
        None \<Rightarrow> (set FALLBACK_REQUIRED_FIELDS, set FALLBACK_REQUIRED_DOCUMENTS)
      | Some items \<Rightarrow>
          if items = [] then (set FALLBACK_REQUIRED_FIELDS, set FALLBACK_REQUIRED_DOCUMENTS)
          else (set (map rqm_code (filter (\<lambda>i. rqm_kind i = ''field'') items)),
                set (map rqm_code (filter (\<lambda>i. rqm_kind i = ''document'') items))))"

lemma uploadable_exactly:
  "distinct (uploadableDocuments app) \<and>
   (c \<in> set (uploadableDocuments app) \<longleftrightarrow> c = ''OTHER'' \<or>
      c \<in> set UPLOADABLE_TYPES \<and> (\<exists>r \<in> set (ap_currently_due app) \<union> set (ap_errors app). rqm_kind r = ''document'' \<and> rqm_code r = c))"
  by (auto simp: uploadableDocuments_def Let_def UPLOADABLE_TYPES_def)

section \<open>Consent codes and fields\<close>

text \<open>\<open>toUpperCase\<close> on a text: one character of the Latin range becomes two letters.\<close>

definition upper_text :: "string \<Rightarrow> string" where
  "upper_text s = concat (map (\<lambda>c. if c = CHR 0xDF then ''SS'' else [upper_char c]) s)"

definition code_char :: "char \<Rightarrow> bool" where "code_char c \<longleftrightarrow> is_ascii_upper c \<or> is_digit c"

definition normaliseLinkCode :: "string \<Rightarrow> string" where
  "normaliseLinkCode raw = take 12 (filter code_char (upper_text raw))"

fun chunks4 :: "string \<Rightarrow> string list" where
  "chunks4 (a # b # c # d # s) = [a, b, c, d] # chunks4 s"
| "chunks4 [] = []"
| "chunks4 s = [s]"

definition formatLinkCode :: "string \<Rightarrow> string" where
  "formatLinkCode raw = join_with ''-'' (chunks4 (normaliseLinkCode raw))"

definition LINK_CODE_ALPHABET :: "string \<Rightarrow> bool" where
  "LINK_CODE_ALPHABET s \<longleftrightarrow> length s = 12 \<and> list_all (\<lambda>c. c \<in> set ''ABCDEFGHJKMNPQRSTUVWXYZ23456789'') s"

definition isCompleteLinkCode :: "string \<Rightarrow> bool" where
  "isCompleteLinkCode raw \<longleftrightarrow> LINK_CODE_ALPHABET (normaliseLinkCode raw)"

definition all_digits_of :: "string \<Rightarrow> string" where "all_digits_of s = filter is_digit s"

definition isAngolanPhone :: "string \<Rightarrow> bool" where "isAngolanPhone s \<longleftrightarrow> length (all_digits_of s) = 9"

definition isNif :: "string \<Rightarrow> bool" where
  "isNif s \<longleftrightarrow> 9 \<le> length (all_digits_of s) \<and> length (all_digits_of s) \<le> 14"

definition applicationReference :: "string \<Rightarrow> string" where
  "applicationReference ident = upper_text (take 8 (filter (\<lambda>c. c \<noteq> CHR ''-'') ident))"

lemma code_char_upper: "code_char c \<Longrightarrow> c \<noteq> CHR 0xDF \<and> upper_char c = c"
proof -
  assume "code_char c"
  then have "unit_code c \<le> 90" by (auto simp: code_char_def is_ascii_upper_def is_digit_def unit_code_def)
  then have "c \<noteq> CHR 0xDF" "\<not> is_ascii_lower c" by (auto simp: unit_code_def is_ascii_lower_def)
  then show ?thesis by (simp add: upper_char_def)
qed

lemma upper_codes: "list_all code_char s \<Longrightarrow> upper_text s = s"
  by (induction s) (simp_all add: upper_text_def code_char_upper)

lemma upper_append [simp]: "upper_text (s @ t) = upper_text s @ upper_text t"
  by (simp add: upper_text_def)

lemma filter_joined: "filter code_char (upper_text (join_with ''-'' xs)) = filter code_char (upper_text (concat xs))"
proof (induction xs rule: induct_list012)
  case (3 x y xs)
  have h: "filter code_char (upper_text ''-'') = []" by code_simp
  show ?case unfolding join_with.simps upper_append filter_append h "3.IH"(2) by simp
qed simp_all

lemma concat_chunks4 [simp]: "concat (chunks4 s) = s"
  by (induction s rule: chunks4.induct) simp_all

lemma normalised_codes: "list_all code_char (normaliseLinkCode raw)" "length (normaliseLinkCode raw) \<le> 12"
  by (auto simp: normaliseLinkCode_def list_all_iff dest: in_set_takeD)

text \<open>A consent code survives its display: grouping what was typed and reading it again gives the same code, whatever
  case, dashes, spaces or other characters were typed; so display is stable, and a displayed code is complete
  exactly when what was typed is.\<close>

theorem link_code_roundtrip:
  "normaliseLinkCode (formatLinkCode raw) = normaliseLinkCode raw \<and>
   formatLinkCode (formatLinkCode raw) = formatLinkCode raw \<and>
   (isCompleteLinkCode (formatLinkCode raw) \<longleftrightarrow> isCompleteLinkCode raw)"
proof -
  note n = normalised_codes [of raw]
  have "filter code_char (normaliseLinkCode raw) = normaliseLinkCode raw"
    using n(1) by (intro filter_True) (simp add: list_all_iff)
  moreover have "normaliseLinkCode (join_with ''-'' xs) = take 12 (filter code_char (upper_text (concat xs)))" for xs
    unfolding normaliseLinkCode_def filter_joined ..
  ultimately have "normaliseLinkCode (formatLinkCode raw) = normaliseLinkCode raw"
    unfolding formatLinkCode_def using n(2) upper_codes [OF n(1)] by simp
  then show ?thesis by (simp add: formatLinkCode_def isCompleteLinkCode_def)
qed

end
