(* ===== verification/AdminClient.thy ===== *)
theory AdminClient
  imports Json
begin

text \<open>
  The operator console's client (apps/admin/lib/admin-api.ts) and its session (lib/session.ts): how a request is
  sent, what a refusal is read as, when a 401 ends the session, and the step-up that a high-risk request asks for.

  The world is a list of answers still to come, each a reply or a failure of the network, and the codes the
  operator will still type; everything sent is recorded. A dialog nobody answers any more leaves the request
  waiting. Two requests that share one dialog are not modelled.
\<close>

section \<open>The session (lib/session.ts)\<close>

definition CSRF_COOKIE :: string where "CSRF_COOKIE = ''__Host-bzadm_csrf''"

text \<open>
  The readable profile, the key of the console before it, and the cookies the browser shows. A profile that does
  not parse, or holds no user, is none; \<open>decodeURIComponent\<close> of the token is a parameter, as it throws on a
  malformed escape.
\<close>

record browser =
  br_profile :: "json option option"
  br_legacy :: bool
  br_cookie :: string

definition getSession :: "browser \<Rightarrow> json option \<times> browser" where
  "getSession b =
     (let b' = b\<lparr>br_legacy := False\<rparr>
      in case br_profile b of
           None \<Rightarrow> (None, b')
         | Some None \<Rightarrow> (None, b')
         | Some (Some j) \<Rightarrow>
             (case jget ''user'' j of
                Some u \<Rightarrow> (if json_truthy (Some u) then Some u else None, b')
              | None \<Rightarrow> (None, b')))"

definition saveSession :: "json \<Rightarrow> browser \<Rightarrow> browser" where
  "saveSession user b = b\<lparr>br_profile := Some (Some (JObj [(''user'', user)]))\<rparr>"

definition destroySession :: "browser \<Rightarrow> browser" where
  "destroySession b = b\<lparr>br_profile := None, br_legacy := False\<rparr>"

text \<open>The first cookie of the name, its value put together again at its equals signs; none is the empty text.\<close>

definition cookie_pair :: "string \<Rightarrow> string \<times> string" where
  "cookie_pair part =
     (case split_on (CHR ''='') (js_trim part) of name # rest \<Rightarrow> (name, join_with ''='' rest) | [] \<Rightarrow> ([], []))"

definition readCsrfToken :: "(string \<Rightarrow> string option) \<Rightarrow> browser \<Rightarrow> string option" where
  "readCsrfToken decode b =
     (case List.find (\<lambda>p. fst (cookie_pair p) = CSRF_COOKIE) (split_on (CHR '';'') (br_cookie b)) of
        None \<Rightarrow> Some []
      | Some p \<Rightarrow> decode (snd (cookie_pair p)))"

section \<open>Requests (lib/admin-api.ts)\<close>

record adm_reply =
  ay_status :: nat
  ay_text :: string
  ay_body :: "json option"

definition adm_ok :: "adm_reply \<Rightarrow> bool" where
  "adm_ok r \<longleftrightarrow> 200 \<le> ay_status r \<and> ay_status r \<le> 299"

record adm_call =
  ac_method :: string
  ac_path :: string
  ac_csrf :: "string option"
  ac_passive :: bool

record console =
  ad_answers :: "adm_reply option list"
  ad_prompts :: "string option list"
  ad_registered :: bool
  ad_browser :: browser
  ad_onLogin :: bool
  ad_log :: "(adm_call \<times> adm_reply option) list"
  ad_mutations :: nat

datatype adm_result = Returned "json option" | Refused nat string string | NoNetwork | TokenError | Unreadable | Waiting

definition defined_str :: "json option \<Rightarrow> string option" where
  "defined_str j = (case j of Some (JStr s) \<Rightarrow> Some s | _ \<Rightarrow> None)"

text \<open>What a refusal says: the nested envelope, else the flat one, else nothing known. The code and message of an
  envelope are texts.\<close>

definition readError :: "adm_reply \<Rightarrow> string \<times> string" where
  "readError r =
     (case ay_body r of
        None \<Rightarrow> (''UNKNOWN'', ay_text r)
      | Some b \<Rightarrow>
          (let err = jget ''error'' b;
               nested = (case err of Some (JObj ms) \<Rightarrow> Some (JObj ms) | _ \<Rightarrow> None);
               member = (\<lambda>k. case nested of Some n \<Rightarrow> defined_str (jget k n) | None \<Rightarrow> None);
               code = (case member ''code'' of Some c \<Rightarrow> c | None \<Rightarrow> (case defined_str (jget ''code'' b) of Some c \<Rightarrow> c | None \<Rightarrow> ''UNKNOWN''));
               message = (case member ''message'' of Some m \<Rightarrow> m
                          | None \<Rightarrow> (case defined_str (jget ''message'' b) of Some m \<Rightarrow> m
                                    | None \<Rightarrow> (case err of Some (JStr m) \<Rightarrow> m | _ \<Rightarrow> ay_text r)))
           in (code, message)))"

definition mutating :: "string \<Rightarrow> bool" where
  "mutating m \<longleftrightarrow> js_upper m \<noteq> ''GET'' \<and> js_upper m \<noteq> ''HEAD''"

definition receive :: "adm_call \<Rightarrow> console \<Rightarrow> adm_reply option \<times> console" where
  "receive c w =
     (case ad_answers w of
        [] \<Rightarrow> (None, w\<lparr>ad_log := ad_log w @ [(c, None)]\<rparr>)
      | r # rs \<Rightarrow> (r, w\<lparr>ad_log := ad_log w @ [(c, r)], ad_answers := rs\<rparr>))"

datatype sending = Replied adm_reply | NetFailed | TokenFailed

definition adm_send :: "(string \<Rightarrow> string option) \<Rightarrow> bool \<Rightarrow> string \<Rightarrow> string \<Rightarrow> console \<Rightarrow> sending \<times> console" where
  "adm_send decode passive path m w =
     (let token = (if mutating m then readCsrfToken decode (ad_browser w) else Some [])
      in case token of
           None \<Rightarrow> (TokenFailed, w)
         | Some t \<Rightarrow>
             (case receive \<lparr> ac_method = m, ac_path = path, ac_csrf = (if t = [] then None else Some t), ac_passive = passive \<rparr> w of
                (None, w') \<Rightarrow> (NetFailed, w')
              | (Some r, w') \<Rightarrow> (Replied r, w')))"

definition ME :: string where "ME = ''/admin/v1/auth/me''"

definition STEP_UP :: string where "STEP_UP = ''/admin/v1/auth/step-up''"

definition logout :: "console \<Rightarrow> console" where
  "logout w = w\<lparr>ad_browser := destroySession (ad_browser w), ad_onLogin := True\<rparr>"

text \<open>What a 401 does: the session check is believed; any other path is checked first, without counting as activity.\<close>

definition on_401 :: "string \<Rightarrow> console \<Rightarrow> console" where
  "on_401 path w =
     (if startsWith path ME then logout w
      else (case receive \<lparr> ac_method = ''GET'', ac_path = ME, ac_csrf = None, ac_passive = True \<rparr> w of
              (Some r, w') \<Rightarrow> if ay_status r = 401 then logout w' else w'
            | (None, w') \<Rightarrow> w'))"

text \<open>One attempt, without the step-up.\<close>

definition req_once :: "(string \<Rightarrow> string option) \<Rightarrow> bool \<Rightarrow> string \<Rightarrow> string \<Rightarrow> console \<Rightarrow> adm_result \<times> console" where
  "req_once decode passive path m w =
     (case adm_send decode passive path m w of
        (TokenFailed, w1) \<Rightarrow> (TokenError, w1)
      | (NetFailed, w1) \<Rightarrow> (NoNetwork, w1)
      | (Replied r, w1) \<Rightarrow>
          if \<not> adm_ok r then
            (let w2 = (if ay_status r = 401 then on_401 path w1 else w1); e = readError r
             in (Refused (ay_status r) (fst e) (snd e), w2))
          else (if ay_status r = 204 then Returned None
                else (case ay_body r of Some j \<Rightarrow> Returned (Some j) | None \<Rightarrow> Unreadable),
                if mutating m then w1\<lparr>ad_mutations := Suc (ad_mutations w1)\<rparr> else w1))"

datatype step_up = Proven | Cancelled | StepFailed adm_result | Unanswered

text \<open>The dialog, asked again as long as the code is refused.\<close>

fun stepUp_loop :: "(string \<Rightarrow> string option) \<Rightarrow> bool \<Rightarrow> string option list \<Rightarrow> console \<Rightarrow> step_up \<times> console" where
  "stepUp_loop decode passive [] w = (Unanswered, w\<lparr>ad_prompts := []\<rparr>)"
| "stepUp_loop decode passive (None # ps) w = (Cancelled, w\<lparr>ad_prompts := ps\<rparr>)"
| "stepUp_loop decode passive (Some code # ps) w =
     (case req_once decode passive STEP_UP ''POST'' (w\<lparr>ad_prompts := ps\<rparr>) of
        (Returned b, w1) \<Rightarrow> (Proven, w1)
      | (Refused s c t, w1) \<Rightarrow>
          if c = ''MFA_CODE_REJECTED'' then stepUp_loop decode passive ps w1 else (StepFailed (Refused s c t), w1)
      | (e, w1) \<Rightarrow> (StepFailed e, w1))"

definition stepUpInteractively :: "(string \<Rightarrow> string option) \<Rightarrow> bool \<Rightarrow> console \<Rightarrow> step_up \<times> console" where
  "stepUpInteractively decode passive w =
     (if \<not> ad_registered w then (Cancelled, w) else stepUp_loop decode passive (ad_prompts w) w)"

definition adm_req :: "(string \<Rightarrow> string option) \<Rightarrow> bool \<Rightarrow> string \<Rightarrow> string \<Rightarrow> bool \<Rightarrow> console \<Rightarrow> adm_result \<times> console" where
  "adm_req decode passive path m noStepUp w =
     (case req_once decode passive path m w of
        (Refused s c t, w1) \<Rightarrow>
          if s = 403 \<and> c = ''STEP_UP_REQUIRED'' \<and> \<not> noStepUp then
            (case stepUpInteractively decode passive w1 of
               (Proven, w2) \<Rightarrow> req_once decode passive path m w2
             | (Cancelled, w2) \<Rightarrow> (Refused s c t, w2)
             | (StepFailed e, w2) \<Rightarrow> (e, w2)
             | (Unanswered, w2) \<Rightarrow> (Waiting, w2))
          else (Refused s c t, w1)
      | r \<Rightarrow> r)"

definition signOut :: "(string \<Rightarrow> string option) \<Rightarrow> console \<Rightarrow> console" where
  "signOut decode w =
     (let w1 = snd (adm_req decode False ''/admin/v1/auth/logout'' ''POST'' False w)
      in w1\<lparr>ad_browser := destroySession (ad_browser w1)\<rparr>)"

section \<open>What a request may do\<close>

definition me_dead :: "adm_call \<times> adm_reply option \<Rightarrow> bool" where
  "me_dead e \<longleftrightarrow> startsWith (ac_path (fst e)) ME \<and> (case snd e of Some r \<Rightarrow> ay_status r = 401 | None \<Rightarrow> False)"

text \<open>A call carries the token of the cookie exactly when it changes something and there is one.\<close>

definition token_right :: "(string \<Rightarrow> string option) \<Rightarrow> browser \<Rightarrow> adm_call \<Rightarrow> bool" where
  "token_right decode b c \<longleftrightarrow>
     ac_csrf c = (if mutating (ac_method c)
                  then (case readCsrfToken decode b of Some t \<Rightarrow> if t = [] then None else Some t | None \<Rightarrow> None) else None) \<and>
     (mutating (ac_method c) \<longrightarrow> readCsrfToken decode b \<noteq> None)"

text \<open>
  From one state to a later one: what was sent in between, that each call carries the right token, that the cookies
  are the same, and that the profile is too, unless the session check answered 401.
\<close>

definition leads :: "(string \<Rightarrow> string option) \<Rightarrow> console \<Rightarrow> (adm_call \<times> adm_reply option) list \<Rightarrow> console \<Rightarrow> bool" where
  "leads decode w es w' \<longleftrightarrow>
     ad_log w' = ad_log w @ es \<and> br_cookie (ad_browser w') = br_cookie (ad_browser w) \<and>
     (\<forall>e \<in> set es. token_right decode (ad_browser w) (fst e)) \<and>
     (br_profile (ad_browser w') = br_profile (ad_browser w) \<and> ad_onLogin w' = ad_onLogin w \<or> (\<exists>e \<in> set es. me_dead e))"

lemma token_cong: "br_cookie b = br_cookie b' \<Longrightarrow> token_right decode b c = token_right decode b' c"
  by (simp add: token_right_def readCsrfToken_def)

lemma leads_refl: "leads decode w [] w"
  by (simp add: leads_def)

lemma leads_trans: "leads decode w es w1 \<Longrightarrow> leads decode w1 fs w2 \<Longrightarrow> leads decode w (es @ fs) w2"
  unfolding leads_def using token_cong [of "ad_browser w" "ad_browser w1"] by auto

lemma leads_same:
  "leads decode w es w1 \<Longrightarrow> ad_log w2 = ad_log w1 \<Longrightarrow> ad_browser w2 = ad_browser w1 \<Longrightarrow> ad_onLogin w2 = ad_onLogin w1 \<Longrightarrow>
   leads decode w es w2"
  by (simp add: leads_def)

lemma receive_leads:
  "receive c w = (r, w') \<Longrightarrow> token_right decode (ad_browser w) c \<Longrightarrow>
   leads decode w [(c, r)] w' \<and> ad_browser w' = ad_browser w \<and> ad_onLogin w' = ad_onLogin w \<and>
   ad_prompts w' = ad_prompts w \<and> ad_registered w' = ad_registered w"
  by (auto simp: receive_def leads_def split: list.splits)

lemma send_leads:
  assumes "adm_send decode passive path m w = (s, w')"
  obtains (token) "s = TokenFailed" "w' = w"
  | (failed) c where "s = NetFailed" "ac_path c = path" "ac_method c = m" "leads decode w [(c, None)] w'"
  | (replied) c r where "s = Replied r" "ac_path c = path" "ac_method c = m" "leads decode w [(c, Some r)] w'"
proof -
  let ?token = "if mutating m then readCsrfToken decode (ad_browser w) else Some []"
  show thesis
  proof (cases ?token)
    case None
    then show ?thesis using assms token by (simp add: adm_send_def)
  next
    case (Some t)
    let ?c = "\<lparr> ac_method = m, ac_path = path, ac_csrf = (if t = [] then None else Some t), ac_passive = passive \<rparr>"
    have right: "token_right decode (ad_browser w) ?c"
      using Some by (auto simp: token_right_def split: if_splits)
    obtain r w1 where r: "receive ?c w = (r, w1)" by fastforce
    have "leads decode w [(?c, r)] w1" using receive_leads [OF r right] by blast
    moreover have "s = (case r of None \<Rightarrow> NetFailed | Some r \<Rightarrow> Replied r)" "w' = w1"
      using assms Some r by (auto simp: adm_send_def split: option.splits)
    ultimately show ?thesis using failed [of ?c] replied [of _ ?c] by (cases r) auto
  qed
qed

lemma on_401_leads:
  assumes "leads decode w0 [(c, Some r)] w" "ac_path c = path" "ay_status r = 401"
  shows "\<exists>es. leads decode w0 ((c, Some r) # es) (on_401 path w) \<and> (\<forall>e \<in> set es. ac_path (fst e) = ME)"
proof (cases "startsWith path ME")
  case True
  then have "me_dead (c, Some r)" using assms(2,3) by (simp add: me_dead_def)
  then have "leads decode w0 [(c, Some r)] (on_401 path w)"
    using assms(1) True by (simp add: leads_def on_401_def logout_def destroySession_def)
  then show ?thesis by (intro exI [of _ "[]"]) simp
next
  case False
  let ?c = "\<lparr> ac_method = ''GET'', ac_path = ME, ac_csrf = None, ac_passive = True \<rparr>"
  have "\<not> mutating ''GET''" by code_simp
  then have right: "token_right decode (ad_browser w) ?c" by (simp add: token_right_def)
  obtain r' w1 where r': "receive ?c w = (r', w1)" by fastforce
  note l = receive_leads [OF r' right]
  have "leads decode w [(?c, r')] (on_401 path w)"
  proof (cases "case r' of Some a \<Rightarrow> ay_status a = 401 | None \<Rightarrow> False")
    case True
    then have "on_401 path w = logout w1" using False r' by (auto simp: on_401_def split: option.splits)
    moreover have "me_dead (?c, r')" using True by (simp add: me_dead_def)
    ultimately show ?thesis using l by (simp add: leads_def logout_def destroySession_def)
  next
    case alive: False
    then have "on_401 path w = w1" using False r' by (auto simp: on_401_def split: option.splits)
    then show ?thesis using l by simp
  qed
  then have "leads decode w0 ([(c, Some r)] @ [(?c, r')]) (on_401 path w)" by (rule leads_trans [OF assms(1)])
  then show ?thesis by (intro exI [of _ "[(?c, r')]"]) simp
qed

definition refusal_of :: "adm_reply \<Rightarrow> adm_result" where
  "refusal_of r = Refused (ay_status r) (fst (readError r)) (snd (readError r))"

text \<open>One attempt: nothing when the token cannot be read, else the call, and after a 401 perhaps the session check. What it
  gives is read from the reply of that call.\<close>

lemma req_once_cases:
  assumes "req_once decode passive path m w = (res, w')"
  obtains (token) "res = TokenError" "w' = w"
  | (failed) c where "res = NoNetwork" "ac_path c = path" "ac_method c = m" "leads decode w [(c, None)] w'"
  | (refused) c r es where "\<not> adm_ok r" "res = refusal_of r" "ac_path c = path" "ac_method c = m"
      "leads decode w ((c, Some r) # es) w'" "\<forall>e \<in> set es. ac_path (fst e) = ME"
  | (accepted) c r where "adm_ok r" "res = Unreadable \<or> (\<exists>b. res = Returned b)" "ac_path c = path" "ac_method c = m"
      "leads decode w [(c, Some r)] w'"
proof -
  obtain s w1 where s: "adm_send decode passive path m w = (s, w1)" by fastforce
  from s show thesis
  proof (cases rule: send_leads)
    case token
    then show ?thesis using assms s that(1) by (simp add: req_once_def)
  next
    case (failed c)
    then show ?thesis using assms s that(2) by (simp add: req_once_def)
  next
    case (replied c r)
    show ?thesis
    proof (cases "adm_ok r")
      case True
      have l: "leads decode w [(c, Some r)] (if mutating m then w1\<lparr>ad_mutations := Suc (ad_mutations w1)\<rparr> else w1)"
        by (rule leads_same [OF replied(4)]) simp_all
      show ?thesis
        using assms s replied True that(4) [OF True, of c] l
        by (auto simp: req_once_def split: if_splits option.splits)
    next
      case False
      have res: "res = refusal_of r" "w' = (if ay_status r = 401 then on_401 path w1 else w1)"
        using assms s replied(1) False by (auto simp: req_once_def refusal_of_def Let_def)
      show ?thesis
      proof (cases "ay_status r = 401")
        case True
        then show ?thesis
          using on_401_leads [OF replied(4,2) True] that(3) [OF False res(1) replied(2,3)] res(2) by auto
      next
        case other: False
        then show ?thesis using that(3) [OF False res(1) replied(2,3), of "[]"] replied(4) res(2) by simp
      qed
    qed
  qed
qed

lemma req_once_leads: "req_once decode passive path m w = (res, w') \<Longrightarrow> \<exists>es. leads decode w es w'"
  by (erule req_once_cases) (blast intro: leads_refl)+

text \<open>The dialog only sends step-up calls, and what checks the session after a 401; when it proves a code, the last
  of them was accepted.\<close>

definition stepping :: "(adm_call \<times> adm_reply option) list \<Rightarrow> bool" where
  "stepping es \<longleftrightarrow> (\<forall>e \<in> set es. ac_path (fst e) = STEP_UP \<or> ac_path (fst e) = ME)"

lemma stepUp_leads:
  "stepUp_loop decode passive ps w = (out, w') \<Longrightarrow>
   \<exists>es. leads decode w es w' \<and> stepping es \<and>
     (out = Proven \<longrightarrow> (\<exists>fs c r. es = fs @ [(c, Some r)] \<and> ac_path c = STEP_UP \<and> ac_method c = ''POST'' \<and> adm_ok r))"
proof (induction ps arbitrary: w)
  case Nil
  then have "leads decode w [] w'" by (auto simp: leads_def)
  then show ?case using Nil by (intro exI [of _ "[]"]) (auto simp: stepping_def)
next
  case (Cons p ps)
  show ?case
  proof (cases p)
    case None
    then have "leads decode w [] w'" using Cons.prems by (auto simp: leads_def)
    then show ?thesis using Cons.prems None by (intro exI [of _ "[]"]) (auto simp: stepping_def)
  next
    case (Some code)
    let ?w = "w\<lparr>ad_prompts := ps\<rparr>"
    have from_w: "leads decode w es v" if "leads decode ?w es v" for es v using that by (simp add: leads_def)
    obtain res w1 where q: "req_once decode passive STEP_UP ''POST'' ?w = (res, w1)" by fastforce
    from q show ?thesis
    proof (cases rule: req_once_cases)
      case token
      then have "out = StepFailed TokenError" "w' = w1" using Cons.prems Some q by auto
      then show ?thesis using from_w token leads_refl by (intro exI [of _ "[]"]) (auto simp: stepping_def)
    next
      case (failed c)
      then have "out = StepFailed NoNetwork" "w' = w1" using Cons.prems Some q by auto
      then show ?thesis using from_w failed by (intro exI [of _ "[(c, None)]"]) (auto simp: stepping_def)
    next
      case (refused c r es)
      have st: "stepping ((c, Some r) # es)" using refused by (auto simp: stepping_def)
      show ?thesis
      proof (cases "fst (readError r) = ''MFA_CODE_REJECTED''")
        case True
        then have "stepUp_loop decode passive ps w1 = (out, w')" using Cons.prems Some q refused(2) by (simp add: refusal_of_def)
        from Cons.IH [OF this] obtain fs where fs: "leads decode w1 fs w'" "stepping fs"
          "out = Proven \<longrightarrow> (\<exists>gs c r. fs = gs @ [(c, Some r)] \<and> ac_path c = STEP_UP \<and> ac_method c = ''POST'' \<and> adm_ok r)" by blast
        have "leads decode w (((c, Some r) # es) @ fs) w'" using leads_trans [OF from_w [OF refused(5)] fs(1)] .
        moreover have "stepping (((c, Some r) # es) @ fs)" using st fs(2) by (auto simp: stepping_def)
        moreover have "out = Proven \<longrightarrow> (\<exists>gs c' r'. ((c, Some r) # es) @ fs = gs @ [(c', Some r')] \<and> ac_path c' = STEP_UP \<and>
            ac_method c' = ''POST'' \<and> adm_ok r')"
          using fs(3) by (metis append.assoc)
        ultimately show ?thesis by blast
      next
        case False
        then have "out = StepFailed (refusal_of r)" "w' = w1" using Cons.prems Some q refused(2) by (auto simp: refusal_of_def)
        then show ?thesis using from_w [OF refused(5)] st by blast
      qed
    next
      case (accepted c r)
      then have o: "out = Proven \<or> out = StepFailed Unreadable" "w' = w1" using Cons.prems Some q by auto
      show ?thesis using from_w [OF accepted(5)] o accepted
        by (intro exI [of _ "[(c, Some r)]"]) (auto simp: stepping_def)
    qed
  qed
qed

text \<open>A whole request: one attempt; or one, the dialog, and, once a code was proved, another.\<close>

lemma adm_req_cases:
  assumes "adm_req decode passive path m noStepUp w = (res, w')"
  obtains (one) "req_once decode passive path m w = (res, w')"
  | (stopped) c r es fs where "\<not> noStepUp" "ac_path c = path" "leads decode w (((c, Some r) # es) @ fs) w'"
      "\<forall>e \<in> set es. ac_path (fst e) = ME" "stepping fs"
  | (retried) c r es fs cs rs w2 where "\<not> noStepUp" "ac_path c = path" "ay_status r = 403" "fst (readError r) = ''STEP_UP_REQUIRED''"
      "leads decode w (((c, Some r) # es) @ fs @ [(cs, Some rs)]) w2" "\<forall>e \<in> set es. ac_path (fst e) = ME" "stepping fs"
      "ac_path cs = STEP_UP" "adm_ok rs" "req_once decode passive path m w2 = (res, w')"
proof -
  obtain q w1 where q: "req_once decode passive path m w = (q, w1)" by fastforce
  show thesis
  proof (cases "\<exists>t. q = Refused 403 ''STEP_UP_REQUIRED'' t \<and> \<not> noStepUp")
    case False
    then have "(res, w') = (q, w1)" using assms q unfolding adm_req_def by (cases q) auto
    then show ?thesis using one q by simp
  next
    case True
    then obtain t where t: "q = Refused 403 ''STEP_UP_REQUIRED'' t" and n: "\<not> noStepUp" by blast
    obtain out w2 where st: "stepUpInteractively decode passive w1 = (out, w2)" by fastforce
    from q obtain c r es where r: "q = refusal_of r" "ac_path c = path" "leads decode w ((c, Some r) # es) w1"
      "\<forall>e \<in> set es. ac_path (fst e) = ME"
      by (cases rule: req_once_cases) (use t in auto)
    have r403: "ay_status r = 403" "fst (readError r) = ''STEP_UP_REQUIRED''" using r(1) t by (simp_all add: refusal_of_def)
    have "\<exists>fs. leads decode w1 fs w2 \<and> stepping fs \<and>
        (out = Proven \<longrightarrow> (\<exists>gs c r. fs = gs @ [(c, Some r)] \<and> ac_path c = STEP_UP \<and> ac_method c = ''POST'' \<and> adm_ok r))"
    proof (cases "ad_registered w1")
      case True
      then show ?thesis using st stepUp_leads unfolding stepUpInteractively_def by simp
    next
      case False
      then show ?thesis using st leads_refl by (intro exI [of _ "[]"]) (auto simp: stepUpInteractively_def stepping_def)
    qed
    then obtain fs where fs: "leads decode w1 fs w2" "stepping fs"
      "out = Proven \<longrightarrow> (\<exists>gs c r. fs = gs @ [(c, Some r)] \<and> ac_path c = STEP_UP \<and> ac_method c = ''POST'' \<and> adm_ok r)" by blast
    note l = leads_trans [OF r(3) fs(1)]
    show ?thesis
    proof (cases "out = Proven")
      case True
      then obtain gs cs rs where gs: "fs = gs @ [(cs, Some rs)]" "ac_path cs = STEP_UP" "adm_ok rs" using fs(3) by blast
      have "req_once decode passive path m w2 = (res, w')" using assms q t n st True unfolding adm_req_def by simp
      moreover have "stepping gs" using fs(2) gs(1) by (simp add: stepping_def)
      moreover have "leads decode w (((c, Some r) # es) @ gs @ [(cs, Some rs)]) w2" using l gs(1) by simp
      ultimately show ?thesis using retried n r(2,4) r403 gs(2,3) by blast
    next
      case False
      then have "w' = w2" using assms q t n st unfolding adm_req_def by (auto split: step_up.splits)
      then show ?thesis using stopped [OF n r(2) _ r(4) fs(2)] l by blast
    qed
  qed
qed


definition times_sent :: "string \<Rightarrow> (adm_call \<times> adm_reply option) list \<Rightarrow> nat" where
  "times_sent path es = length (filter (\<lambda>e. ac_path (fst e) = path) es)"

text \<open>C15. A request goes out once, and a second time only after a fresh code: when it does, the first was refused with
  403 and the demand for a step-up, the step-up call just before the second was accepted, and there is no third,
  whatever the second is answered. A request that is not to be stepped up goes out once only.\<close>

theorem step_up_then_once:
  assumes "adm_req decode passive path m noStepUp w = (res, w')" "path \<noteq> STEP_UP" "path \<noteq> ME"
  shows "\<exists>es. ad_log w' = ad_log w @ es \<and> times_sent path es \<le> 2 \<and> (noStepUp \<longrightarrow> times_sent path es \<le> 1) \<and>
    (times_sent path es = 2 \<longrightarrow>
       (\<exists>c r mid cs rs tl. es = (c, Some r) # mid @ (cs, Some rs) # tl \<and> ac_path c = path \<and> ay_status r = 403 \<and>
          fst (readError r) = ''STEP_UP_REQUIRED'' \<and> ac_path cs = STEP_UP \<and> adm_ok rs \<and> times_sent path mid = 0 \<and> times_sent path tl = 1))"
proof -
  have me: "times_sent path es = 0" if "\<forall>e \<in> set es. ac_path (fst e) = ME" for es
    using that assms(3) by (auto simp: times_sent_def filter_empty_conv)
  have st: "times_sent path es = 0" if "stepping es" for es
    using that assms(2,3) by (auto simp: times_sent_def filter_empty_conv stepping_def)
  have add: "times_sent path (es @ fs) = times_sent path es + times_sent path fs" "times_sent path ((c, r) # es) = (if ac_path c = path then 1 else 0) + times_sent path es"
    "times_sent path [] = 0" for es fs c r by (simp_all add: times_sent_def)
  have once: "\<exists>es. leads decode v es v' \<and> times_sent path es \<le> 1" if "req_once decode passive path m v = (x, v')" for v x v'
    using that
  proof (cases rule: req_once_cases)
    case token
    then show ?thesis using leads_refl by (intro exI [of _ "[]"]) (simp add: add)
  next
    case (failed c)
    then show ?thesis by (intro exI [of _ "[(c, None)]"]) (simp add: add)
  next
    case (refused c r es)
    then show ?thesis using me by (intro exI [of _ "(c, Some r) # es"]) (simp add: add)
  next
    case (accepted c r)
    then show ?thesis by (intro exI [of _ "[(c, Some r)]"]) (simp add: add)
  qed
  show ?thesis
    using assms(1)
  proof (cases rule: adm_req_cases)
    case one
    then obtain es where "leads decode w es w'" "times_sent path es \<le> 1" using once by blast
    then show ?thesis by (intro exI [of _ es]) (simp add: leads_def)
  next
    case (stopped c r es fs)
    then have "times_sent path (((c, Some r) # es) @ fs) = 1" using me st by (simp add: add)
    then show ?thesis using stopped(3) unfolding leads_def by (intro exI [of _ "((c, Some r) # es) @ fs"]) simp
  next
    case (retried c r es fs cs rs w2)
    obtain gs where gs: "leads decode w2 gs w'" "times_sent path gs \<le> 1" using once [OF retried(10)] by blast
    have l: "leads decode w ((c, Some r) # (es @ fs) @ (cs, Some rs) # gs) w'" using leads_trans [OF retried(5) gs(1)] by simp
    have mid: "times_sent path (es @ fs) = 0" using me [OF retried(6)] st [OF retried(7)] by (simp add: add)
    have n: "times_sent path ((c, Some r) # (es @ fs) @ (cs, Some rs) # gs) = 1 + times_sent path gs"
      using mid retried(2,8) assms(2) by (simp add: add)
    let ?es = "(c, Some r) # (es @ fs) @ (cs, Some rs) # gs"
    have two: "?es = (c, Some r) # (es @ fs) @ (cs, Some rs) # gs \<and> ac_path c = path \<and> ay_status r = 403 \<and>
        fst (readError r) = ''STEP_UP_REQUIRED'' \<and> ac_path cs = STEP_UP \<and> adm_ok rs \<and> times_sent path (es @ fs) = 0 \<and> times_sent path gs = 1"
      if "times_sent path ?es = 2"
      using that n mid retried(2,3,4,8,9) by simp
    have "ad_log w' = ad_log w @ ?es" using l unfolding leads_def by blast
    moreover have "times_sent path ?es \<le> 2" using n gs(2) by simp
    ultimately show ?thesis using two retried(1) by blast
  qed
qed

section \<open>A session, run\<close>

definition demo_reply :: "nat \<Rightarrow> string \<Rightarrow> adm_reply option" where
  "demo_reply n code = Some \<lparr> ay_status = n, ay_text = [], ay_body = Some (JObj [(''error'', JObj [(''code'', JStr code)])]) \<rparr>"

definition demo_console :: "adm_reply option list \<Rightarrow> string option list \<Rightarrow> console" where
  "demo_console answers codes =
     \<lparr> ad_answers = answers, ad_prompts = codes, ad_registered = True,
       ad_browser = \<lparr> br_profile = Some (Some (JObj [(''user'', JStr ''u'')])), br_legacy = False, br_cookie = ''a=b; __Host-bzadm_csrf=t'' \<rparr>,
       ad_onLogin = False, ad_log = [], ad_mutations = 0 \<rparr>"


lemma step_up_then_once_witness:
  "\<exists>res w'. adm_req Some False ''/admin/v1/x'' ''POST'' False
       (demo_console [demo_reply 403 ''STEP_UP_REQUIRED'', demo_reply 403 ''MFA_CODE_REJECTED'', demo_reply 200 [], demo_reply 200 []]
          [Some ''1'', Some ''2'']) = (res, w') \<and>
     times_sent ''/admin/v1/x'' (ad_log w') = 2 \<and> length (ad_log w') = 4"
proof -
  let ?w = "demo_console [demo_reply 403 ''STEP_UP_REQUIRED'', demo_reply 403 ''MFA_CODE_REJECTED'', demo_reply 200 [], demo_reply 200 []]
          [Some ''1'', Some ''2'']"
  obtain res w' where q: "adm_req Some False ''/admin/v1/x'' ''POST'' False ?w = (res, w')" by fastforce
  have s: "times_sent ''/admin/v1/x'' (ad_log (snd (adm_req Some False ''/admin/v1/x'' ''POST'' False ?w))) = 2"
    "length (ad_log (snd (adm_req Some False ''/admin/v1/x'' ''POST'' False ?w))) = 4" "ad_log ?w = []" by code_simp+
  have "''/admin/v1/x'' \<noteq> STEP_UP" "''/admin/v1/x'' \<noteq> ME" by code_simp+
  from step_up_then_once [OF q this] show ?thesis using q s by auto
qed

end
