(* ===== verification/AdminLib.thy ===== *)
theory AdminLib
  imports Money
begin

text \<open>
  The operator console's rules (apps/admin/lib): the environment a page opens in (admin-env.ts), the actions offered on
  a payout (payouts.ts) next to the transitions the ledger's core accepts (core/payouts), the closed disputes
  (disputes.ts), the badges of what waits for an operator (attention.ts), the figures of the overview (overview.ts,
  format.ts), the Luanda day (time.ts), and what a reason prompt and a failure come to (reason.ts, errors.ts).
\<close>

section \<open>The environment (lib/admin-env.ts)\<close>

datatype admin_env = LIVE | SANDBOX

definition readEnv :: "string option \<Rightarrow> admin_env option" where
  "readEnv v = (if v = Some ''LIVE'' then Some LIVE else if v = Some ''SANDBOX'' then Some SANDBOX else None)"

definition urlEnv :: "string option \<Rightarrow> admin_env option" where
  "urlEnv v = (case v of None \<Rightarrow> None | Some s \<Rightarrow> if s = [] then None else readEnv (Some (js_upper s)))"

definition resolveEnv :: "bool \<Rightarrow> admin_env option \<Rightarrow> admin_env option \<Rightarrow> admin_env" where
  "resolveEnv liveAvailable saved url =
     (if url = Some LIVE \<or> saved = Some LIVE then (if liveAvailable then LIVE else SANDBOX)
      else if url = Some SANDBOX \<or> saved = Some SANDBOX then SANDBOX else SANDBOX)"

text \<open>A page of the console: what it shows, whether the server runs LIVE, whether that is known, and what is saved.\<close>

record env_page =
  ep_env :: admin_env
  ep_live :: bool
  ep_ready :: bool
  ep_saved :: "string option"

definition env_start :: "string option \<Rightarrow> env_page" where
  "env_start saved = \<lparr> ep_env = SANDBOX, ep_live = False, ep_ready = False, ep_saved = saved \<rparr>"

definition drop_live :: "env_page \<Rightarrow> env_page" where
  "drop_live p = (if readEnv (ep_saved p) = Some LIVE then p\<lparr>ep_saved := None\<rparr> else p)"

text \<open>The platform mode is answered, or cannot be read; the operator has no session; or chooses an environment.\<close>

datatype env_event = ModeRead string "string option" | ModeFailed | NoSession | Chosen admin_env

fun env_step :: "env_event \<Rightarrow> env_page \<Rightarrow> env_page" where
  "env_step (ModeRead mode url) p =
     (let live = (mode = ''LIVE''); saved = readEnv (ep_saved p);
          p1 = p\<lparr>ep_live := live\<rparr>; p2 = (if saved = Some LIVE \<and> \<not> live then p1\<lparr>ep_saved := None\<rparr> else p1)
      in p2\<lparr>ep_env := resolveEnv live saved (urlEnv url), ep_ready := True\<rparr>)"
| "env_step ModeFailed p = (drop_live (p\<lparr>ep_live := False\<rparr>))\<lparr>ep_env := SANDBOX, ep_ready := True\<rparr>"
| "env_step NoSession p = p\<lparr>ep_ready := True\<rparr>"
| "env_step (Chosen e) p =
     (if e = LIVE \<and> \<not> ep_live p then p
      else p\<lparr>ep_env := e, ep_saved := Some (case e of LIVE \<Rightarrow> ''LIVE'' | SANDBOX \<Rightarrow> ''SANDBOX'')\<rparr>)"

definition never_live_alone :: "env_page \<Rightarrow> bool" where
  "never_live_alone p \<longleftrightarrow> (ep_env p = LIVE \<longrightarrow> ep_live p)"



section \<open>Payouts (lib/payouts.ts, core/payouts)\<close>

datatype payout_status = PENDING | PROCESSING | SENT | CONFIRMED | FAILED | RETURNED

datatype payout_action = Process | Sent | Confirm | Return | Fail

definition payout_word :: "payout_status \<Rightarrow> string" where
  "payout_word s = (case s of PENDING \<Rightarrow> ''PENDING'' | PROCESSING \<Rightarrow> ''PROCESSING'' | SENT \<Rightarrow> ''SENT''
     | CONFIRMED \<Rightarrow> ''CONFIRMED'' | FAILED \<Rightarrow> ''FAILED'' | RETURNED \<Rightarrow> ''RETURNED'')"

definition ACTIONS :: "(string \<times> payout_action list) list" where
  "ACTIONS = [(''PENDING'', [Process, Fail]), (''PROCESSING'', [Sent, Fail]), (''SENT'', [Confirm, Return, Fail]),
     (''CONFIRMED'', []), (''FAILED'', []), (''RETURNED'', [])]"

text \<open>The lookup over the statuses of the server; the names that every object inherits are not looked for.\<close>

definition payoutActions :: "string \<Rightarrow> payout_action list" where
  "payoutActions status = (case map_of ACTIONS status of Some xs \<Rightarrow> xs | None \<Rightarrow> [])"

definition needsExternalEvidence :: "string \<Rightarrow> payout_action \<Rightarrow> bool" where
  "needsExternalEvidence status a \<longleftrightarrow> a = Return \<or> a = Fail \<and> status = ''SENT''"

text \<open>The core: the transitions, and what each operation asks besides.\<close>

definition can_transition_to :: "payout_status \<Rightarrow> payout_status \<Rightarrow> bool" where
  "can_transition_to s next' \<longleftrightarrow>
     (s, next') \<in> set [(PENDING, PROCESSING), (PENDING, FAILED), (PROCESSING, SENT), (PROCESSING, FAILED),
       (SENT, CONFIRMED), (SENT, FAILED), (SENT, RETURNED)]"

definition target_of :: "payout_action \<Rightarrow> payout_status" where
  "target_of a = (case a of Process \<Rightarrow> PROCESSING | Sent \<Rightarrow> SENT | Confirm \<Rightarrow> CONFIRMED | Return \<Rightarrow> RETURNED | Fail \<Rightarrow> FAILED)"

text \<open>A payout as the core looks at it: its status, and whether the posting that moved its money was recorded.\<close>

definition core_accepts :: "payout_action \<Rightarrow> payout_status \<Rightarrow> bool \<Rightarrow> bool" where
  "core_accepts a s posted \<longleftrightarrow>
     (case a of
        Process \<Rightarrow> s = PROCESSING \<and> \<not> posted \<or> can_transition_to s PROCESSING
      | Sent \<Rightarrow> can_transition_to s SENT \<and> posted
      | _ \<Rightarrow> can_transition_to s (target_of a))"



section \<open>Disputes, reasons and failures\<close>

definition DISPUTE_OUTCOMES :: "string list" where
  "DISPUTE_OUTCOMES = [''WON_BY_CONSUMER'', ''WON_BY_MERCHANT'', ''CLOSED'']"

definition isDisputeClosed :: "string option \<Rightarrow> bool" where
  "isDisputeClosed status \<longleftrightarrow> js_upper (case status of Some s \<Rightarrow> s | None \<Rightarrow> []) \<in> set (DISPUTE_OUTCOMES @ [''RESOLVED''])"

definition takeReason :: "string option \<Rightarrow> string option" where
  "takeReason answer =
     (case answer of None \<Rightarrow> None | Some a \<Rightarrow> (let reason = js_trim a in if reason = [] then None else Some reason))"

text \<open>The kinds of failure an operator is told of: an error of the client with its status, or none at all.\<close>

datatype failure = NoConnection | SessionExpired | NotPermitted | Gone | Conflicting | TooMany | ServiceDown | RequestRefused | Unexpected

definition failureReasonPt :: "nat option \<Rightarrow> failure" where
  "failureReasonPt status =
     (case status of
        None \<Rightarrow> NoConnection
      | Some s \<Rightarrow>
          if s = 401 then SessionExpired else if s = 403 then NotPermitted else if s = 404 then Gone
          else if s = 409 then Conflicting else if s = 429 then TooMany else if 500 \<le> s then ServiceDown
          else if 400 \<le> s then RequestRefused else Unexpected)"

definition isServiceUnavailable :: "nat option \<Rightarrow> bool" where
  "isServiceUnavailable status \<longleftrightarrow> (case status of None \<Rightarrow> True | Some s \<Rightarrow> 500 \<le> s)"

section \<open>What waits for an operator (lib/attention.ts)\<close>

record attention =
  at_env :: string
  at_counts :: "(string \<times> int) list"

definition badgeText :: "int option \<Rightarrow> string option" where
  "badgeText n =
     (case n of
        None \<Rightarrow> None
      | Some k \<Rightarrow> if k \<le> 0 then None else Some (if 99 < k then ''99+'' else int_str k))"

definition ATTENTION_STALE_AFTER_MS :: int where "ATTENTION_STALE_AFTER_MS = 2 * 60000"

definition usableSummary :: "attention option \<Rightarrow> int option \<Rightarrow> int \<Rightarrow> string \<Rightarrow> attention option" where
  "usableSummary last' fetchedAt now env =
     (case (last', fetchedAt) of
        (Some a, Some t) \<Rightarrow>
          if at_env a \<noteq> env then None else if now - t > ATTENTION_STALE_AFTER_MS then None else Some a
      | _ \<Rightarrow> None)"

definition countFor :: "attention option \<Rightarrow> string option \<Rightarrow> int option" where
  "countFor s key = (case (s, key) of (Some a, Some k) \<Rightarrow> map_of (at_counts a) k | _ \<Rightarrow> None)"

definition attentionHref :: "string \<Rightarrow> int option \<Rightarrow> string" where
  "attentionHref href n = (case badgeText n of None \<Rightarrow> href | Some _ \<Rightarrow> href @ ''?attention=1'')"

definition filterByStates :: "string list option \<Rightarrow> ('a \<Rightarrow> string option) \<Rightarrow> 'a list \<Rightarrow> 'a list" where
  "filterByStates states stateOf rows =
     (case states of
        None \<Rightarrow> rows
      | Some ss \<Rightarrow>
          if ss = [] then rows
          else filter (\<lambda>r. js_upper (case stateOf r of Some s \<Rightarrow> s | None \<Rightarrow> []) \<in> js_upper ` set ss) rows)"

text \<open>A badge that is shown names a positive count of the same environment, not older than two minutes.\<close>

lemma badge_is_fresh:
  assumes "badgeText (countFor (usableSummary last' fetchedAt now env) key) = Some t"
  shows "\<exists>a at k n. last' = Some a \<and> fetchedAt = Some at \<and> key = Some k \<and> at_env a = env \<and> now - at \<le> ATTENTION_STALE_AFTER_MS \<and>
    map_of (at_counts a) k = Some n \<and> 0 < n \<and> t = (if 99 < n then ''99+'' else int_str n)"
proof -
  obtain n where n: "countFor (usableSummary last' fetchedAt now env) key = Some n" "0 < n" "t = (if 99 < n then ''99+'' else int_str n)"
    using assms by (auto simp: badgeText_def split: option.splits if_splits)
  then obtain a k where a: "usableSummary last' fetchedAt now env = Some a" "key = Some k" "map_of (at_counts a) k = Some n"
    by (auto simp: countFor_def split: option.splits)
  from a(1) obtain u where "last' = Some a" "fetchedAt = Some u" "at_env a = env" "now - u \<le> ATTENTION_STALE_AFTER_MS"
    by (auto simp: usableSummary_def split: option.splits if_splits)
  then show ?thesis using a(2,3) n(2,3) by blast
qed

section \<open>Totals per currency (lib/format.ts)\<close>

text \<open>A \<open>Map\<close> keeps its keys in the order they were first set.\<close>

fun map_set :: "'k \<Rightarrow> 'v \<Rightarrow> ('k \<times> 'v) list \<Rightarrow> ('k \<times> 'v) list" where
  "map_set k v [] = [(k, v)]"
| "map_set k v ((j, u) # m) = (if j = k then (k, v) # m else (j, u) # map_set k v m)"

lemma map_set_of [simp]: "map_of (map_set k v m) = (map_of m)(k \<mapsto> v)"
  by (induction k v m rule: map_set.induct) (auto simp: fun_upd_twist)

lemma map_set_keys: "set (map fst (map_set k v m)) = insert k (set (map fst m))" "distinct (map fst m) \<Longrightarrow> distinct (map fst (map_set k v m))"
  by (induction k v m rule: map_set.induct) auto

definition item_currency :: "string option \<Rightarrow> string" where
  "item_currency c = js_upper (case c of None \<Rightarrow> ''AOA'' | Some s \<Rightarrow> if s = [] then ''AOA'' else s)"

definition totals_add :: "(string \<times> int) list \<Rightarrow> int option \<times> string option \<Rightarrow> (string \<times> int) list" where
  "totals_add out it =
     (case fst it of
        None \<Rightarrow> out
      | Some a \<Rightarrow>
          (let c = item_currency (snd it)
           in map_set c ((case map_of out c of Some n \<Rightarrow> n | None \<Rightarrow> 0) + a) out))"

definition totalsByCurrency :: "(int option \<times> string option) list \<Rightarrow> (string \<times> int) list" where
  "totalsByCurrency items = foldl totals_add [] items"

text \<open>The order of the keys: kwanza first, the others by the locale, which is a parameter.\<close>

fun place_currency :: "(string \<Rightarrow> string \<Rightarrow> bool) \<Rightarrow> string \<Rightarrow> string list \<Rightarrow> string list" where
  "place_currency before c [] = [c]"
| "place_currency before c (d # ds) =
     (if c = ''AOA'' \<or> d \<noteq> ''AOA'' \<and> before c d then c # d # ds else d # place_currency before c ds)"

definition formatTotals :: "(string \<Rightarrow> string \<Rightarrow> bool) \<Rightarrow> (string \<times> int) list \<Rightarrow> string" where
  "formatTotals before totals =
     (if totals = [] then formatKz (Some 0)
      else join_with (CHR 0x20 # [CHR 0xC2, CHR 0xB7, CHR 0x20]) (map (\<lambda>c. formatMoney (map_of totals c) (Some c)) (foldr (place_currency before) (map fst totals) [])))"

definition total_of :: "(int option \<times> string option) list \<Rightarrow> string \<Rightarrow> int" where
  "total_of items c = sum_list (map (\<lambda>(a, k). the a) (filter (\<lambda>(a, k). a \<noteq> None \<and> item_currency k = c) items))"

definition currencies_of :: "(int option \<times> string option) list \<Rightarrow> string set" where
  "currencies_of items = (\<lambda>(a, k). item_currency k) ` {it \<in> set items. fst it \<noteq> None}"

text \<open>Amounts of different currencies are never added: each currency that occurs with an amount has one total, the sum
  of its own amounts, and no other currency has any; an empty list is shown as no kwanzas, and nothing else is.\<close>

theorem totals_per_currency:
  "distinct (map fst (totalsByCurrency items)) \<and> set (map fst (totalsByCurrency items)) = currencies_of items \<and>
   (\<forall>c n. map_of (totalsByCurrency items) c = Some n \<longleftrightarrow> c \<in> currencies_of items \<and> n = total_of items c)"
proof -
  have known: "distinct (map fst (totalsByCurrency items)) \<and>
      map_of (totalsByCurrency items) = (\<lambda>c. if c \<in> currencies_of items then Some (total_of items c) else None)"
  proof (induction items rule: rev_induct)
    case Nil
    then show ?case by (simp add: totalsByCurrency_def currencies_of_def)
  next
    case (snoc it items)
    obtain a k where it: "it = (a, k)" by fastforce
    have t: "totalsByCurrency (items @ [it]) = totals_add (totalsByCurrency items) it" by (simp add: totalsByCurrency_def)
    show ?case
    proof (cases a)
      case None
      then have "currencies_of (items @ [it]) = currencies_of items" "total_of (items @ [it]) = total_of items"
        using it by (auto simp: currencies_of_def total_of_def)
      then show ?thesis using snoc t it None by (simp add: totals_add_def fun_eq_iff)
    next
      case (Some n)
      let ?c = "item_currency k"
      have c: "currencies_of (items @ [it]) = insert ?c (currencies_of items)"
        using it Some by (auto simp: currencies_of_def)
      have s: "total_of (items @ [it]) c = total_of items c + (if c = ?c then n else 0)" for c
        using it Some by (simp add: total_of_def)
      have z: "total_of items c = 0" if "c \<notin> currencies_of items" for c
      proof -
        have "filter (\<lambda>(a, k). a \<noteq> None \<and> item_currency k = c) items = []"
          using that by (auto simp: filter_empty_conv currencies_of_def)
        then show ?thesis by (simp add: total_of_def)
      qed
      have "map_of (totalsByCurrency (items @ [it])) =
          (map_of (totalsByCurrency items))(?c \<mapsto> (case map_of (totalsByCurrency items) ?c of Some n \<Rightarrow> n | None \<Rightarrow> 0) + n)"
        using t it Some by (simp add: totals_add_def Let_def)
      moreover have "distinct (map fst (totalsByCurrency (items @ [it])))"
        using snoc t it Some by (simp add: totals_add_def Let_def map_set_keys(2))
      ultimately show ?thesis using snoc c s z by (auto simp: fun_eq_iff)
    qed
  qed
  then have "set (map fst (totalsByCurrency items)) = currencies_of items"
    by (metis (mono_tags, lifting) dom_map_of_conv_image_fst domIff list.set_map option.distinct(1) subsetI subset_antisym)
  then show ?thesis using known by auto
qed

section \<open>The Luanda day (lib/time.ts)\<close>

text \<open>An instant is its time value, in milliseconds; the zone is fixed, one hour ahead of UTC. A day of the picker is
  given as the number of days since 1970-01-01.\<close>

definition WAT_OFFSET :: int where "WAT_OFFSET = 3600000"

definition luanda_day :: "int \<Rightarrow> int" where "luanda_day t = (t + WAT_OFFSET) div 86400000"

definition watDayKey :: "int option \<Rightarrow> string option" where
  "watDayKey t = map_option (\<lambda>t. iso_day (luanda_day t)) t"

definition isTodayWAT :: "int option \<Rightarrow> int \<Rightarrow> bool" where
  "isTodayWAT t now \<longleftrightarrow> watDayKey t \<noteq> None \<and> watDayKey t = watDayKey (Some now)"

datatype day_edge = DayStart | DayEnd

definition boundary_instant :: "int \<Rightarrow> day_edge \<Rightarrow> int" where
  "boundary_instant day edge = day * 86400000 + (case edge of DayStart \<Rightarrow> 0 | DayEnd \<Rightarrow> 86399999) - WAT_OFFSET"

definition watDayBoundary :: "int \<Rightarrow> day_edge \<Rightarrow> string" where
  "watDayBoundary day edge = toISOString (boundary_instant day edge)"

definition watDayFromBoundary :: "int option \<Rightarrow> string" where
  "watDayFromBoundary t = (case watDayKey t of Some k \<Rightarrow> k | None \<Rightarrow> [])"

text \<open>A filter on a Luanda day is exact: the instants between the two boundaries of a day, both included, are those that
  fall on it, and either boundary is shown back as that day.\<close>

theorem luanda_day_filter:
  "(boundary_instant day DayStart \<le> t \<and> t \<le> boundary_instant day DayEnd \<longleftrightarrow> luanda_day t = day) \<and>
   watDayFromBoundary (Some (boundary_instant day edge)) = iso_day day \<and>
   (luanda_day t = luanda_day now \<longrightarrow> isTodayWAT (Some t) now)"
proof -
  have d: "boundary_instant day DayStart \<le> t \<and> t \<le> boundary_instant day DayEnd \<longleftrightarrow> luanda_day t = day" for t
    by (auto simp: boundary_instant_def luanda_day_def WAT_OFFSET_def)
  moreover have "luanda_day (boundary_instant day edge) = day"
    using d [of "boundary_instant day edge"] by (cases edge) (auto simp: boundary_instant_def)
  ultimately show ?thesis by (auto simp: watDayFromBoundary_def watDayKey_def isTodayWAT_def)
qed

lemma luanda_day_filter_witness:
  "isTodayWAT (Some 1757545200000) 1757631599999 \<and> watDayBoundary 20342 DayStart = ''2025-09-10T23:00:00.000Z''"
proof -
  have "luanda_day 1757545200000 = luanda_day 1757631599999" by (simp add: luanda_day_def WAT_OFFSET_def)
  moreover have "watDayBoundary 20342 DayStart = ''2025-09-10T23:00:00.000Z''"
    by (simp add: watDayBoundary_def boundary_instant_def WAT_OFFSET_def date_defs str_simps)
  ultimately show ?thesis using luanda_day_filter [of 0 1757545200000 DayStart 1757631599999] by blast
qed

section \<open>The overview (lib/overview.ts)\<close>

record settlement =
  se_status :: string
  se_settled_at :: "int option"
  se_net :: "(int option \<times> string option) option"
  se_currency :: "string option"

record overview_sources =
  os_applications :: "string list option"
  os_openDisputes :: "nat option"
  os_pendingPayouts :: "(int option \<times> string option) list option"
  os_settled :: "settlement list option"

record overview_figures =
  ov_settledToday :: "(nat \<times> string) option"
  ov_toReview :: "(nat \<times> nat) option"
  ov_newApplications :: "nat option"
  ov_openDisputes :: "nat option"
  ov_pendingPayouts :: "(nat \<times> string) option"

definition settled_item :: "settlement \<Rightarrow> int option \<times> string option" where
  "settled_item x =
     (case se_net x of
        Some (a, c) \<Rightarrow> (a, case c of Some k \<Rightarrow> Some k | None \<Rightarrow> se_currency x)
      | None \<Rightarrow> (None, se_currency x))"

definition overviewFigures :: "(string \<Rightarrow> string \<Rightarrow> bool) \<Rightarrow> overview_sources \<Rightarrow> int \<Rightarrow> overview_figures" where
  "overviewFigures before s now =
     (let settledToday = map_option (filter (\<lambda>x. se_status x = ''SETTLED'' \<and> isTodayWAT (se_settled_at x) now)) (os_settled s);
          count = (\<lambda>st xs. length (filter (\<lambda>a. a = st) xs))
      in \<lparr> ov_settledToday = map_option (\<lambda>xs. (length xs, formatTotals before (totalsByCurrency (map settled_item xs)))) settledToday,
           ov_toReview = map_option (\<lambda>as. (count ''SUBMITTED'' as + count ''UNDER_REVIEW'' as, count ''UNDER_REVIEW'' as)) (os_applications s),
           ov_newApplications = map_option (count ''SUBMITTED'') (os_applications s),
           ov_openDisputes = os_openDisputes s,
           ov_pendingPayouts = map_option (\<lambda>ps. (length ps, formatTotals before (totalsByCurrency ps))) (os_pendingPayouts s) \<rparr>)"

lemma unknown_stays_unknown:
  "(ov_settledToday (overviewFigures before s now) = None \<longleftrightarrow> os_settled s = None) \<and>
   (ov_toReview (overviewFigures before s now) = None \<longleftrightarrow> os_applications s = None) \<and>
   (ov_newApplications (overviewFigures before s now) = None \<longleftrightarrow> os_applications s = None) \<and>
   (ov_pendingPayouts (overviewFigures before s now) = None \<longleftrightarrow> os_pendingPayouts s = None)"
  by (auto simp: overviewFigures_def Let_def)

end
