(* ===== verification/PayPage.thy ===== *)
theory PayPage
  imports Json JsStd
begin

text \<open>
  The payer's page (apps/pay/lib): the environment the server belongs to (server-environment.ts), the link that opens the
  app (deep-link.ts), how the payee is named (payee.ts), how the app is obtained (install.ts) and the calls to the
  gateway (api.ts). The host of a URL is a parameter, as is what the gateway answers.
\<close>

section \<open>The environment and the app link\<close>

datatype server_env = PAY_LIVE | PAY_SANDBOX

definition environmentFrom :: "(string \<Rightarrow> string option) \<Rightarrow> string option \<Rightarrow> string option \<Rightarrow> server_env option" where
  "environmentFrom hostname explicit gatewayUrl =
     (let e = js_upper (js_trim (case explicit of Some x \<Rightarrow> x | None \<Rightarrow> []))
      in if e = ''LIVE'' then Some PAY_LIVE
         else if e = ''SANDBOX'' then Some PAY_SANDBOX
         else if e \<noteq> [] then None
         else (case hostname (case gatewayUrl of Some u \<Rightarrow> u | None \<Rightarrow> []) of
                 None \<Rightarrow> None
               | Some h \<Rightarrow>
                   (let host = js_lower h
                    in if host = ''sandbox-api.banzami.com'' then Some PAY_SANDBOX
                       else if host = ''api.banzami.com'' then Some PAY_LIVE else None)))"

definition LIVE_SCHEME :: string where "LIVE_SCHEME = ''banzami''"

definition SANDBOX_SCHEME :: string where "SANDBOX_SCHEME = ''banzami-sandbox''"

definition schemeFor :: "server_env option \<Rightarrow> string option" where
  "schemeFor env = (case env of Some PAY_SANDBOX \<Rightarrow> Some SANDBOX_SCHEME | Some PAY_LIVE \<Rightarrow> Some LIVE_SCHEME | None \<Rightarrow> None)"

definition deepLink :: "string \<Rightarrow> server_env option \<Rightarrow> string option" where
  "deepLink path env =
     (case schemeFor env of
        None \<Rightarrow> None
      | Some scheme \<Rightarrow> Some (scheme @ ''://'' @ dropWhile (\<lambda>c. c = CHR ''/'') path))"

text \<open>A page only ever opens the app of its own environment. What the deployment says in words wins over its gateway;
  words that name no environment, and a gateway that is neither of the two, give no link at all; otherwise the
  scheme is the environment's, the same scheme is never read as the other, and the path follows it without its
  leading slashes.\<close>

theorem app_link_of_own_environment:
  "(case environmentFrom hostname explicit gatewayUrl of
      None \<Rightarrow> deepLink path (environmentFrom hostname explicit gatewayUrl) = None
    | Some PAY_LIVE \<Rightarrow> (\<exists>l. deepLink path (environmentFrom hostname explicit gatewayUrl) = Some l \<and> startsWith l ''banzami://'' \<and>
        \<not> startsWith l ''banzami-sandbox://'')
    | Some PAY_SANDBOX \<Rightarrow> (\<exists>l. deepLink path (environmentFrom hostname explicit gatewayUrl) = Some l \<and> startsWith l ''banzami-sandbox://'' \<and>
        \<not> startsWith l ''banzami://'')) \<and>
   (\<not> blank said \<longrightarrow>
      environmentFrom hostname (Some said) gatewayUrl =
        (if js_upper (js_trim said) = ''LIVE'' then Some PAY_LIVE else if js_upper (js_trim said) = ''SANDBOX'' then Some PAY_SANDBOX else None)) \<and>
   (environmentFrom hostname None gatewayUrl = Some PAY_LIVE \<longrightarrow>
      (\<exists>h. hostname (case gatewayUrl of Some u \<Rightarrow> u | None \<Rightarrow> []) = Some h \<and> js_lower h = ''api.banzami.com''))"
proof (intro conjI impI)
  show "case environmentFrom hostname explicit gatewayUrl of
      None \<Rightarrow> deepLink path (environmentFrom hostname explicit gatewayUrl) = None
    | Some PAY_LIVE \<Rightarrow> (\<exists>l. deepLink path (environmentFrom hostname explicit gatewayUrl) = Some l \<and> startsWith l ''banzami://'' \<and>
        \<not> startsWith l ''banzami-sandbox://'')
    | Some PAY_SANDBOX \<Rightarrow> (\<exists>l. deepLink path (environmentFrom hostname explicit gatewayUrl) = Some l \<and> startsWith l ''banzami-sandbox://'' \<and>
        \<not> startsWith l ''banzami://'')"
    by (cases "environmentFrom hostname explicit gatewayUrl")
      (auto simp: deepLink_def schemeFor_def LIVE_SCHEME_def SANDBOX_SCHEME_def split: server_env.split)
next
  assume "\<not> blank said"
  then have "js_upper (js_trim said) \<noteq> []" by (simp add: blank_def js_upper_def)
  then show "environmentFrom hostname (Some said) gatewayUrl =
      (if js_upper (js_trim said) = ''LIVE'' then Some PAY_LIVE else if js_upper (js_trim said) = ''SANDBOX'' then Some PAY_SANDBOX else None)"
    by (simp add: environmentFrom_def Let_def)
next
  assume "environmentFrom hostname None gatewayUrl = Some PAY_LIVE"
  then show "\<exists>h. hostname (case gatewayUrl of Some u \<Rightarrow> u | None \<Rightarrow> []) = Some h \<and> js_lower h = ''api.banzami.com''"
    unfolding environmentFrom_def Let_def js_trim_def js_upper_def by (auto split: option.splits if_splits)
qed

definition demo_host :: "string \<Rightarrow> string option" where
  "demo_host u = (if u = ''https://api.banzami.com'' then Some ''api.banzami.com'' else None)"

lemma app_link_of_own_environment_witness:
  "environmentFrom demo_host None (Some ''https://api.banzami.com'') = Some PAY_LIVE \<and>
   deepLink ''/pay/u/fm65'' (environmentFrom demo_host None (Some ''https://api.banzami.com'')) = Some ''banzami://pay/u/fm65'' \<and>
   environmentFrom demo_host (Some ''prod'') (Some ''https://api.banzami.com'') = None"
proof -
  have e: "environmentFrom demo_host None (Some ''https://api.banzami.com'') = Some PAY_LIVE" by code_simp
  have b: "\<not> blank ''prod''" "js_upper (js_trim ''prod'') = ''PROD''" by code_simp+
  have "deepLink ''/pay/u/fm65'' (Some PAY_LIVE) = Some ''banzami://pay/u/fm65''" by code_simp
  then show ?thesis
    using app_link_of_own_environment [where hostname = demo_host and said = "''prod''" and gatewayUrl = "Some ''https://api.banzami.com''"] e b by simp
qed

section \<open>How the payee is named (lib/payee.ts)\<close>

definition drop_at :: "string \<Rightarrow> string" where
  "drop_at s = (case s of c # t \<Rightarrow> if c = CHR ''@'' then t else s | [] \<Rightarrow> [])"

definition atHandle :: "string option \<Rightarrow> string option" where
  "atHandle handle =
     (let h = drop_at (js_trim (case handle of Some x \<Rightarrow> x | None \<Rightarrow> [])) in if h = [] then None else Some (CHR ''@'' # h))"

definition payeeDisplay :: "string option \<Rightarrow> string option \<Rightarrow> string option \<times> string option" where
  "payeeDisplay name handle =
     (let n = js_trim (case name of Some x \<Rightarrow> x | None \<Rightarrow> []); at = atHandle handle
      in if n \<noteq> [] then (Some n, at) else (at, None))"

definition paidToLabel :: "string option \<Rightarrow> string option \<Rightarrow> string option" where
  "paidToLabel name handle =
     (case atHandle handle of
        Some at \<Rightarrow> Some (''Pago a '' @ at)
      | None \<Rightarrow> (let n = js_trim (case name of Some x \<Rightarrow> x | None \<Rightarrow> []) in if n = [] then None else Some (''Pago a '' @ n)))"

lemma payee_named_once:
  "(fst (payeeDisplay name handle) = None \<longleftrightarrow> paidToLabel name handle = None) \<and>
   (snd (payeeDisplay name handle) \<noteq> None \<longrightarrow> snd (payeeDisplay name handle) = atHandle handle)"
  by (auto simp: payeeDisplay_def paidToLabel_def Let_def split: option.splits)

section \<open>Obtaining the app (lib/install.ts)\<close>

datatype platform = Ios | Android | Desktop

datatype install_destination = BetaSignup | BetaWeb | AppStoreDest

definition detectPlatform :: "string \<Rightarrow> int \<Rightarrow> platform" where
  "detectPlatform ua touch =
     (let s = js_lower ua
      in if has_sub s ''iphone'' \<or> has_sub s ''ipad'' \<or> has_sub s ''ipod'' then Ios
         else if has_sub s ''macintosh'' \<and> 1 < touch then Ios
         else if has_sub s ''android'' then Android
         else Desktop)"

record install_option =
  io_platform :: platform
  io_href :: string
  io_destination :: install_destination

definition betaSignupUrl :: string where "betaSignupUrl = ''https://banzami.com/testes''"

definition betaWebUrl :: string where "betaWebUrl = ''https://app.banzami.com''"

text \<open>The configuration's \<open>ios.distribution\<close> and \<open>ios.installUrl\<close> are arguments.\<close>

definition installOption :: "string \<Rightarrow> string \<Rightarrow> platform \<Rightarrow> install_option" where
  "installOption distribution installUrl p =
     (case p of
        Ios \<Rightarrow>
          if distribution = ''APP_STORE'' \<and> installUrl \<noteq> []
          then \<lparr> io_platform = p, io_href = installUrl, io_destination = AppStoreDest \<rparr>
          else \<lparr> io_platform = p, io_href = betaSignupUrl, io_destination = BetaSignup \<rparr>
      | Android \<Rightarrow> \<lparr> io_platform = p, io_href = betaSignupUrl, io_destination = BetaSignup \<rparr>
      | Desktop \<Rightarrow> \<lparr> io_platform = p, io_href = betaWebUrl, io_destination = BetaWeb \<rparr>)"

section \<open>The gateway (lib/api.ts)\<close>

record pay_reply =
  py_status :: nat
  py_body :: "json option"

definition py_ok :: "pay_reply \<Rightarrow> bool" where
  "py_ok r \<longleftrightarrow> 200 \<le> py_status r \<and> py_status r \<le> 299"

datatype pay_failure = ApiError nat | ProviderUnavailable | Message string | NotJson | NetworkDown

text \<open>A request: its address, and its body where it has one.\<close>

type_synonym pay_net = "string \<times> string option \<Rightarrow> pay_reply option"

definition read_json :: "pay_reply \<Rightarrow> pay_failure + json" where
  "read_json r = (case py_body r of Some j \<Rightarrow> Inr j | None \<Rightarrow> Inl NotJson)"

text \<open>The readers share their reading of the answer: absent on 404, an error on any other refusal.\<close>

definition read_or_absent :: "pay_reply option \<Rightarrow> pay_failure + json option" where
  "read_or_absent reply =
     (case reply of
        None \<Rightarrow> Inl NetworkDown
      | Some r \<Rightarrow>
          if py_status r = 404 then Inr None
          else if \<not> py_ok r then Inl (ApiError (py_status r))
          else map_sum id Some (read_json r))"

definition pay_getPaymentLink :: "pay_net \<Rightarrow> string \<Rightarrow> string \<Rightarrow> pay_failure + json option" where
  "pay_getPaymentLink net server slug = read_or_absent (net (server @ ''/public/pay/'' @ encodeURIComponent slug, None))"

definition getReceivePoint :: "pay_net \<Rightarrow> string \<Rightarrow> string \<Rightarrow> pay_failure + json option" where
  "getReceivePoint net server slug = read_or_absent (net (server @ ''/v1/receive-points/'' @ encodeURIComponent slug, None))"

definition getMerchantProfile :: "pay_net \<Rightarrow> string \<Rightarrow> string \<Rightarrow> pay_failure + json option" where
  "getMerchantProfile net server handle = read_or_absent (net (server @ ''/public/profiles/'' @ encodeURIComponent handle, None))"

definition getConsumerPayLink :: "pay_net \<Rightarrow> string \<Rightarrow> string \<Rightarrow> string \<Rightarrow> bool \<Rightarrow> pay_failure + json option" where
  "getConsumerPayLink net gateway staging code sandbox =
     (let base = (if sandbox then staging else gateway);
          path = (if sandbox then ''/v1/consumer-pay-links/'' else ''/public/consumer-pay-links/'') @ encodeURIComponent code
      in read_or_absent (net (base @ path, None)))"

definition pay_getPaymentLinkStatus :: "pay_net \<Rightarrow> string \<Rightarrow> string \<Rightarrow> pay_failure + json" where
  "pay_getPaymentLinkStatus net gateway slug =
     (case net (gateway @ ''/public/pay/'' @ encodeURIComponent slug @ ''/status'', None) of
        None \<Rightarrow> Inl NetworkDown
      | Some r \<Rightarrow> if \<not> py_ok r then Inl (ApiError (py_status r)) else read_json r)"

definition error_member :: "string \<Rightarrow> json option \<Rightarrow> json option" where
  "error_member k body = (case body of Some b \<Rightarrow> (case jget ''error'' b of Some e \<Rightarrow> jget k e | None \<Rightarrow> None) | None \<Rightarrow> None)"

definition initiatePay :: "pay_net \<Rightarrow> string \<Rightarrow> string \<Rightarrow> int option \<Rightarrow> pay_failure + json" where
  "initiatePay net gateway slug amountMinor =
     (let body = (case amountMinor of Some n \<Rightarrow> stringify (JObj [(''amount_minor'', jint n)]) | None \<Rightarrow> ''{}'')
      in case net (gateway @ ''/public/pay/'' @ encodeURIComponent slug @ ''/pay'', Some body) of
           None \<Rightarrow> Inl NetworkDown
         | Some r \<Rightarrow>
             if \<not> py_ok r then
               (if error_member ''code'' (py_body r) = Some (JStr ''PROVIDER_UNAVAILABLE'') then Inl ProviderUnavailable
                else case error_member ''message'' (py_body r) of
                       Some (JStr m) \<Rightarrow> Inl (Message m)
                     | _ \<Rightarrow> Inl (ApiError (py_status r)))
             else read_json r)"

definition pay_platformMode :: "pay_net \<Rightarrow> string \<Rightarrow> server_env" where
  "pay_platformMode net server =
     (case net (server @ ''/v1/platform-mode'', None) of
        None \<Rightarrow> PAY_SANDBOX
      | Some r \<Rightarrow>
          if \<not> py_ok r then PAY_SANDBOX
          else (case py_body r of
                  None \<Rightarrow> PAY_SANDBOX
                | Some j \<Rightarrow> if jget ''mode'' j = Some (JStr ''LIVE'') then PAY_LIVE else PAY_SANDBOX))"

definition linkIsPaid :: "json \<Rightarrow> bool" where
  "linkIsPaid link \<longleftrightarrow> jget ''paid'' link = Some (JBool True) \<or> jget ''status'' link = Some (JStr ''USED'')"

text \<open>The page takes the platform for LIVE only when the gateway answers so, and a link for absent only on a 404.\<close>

lemma live_only_when_told:
  "pay_platformMode net server = PAY_LIVE \<longleftrightarrow>
     (\<exists>r j. net (server @ ''/v1/platform-mode'', None) = Some r \<and> py_ok r \<and> py_body r = Some j \<and> jget ''mode'' j = Some (JStr ''LIVE''))"
  by (auto simp: pay_platformMode_def split: option.splits if_splits)

lemma absent_only_on_404:
  "read_or_absent reply = Inr None \<longleftrightarrow> (\<exists>r. reply = Some r \<and> py_status r = 404)"
  by (auto simp: read_or_absent_def read_json_def split: option.splits if_splits)

end
