(* ===== verification/DbAuthority.thy ===== *)
theory DbAuthority
  imports JsStd
begin

text \<open>
  The database authority of the runtime identities (tools/db-authority.mjs): the manifest
  (db/authority/runtime-authority.json), the script generated from it, what that script does to the privileges of a
  database, and the check that refuses a manifest that has drifted.

  The script is a list of statements, one for each statement of the text (the loops over the catalog, the helper
  and the final verification included); its comments are left out. The catalog is the schemas, the tables and the
  views of the database; the statements act on the privileges the way SQL defines them, and a statement that fails
  aborts the script, which is one transaction; privileges on
  sequences, on routines and on the database itself are not followed. What the tool reads from other files (the tables the guard lists, the
  tables the migrations create, the tables a service's sources write, the committed text) is given to the check.
\<close>

section \<open>The manifest\<close>

record role_write =
  rw_all_tables_in :: "string list option"
  rw_all_non_financial_tables_in :: "string list option"
  rw_except_tables :: "string list"
  rw_tables :: "string list"
  rw_implied_by_triggers :: "string list"

record runtime_role =
  rr_source :: "string list"
  rr_read_schemas :: "string list"
  rr_read_tables :: "string list"
  rr_write :: role_write

record authority_manifest =
  au_schemas :: "string list"
  au_financial_tables :: "string list"
  au_not_financial :: "string list"
  au_never_written :: "string list"
  au_definer_routines :: "(string \<times> bool) list"
  au_roles :: "(string \<times> runtime_role) list"

definition CORE :: string where "CORE = ''bl_core_runtime''"

definition in_public :: "string \<Rightarrow> string" where "in_public t = ''public.'' @ t"

definition qualify_name :: "string \<Rightarrow> string" where
  "qualify_name t = (if CHR ''.'' \<in> set t then t else in_public t)"

definition drop_public :: "string \<Rightarrow> string" where
  "drop_public t = (if startsWith t ''public.'' then drop 7 t else t)"

text \<open>The default sort of texts, by their units.\<close>

fun text_le :: "string \<Rightarrow> string \<Rightarrow> bool" where
  "text_le [] t = True"
| "text_le (c # s) [] = False"
| "text_le (c # s) (d # t) = (unit_code c < unit_code d \<or> c = d \<and> text_le s t)"

fun place_text :: "string \<Rightarrow> string list \<Rightarrow> string list" where
  "place_text t [] = [t]"
| "place_text t (u # us) = (if text_le t u then t # u # us else u # place_text t us)"

definition sort_texts :: "string list \<Rightarrow> string list" where "sort_texts ts = foldr place_text ts []"

lemma set_sort_texts [simp]: "set (sort_texts ts) = set ts"
proof -
  have "set (place_text t us) = insert t (set us)" for t us by (induction us) auto
  then show ?thesis unfolding sort_texts_def by (induction ts) auto
qed

section \<open>The script\<close>

datatype privilege = SELECT | INSERT | UPDATE | DELETE | TRUNCATE | REFERENCES | TRIGGER

definition written :: "privilege list" where "written = [INSERT, UPDATE, DELETE]"

definition written_any :: "privilege list" where "written_any = [INSERT, UPDATE, DELETE, TRUNCATE, REFERENCES, TRIGGER]"

datatype sql =
    EnsureRoles "string list"
  | GrantConnect "string list"
  | RevokeTables string "string list"
  | RevokeSequences string "string list"
  | RevokeSchema string "string list"
  | RevokeRoutines string "string list"
  | RevokeCreate string
  | RevokeTemporary "string list"
  | DefaultRoutines
  | DefaultRevoke string "string list"
  | GrantUsage string string
  | GrantSelectAll string string
  | BzGrant "privilege list" "string list" string
  | DefaultGrant string "privilege list" string
  | GrantEach string "string list option" string
  | VerifyAuthority "string list" "string list" "string list"

definition role_names :: "authority_manifest \<Rightarrow> string list" where "role_names m = map fst (au_roles m)"

definition nonCore :: "authority_manifest \<Rightarrow> string list" where "nonCore m = filter (\<lambda>r. r \<noteq> CORE) (role_names m)"

definition parts :: "string \<Rightarrow> string list" where "parts t = split_on (CHR ''.'') t"

definition fin_tables :: "authority_manifest \<Rightarrow> string list" where "fin_tables m = map in_public (au_financial_tables m)"

text \<open>The tables a role is granted by name.\<close>

definition named_tables :: "role_write \<Rightarrow> string list" where
  "named_tables w = sort_texts (rw_tables w @ rw_implied_by_triggers w)"

text \<open>The two names of a table to read; a name without a point is given the word the missing one is written as.\<close>

definition read_name :: "string \<Rightarrow> string list" where
  "read_name t = (case parts t of s # u # _ \<Rightarrow> [s, u] | ss \<Rightarrow> ss @ [''undefined''])"

definition role_reads :: "string \<Rightarrow> runtime_role \<Rightarrow> sql list" where
  "role_reads role spec =
     (let read_tables = rr_read_tables spec;
          extra = filter (\<lambda>s. s \<notin> set (rr_read_schemas spec)) (rev (remdups (rev (map (\<lambda>t. hd (parts t)) read_tables))))
      in concat (map (\<lambda>s. [GrantUsage s role, GrantSelectAll s role]) (rr_read_schemas spec)) @
         map (\<lambda>s. GrantUsage s role) extra @
         map (\<lambda>t. BzGrant [SELECT] (read_name t) role) read_tables @
         map (\<lambda>s. DefaultGrant s [SELECT] role) (rr_read_schemas spec) @
         (case rw_all_tables_in (rr_write spec) of None \<Rightarrow> [] | Some ss \<Rightarrow> map (\<lambda>s. DefaultGrant s written role) ss))"

text \<open>The loops over the catalog: the tables never written are left out, and of the ordinary ones also the financial
  tables and the exceptions; a loop that leaves out none has no such condition.\<close>

definition excluded_in :: "authority_manifest \<Rightarrow> role_write \<Rightarrow> string \<Rightarrow> string list" where
  "excluded_in m w s =
     filter (\<lambda>t. startsWith t (s @ ''.'')) (fin_tables m @ au_never_written m @ map qualify_name (rw_except_tables w))"

definition role_loops :: "authority_manifest \<Rightarrow> string \<Rightarrow> role_write \<Rightarrow> sql list" where
  "role_loops m role w =
     (case rw_all_tables_in w of None \<Rightarrow> [] | Some ss \<Rightarrow> map (\<lambda>s. GrantEach s (Some (au_never_written m)) role) ss) @
     (case rw_all_non_financial_tables_in w of
        None \<Rightarrow> []
      | Some ss \<Rightarrow> map (\<lambda>s. GrantEach s (if excluded_in m w s = [] then None else Some (excluded_in m w s)) role) ss)"

definition role_statements :: "authority_manifest \<Rightarrow> string \<Rightarrow> runtime_role \<Rightarrow> (string \<times> string) + sql list" where
  "role_statements m role spec =
     (let tables = named_tables (rr_write spec)
      in case List.find (\<lambda>t. t \<in> set (fin_tables m)) tables of
           Some t \<Rightarrow> Inl (role, t)
         | None \<Rightarrow> Inr (role_reads role spec @ role_loops m role (rr_write spec) @ map (\<lambda>t. BzGrant written (parts t) role) tables))"

fun roles_statements :: "authority_manifest \<Rightarrow> (string \<times> runtime_role) list \<Rightarrow> (string \<times> string) + sql list" where
  "roles_statements m [] = Inr []"
| "roles_statements m ((role, spec) # rs) =
     (case role_statements m role spec of
        Inl e \<Rightarrow> Inl e
      | Inr xs \<Rightarrow> (case roles_statements m rs of Inl e \<Rightarrow> Inl e | Inr ys \<Rightarrow> Inr (xs @ ys)))"

definition generate_head :: "authority_manifest \<Rightarrow> sql list" where
  "generate_head m =
     (let roles = role_names m; ss = au_schemas m
      in [EnsureRoles roles, GrantConnect roles] @
         concat (map (\<lambda>s. [RevokeTables s roles, RevokeSequences s roles, RevokeSchema s roles]) ss) @
         map (\<lambda>s. RevokeRoutines s roles) ss @ map RevokeCreate ss @ [RevokeTemporary roles, DefaultRoutines] @
         map (\<lambda>s. DefaultRevoke s roles) ss)"

definition generateVerify :: "authority_manifest \<Rightarrow> sql" where
  "generateVerify m = VerifyAuthority (nonCore m) (au_financial_tables m) (role_names m)"

definition generate :: "authority_manifest \<Rightarrow> (string \<times> string) + sql list" where
  "generate m =
     (case roles_statements m (au_roles m) of
        Inl e \<Rightarrow> Inl e
      | Inr xs \<Rightarrow> Inr (generate_head m @ xs @ [generateVerify m]))"

section \<open>What the script does\<close>

datatype grantee = Everyone | Role string

record pg_database =
  db_schemas :: "string list"
  db_tables :: "(string \<times> string) list"
  db_views :: "(string \<times> string) list"
  db_roles :: "string list"
  db_strong :: "string list"
  db_owner :: bool
  db_paths :: bool
  db_held :: "(grantee \<times> privilege \<times> string \<times> string) set"
  db_usage :: "(string \<times> string) set"
  db_default :: "(string \<times> privilege \<times> string) set"

text \<open>
  The strong roles hold an attribute that bypasses privileges, or are members of another role; \<open>db_paths\<close> says that the
  verification finds an indirect path (its checks of routines, rules, views, schemas and unclassified objects).
\<close>

definition full_name :: "string \<times> string \<Rightarrow> string" where "full_name t = fst t @ ''.'' @ snd t"

definition relations :: "pg_database \<Rightarrow> (string \<times> string) set" where
  "relations d = set (db_tables d) \<union> set (db_views d)"

definition may :: "pg_database \<Rightarrow> string \<Rightarrow> privilege \<Rightarrow> string \<times> string \<Rightarrow> bool" where
  "may d r p t \<longleftrightarrow> (Role r, p, t) \<in> db_held d \<or> (Everyone, p, t) \<in> db_held d"

text \<open>A name of one part is looked for in the schema \<open>public\<close>; one of more than two is refused.\<close>

definition relation_named :: "string list \<Rightarrow> (string \<times> string) option" where
  "relation_named ps = (case ps of [t] \<Rightarrow> Some (''public'', t) | [s, t] \<Rightarrow> Some (s, t) | _ \<Rightarrow> None)"

definition grant :: "privilege list \<Rightarrow> (string \<times> string) set \<Rightarrow> string \<Rightarrow> pg_database \<Rightarrow> pg_database" where
  "grant ps ts r d = d\<lparr>db_held := db_held d \<union> (\<lambda>(p, t). (Role r, p, t)) ` (set ps \<times> ts)\<rparr>"

definition each_table :: "pg_database \<Rightarrow> string \<Rightarrow> string list \<Rightarrow> (string \<times> string) set" where
  "each_table d s excluded = {t \<in> set (db_tables d). fst t = s \<and> full_name t \<notin> set excluded}"

definition violation :: "string list \<Rightarrow> string list \<Rightarrow> string list \<Rightarrow> pg_database \<Rightarrow> bool" where
  "violation non_core fin roles d \<longleftrightarrow>
     (\<exists>r \<in> set non_core. \<exists>t \<in> set fin. \<exists>p \<in> set written_any. (''public'', t) \<in> relations d \<and> may d r p (''public'', t)) \<or>
     (\<exists>r \<in> set roles. r \<in> set (db_strong d)) \<or>
     (\<exists>(s, p, r) \<in> db_default d. r \<in> set non_core \<and> p \<in> set written_any) \<or>
     db_paths d"

fun run_sql :: "sql \<Rightarrow> pg_database \<Rightarrow> pg_database option" where
  "run_sql (EnsureRoles rs) d =
     (if \<exists>r \<in> set rs. r \<in> set (db_strong d) then None else Some (d\<lparr>db_roles := db_roles d @ filter (\<lambda>r. r \<notin> set (db_roles d)) rs\<rparr>))"
| "run_sql (GrantConnect rs) d = Some d"
| "run_sql (RevokeTables s rs) d =
     (if s \<in> set (db_schemas d) then Some (d\<lparr>db_held := {(g, p, t) \<in> db_held d. \<not> (g \<in> Role ` set rs \<and> fst t = s)}\<rparr>) else None)"
| "run_sql (RevokeSequences s rs) d = (if s \<in> set (db_schemas d) then Some d else None)"
| "run_sql (RevokeSchema s rs) d =
     (if s \<in> set (db_schemas d) then Some (d\<lparr>db_usage := {(s', r) \<in> db_usage d. \<not> (s' = s \<and> r \<in> set rs)}\<rparr>) else None)"
| "run_sql (RevokeRoutines s rs) d = (if s \<in> set (db_schemas d) then Some d else None)"
| "run_sql (RevokeCreate s) d = (if s \<in> set (db_schemas d) then Some d else None)"
| "run_sql (RevokeTemporary rs) d = Some d"
| "run_sql DefaultRoutines d = Some d"
| "run_sql (DefaultRevoke s rs) d =
     (if \<not> db_owner d then Some d
      else if s \<in> set (db_schemas d) then Some (d\<lparr>db_default := {(s', p, r) \<in> db_default d. \<not> (s' = s \<and> r \<in> set rs)}\<rparr>)
      else None)"
| "run_sql (GrantUsage s r) d = (if s \<in> set (db_schemas d) then Some (d\<lparr>db_usage := insert (s, r) (db_usage d)\<rparr>) else None)"
| "run_sql (GrantSelectAll s r) d =
     (if s \<in> set (db_schemas d) then Some (grant [SELECT] {t \<in> relations d. fst t = s} r d) else None)"
| "run_sql (BzGrant ps name r) d =
     (case relation_named name of
        None \<Rightarrow> None
      | Some t \<Rightarrow> Some (if t \<in> relations d then grant ps {t} r d else d))"
| "run_sql (DefaultGrant s ps r) d =
     (if \<not> db_owner d then Some d
      else if s \<in> set (db_schemas d) then Some (d\<lparr>db_default := db_default d \<union> (\<lambda>p. (s, p, r)) ` set ps\<rparr>)
      else None)"
| "run_sql (GrantEach s excluded r) d =
     (case excluded of
        Some [] \<Rightarrow> None
      | Some xs \<Rightarrow> Some (grant written (each_table d s xs) r d)
      | None \<Rightarrow> Some (grant written (each_table d s []) r d))"
| "run_sql (VerifyAuthority non_core fin roles) d = (if violation non_core fin roles d then None else Some d)"

fun run_script :: "sql list \<Rightarrow> pg_database \<Rightarrow> pg_database option" where
  "run_script [] d = Some d"
| "run_script (x # xs) d = (case run_sql x d of None \<Rightarrow> None | Some d' \<Rightarrow> run_script xs d')"

text \<open>Applying a manifest: the script commits as a whole or changes nothing.\<close>

definition apply_authority :: "authority_manifest \<Rightarrow> pg_database \<Rightarrow> pg_database option" where
  "apply_authority m d = (case generate m of Inl _ \<Rightarrow> None | Inr xs \<Rightarrow> run_script xs d)"

section \<open>The check\<close>

text \<open>Names as they are found in texts: without quotes, in lower case, in the schema \<open>public\<close> unless they name another.\<close>

definition plain_name :: "string \<Rightarrow> string" where "plain_name t = js_lower (filter (\<lambda>c. c \<noteq> CHR 0x22) t)"

text \<open>The tables the migrations create: of each file the names it creates, and the renamings of it.\<close>

definition migratedTables :: "(string list \<times> (string \<times> string) list) list \<Rightarrow> string list" where
  "migratedTables files =
     concat (map (\<lambda>(creates, renames).
       map (\<lambda>c. qualify_name (plain_name c)) creates @
       map (\<lambda>(from, to). (let f = plain_name from in (if CHR ''.'' \<in> set f then hd (parts f) else ''public'') @ ''.'' @ plain_name to)) renames)
     files)"

text \<open>The tables that sources write: the verbs found in their texts with what stands before each, the name and the file;
  an \<open>UPDATE\<close> that belongs to a locking or a conflict clause names no table.\<close>

record code_verb =
  cv_verb :: string
  cv_before :: string
  cv_table :: string
  cv_file :: string

definition ends_word :: "string \<Rightarrow> string \<Rightarrow> bool" where
  "ends_word s w \<longleftrightarrow> (let t = rev (dropWhile js_ws (rev s)) in length w \<le> length t \<and> drop (length t - length w) t = w)"

definition names_no_table :: "code_verb \<Rightarrow> bool" where
  "names_no_table v \<longleftrightarrow> has_sub (js_lower (cv_verb v)) ''update'' \<and> (ends_word (js_lower (cv_before v)) ''for'' \<or> ends_word (js_lower (cv_before v)) ''do'')"

definition writeFootprint :: "code_verb list \<Rightarrow> (string \<times> string list) list" where
  "writeFootprint vs =
     (let found = map (\<lambda>v. (qualify_name (plain_name (cv_table v)), cv_file v)) (filter (\<lambda>v. \<not> names_no_table v) vs);
          names = rev (remdups (rev (map fst found)))
      in map (\<lambda>n. (n, rev (remdups (rev (map snd (filter (\<lambda>f. fst f = n) found)))))) names)"

datatype authority_problem =
    NoGuardList
  | GuardedNotListed string
  | ListedNotGuarded string
  | NotOneCore
  | GrantsFinancial string string
  | GrantsNever string string
  | GrantsUnknown string string
  | CannotRead string string
  | ExceptsUnknown string string
  | ExceptsFinancial string string
  | CodeWritesFinancial string string
  | CodeNotGranted string string
  | Ungenerated string string
  | SqlDrift
  | VerifyDrift
  | ListDrift
  | DefinerUnpinned string

record tree =
  tr_guarded :: "string list"
  tr_migrations :: "(string list \<times> (string \<times> string) list) list"
  tr_code :: "string list \<Rightarrow> code_verb list"
  tr_committed :: "sql list \<Rightarrow> bool"
  tr_verify_committed :: bool
  tr_guard_test :: "string list option"

definition granted_names :: "role_write \<Rightarrow> string list" where
  "granted_names w = rev (remdups (rev (rw_tables w @ rw_implied_by_triggers w)))"

definition financial_name :: "authority_manifest \<Rightarrow> string \<Rightarrow> bool" where
  "financial_name m t \<longleftrightarrow> drop_public t \<in> set (au_financial_tables m)"

definition check_granted :: "authority_manifest \<Rightarrow> string list \<Rightarrow> string \<Rightarrow> runtime_role \<Rightarrow> string \<Rightarrow> authority_problem list" where
  "check_granted m tables role spec t =
     (if financial_name m t \<and> startsWith t ''public.'' then [GrantsFinancial role t] else []) @
     (if t \<in> set (au_never_written m) then [GrantsNever role t] else []) @
     (if t \<notin> set tables then [GrantsUnknown role t] else []) @
     (if hd (parts t) \<notin> set (rr_read_schemas spec) then [CannotRead role t] else [])"

definition check_except :: "authority_manifest \<Rightarrow> string list \<Rightarrow> string \<Rightarrow> string \<Rightarrow> authority_problem list" where
  "check_except m tables role t =
     (if qualify_name t \<notin> set tables then [ExceptsUnknown role t] else []) @
     (if financial_name m (qualify_name t) then [ExceptsFinancial role t] else [])"

definition writes_all :: "role_write \<Rightarrow> string \<Rightarrow> bool" where
  "writes_all w t \<longleftrightarrow> (case rw_all_tables_in w of None \<Rightarrow> False | Some ss \<Rightarrow> hd (parts t) \<in> set ss)"

definition check_code :: "authority_manifest \<Rightarrow> string list \<Rightarrow> string \<Rightarrow> runtime_role \<Rightarrow> string \<Rightarrow> authority_problem list" where
  "check_code m tables role spec t =
     (let w = rr_write spec
      in if t \<notin> set tables then []
         else if financial_name m t \<and> startsWith t ''public.'' \<and> \<not> writes_all w t then [CodeWritesFinancial role t]
         else if \<not> writes_all w t \<and> t \<notin> set (granted_names w) then [CodeNotGranted role t]
         else [])"

definition check_role :: "authority_manifest \<Rightarrow> tree \<Rightarrow> string \<times> runtime_role \<Rightarrow> authority_problem list" where
  "check_role m src entry =
     (case entry of (role, spec) \<Rightarrow>
        let tables = migratedTables (tr_migrations src); w = rr_write spec
        in concat (map (check_granted m tables role spec) (granted_names w)) @
           concat (map (check_except m tables role) (rw_except_tables w)) @
           (if rr_source spec = [] then []
            else concat (map (\<lambda>f. check_code m tables role spec (fst f)) (writeFootprint (tr_code src (rr_source spec))))))"

definition check_authority :: "authority_manifest \<Rightarrow> tree \<Rightarrow> authority_problem list" where
  "check_authority m src =
     (let guarded = tr_guarded src; fin = au_financial_tables m;
          cores = map fst (filter (\<lambda>(r, spec). rw_all_tables_in (rr_write spec) \<noteq> None) (au_roles m))
      in (if guarded = [] then [NoGuardList] else []) @
         map GuardedNotListed (filter (\<lambda>t. t \<notin> set fin) guarded) @
         map ListedNotGuarded (filter (\<lambda>t. t \<notin> set guarded) (rev (remdups (rev fin)))) @
         (if cores \<noteq> [CORE] then [NotOneCore] else []) @
         concat (map (check_role m src) (au_roles m)) @
         (case generate m of
            Inl (role, t) \<Rightarrow> [Ungenerated role t]
          | Inr sql \<Rightarrow> if tr_committed src sql then [] else [SqlDrift]) @
         (if tr_verify_committed src then [] else [VerifyDrift]) @
         (case tr_guard_test src of None \<Rightarrow> [] | Some ts \<Rightarrow> if ts = sort_texts (au_not_financial m) then [] else [ListDrift]) @
         map (\<lambda>r. DefinerUnpinned (fst r)) (filter (\<lambda>r. \<not> snd r) (au_definer_routines m)))"

section \<open>What a script leaves\<close>

text \<open>The effect of a statement that succeeds: what it takes of each component, and what it gives.\<close>

fun takes :: "sql \<Rightarrow> (grantee \<times> privilege \<times> string \<times> string) set" where
  "takes (RevokeTables s rs) = {(g, p, t). g \<in> Role ` set rs \<and> fst t = s}"
| "takes _ = {}"

fun gives :: "pg_database \<Rightarrow> sql \<Rightarrow> (grantee \<times> privilege \<times> string \<times> string) set" where
  "gives d (GrantSelectAll s r) = {(g, p, t). g = Role r \<and> p = SELECT \<and> t \<in> relations d \<and> fst t = s}"
| "gives d (BzGrant ps name r) = {(g, p, t). g = Role r \<and> p \<in> set ps \<and> t \<in> relations d \<and> relation_named name = Some t}"
| "gives d (GrantEach s excluded r) =
     {(g, p, t). g = Role r \<and> p \<in> set written \<and> t \<in> each_table d s (case excluded of None \<Rightarrow> [] | Some xs \<Rightarrow> xs)}"
| "gives d _ = {}"

fun untakes :: "pg_database \<Rightarrow> sql \<Rightarrow> (string \<times> privilege \<times> string) set" where
  "untakes d (DefaultRevoke s rs) = (if db_owner d then {(s', p, r). s' = s \<and> r \<in> set rs} else {})"
| "untakes d _ = {}"

fun promises :: "pg_database \<Rightarrow> sql \<Rightarrow> (string \<times> privilege \<times> string) set" where
  "promises d (DefaultGrant s ps r) = (if db_owner d then {(s', p, r'). s' = s \<and> p \<in> set ps \<and> r' = r} else {})"
| "promises d _ = {}"

fun closes :: "sql \<Rightarrow> (string \<times> string) set" where
  "closes (RevokeSchema s rs) = {(s', r). s' = s \<and> r \<in> set rs}"
| "closes _ = {}"

fun opens :: "sql \<Rightarrow> (string \<times> string) set" where
  "opens (GrantUsage s r) = {(s, r)}"
| "opens _ = {}"

fun named_roles :: "sql \<Rightarrow> string list" where
  "named_roles (EnsureRoles rs) = rs"
| "named_roles _ = []"

lemma run_sql_effect:
  assumes "run_sql x d = Some d'"
  shows "d' = d\<lparr>db_roles := db_roles d @ filter (\<lambda>r. r \<notin> set (db_roles d)) (named_roles x),
      db_held := (db_held d - takes x) \<union> gives d x, db_usage := (db_usage d - closes x) \<union> opens x,
      db_default := (db_default d - untakes d x) \<union> promises d x\<rparr>"
  using assms
  by (cases x) (auto simp: grant_def written_def each_table_def split: if_splits option.splits list.splits intro!: pg_database.equality)
definition same_catalog :: "pg_database \<Rightarrow> pg_database \<Rightarrow> bool" where
  "same_catalog d e \<longleftrightarrow> db_schemas e = db_schemas d \<and> db_tables e = db_tables d \<and> db_views e = db_views d \<and>
     db_strong e = db_strong d \<and> db_owner e = db_owner d \<and> db_paths e = db_paths d"

lemma same_catalog_refl [simp]: "same_catalog d d"
  by (simp add: same_catalog_def)

lemma same_catalog_trans: "same_catalog d e \<Longrightarrow> same_catalog e f \<Longrightarrow> same_catalog d f"
  by (simp add: same_catalog_def)

lemma same_catalog_effects:
  assumes "same_catalog d e"
  shows "gives e x = gives d x" "untakes e x = untakes d x" "promises e x = promises d x"
  using assms by (cases x; auto simp: same_catalog_def relations_def each_table_def)+

lemma run_sql_catalog: "run_sql x d = Some d' \<Longrightarrow> same_catalog d d'"
  by (drule run_sql_effect) (simp add: same_catalog_def)

lemma run_script_catalog: "run_script xs d = Some d' \<Longrightarrow> same_catalog d d'"
proof (induction xs arbitrary: d)
  case (Cons x xs)
  then obtain e where e: "run_sql x d = Some e" "run_script xs e = Some d'" by (auto split: option.splits)
  show ?case by (rule same_catalog_trans [OF run_sql_catalog [OF e(1)] Cons.IH [OF e(2)]])
qed simp

lemma run_script_append: "run_script (xs @ ys) d = (case run_script xs d of None \<Rightarrow> None | Some e \<Rightarrow> run_script ys e)"
  by (induction xs arbitrary: d) (auto split: option.splits)

text \<open>A script that only takes, and one that only gives.\<close>

definition only_takes :: "sql \<Rightarrow> bool" where
  "only_takes x \<longleftrightarrow> (\<forall>d. gives d x = {} \<and> promises d x = {}) \<and> opens x = {} \<and> named_roles x = []"

definition only_gives :: "sql \<Rightarrow> bool" where
  "only_gives x \<longleftrightarrow> (\<forall>d. takes x = {} \<and> untakes d x = {}) \<and> closes x = {} \<and> named_roles x = []"

lemma run_script_takes:
  assumes "list_all only_takes xs" "run_script xs d = Some d'"
  shows "d' = d\<lparr>db_held := db_held d - (\<Union>x \<in> set xs. takes x), db_usage := db_usage d - (\<Union>x \<in> set xs. closes x),
      db_default := db_default d - (\<Union>x \<in> set xs. untakes d x)\<rparr>"
  using assms
proof (induction xs arbitrary: d)
  case (Cons x xs)
  then obtain e where e: "run_sql x d = Some e" "run_script xs e = Some d'" by (auto split: option.splits)
  note E = run_sql_effect [OF e(1)] and C = same_catalog_effects [OF run_sql_catalog [OF e(1)]]
  have x: "gives d x = {}" "promises d x = {}" "opens x = {}" "named_roles x = []" using Cons.prems(1) by (auto simp: only_takes_def)
  have "d' = e\<lparr>db_held := db_held e - (\<Union>x \<in> set xs. takes x), db_usage := db_usage e - (\<Union>x \<in> set xs. closes x),
      db_default := db_default e - (\<Union>x \<in> set xs. untakes d x)\<rparr>"
    using Cons.IH [OF _ e(2)] Cons.prems(1) by (simp add: C)
  then show ?case using E x by (auto intro!: pg_database.equality)
qed simp

lemma run_script_gives:
  assumes "list_all only_gives xs" "run_script xs d = Some d'"
  shows "d' = d\<lparr>db_held := db_held d \<union> (\<Union>x \<in> set xs. gives d x), db_usage := db_usage d \<union> (\<Union>x \<in> set xs. opens x),
      db_default := db_default d \<union> (\<Union>x \<in> set xs. promises d x)\<rparr>"
  using assms
proof (induction xs arbitrary: d)
  case (Cons x xs)
  then obtain e where e: "run_sql x d = Some e" "run_script xs e = Some d'" by (auto split: option.splits)
  note E = run_sql_effect [OF e(1)] and C = same_catalog_effects [OF run_sql_catalog [OF e(1)]]
  have x: "takes x = {}" "untakes d x = {}" "closes x = {}" "named_roles x = []" using Cons.prems(1) by (auto simp: only_gives_def)
  have "d' = e\<lparr>db_held := db_held e \<union> (\<Union>x \<in> set xs. gives d x), db_usage := db_usage e \<union> (\<Union>x \<in> set xs. opens x),
      db_default := db_default e \<union> (\<Union>x \<in> set xs. promises d x)\<rparr>"
    using Cons.IH [OF _ e(2)] Cons.prems(1) by (simp add: C)
  then show ?case using E x by (auto intro!: pg_database.equality)
qed simp

text \<open>The two halves of the generated script.\<close>

lemma head_takes: "generate_head m = EnsureRoles (role_names m) # tl (generate_head m) \<and> list_all only_takes (tl (generate_head m))"
  by (auto simp: generate_head_def Let_def only_takes_def list_all_iff)

lemma role_gives: "role_statements m role spec = Inr xs \<Longrightarrow> list_all only_gives xs"
  by (auto simp: role_statements_def role_reads_def role_loops_def Let_def only_gives_def list_all_iff split: option.splits)

lemma roles_give: "roles_statements m rs = Inr xs \<Longrightarrow> list_all only_gives xs"
  by (induction m rs arbitrary: xs rule: roles_statements.induct) (auto split: sum.splits dest: role_gives)

text \<open>What the head takes: everything the roles hold in the schemas of the manifest.\<close>

lemma head_taken:
  "(\<Union>x \<in> set (tl (generate_head m)). takes x) = {(g, p, t). g \<in> Role ` set (role_names m) \<and> fst t \<in> set (au_schemas m)}"
  "(\<Union>x \<in> set (tl (generate_head m)). untakes d x) =
     (if db_owner d then {(s, p, r). s \<in> set (au_schemas m) \<and> r \<in> set (role_names m)} else {})"
  by (auto simp: generate_head_def Let_def)


text \<open>The statements before the verification, and a manifest that is applied.\<close>

definition taken :: "authority_manifest \<Rightarrow> (grantee \<times> privilege \<times> string \<times> string) set" where
  "taken m = {(g, p, t). g \<in> Role ` set (role_names m) \<and> fst t \<in> set (au_schemas m)}"

lemma script_result:
  assumes xs: "roles_statements m (au_roles m) = Inr xs" and run: "run_script (generate_head m @ xs) d = Some e"
  shows "same_catalog d e" "db_roles e = db_roles d @ filter (\<lambda>r. r \<notin> set (db_roles d)) (role_names m)"
    "db_held e = (db_held d - taken m) \<union> (\<Union>x \<in> set xs. gives d x)"
    "db_usage e = (db_usage d - (\<Union>x \<in> set (tl (generate_head m)). closes x)) \<union> (\<Union>x \<in> set xs. opens x)"
    "db_default e = (db_default d - (\<Union>x \<in> set (tl (generate_head m)). untakes d x)) \<union> (\<Union>x \<in> set xs. promises d x)"
proof -
  define hs where "hs = tl (generate_head m)"
  have head: "generate_head m = EnsureRoles (role_names m) # hs" using head_takes by (simp add: hs_def)
  obtain d0 d1 where r: "run_sql (EnsureRoles (role_names m)) d = Some d0" "run_script hs d0 = Some d1" "run_script xs d1 = Some e"
    using run by (auto simp: head run_script_append split: option.splits)
  have d0: "d0 = d\<lparr>db_roles := db_roles d @ filter (\<lambda>r. r \<notin> set (db_roles d)) (role_names m)\<rparr>"
    using run_sql_effect [OF r(1)] by (auto intro!: pg_database.equality)
  have c: "same_catalog d d0" "same_catalog d d1" "same_catalog d e"
    using run_sql_catalog [OF r(1)] run_script_catalog [OF r(2)] run_script_catalog [OF r(3)] same_catalog_trans by blast+
  have d1: "d1 = d0\<lparr>db_held := db_held d0 - (\<Union>x \<in> set hs. takes x), db_usage := db_usage d0 - (\<Union>x \<in> set hs. closes x),
      db_default := db_default d0 - (\<Union>x \<in> set hs. untakes d x)\<rparr>"
    using run_script_takes [OF _ r(2)] head_takes [of m] by (simp add: hs_def same_catalog_effects [OF c(1)])
  have e: "e = d1\<lparr>db_held := db_held d1 \<union> (\<Union>x \<in> set xs. gives d x), db_usage := db_usage d1 \<union> (\<Union>x \<in> set xs. opens x),
      db_default := db_default d1 \<union> (\<Union>x \<in> set xs. promises d x)\<rparr>"
    using run_script_gives [OF roles_give [OF xs] r(3)] by (simp add: same_catalog_effects [OF c(2)])
  show "same_catalog d e" by (rule c)
  show "db_held e = (db_held d - taken m) \<union> (\<Union>x \<in> set xs. gives d x)"
    using d0 d1 e head_taken(1) [of m] by (simp add: hs_def taken_def)
  show "db_roles e = db_roles d @ filter (\<lambda>r. r \<notin> set (db_roles d)) (role_names m)" using d0 d1 e by simp
  show "db_usage e = (db_usage d - (\<Union>x \<in> set (tl (generate_head m)). closes x)) \<union> (\<Union>x \<in> set xs. opens x)"
    using d0 d1 e by (simp add: hs_def)
  show "db_default e = (db_default d - (\<Union>x \<in> set (tl (generate_head m)). untakes d x)) \<union> (\<Union>x \<in> set xs. promises d x)"
    using d0 d1 e by (simp add: hs_def)
qed

lemma applied:
  "apply_authority m d = Some d' \<longleftrightarrow>
     (\<exists>xs. roles_statements m (au_roles m) = Inr xs \<and> run_script (generate_head m @ xs) d = Some d' \<and>
        \<not> violation (nonCore m) (au_financial_tables m) (role_names m) d')"
  by (auto simp: apply_authority_def generate_def generateVerify_def run_script_append split: sum.splits option.splits if_splits)

lemma script_runs:
  assumes "\<And>x e. x \<in> set xs \<Longrightarrow> same_catalog d e \<Longrightarrow> run_sql x e \<noteq> None"
  obtains e where "run_script xs d = Some e"
proof -
  have "\<exists>e. run_script ys f = Some e" if "set ys \<subseteq> set xs" "same_catalog d f" for ys f
    using that
  proof (induction ys arbitrary: f)
    case (Cons y ys)
    then obtain g where g: "run_sql y f = Some g" using assms [of y f] by auto
    then have "same_catalog d g" using Cons.prems(2) run_sql_catalog same_catalog_trans by blast
    then show ?case using Cons g by auto
  qed simp
  then show thesis using that by (metis order_refl same_catalog_refl)
qed

lemma runs_again:
  assumes "run_script xs d = Some e" "x \<in> set xs" "\<And>a b c. x \<noteq> VerifyAuthority a b c" "same_catalog d f"
  shows "run_sql x f \<noteq> None"
  using assms(1,2,4)
proof (induction xs arbitrary: d)
  case (Cons y ys)
  then obtain g where g: "run_sql y d = Some g" "run_script ys g = Some e" by (auto split: option.splits)
  show ?case
  proof (cases "x = y")
    case True
    then show ?thesis using g(1) Cons.prems(3) assms(3)
      by (cases x) (auto simp: same_catalog_def split: if_splits option.splits list.splits)
  next
    case False
    have "same_catalog g f" using run_sql_catalog [OF g(1)] Cons.prems(3) by (simp add: same_catalog_def)
    then show ?thesis using Cons.IH [OF g(2)] Cons.prems(2) False by simp
  qed
qed simp

lemma no_verify:
  assumes "roles_statements m (au_roles m) = Inr xs" "x \<in> set (generate_head m @ xs)"
  shows "x \<noteq> VerifyAuthority a b c"
proof -
  have role: "VerifyAuthority a b c \<notin> set ys" if "role_statements m r w = Inr ys" for r w ys
    using that by (auto simp: role_statements_def role_reads_def role_loops_def Let_def split: option.splits)
  have "VerifyAuthority a b c \<notin> set ys" if "roles_statements m rs = Inr ys" for rs ys
    using that
  proof (induction rs arbitrary: ys)
    case (Cons r rs)
    then show ?case using role by (cases r) (auto split: sum.splits)
  qed simp
  then show ?thesis using assms by (auto simp: generate_head_def Let_def)
qed

text \<open>Applying a manifest twice is applying it once: on a database that the script has left, it commits and changes
  nothing, whatever the roles held before.\<close>

theorem authority_idempotent:
  assumes "apply_authority m d = Some d'"
  shows "apply_authority m d' = Some d'"
proof -
  obtain xs where xs: "roles_statements m (au_roles m) = Inr xs" and run: "run_script (generate_head m @ xs) d = Some d'"
    and ok: "\<not> violation (nonCore m) (au_financial_tables m) (role_names m) d'"
    using assms applied by blast
  note first = script_result [OF xs run]
  obtain e where e: "run_script (generate_head m @ xs) d' = Some e"
    using script_runs [of "generate_head m @ xs" d'] runs_again [OF run _ no_verify [OF xs]] first(1) same_catalog_trans by metis
  note second = script_result [OF xs e]
  note same = same_catalog_effects [OF first(1)]
  have "db_held e = db_held d'" "db_usage e = db_usage d'" "db_default e = db_default d'"
    unfolding second(3-5) first(3-5) by (auto simp: same)
  moreover have "db_roles e = db_roles d'" unfolding second(2) first(2) by (auto simp: filter_empty_conv)
  ultimately have "e = d'" using second(1) by (auto simp: same_catalog_def intro!: pg_database.equality)
  then show ?thesis using applied xs e ok by blast
qed

section \<open>What a role may write\<close>

text \<open>The manifest read as a promise: the tables a role may write in a database.\<close>

definition listed_in :: "string list option \<Rightarrow> string \<times> string \<Rightarrow> bool" where
  "listed_in ss t \<longleftrightarrow> (case ss of None \<Rightarrow> False | Some xs \<Rightarrow> fst t \<in> set xs)"

definition written_by :: "authority_manifest \<Rightarrow> role_write \<Rightarrow> pg_database \<Rightarrow> string \<times> string \<Rightarrow> bool" where
  "written_by m w d t \<longleftrightarrow>
     t \<in> set (db_tables d) \<and> listed_in (rw_all_tables_in w) t \<and> full_name t \<notin> set (au_never_written m) \<or>
     t \<in> set (db_tables d) \<and> listed_in (rw_all_non_financial_tables_in w) t \<and>
       full_name t \<notin> set (fin_tables m @ au_never_written m @ map qualify_name (rw_except_tables w)) \<or>
     t \<in> relations d \<and> full_name t \<in> set (rw_tables w @ rw_implied_by_triggers w)"

lemma length_split_on: "length (split_on c s) = Suc (length (filter ((=) c) s))"
  by (induction c s rule: split_on.induct) (auto split: list.splits)

lemma split_on_middle: "split_on c (s @ c # t) = split_on c s @ split_on c t"
proof (induction s)
  case (Cons x s)
  obtain p ps where "split_on c s = p # ps" using split_on_nonempty [of c s] by (cases "split_on c s") auto
  then show ?case using Cons by auto
qed simp

lemma relation_named_parts:
  assumes "length (parts n) = 2"
  shows "relation_named (parts n) = Some t \<longleftrightarrow> full_name t = n"
proof -
  obtain a b where ab: "parts n = [a, b]" using assms by (auto simp: length_Suc_conv numeral_2_eq_2)
  then have n: "n = a @ ''.'' @ b" using join_split [of "CHR ''.''" n] by (simp add: parts_def)
  have dots: "CHR ''.'' \<notin> set a" "CHR ''.'' \<notin> set b" using ab split_on_parts [of _ "CHR ''.''" n] by (auto simp: parts_def)
  have "a = fst t \<and> b = snd t" if "full_name t = n"
  proof -
    have "split_on (CHR ''.'') (fst t) @ split_on (CHR ''.'') (snd t) = [a, b]"
      using that ab split_on_middle [of "CHR ''.''" "fst t" "snd t"] by (simp add: full_name_def parts_def)
    then have "split_on (CHR ''.'') (fst t) = [a] \<and> split_on (CHR ''.'') (snd t) = [b]"
      by (auto simp: append_eq_Cons_conv)
    then show ?thesis using join_split [of "CHR ''.''" "fst t"] join_split [of "CHR ''.''" "snd t"] by simp
  qed
  then have "full_name t = n \<Longrightarrow> t = (a, b)" by (cases t) simp
  moreover have "full_name (a, b) = n" by (simp add: full_name_def n)
  moreover have "relation_named (parts n) = Some (a, b)" by (simp add: ab relation_named_def)
  ultimately show ?thesis by auto
qed

lemma gives_each:
  "gives d (GrantEach s (if excluded_in m w s = [] then None else Some (excluded_in m w s)) r) =
     {(g, p, t). g = Role r \<and> p \<in> set written \<and> t \<in> set (db_tables d) \<and> fst t = s \<and>
        full_name t \<notin> set (fin_tables m @ au_never_written m @ map qualify_name (rw_except_tables w))}"
proof -
  have "full_name t \<in> set (excluded_in m w (fst t)) \<longleftrightarrow> full_name t \<in> set (fin_tables m @ au_never_written m @ map qualify_name (rw_except_tables w))" for t
    by (auto simp: excluded_in_def full_name_def)
  moreover have "(case if ys = [] then None else Some ys of None \<Rightarrow> [] | Some zs \<Rightarrow> zs) = ys" for ys :: "string list" by simp
  ultimately show ?thesis by (auto simp: each_table_def)
qed

lemma written_any_split: "p \<in> set written_any \<Longrightarrow> p \<noteq> SELECT"
  by (auto simp: written_any_def)

lemma loops_write:
  "(Role r, p, t) \<in> (\<Union>x \<in> set (role_loops m role w). gives d x) \<longleftrightarrow>
     r = role \<and> p \<in> set written \<and> t \<in> set (db_tables d) \<and>
     (listed_in (rw_all_tables_in w) t \<and> full_name t \<notin> set (au_never_written m) \<or>
      listed_in (rw_all_non_financial_tables_in w) t \<and>
        full_name t \<notin> set (fin_tables m @ au_never_written m @ map qualify_name (rw_except_tables w)))"
proof -
  have "(Role r, p, t) \<in> (\<Union>x \<in> set (map (\<lambda>s. GrantEach s (Some (au_never_written m)) role) ss). gives d x) \<longleftrightarrow>
      r = role \<and> p \<in> set written \<and> t \<in> set (db_tables d) \<and> fst t \<in> set ss \<and> full_name t \<notin> set (au_never_written m)" for ss
    by (auto simp: each_table_def)
  moreover have "(Role r, p, t) \<in> (\<Union>x \<in> set (map (\<lambda>s. GrantEach s (if excluded_in m w s = [] then None else Some (excluded_in m w s)) role) ss). gives d x) \<longleftrightarrow>
      r = role \<and> p \<in> set written \<and> t \<in> set (db_tables d) \<and> fst t \<in> set ss \<and>
        full_name t \<notin> set (fin_tables m @ au_never_written m @ map qualify_name (rw_except_tables w))" for ss
    unfolding set_map image_image UN_simps gives_each by auto
  ultimately show ?thesis by (simp only: role_loops_def listed_in_def UN_Un set_append Un_iff split: option.split) auto
qed

lemma reads_write_not: "p \<in> set written_any \<Longrightarrow> (Role r, p, t) \<notin> (\<Union>x \<in> set (role_reads role spec). gives d x)"
  by (auto simp: role_reads_def Let_def written_any_def split: option.splits)

lemma role_writes:
  assumes s: "role_statements m role spec = Inr xs" and p: "p \<in> set written_any"
    and two: "\<And>n. n \<in> set (named_tables (rr_write spec)) \<Longrightarrow> length (parts n) = 2"
  shows "(Role r, p, t) \<in> (\<Union>x \<in> set xs. gives d x) \<longleftrightarrow> r = role \<and> p \<in> set written \<and> written_by m (rr_write spec) d t"
proof -
  let ?named = "map (\<lambda>t. BzGrant written (parts t) role) (named_tables (rr_write spec))"
  have xs: "xs = role_reads role spec @ role_loops m role (rr_write spec) @ ?named"
    using s by (auto simp: role_statements_def Let_def split: option.splits)
  have one: "(Role r, p, t) \<in> gives d (BzGrant written (parts n) role) \<longleftrightarrow>
      r = role \<and> p \<in> set written \<and> t \<in> relations d \<and> full_name t = n" if "n \<in> set (named_tables (rr_write spec))" for n
    using relation_named_parts [OF two [OF that]] by simp
  have "(Role r, p, t) \<in> (\<Union>x \<in> set ?named. gives d x) \<longleftrightarrow>
      (\<exists>n \<in> set (named_tables (rr_write spec)). (Role r, p, t) \<in> gives d (BzGrant written (parts n) role))"
    by (simp del: gives.simps)
  also have "\<dots> \<longleftrightarrow> (\<exists>n \<in> set (named_tables (rr_write spec)). r = role \<and> p \<in> set written \<and> t \<in> relations d \<and> full_name t = n)"
    using one by (rule bex_cong [OF refl])
  also have "\<dots> \<longleftrightarrow> r = role \<and> p \<in> set written \<and> t \<in> relations d \<and> full_name t \<in> set (rw_tables (rr_write spec) @ rw_implied_by_triggers (rr_write spec))"
    by (auto simp: named_tables_def)
  finally have named: "(Role r, p, t) \<in> (\<Union>x \<in> set ?named. gives d x) \<longleftrightarrow>
      r = role \<and> p \<in> set written \<and> t \<in> relations d \<and> full_name t \<in> set (rw_tables (rr_write spec) @ rw_implied_by_triggers (rr_write spec))" .
  have "(Role r, p, t) \<in> (\<Union>x \<in> set xs. gives d x) \<longleftrightarrow>
      (Role r, p, t) \<in> (\<Union>x \<in> set (role_loops m role (rr_write spec)). gives d x) \<or> (Role r, p, t) \<in> (\<Union>x \<in> set ?named. gives d x)"
    using reads_write_not [OF p, of r t d role spec] unfolding xs set_append UN_Un Un_iff by (simp del: set_map UN_simps gives.simps UN_iff)
  then show ?thesis
    unfolding written_by_def loops_write named by (simp del: UN_iff) argo
qed

section \<open>What the check means\<close>

text \<open>The names the migrations' statements can hold: at most a schema and a name; a table is renamed to a name alone.\<close>

definition captured_names :: "(string list \<times> (string \<times> string) list) list \<Rightarrow> bool" where
  "captured_names files \<longleftrightarrow>
     (\<forall>(creates, renames) \<in> set files. (\<forall>c \<in> set creates. length (parts c) \<le> 2) \<and> (\<forall>(from, to) \<in> set renames. CHR ''.'' \<notin> set to))"

lemma lower_dot: "lower_char c = CHR ''.'' \<longleftrightarrow> c = CHR ''.''"
  by (cases c) (auto simp: lower_char_code)

lemma dot_lower: "CHR ''.'' = lower_char c \<longleftrightarrow> CHR ''.'' = c"
  using lower_dot [of c] by fastforce

lemma plain_dot: "CHR ''.'' \<in> set (plain_name t) \<longleftrightarrow> CHR ''.'' \<in> set t"
proof -
  have "CHR ''.'' \<in> lower_char ` S \<longleftrightarrow> CHR ''.'' \<in> S" for S by (metis imageE imageI lower_dot)
  then show ?thesis by (simp add: plain_name_def js_lower_def)
qed

lemma length_plain: "length (parts (plain_name t)) = length (parts t)"
proof -
  have "(\<lambda>c. c \<noteq> CHR 0x22 \<and> CHR ''.'' = lower_char c) = (=) (CHR ''.'')" using dot_lower by auto
  then show ?thesis by (simp add: parts_def length_split_on plain_name_def js_lower_def filter_map o_def)
qed

lemma dotted_parts: "CHR ''.'' \<in> set t \<longleftrightarrow> 2 \<le> length (parts t)"
  unfolding parts_def length_split_on by (induction t) auto

lemma point_parts: "CHR ''.'' \<notin> set s \<Longrightarrow> length (parts (s @ ''.'' @ t)) = Suc (length (parts t))"
  unfolding parts_def using split_on_append [of "CHR ''.''" s t] by simp

lemma migrated_two:
  assumes "captured_names files" "n \<in> set (migratedTables files)"
  shows "length (parts n) = 2"
proof -
  have public: "length (parts (''public.'' @ x)) = 2" if "CHR ''.'' \<notin> set x" for x
    using point_parts [of "''public''" x] that by (simp add: parts_def)
  obtain cs rs where f: "(cs, rs) \<in> set files" and
    n: "(\<exists>c \<in> set cs. n = qualify_name (plain_name c)) \<or>
      (\<exists>(from, to) \<in> set rs. n = (if CHR ''.'' \<in> set (plain_name from) then hd (parts (plain_name from)) else ''public'') @ ''.'' @ plain_name to)"
    using assms(2) by (fastforce simp: migratedTables_def Let_def)
  from n show ?thesis
  proof (elim disjE bexE)
    fix c assume c: "c \<in> set cs" "n = qualify_name (plain_name c)"
    have "length (parts c) \<le> 2" using assms(1) f c(1) by (auto simp: captured_names_def)
    then show ?thesis using c(2) public [of "plain_name c"] dotted_parts [of "plain_name c"]
      by (auto simp: qualify_name_def in_public_def length_plain)
  next
    fix x assume x: "x \<in> set rs" "case x of (from, to) \<Rightarrow> n = (if CHR ''.'' \<in> set (plain_name from) then hd (parts (plain_name from)) else ''public'') @ ''.'' @ plain_name to"
    obtain f0 t0 where ft: "x = (f0, t0)" by (cases x)
    have to: "CHR ''.'' \<notin> set (plain_name t0)" using assms(1) f x(1) ft by (auto simp: captured_names_def plain_dot)
    have "CHR ''.'' \<notin> set (hd (parts (plain_name f0)))"
      unfolding parts_def by (rule split_on_parts [OF hd_in_set [OF split_on_nonempty]])
    then show ?thesis using x(2) ft to point_parts [of _ "plain_name t0"] public [OF to] by (auto simp: parts_def)
  qed
qed

lemma checked:
  assumes "check_authority m src = []" "(role, spec) \<in> set (au_roles m)"
  shows "rw_all_tables_in (rr_write spec) \<noteq> None \<Longrightarrow> role = CORE"
    "n \<in> set (rw_tables (rr_write spec) @ rw_implied_by_triggers (rr_write spec)) \<Longrightarrow>
       n \<in> set (migratedTables (tr_migrations src)) \<and> n \<notin> set (au_never_written m) \<and> \<not> (financial_name m n \<and> startsWith n ''public.'') \<and>
       hd (parts n) \<in> set (rr_read_schemas spec)"
    "rr_source spec \<noteq> [] \<Longrightarrow> f \<in> set (writeFootprint (tr_code src (rr_source spec))) \<Longrightarrow>
       check_code m (migratedTables (tr_migrations src)) role spec (fst f) = []"
proof -
  let ?cores = "map fst (filter (\<lambda>(r, spec). rw_all_tables_in (rr_write spec) \<noteq> None) (au_roles m))"
  have cores: "?cores = [CORE]" and role: "check_role m src (role, spec) = []"
    using assms by (auto simp: check_authority_def Let_def split: if_splits)
  show "role = CORE" if "rw_all_tables_in (rr_write spec) \<noteq> None"
  proof -
    have "role \<in> set ?cores" using assms(2) that by force
    then show ?thesis unfolding cores by simp
  qed
  show "n \<in> set (migratedTables (tr_migrations src)) \<and> n \<notin> set (au_never_written m) \<and> \<not> (financial_name m n \<and> startsWith n ''public.'') \<and>
      hd (parts n) \<in> set (rr_read_schemas spec)" if "n \<in> set (rw_tables (rr_write spec) @ rw_implied_by_triggers (rr_write spec))"
  proof -
    have "check_granted m (migratedTables (tr_migrations src)) role spec n = []"
      using role that by (auto simp: check_role_def Let_def granted_names_def)
    then show ?thesis by (auto simp: check_granted_def split: if_splits)
  qed
  show "check_code m (migratedTables (tr_migrations src)) role spec (fst f) = []"
    if "rr_source spec \<noteq> []" "f \<in> set (writeFootprint (tr_code src (rr_source spec)))"
    using role that by (auto simp: check_role_def Let_def)
qed

text \<open>The grants of all roles together.\<close>

lemma checked_two:
  assumes "check_authority m src = []" "captured_names (tr_migrations src)" "(role, spec) \<in> set (au_roles m)" "n \<in> set (named_tables (rr_write spec))"
  shows "length (parts n) = 2"
  using migrated_two [OF assms(2)] checked(2) [OF assms(1,3), of n] assms(4) by (auto simp: named_tables_def)

lemma roles_write:
  assumes "roles_statements m rs = Inr xs" "p \<in> set written_any"
    "\<And>role spec n. (role, spec) \<in> set rs \<Longrightarrow> n \<in> set (named_tables (rr_write spec)) \<Longrightarrow> length (parts n) = 2"
  shows "(Role r, p, t) \<in> (\<Union>x \<in> set xs. gives d x) \<longleftrightarrow> p \<in> set written \<and> (\<exists>spec. (r, spec) \<in> set rs \<and> written_by m (rr_write spec) d t)"
  using assms(1,3)
proof (induction rs arbitrary: xs)
  case (Cons entry rs)
  obtain role spec where e: "entry = (role, spec)" by (cases entry)
  obtain ys zs where s: "role_statements m role spec = Inr ys" "roles_statements m rs = Inr zs" "xs = ys @ zs"
    using Cons.prems(1) by (auto simp: e split: sum.splits)
  have first: "(Role r, p, t) \<in> (\<Union>x \<in> set ys. gives d x) \<longleftrightarrow> r = role \<and> p \<in> set written \<and> written_by m (rr_write spec) d t"
    by (rule role_writes [OF s(1) assms(2)]) (use Cons.prems(2) e in auto)
  have rest: "(Role r, p, t) \<in> (\<Union>x \<in> set zs. gives d x) \<longleftrightarrow> p \<in> set written \<and> (\<exists>spec. (r, spec) \<in> set rs \<and> written_by m (rr_write spec) d t)"
    by (rule Cons.IH [OF s(2)]) (use Cons.prems(2) in auto)
  show ?case unfolding s(3) e set_append UN_Un Un_iff first rest by auto
qed simp

lemma applied_writes:
  assumes "check_authority m src = []" "captured_names (tr_migrations src)" "roles_statements m (au_roles m) = Inr xs"
    "run_script (generate_head m @ xs) d = Some e" "p \<in> set written_any"
  shows "(Role r, p, t) \<in> db_held e \<longleftrightarrow>
     (Role r, p, t) \<in> db_held d - taken m \<or> p \<in> set written \<and> (\<exists>spec. (r, spec) \<in> set (au_roles m) \<and> written_by m (rr_write spec) d t)"
proof -
  have "(Role r, p, t) \<in> (\<Union>x \<in> set xs. gives d x) \<longleftrightarrow> p \<in> set written \<and> (\<exists>spec. (r, spec) \<in> set (au_roles m) \<and> written_by m (rr_write spec) d t)"
    by (rule roles_write [OF assms(3,5)]) (rule checked_two [OF assms(1,2)])
  then show ?thesis unfolding script_result(3) [OF assms(3,4)] Un_iff by blast
qed


text \<open>What a manifest without problems gives: no financial table but to the core, and nothing that is never written.\<close>

lemma written_by_bounds:
  assumes c: "check_authority m src = []" and r: "(r, spec) \<in> set (au_roles m)" and w: "written_by m (rr_write spec) d t"
  shows "t \<in> relations d" "full_name t \<notin> set (au_never_written m)" "full_name t \<in> set (fin_tables m) \<Longrightarrow> r = CORE"
proof -
  note named = checked(2) [OF c r, of "full_name t"]
  show "t \<in> relations d" using w by (auto simp: written_by_def relations_def)
  show "full_name t \<notin> set (au_never_written m)" using w named by (auto simp: written_by_def)
  show "r = CORE" if "full_name t \<in> set (fin_tables m)"
  proof -
    have "startsWith (full_name t) ''public.''" "financial_name m (full_name t)"
      using that by (auto simp: fin_tables_def in_public_def financial_name_def drop_public_def)
    then have "rw_all_tables_in (rr_write spec) \<noteq> None" using w named that by (auto simp: written_by_def listed_in_def split: option.splits)
    then show ?thesis using checked(1) [OF c r] by simp
  qed
qed


text \<open>A database the script can be applied to: the schemas named exist, no role of the manifest is strong, the
  verification finds no indirect path, nothing that changes a financial table is granted to everyone, and default
  privileges stand only in the schemas of the manifest.\<close>

definition role_schemas :: "runtime_role \<Rightarrow> string list" where
  "role_schemas spec =
     rr_read_schemas spec @ map (\<lambda>t. hd (parts t)) (rr_read_tables spec) @
     (case rw_all_tables_in (rr_write spec) of None \<Rightarrow> [] | Some ss \<Rightarrow> ss)"

definition prepared :: "authority_manifest \<Rightarrow> pg_database \<Rightarrow> bool" where
  "prepared m d \<longleftrightarrow>
     set (au_schemas m @ concat (map (\<lambda>e. role_schemas (snd e)) (au_roles m))) \<subseteq> set (db_schemas d) \<and>
     (\<forall>r \<in> set (role_names m). r \<notin> set (db_strong d)) \<and> \<not> db_paths d \<and>
     (\<forall>(g, p, t) \<in> db_held d. g = Everyone \<and> p \<in> set written_any \<longrightarrow> full_name t \<notin> set (fin_tables m)) \<and>
     (\<forall>(s, p, r) \<in> db_default d. db_owner d \<and> s \<in> set (au_schemas m))"

lemma read_name_named: "relation_named (read_name t) \<noteq> None"
  by (auto simp: read_name_def relation_named_def parts_def split: list.splits)

lemma prepared_runs:
  assumes p: "prepared m d" and c: "check_authority m src = []" and f: "captured_names (tr_migrations src)" and never: "au_never_written m \<noteq> []"
    and xs: "roles_statements m (au_roles m) = Inr xs" and x: "x \<in> set (generate_head m @ xs)" and same: "same_catalog d e"
  shows "run_sql x e \<noteq> None"
proof -
  have schemas: "db_schemas e = db_schemas d" "db_strong e = db_strong d" using same by (simp_all add: same_catalog_def)
  have role: "run_sql y e \<noteq> None" if s: "role_statements m role spec = Inr ys" and y: "y \<in> set ys" and r: "(role, spec) \<in> set (au_roles m)" for role spec ys y
  proof -
    have "(\<Union>e \<in> set (au_roles m). set (role_schemas (snd e))) \<subseteq> set (db_schemas d)" using p by (simp add: prepared_def)
    moreover have "s \<in> set (role_schemas spec) \<Longrightarrow> s \<in> (\<Union>e \<in> set (au_roles m). set (role_schemas (snd e)))" for s
      using r by (metis UN_I snd_conv)
    ultimately have known: "s \<in> set (role_schemas spec) \<Longrightarrow> s \<in> set (db_schemas e)" for s using schemas(1) by auto
    have k: "s \<in> set (rr_read_schemas spec) \<Longrightarrow> s \<in> set (db_schemas e)" "n \<in> set (rr_read_tables spec) \<Longrightarrow> hd (parts n) \<in> set (db_schemas e)"
      "Some ss = rw_all_tables_in (rr_write spec) \<Longrightarrow> s \<in> set ss \<Longrightarrow> s \<in> set (db_schemas e)" for s n ss
      using known by (auto simp: role_schemas_def split: option.splits)
    have y': "y \<in> set (role_reads role spec) \<or> y \<in> set (role_loops m role (rr_write spec)) \<or>
        (\<exists>n \<in> set (named_tables (rr_write spec)). y = BzGrant written (parts n) role)"
      using s y by (auto simp: role_statements_def Let_def split: option.splits)
    have "relation_named (parts n) \<noteq> None" if "n \<in> set (named_tables (rr_write spec))" for n
      using checked_two [OF c f r that] by (auto simp: relation_named_def length_Suc_conv numeral_2_eq_2)
    moreover have "run_sql y e \<noteq> None" if "y \<in> set (role_reads role spec)"
      using that k read_name_named by (auto simp: role_reads_def Let_def split: option.splits)
    moreover have "run_sql y e \<noteq> None" if "y \<in> set (role_loops m role (rr_write spec))"
      using that never by (auto simp: role_loops_def split: option.splits list.splits)
    ultimately show ?thesis using y' by (auto split: option.splits)
  qed
  have roles: "run_sql y e \<noteq> None" if "roles_statements m rs = Inr ys" "y \<in> set ys" "set rs \<subseteq> set (au_roles m)" for rs ys y
    using that
  proof (induction rs arbitrary: ys)
    case (Cons r rs)
    then show ?case using role by (cases r) (auto split: sum.splits)
  qed simp
  have head: "run_sql y e \<noteq> None" if "y \<in> set (generate_head m)" for y
    using that p schemas unfolding prepared_def by (auto simp: generate_head_def Let_def)
  show ?thesis using x roles [OF xs] head by auto
qed

lemma roles_promise:
  assumes "roles_statements m rs = Inr xs" "(s, p, r) \<in> (\<Union>x \<in> set xs. promises d x)" "p \<in> set written_any"
  shows "\<exists>spec. (r, spec) \<in> set rs \<and> rw_all_tables_in (rr_write spec) \<noteq> None"
proof -
  have role: "r = role \<and> rw_all_tables_in (rr_write spec) \<noteq> None"
    if "role_statements m role spec = Inr ys" "y \<in> set ys" "(s, p, r) \<in> promises d y" for role spec ys y
    using that assms(3) by (auto simp: role_statements_def role_reads_def role_loops_def Let_def written_any_def split: option.splits if_splits)
  show ?thesis using assms(1,2)
  proof (induction rs arbitrary: xs)
    case (Cons entry rs)
    obtain r0 s0 ys zs where e: "entry = (r0, s0)" "role_statements m r0 s0 = Inr ys" "roles_statements m rs = Inr zs" "xs = ys @ zs"
      using Cons.prems(1) by (cases entry) (auto split: sum.splits)
    then show ?case using Cons.prems(2) Cons.IH [OF e(3)] role [OF e(2)] by auto
  qed simp
qed


lemma footprint_names: "fst ` set (writeFootprint vs) = (\<lambda>v. qualify_name (plain_name (cv_table v))) ` {v \<in> set vs. \<not> names_no_table v}"
  by (simp add: writeFootprint_def Let_def image_image)

text \<open>C25. The services can write what their code writes: after the script of a manifest without problems, a table that the
  sources of a role's service write, and a migration creates, may be inserted into, updated and deleted from by the
  role. One gap is left: the core is taken to write every table of its schemas, also those that the script
  never grants.\<close>

theorem services_can_write:
  assumes c: "check_authority m src = []" and f: "captured_names (tr_migrations src)" and a: "apply_authority m d = Some d'"
    and r: "(r, spec) \<in> set (au_roles m)" and v: "v \<in> set (tr_code src (rr_source spec))" "\<not> names_no_table v" "rr_source spec \<noteq> []"
    and n: "qualify_name (plain_name (cv_table v)) = full_name t" "full_name t \<in> set (migratedTables (tr_migrations src))" "t \<in> set (db_tables d)"
  shows "(\<forall>p \<in> set written. may d' r p t) \<or> r = CORE \<and> full_name t \<in> set (au_never_written m)"
proof -
  have two: "length (parts (full_name t)) = 2" by (rule migrated_two [OF f n(2)])
  then have schema: "hd (parts (full_name t)) = fst t"
  proof -
    have "length (parts (fst t)) = 1" using two split_on_middle [of "CHR ''.''" "fst t" "snd t"]
        length_split_on [of "CHR ''.''" "fst t"] length_split_on [of "CHR ''.''" "snd t"] by (simp add: parts_def full_name_def)
    then have "parts (fst t) = [fst t]"
      using join_split [of "CHR ''.''" "fst t"] by (auto simp: parts_def length_Suc_conv)
    then show ?thesis using split_on_middle [of "CHR ''.''" "fst t" "snd t"] by (simp add: parts_def full_name_def)
  qed
  obtain fs where "(full_name t, fs) \<in> set (writeFootprint (tr_code src (rr_source spec)))"
  proof -
    have "full_name t \<in> fst ` set (writeFootprint (tr_code src (rr_source spec)))"
      unfolding footprint_names using v(1,2) n(1) by (metis (mono_tags, lifting) imageI mem_Collect_eq)
    then show thesis using that by auto
  qed
  then have "check_code m (migratedTables (tr_migrations src)) r spec (full_name t) = []"
    using checked(3) [OF c r v(3)] by fastforce
  then have "writes_all (rr_write spec) (full_name t) \<or> full_name t \<in> set (granted_names (rr_write spec))"
    using n(2) by (auto simp: check_code_def Let_def split: if_splits)
  then have "written_by m (rr_write spec) d t \<or> r = CORE \<and> full_name t \<in> set (au_never_written m)"
    using n(3) schema checked(1) [OF c r]
    by (auto simp: writes_all_def written_by_def listed_in_def granted_names_def relations_def split: option.splits)
  moreover obtain xs where xs: "roles_statements m (au_roles m) = Inr xs" "run_script (generate_head m @ xs) d = Some d'"
    using a applied by blast
  moreover have "q \<in> set written \<Longrightarrow> q \<in> set written_any" for q by (auto simp: written_def written_any_def)
  ultimately show ?thesis using applied_writes [OF c f xs] r by (auto simp: may_def)
qed

section \<open>A small deployment\<close>

definition no_write :: role_write where
  "no_write = \<lparr> rw_all_tables_in = None, rw_all_non_financial_tables_in = None, rw_except_tables = [], rw_tables = [], rw_implied_by_triggers = [] \<rparr>"

definition demo_role :: "string \<Rightarrow> role_write \<Rightarrow> runtime_role" where
  "demo_role dir w = \<lparr> rr_source = [dir], rr_read_schemas = [''public''], rr_read_tables = [], rr_write = w \<rparr>"

definition demo_authority :: authority_manifest where
  "demo_authority =
     \<lparr> au_schemas = [''public''], au_financial_tables = [''wallets''], au_not_financial = [], au_never_written = [''public.log''],
       au_definer_routines = [],
       au_roles = [(CORE, demo_role ''core'' (no_write\<lparr>rw_all_tables_in := Some [''public'']\<rparr>)),
         (''bl_gw'', demo_role ''gw'' (no_write\<lparr>rw_tables := [''public.hooks'']\<rparr>))] \<rparr>"

definition demo_tree :: tree where
  "demo_tree =
     \<lparr> tr_guarded = [''wallets''], tr_migrations = [([''wallets'', ''\"public\".Hooks''], [(''old'', ''log'')])],
       tr_code = (\<lambda>dirs. if dirs = [''gw''] then [\<lparr> cv_verb = ''INSERT INTO'', cv_before = [], cv_table = ''hooks'', cv_file = ''gw/a.go'' \<rparr>,
           \<lparr> cv_verb = ''UPDATE'', cv_before = '' FOR '', cv_table = ''wallets'', cv_file = ''gw/a.go'' \<rparr>] else []),
       tr_committed = (\<lambda>xs. True), tr_verify_committed = True, tr_guard_test = Some [] \<rparr>"

definition demo_database :: pg_database where
  "demo_database =
     \<lparr> db_schemas = [''public''], db_tables = [(''public'', ''wallets''), (''public'', ''hooks''), (''public'', ''log'')], db_views = [],
       db_roles = [], db_strong = [], db_owner = True, db_paths = False,
       db_held = {(Role ''bl_gw'', DELETE, ''public'', ''wallets'')}, db_usage = {}, db_default = {} \<rparr>"

lemma demo_checked: "check_authority demo_authority demo_tree = [] \<and> captured_names (tr_migrations demo_tree)"
  by code_simp

lemma demo_applied:
  obtains d' where "apply_authority demo_authority demo_database = Some d'"
proof -
  have "apply_authority demo_authority demo_database \<noteq> None" by code_simp
  then show thesis using that by auto
qed

lemma authority_idempotent_witness:
  "\<exists>d'. apply_authority demo_authority demo_database = Some d' \<and> apply_authority demo_authority d' = Some d'"
  using demo_applied authority_idempotent by metis




lemma services_can_write_witness:
  "\<exists>d'. apply_authority demo_authority demo_database = Some d' \<and> may d' ''bl_gw'' DELETE (''public'', ''hooks'')"
proof -
  obtain d' where d': "apply_authority demo_authority demo_database = Some d'" by (rule demo_applied)
  have "(\<forall>p \<in> set written. may d' ''bl_gw'' p (''public'', ''hooks'')) \<or> ''bl_gw'' = CORE \<and> full_name (''public'', ''hooks'') \<in> set (au_never_written demo_authority)"
    by (rule services_can_write [OF demo_checked [THEN conjunct1] demo_checked [THEN conjunct2] d',
        where v = "\<lparr> cv_verb = ''INSERT INTO'', cv_before = [], cv_table = ''hooks'', cv_file = ''gw/a.go'' \<rparr>"
          and spec = "demo_role ''gw'' (no_write\<lparr>rw_tables := [''public.hooks'']\<rparr>)"]) code_simp+
  then show ?thesis using d' by (auto simp: written_def CORE_def)
qed

end
