(* ===== verification/WebOnboarding.thy ===== *)
theory WebOnboarding
  imports WebProof
begin

text \<open>
  The Business application on the website (apps/website/lib/api.ts, from the handle to the activation): the stack
  each request goes to, the application, the upload of a document in three steps, the list of documents, the
  requirements, the resubmission and the activation link.

  Requests are numbered; what the network answers a request may depend on its number, and so may the clock. An
  answer that is missing is a failure of the network. Every request is recorded with its answer. A call that the
  code does not catch ends as \<open>Threw\<close>; texts for people are left out.
\<close>

section \<open>Handles and codes\<close>

text \<open>The trimmed, lower-case handle without its leading at-signs.\<close>

definition normalizeHandle :: "string \<Rightarrow> string" where
  "normalizeHandle raw = dropWhile (\<lambda>c. c = CHR ''@'') (js_lower (js_trim raw))"

definition handle_char :: "char \<Rightarrow> bool" where
  "handle_char c \<longleftrightarrow> is_ascii_lower c \<or> is_digit c \<or> c = CHR ''_''"

definition HANDLE_RE :: "string \<Rightarrow> bool" where
  "HANDLE_RE h \<longleftrightarrow> 3 \<le> length h \<and> length h \<le> 30 \<and> is_ascii_lower (hd h) \<and> list_all handle_char h \<and> last h \<noteq> CHR ''_''"

definition isValidHandleFormat :: "string \<Rightarrow> bool" where
  "isValidHandleFormat h \<longleftrightarrow> HANDLE_RE h \<and> \<not> has_sub h ''__''"

definition isValidPin :: "string \<Rightarrow> bool" where
  "isValidPin p \<longleftrightarrow> 4 \<le> length p \<and> length p \<le> 8 \<and> list_all is_digit p"

section \<open>Requests\<close>

datatype site_body = NoBody | JsonBody json | FileBody string

record site_call =
  sc_method :: string
  sc_url :: string
  sc_headers :: "(string \<times> json) list"
  sc_body :: site_body

record web_site =
  si_memo :: "(int \<times> string \<times> platform_mode) option"
  si_log :: "(site_call \<times> web_reply option) list"

type_synonym site_net = "nat \<Rightarrow> site_call \<Rightarrow> web_reply option"

definition site_fetch :: "site_net \<Rightarrow> site_call \<Rightarrow> web_site \<Rightarrow> web_reply option \<times> web_site" where
  "site_fetch net c s = (let r = net (length (si_log s)) c in (r, s\<lparr>si_log := si_log s @ [(c, r)]\<rparr>))"

definition mode_request :: "string \<Rightarrow> site_call" where
  "mode_request base = \<lparr> sc_method = ''GET'', sc_url = base @ ''/v1/platform-mode'', sc_headers = [], sc_body = NoBody \<rparr>"

text \<open>The stack of the moment: remembered for half a minute, otherwise asked for again.\<close>

definition onboardingTarget :: "site_net \<Rightarrow> (nat \<Rightarrow> int) \<Rightarrow> string \<Rightarrow> web_site \<Rightarrow> (string \<times> platform_mode) \<times> web_site" where
  "onboardingTarget net clock base s =
     (let now = clock (length (si_log s));
          ask = (case site_fetch net (mode_request base) s of
                   (r, s') \<Rightarrow> let m = mi_mode (getPlatformMode (\<lambda>c. r) base); v = (baseForMode base m, m)
                              in (v, s'\<lparr>si_memo := Some (now, v)\<rparr>))
      in case si_memo s of
           Some (at, v) \<Rightarrow> if now - at < 30000 then (v, s) else ask
         | None \<Rightarrow> ask)"

definition json_type :: "(string \<times> json) list" where
  "json_type = [(''Content-Type'', JStr ''application/json'')]"

definition post :: "string \<Rightarrow> (string \<times> json) list \<Rightarrow> json \<Rightarrow> site_call" where
  "post url headers body = \<lparr> sc_method = ''POST'', sc_url = url, sc_headers = headers, sc_body = JsonBody body \<rparr>"

definition site_get :: "string \<Rightarrow> site_call" where
  "site_get url = \<lparr> sc_method = ''GET'', sc_url = url, sc_headers = [], sc_body = NoBody \<rparr>"

text \<open>The code of a refusal, nested or flat, where a member of \<open>null\<close> cannot be read; an unreadable body is an empty one.\<close>

definition body_or_empty :: "web_reply \<Rightarrow> json" where
  "body_or_empty r = (case wy_body r of Some j \<Rightarrow> j | None \<Rightarrow> JObj [])"

definition nested :: "string \<Rightarrow> json \<Rightarrow> json option" where
  "nested k j = (case jget ''error'' j of Some e \<Rightarrow> jget k e | None \<Rightarrow> None)"

definition js_or :: "json option \<Rightarrow> json option \<Rightarrow> json option" where
  "js_or a b = (if json_truthy a then a else b)"

definition js_default :: "json option \<Rightarrow> json option \<Rightarrow> json option" where
  "js_default a b = (if a = None \<or> a = Some JNull then b else a)"

section \<open>The application\<close>

text \<open>\<open>checkHandle\<close> gives the body whatever the status.\<close>

definition checkHandle :: "site_net \<Rightarrow> (nat \<Rightarrow> int) \<Rightarrow> string \<Rightarrow> string \<Rightarrow> web_site \<Rightarrow> json option \<times> web_site" where
  "checkHandle net clock base handle s =
     (case onboardingTarget net clock base s of
        (v, s1) \<Rightarrow>
          case site_fetch net (post (fst v @ ''/v1/merchant/applications/check-handle'') json_type (JObj [(''handle'', JStr handle)])) s1 of
            (None, s2) \<Rightarrow> (None, s2)
          | (Some r, s2) \<Rightarrow> (wy_body r, s2))"

definition mode_name :: "platform_mode \<Rightarrow> string" where
  "mode_name m = (case m of LIVE_MODE \<Rightarrow> ''LIVE'' | SANDBOX_MODE \<Rightarrow> ''SANDBOX'')"

datatype submit_result =
    Submitted nat "json option"
  | NotSubmitted nat "json option" "json option"
  | SubmitThrew

definition submit_headers :: "string option \<Rightarrow> (string \<times> json) list" where
  "submit_headers key =
     json_type @ (case key of Some k \<Rightarrow> if k = [] then [] else [(''Idempotency-Key'', JStr k)] | None \<Rightarrow> [])"

text \<open>The input's own member of that name, if any, keeps its place and takes the new value.\<close>

definition with_environment :: "(string \<times> json) list \<Rightarrow> platform_mode \<Rightarrow> json" where
  "with_environment input m =
     (let e = JStr (mode_name m)
      in JObj (if ''environment'' \<in> set (map fst input) then map (\<lambda>(k, v). (k, if k = ''environment'' then e else v)) input
               else input @ [(''environment'', e)]))"

definition submitApplication ::
  "site_net \<Rightarrow> (nat \<Rightarrow> int) \<Rightarrow> string \<Rightarrow> (string \<times> json) list \<Rightarrow> string option \<Rightarrow> web_site \<Rightarrow> submit_result \<times> web_site" where
  "submitApplication net clock base input key s =
     (case onboardingTarget net clock base s of
        (v, s1) \<Rightarrow>
          case site_fetch net (post (fst v @ ''/v1/merchant/applications'') (submit_headers key) (with_environment input (snd v))) s1 of
            (None, s2) \<Rightarrow> (SubmitThrew, s2)
          | (Some r, s2) \<Rightarrow>
              (let j = body_or_empty r
               in if j = JNull then SubmitThrew
                  else if reply_ok r then Submitted (wy_status r) (jget ''application_id'' j)
                  else NotSubmitted (wy_status r) (jget ''code'' j) (js_or (jget ''message'' j) (jget ''code'' j)), s2))"

section \<open>Documents\<close>

record upload_file =
  uf_name :: string
  uf_type :: string
  uf_size :: nat
  uf_content :: string

datatype upload_result = Uploaded "json option" | NotConfigured | UploadError | UploadThrew

datatype upload_grant = UploadGranted json | UploadRefused nat "json option" | GrantThrew

definition document_url :: "string \<Rightarrow> string \<Rightarrow> string" where
  "document_url base app = base @ ''/v1/merchant/applications/'' @ encodeURIComponent app @ ''/documents''"

definition upload_body :: "string \<Rightarrow> upload_file \<Rightarrow> json" where
  "upload_body kind file =
     JObj [(''document_type'', JStr kind), (''filename'', JStr (uf_name file)),
       (''mime_type'', JStr (if uf_type file = [] then ''application/octet-stream'' else uf_type file)), (''size_bytes'', jint (int (uf_size file)))]"

definition requestUploadUrl ::
  "site_net \<Rightarrow> (nat \<Rightarrow> int) \<Rightarrow> string \<Rightarrow> string \<Rightarrow> json \<Rightarrow> web_site \<Rightarrow> upload_grant \<times> web_site" where
  "requestUploadUrl net clock base app body s =
     (case onboardingTarget net clock base s of
        (v, s1) \<Rightarrow>
          case site_fetch net (post (document_url (fst v) app @ ''/upload-url'') json_type body) s1 of
            (None, s2) \<Rightarrow> (GrantThrew, s2)
          | (Some r, s2) \<Rightarrow>
              (if reply_ok r then (case wy_body r of Some j \<Rightarrow> UploadGranted j | None \<Rightarrow> GrantThrew)
               else if body_or_empty r = JNull then GrantThrew
               else UploadRefused (wy_status r) (js_or (nested ''code'' (body_or_empty r)) (jget ''code'' (body_or_empty r))), s2))"

definition confirmUpload ::
  "site_net \<Rightarrow> (nat \<Rightarrow> int) \<Rightarrow> string \<Rightarrow> string \<Rightarrow> string \<Rightarrow> web_site \<Rightarrow> bool option \<times> web_site" where
  "confirmUpload net clock base app document s =
     (case onboardingTarget net clock base s of
        (v, s1) \<Rightarrow>
          case site_fetch net (post (document_url (fst v) app @ ''/'' @ encodeURIComponent document @ ''/confirm'') json_type (JObj [])) s1 of
            (None, s2) \<Rightarrow> (None, s2)
          | (Some r, s2) \<Rightarrow> (Some (reply_ok r), s2))"

text \<open>The three steps. What a member that is no text is written as in an address is a parameter.\<close>

definition put_file :: "(json option \<Rightarrow> string) \<Rightarrow> json \<Rightarrow> upload_file \<Rightarrow> site_call" where
  "put_file show j file =
     \<lparr> sc_method = ''PUT'', sc_url = show (jget ''upload_url'' j),
       sc_headers = (case jget ''headers'' j of Some (JObj ms) \<Rightarrow> ms | _ \<Rightarrow> []), sc_body = FileBody (uf_content file) \<rparr>"

definition uploadKybDocument ::
  "site_net \<Rightarrow> (nat \<Rightarrow> int) \<Rightarrow> string \<Rightarrow> (json option \<Rightarrow> string) \<Rightarrow> string \<Rightarrow> string \<Rightarrow> upload_file \<Rightarrow> web_site \<Rightarrow> upload_result \<times> web_site" where
  "uploadKybDocument net clock base show app kind file s =
     (case requestUploadUrl net clock base app (upload_body kind file) s of
        (GrantThrew, s1) \<Rightarrow> (UploadThrew, s1)
      | (UploadRefused status code, s1) \<Rightarrow>
          (if status = 503 \<and> code = Some (JStr ''STORAGE_NOT_CONFIGURED'') then NotConfigured else UploadError, s1)
      | (UploadGranted j, s1) \<Rightarrow>
          if j = JNull then (UploadThrew, s1)
          else (case site_fetch net (put_file show j file) s1 of
                  (None, s2) \<Rightarrow> (UploadError, s2)
                | (Some r, s2) \<Rightarrow>
                    if \<not> reply_ok r then (UploadError, s2)
                    else (case confirmUpload net clock base app (show (jget ''document_id'' j)) s2 of
                            (None, s3) \<Rightarrow> (UploadThrew, s3)
                          | (Some False, s3) \<Rightarrow> (UploadError, s3)
                          | (Some True, s3) \<Rightarrow> (Uploaded (jget ''document_id'' j), s3))))"

text \<open>What an application holds, and what the policy asks for; nothing when it cannot be read.\<close>

definition array_member :: "string \<Rightarrow> json \<Rightarrow> json list option" where
  "array_member k j = (case jget k j of Some (JArr xs) \<Rightarrow> Some xs | _ \<Rightarrow> None)"

definition listApplicationDocuments :: "site_net \<Rightarrow> (nat \<Rightarrow> int) \<Rightarrow> string \<Rightarrow> string \<Rightarrow> web_site \<Rightarrow> json list option \<times> web_site" where
  "listApplicationDocuments net clock base app s =
     (case onboardingTarget net clock base s of
        (v, s1) \<Rightarrow>
          case site_fetch net (site_get (document_url (fst v) app)) s1 of
            (None, s2) \<Rightarrow> (None, s2)
          | (Some r, s2) \<Rightarrow>
              (if \<not> reply_ok r then None else case wy_body r of None \<Rightarrow> None | Some j \<Rightarrow> array_member ''data'' j, s2))"

definition getApplicationRequirements :: "site_net \<Rightarrow> (nat \<Rightarrow> int) \<Rightarrow> string \<Rightarrow> web_site \<Rightarrow> json option \<times> web_site" where
  "getApplicationRequirements net clock base s =
     (case onboardingTarget net clock base s of
        (v, s1) \<Rightarrow>
          case site_fetch net (site_get (fst v @ ''/v1/merchant/application-requirements'')) s1 of
            (None, s2) \<Rightarrow> (None, s2)
          | (Some r, s2) \<Rightarrow>
              (if \<not> reply_ok r then None
               else case wy_body r of None \<Rightarrow> None | Some j \<Rightarrow> if array_member ''items'' j \<noteq> None then Some j else None, s2))"

datatype resubmit_result = Resubmitted | NotResubmitted nat "json option" "json option"

definition resubmitApplication :: "site_net \<Rightarrow> (nat \<Rightarrow> int) \<Rightarrow> string \<Rightarrow> string \<Rightarrow> web_site \<Rightarrow> resubmit_result \<times> web_site" where
  "resubmitApplication net clock base app s =
     (case onboardingTarget net clock base s of
        (v, s1) \<Rightarrow>
          case site_fetch net (post (fst v @ ''/v1/merchant/applications/'' @ encodeURIComponent app @ ''/resubmit'') json_type (JObj [])) s1 of
            (None, s2) \<Rightarrow> (NotResubmitted 0 (Some (JStr ''NETWORK'')) None, s2)
          | (Some r, s2) \<Rightarrow>
              (if reply_ok r then Resubmitted
               else let j = body_or_empty r
                    in if j = JNull then NotResubmitted 0 (Some (JStr ''NETWORK'')) None
                       else NotResubmitted (wy_status r) (js_default (nested ''code'' j) (jget ''code'' j))
                         (js_default (nested ''message'' j) (jget ''message'' j)), s2))"

section \<open>The activation link\<close>

datatype activation = Verdict json | Invalid | RateLimited | Unavailable | ActivationThrew

definition read_activation :: "web_reply \<Rightarrow> activation" where
  "read_activation r =
     (if wy_status r = 429 then RateLimited
      else if 500 \<le> wy_status r then Unavailable
      else if \<not> reply_ok r then (if 400 \<le> wy_status r \<and> wy_status r < 500 then Invalid else Unavailable)
      else case wy_body r of
             None \<Rightarrow> Unavailable
           | Some j \<Rightarrow> (case jget ''valid'' j of Some (JBool b) \<Rightarrow> Verdict j | _ \<Rightarrow> Unavailable))"

definition validateActivation :: "site_net \<Rightarrow> (nat \<Rightarrow> int) \<Rightarrow> string \<Rightarrow> string \<Rightarrow> web_site \<Rightarrow> activation \<times> web_site" where
  "validateActivation net clock base token s =
     (case onboardingTarget net clock base s of
        (v, s1) \<Rightarrow>
          case site_fetch net (post (fst v @ ''/v1/merchant/activation/validate'') json_type (JObj [(''token'', JStr token)])) s1 of
            (None, s2) \<Rightarrow> (ActivationThrew, s2)
          | (Some r, s2) \<Rightarrow> (read_activation r, s2))"

datatype complete_result = Completed nat | NotCompleted nat "json option" | CompleteThrew

definition completeActivation :: "site_net \<Rightarrow> (nat \<Rightarrow> int) \<Rightarrow> string \<Rightarrow> string \<Rightarrow> string \<Rightarrow> web_site \<Rightarrow> complete_result \<times> web_site" where
  "completeActivation net clock base token pin s =
     (case onboardingTarget net clock base s of
        (v, s1) \<Rightarrow>
          case site_fetch net (post (fst v @ ''/v1/merchant/activation/complete'') json_type (JObj [(''token'', JStr token), (''pin'', JStr pin)])) s1 of
            (None, s2) \<Rightarrow> (CompleteThrew, s2)
          | (Some r, s2) \<Rightarrow>
              (if reply_ok r then Completed (wy_status r)
               else if body_or_empty r = JNull then CompleteThrew
               else NotCompleted (wy_status r) (js_or (jget ''code'' (body_or_empty r)) (jget ''message'' (body_or_empty r))), s2))"

section \<open>The stack a request goes to\<close>

definition stack_known :: "string \<Rightarrow> web_site \<Rightarrow> bool" where
  "stack_known base s \<longleftrightarrow> (case si_memo s of None \<Rightarrow> True | Some (at, v) \<Rightarrow> fst v = baseForMode base (snd v))"

definition only_mode :: "string \<Rightarrow> (site_call \<times> web_reply option) list \<Rightarrow> bool" where
  "only_mode base es \<longleftrightarrow> length es \<le> 1 \<and> (\<forall>e \<in> set es. fst e = mode_request base)"

lemma target:
  assumes "onboardingTarget net clock base s = (v, s')" "stack_known base s"
  obtains es where "si_log s' = si_log s @ es" "only_mode base es" "fst v = baseForMode base (snd v)" "stack_known base s'"
    "\<exists>at. si_memo s' = Some (at, v)" "es = [] \<Longrightarrow> \<exists>at. si_memo s = Some (at, v)"
  using assms
  by (auto simp: onboardingTarget_def site_fetch_def stack_known_def only_mode_def Let_def split: option.splits if_splits prod.splits)

lemma fetched: "site_fetch net c s = (r, s') \<Longrightarrow> si_log s' = si_log s @ [(c, r)] \<and> si_memo s' = si_memo s"
  by (auto simp: site_fetch_def Let_def)

lemma environment_named: "jget ''environment'' (with_environment input m) = Some (JStr (mode_name m))"
proof -
  have "map_of (rev (map (\<lambda>(k, v). (k, if k = ''environment'' then e else v)) xs)) ''environment'' = Some e"
    if "''environment'' \<in> set (map fst xs)" for xs :: "(string \<times> json) list" and e
  proof -
    let ?ys = "rev (map (\<lambda>(k, v). (k, if k = ''environment'' then e else v)) xs)"
    have "map_of ?ys ''environment'' \<noteq> None" using that unfolding map_of_eq_None_iff by (force simp: image_iff)
    then obtain y where y: "map_of ?ys ''environment'' = Some y" by auto
    then have "(''environment'', y) \<in> set ?ys" by (rule map_of_SomeD)
    then have "y = e" by auto
    then show ?thesis using y by simp
  qed
  then show ?thesis by (auto simp: with_environment_def jget_def Let_def)
qed

text \<open>C26. An application is sent to the stack it names: whatever was remembered and however often the platform's mode is read
  again, the request that carries an application goes to the gateway of one mode and says that mode in its body,
  under the caller's idempotency key, and it counts as submitted only when that request was answered with a success.\<close>

theorem application_names_its_stack:
  assumes "submitApplication net clock base input key s = (res, s')" "stack_known base s"
  shows "stack_known base s' \<and>
    (\<exists>es c r m b. si_log s' = si_log s @ es @ [(c, r)] \<and> only_mode base es \<and>
       sc_url c = baseForMode base m @ ''/v1/merchant/applications'' \<and> sc_body c = JsonBody b \<and>
       jget ''environment'' b = Some (JStr (mode_name m)) \<and>
       (\<forall>k. key = Some k \<and> k \<noteq> [] \<longrightarrow> (''Idempotency-Key'', JStr k) \<in> set (sc_headers c)) \<and>
       (\<forall>n ident. res = Submitted n ident \<longrightarrow> (\<exists>y. r = Some y \<and> reply_ok y \<and> wy_status y = n)))"
proof -
  obtain v s1 where t: "onboardingTarget net clock base s = (v, s1)" by fastforce
  obtain es where es: "si_log s1 = si_log s @ es" "only_mode base es" "fst v = baseForMode base (snd v)" "stack_known base s1"
    using target [OF t assms(2)] by metis
  let ?c = "post (fst v @ ''/v1/merchant/applications'') (submit_headers key) (with_environment input (snd v))"
  obtain r where f: "site_fetch net ?c s1 = (r, s')"
    and res: "\<And>n ident. res = Submitted n ident \<Longrightarrow> \<exists>y. r = Some y \<and> reply_ok y \<and> wy_status y = n"
    using assms(1) t by (auto simp: submitApplication_def Let_def split: prod.splits option.splits if_splits)
  have "si_log s' = si_log s @ es @ [(?c, r)]" "stack_known base s'"
    using fetched [OF f] es(1,4) by (simp_all add: stack_known_def)
  moreover have "sc_url ?c = baseForMode base (snd v) @ ''/v1/merchant/applications''" "sc_body ?c = JsonBody (with_environment input (snd v))"
    "\<forall>k. key = Some k \<and> k \<noteq> [] \<longrightarrow> (''Idempotency-Key'', JStr k) \<in> set (sc_headers ?c)"
    by (auto simp: post_def es(3) submit_headers_def)
  ultimately show ?thesis using es(2) environment_named res by blast
qed

text \<open>C18. An upload is reported as done only when it was: the gateway granted an address, the file was put there, with the
  headers it asked for, and the same document was confirmed, each answered with a success and in this order, with
  nothing but readings of the platform's mode around them. The grant and the confirmation go to the gateways of two
  modes, which differ only when the mode was read again in between.\<close>

theorem upload_is_earned:
  assumes "uploadKybDocument net clock base show app kind file s = (Uploaded doc, s')" "stack_known base s"
  shows "\<exists>es fs c1 c3 r1 r2 r3 j m1 m2.
     si_log s' = si_log s @ es @ [(c1, Some r1), (put_file show j file, Some r2)] @ fs @ [(c3, Some r3)] \<and>
     only_mode base es \<and> only_mode base fs \<and> reply_ok r1 \<and> reply_ok r2 \<and> reply_ok r3 \<and>
     wy_body r1 = Some j \<and> doc = jget ''document_id'' j \<and>
     sc_url c1 = document_url (baseForMode base m1) app @ ''/upload-url'' \<and> sc_body c1 = JsonBody (upload_body kind file) \<and>
     sc_url c3 = document_url (baseForMode base m2) app @ ''/'' @ encodeURIComponent (show doc) @ ''/confirm'' \<and>
     (fs = [] \<longrightarrow> m1 = m2)"
proof -
  obtain j s1 s2 r2 where g: "requestUploadUrl net clock base app (upload_body kind file) s = (UploadGranted j, s1)"
    and p: "site_fetch net (put_file show j file) s1 = (Some r2, s2)" "reply_ok r2"
    and k: "confirmUpload net clock base app (show (jget ''document_id'' j)) s2 = (Some True, s')" and doc: "doc = jget ''document_id'' j"
    using assms(1) by (auto simp: uploadKybDocument_def split: prod.splits upload_grant.splits option.splits if_splits bool.splits)
  obtain v1 t1 where t1: "onboardingTarget net clock base s = (v1, t1)" by fastforce
  obtain es where es: "si_log t1 = si_log s @ es" "only_mode base es" "fst v1 = baseForMode base (snd v1)" "stack_known base t1"
    "\<exists>at. si_memo t1 = Some (at, v1)"
    using target [OF t1 assms(2)] by metis
  let ?c1 = "post (document_url (fst v1) app @ ''/upload-url'') json_type (upload_body kind file)"
  obtain r1 where f1: "site_fetch net ?c1 t1 = (Some r1, s1)" "reply_ok r1" "wy_body r1 = Some j"
    using g t1 by (auto simp: requestUploadUrl_def split: prod.splits option.splits if_splits)
  have memo: "si_memo s2 = si_memo t1" "stack_known base s2"
    using fetched [OF f1(1)] fetched [OF p(1)] es(4) by (simp_all add: stack_known_def)
  obtain v2 t2 where t2: "onboardingTarget net clock base s2 = (v2, t2)" by fastforce
  obtain fs where fs: "si_log t2 = si_log s2 @ fs" "only_mode base fs" "fst v2 = baseForMode base (snd v2)"
    "fs = [] \<Longrightarrow> \<exists>at. si_memo s2 = Some (at, v2)"
    using target [OF t2 memo(2)] by metis
  let ?c3 = "post (document_url (fst v2) app @ ''/'' @ encodeURIComponent (show doc) @ ''/confirm'') json_type (JObj [])"
  obtain r3 where f3: "site_fetch net ?c3 t2 = (Some r3, s')" "reply_ok r3"
    using k t2 by (auto simp: confirmUpload_def doc split: prod.splits option.splits)
  have "si_log s' = si_log s @ es @ [(?c1, Some r1), (put_file show j file, Some r2)] @ fs @ [(?c3, Some r3)]"
    using es(1) fs(1) fetched [OF f1(1)] fetched [OF p(1)] fetched [OF f3(1)] by simp
  moreover have "fs = [] \<longrightarrow> snd v1 = snd v2" using fs(4) memo(1) es(5) by auto
  moreover have "sc_url ?c1 = document_url (baseForMode base (snd v1)) app @ ''/upload-url''" "sc_body ?c1 = JsonBody (upload_body kind file)"
    "sc_url ?c3 = document_url (baseForMode base (snd v2)) app @ ''/'' @ encodeURIComponent (show doc) @ ''/confirm''"
    by (simp_all add: post_def es(3) fs(3))
  ultimately show ?thesis using es(2) fs(2) f1(2,3) p(2) f3(2) doc by blast
qed

text \<open>C40. The stack is guessed when it cannot be read: a document that was granted and put on the gateway of one mode is
  confirmed on the Sandbox gateway whenever the remembered mode has expired and reading it again fails.\<close>

theorem confirmation_guesses_the_stack:
  assumes "confirmUpload net clock base app doc s = (res, s')" "si_memo s = Some (at, v)" "30000 \<le> clock (length (si_log s)) - at"
    and "\<forall>r. net (length (si_log s)) (mode_request base) = Some r \<longrightarrow> \<not> reply_ok r" "KNOWN_PROD_BASE base"
  shows "\<exists>r c r'. si_log s' = si_log s @ [(mode_request base, r), (c, r')] \<and>
    sc_url c = document_url SANDBOX_API_BASE app @ ''/'' @ encodeURIComponent doc @ ''/confirm''"
proof -
  let ?r = "net (length (si_log s)) (mode_request base)"
  have "mi_mode (getPlatformMode (\<lambda>c. ?r) base) = SANDBOX_MODE"
    using assms(4) by (auto simp: getPlatformMode_def Let_def split: option.splits)
  then have "onboardingTarget net clock base s =
      ((SANDBOX_API_BASE, SANDBOX_MODE), s\<lparr>si_log := si_log s @ [(mode_request base, ?r)], si_memo := Some (clock (length (si_log s)), SANDBOX_API_BASE, SANDBOX_MODE)\<rparr>)"
    using assms(2,3,5) by (simp add: onboardingTarget_def site_fetch_def Let_def baseForMode_def)
  then show ?thesis using assms(1) by (auto simp: confirmUpload_def site_fetch_def Let_def post_def split: option.splits)
qed

text \<open>A link is called invalid only on a refusal of it, never on an outage or a limit, and valid only when an answer says so.\<close>

lemma activation_verdicts:
  "read_activation r = Invalid \<longleftrightarrow> 400 \<le> wy_status r \<and> wy_status r < 500 \<and> wy_status r \<noteq> 429"
  "read_activation r = Verdict j \<longleftrightarrow> reply_ok r \<and> wy_body r = Some j \<and> (\<exists>b. jget ''valid'' j = Some (JBool b))"
  by (auto simp: read_activation_def reply_ok_def split: option.splits json.splits if_splits)

text \<open>A well-formed handle is its own normal form, with or without the at-sign.\<close>

lemma handle_normal:
  assumes "isValidHandleFormat h"
  shows "normalizeHandle h = h" "normalizeHandle (CHR ''@'' # h) = h"
proof -
  have ok: "list_all handle_char h" "h \<noteq> []" "is_ascii_lower (hd h)" using assms by (auto simp: isValidHandleFormat_def HANDLE_RE_def)
  have c: "handle_char c \<Longrightarrow> lower_char c = c \<and> \<not> js_ws c \<and> c \<noteq> CHR ''@''" for c
    by (auto simp: handle_char_def lower_char_def is_ascii_upper_def is_ascii_lower_def is_digit_def js_ws_def)
  have "list_all (\<lambda>c. \<not> js_ws c) (CHR ''@'' # h)" using ok(1) c by (auto simp: list_all_iff js_ws_def)
  then have trim: "js_trim h = h" "js_trim (CHR ''@'' # h) = CHR ''@'' # h" by (simp_all add: js_trim_no_ws)
  have lower: "js_lower h = h" unfolding js_lower_def using ok(1) c by (auto simp: list_all_iff intro: map_idI)
  have at: "lower_char (CHR ''@'') = CHR ''@''" by code_simp
  have "dropWhile (\<lambda>c. c = CHR ''@'') h = h" using ok c by (cases h) auto
  then show "normalizeHandle h = h" "normalizeHandle (CHR ''@'' # h) = h"
    using lower trim at by (simp_all add: normalizeHandle_def js_lower_def)
qed

section \<open>A small exchange\<close>

definition said :: "nat \<Rightarrow> json \<Rightarrow> web_reply option" where
  "said n j = Some \<lparr> wy_status = n, wy_body = Some j \<rparr>"

definition demo_site_net :: site_net where
  "demo_site_net n c =
     (if n = 0 then said 200 (JObj [(''mode'', JStr ''LIVE'')])
      else if n = 1 then said 201 (JObj [(''document_id'', JStr ''d1''), (''application_id'', JStr ''a1''), (''upload_url'', JStr ''https://s.example/x'')])
      else if n = 3 \<and> sc_method c = ''GET'' then None
      else said 200 (JObj []))"

definition demo_clock :: "nat \<Rightarrow> int" where "demo_clock n = (if n < 3 then 0 else 45000)"

definition demo_show :: "json option \<Rightarrow> string" where
  "demo_show j = (case j of Some (JStr s) \<Rightarrow> s | _ \<Rightarrow> ''undefined'')"

definition demo_file :: upload_file where
  "demo_file = \<lparr> uf_name = ''id.pdf'', uf_type = [], uf_size = 4, uf_content = ''%PDF'' \<rparr>"

definition fresh_site :: web_site where "fresh_site = \<lparr> si_memo = None, si_log = [] \<rparr>"

lemma application_names_its_stack_witness:
  "\<exists>s'. submitApplication demo_site_net demo_clock LIVE_API_BASE [] (Some ''k'') fresh_site = (Submitted 201 (Some (JStr ''a1'')), s') \<and>
     stack_known LIVE_API_BASE s'"
proof -
  have r: "fst (submitApplication demo_site_net demo_clock LIVE_API_BASE [] (Some ''k'') fresh_site) = Submitted 201 (Some (JStr ''a1''))"
    by code_simp
  obtain s' where s: "submitApplication demo_site_net demo_clock LIVE_API_BASE [] (Some ''k'') fresh_site = (Submitted 201 (Some (JStr ''a1'')), s')"
    using r by (cases "submitApplication demo_site_net demo_clock LIVE_API_BASE [] (Some ''k'') fresh_site") simp
  have "stack_known LIVE_API_BASE s'"
    using application_names_its_stack [OF s] by (simp add: stack_known_def fresh_site_def)
  then show ?thesis using s by blast
qed

lemma upload_is_earned_witness:
  "\<exists>s'. uploadKybDocument demo_site_net demo_clock LIVE_API_BASE demo_show ''a1'' ''TAX_ID'' demo_file fresh_site = (Uploaded (Some (JStr ''d1'')), s') \<and>
     3 \<le> length (si_log s')"
proof -
  let ?u = "uploadKybDocument demo_site_net demo_clock LIVE_API_BASE demo_show ''a1'' ''TAX_ID'' demo_file fresh_site"
  have "fst ?u = Uploaded (Some (JStr ''d1''))" by code_simp
  then obtain s' where s: "?u = (Uploaded (Some (JStr ''d1'')), s')" by (cases ?u) simp
  have "3 \<le> length (si_log s')"
    using upload_is_earned [OF s] by (auto simp: stack_known_def fresh_site_def)
  then show ?thesis using s by blast
qed

definition granted_site :: web_site where
  "granted_site = \<lparr> si_memo = Some (0, LIVE_API_BASE, LIVE_MODE), si_log = replicate 3 (mode_request LIVE_API_BASE, None) \<rparr>"

lemma confirmation_guesses_the_stack_witness:
  "\<exists>c. c \<in> fst ` set (si_log (snd (confirmUpload demo_site_net demo_clock LIVE_API_BASE ''a1'' ''d1'' granted_site))) \<and>
     sc_url c = document_url SANDBOX_API_BASE ''a1'' @ ''/'' @ encodeURIComponent ''d1'' @ ''/confirm''"
proof -
  obtain res s' where s: "confirmUpload demo_site_net demo_clock LIVE_API_BASE ''a1'' ''d1'' granted_site = (res, s')" by fastforce
  have "\<exists>r c r'. si_log s' = si_log granted_site @ [(mode_request LIVE_API_BASE, r), (c, r')] \<and>
      sc_url c = document_url SANDBOX_API_BASE ''a1'' @ ''/'' @ encodeURIComponent ''d1'' @ ''/confirm''"
    by (rule confirmation_guesses_the_stack [OF s, where at = 0 and v = "(LIVE_API_BASE, LIVE_MODE)"])
      (simp_all add: granted_site_def demo_clock_def demo_site_net_def mode_request_def KNOWN_PROD_BASE_def)
  then show ?thesis using s by (force simp: image_iff)
qed

end
