(* ===== verification/ApiRequest.thy ===== *)
theory ApiRequest
  imports UrlPath Json
begin

text \<open>What the request builders of the API clients share (apps/website/lib/developer-api.ts, apps/admin/lib/admin-api.ts):
  paths of segments, the parameters of a query and members added to a body.\<close>

definition seg_path :: "string list \<Rightarrow> string" where "seg_path segs = concat (map (\<lambda>x. CHR ''/'' # x) segs)"

text \<open>A parameter that is set when it is given and not empty; a number when it is not zero.\<close>

definition q_text :: "string \<Rightarrow> string option \<Rightarrow> (string \<times> string) list" where
  "q_text k v = (case v of Some s \<Rightarrow> if s = [] then [] else [(k, s)] | None \<Rightarrow> [])"

definition q_num :: "string \<Rightarrow> int option \<Rightarrow> (string \<times> string) list" where
  "q_num k v = (case v of Some n \<Rightarrow> if n = 0 then [] else [(k, int_str n)] | None \<Rightarrow> [])"

text \<open>The options of a list in the caller's order, those that are not empty.\<close>

definition opts_query :: "(string \<times> json) list \<Rightarrow> (string \<times> string) list" where
  "opts_query opts =
     concat (map (\<lambda>(k, v). case v of JStr s \<Rightarrow> q_text k (Some s) | JNum n \<Rightarrow> (if json_truthy (Some v) then [(k, n)] else [])
       | JBool b \<Rightarrow> (if b then [(k, ''true'')] else []) | _ \<Rightarrow> []) opts)"

text \<open>A member added to a body: one of that name keeps its place and takes the new value.\<close>

definition spread_with :: "string \<Rightarrow> json \<Rightarrow> (string \<times> json) list \<Rightarrow> (string \<times> json) list" where
  "spread_with k v ms = (if k \<in> set (map fst ms) then map (\<lambda>(k', w). (k', if k' = k then v else w)) ms else ms @ [(k, v)])"

end
