(* ===== verification/WebDeveloperApi.thy ===== *)
theory WebDeveloperApi
  imports WebProof ApiRequest
begin

text \<open>
  The client of the developer API (apps/website/lib/developer-api.ts): every operation the Developers Console has,
  the request it sends, and what its answer is read as. An operation is a value, named after its method; its request
  is a verb, the segments of its path, a query and a body. The network is a parameter.
\<close>

section \<open>Requests\<close>

record dev_call =
  dc_method :: string
  dc_segs :: "string list"
  dc_query :: "(string \<times> string) list"
  dc_body :: "json option"
  dc_csrf :: "string option"

definition dc_path :: "dev_call \<Rightarrow> string" where
  "dc_path c = seg_path (dc_segs c) @ (if dc_query c = [] then [] else ''?'' @ query_string (dc_query c))"

definition fetches :: "string list \<Rightarrow> dev_call" where
  "fetches segs = \<lparr> dc_method = ''GET'', dc_segs = segs, dc_query = [], dc_body = None, dc_csrf = None \<rparr>"

definition asks :: "string list \<Rightarrow> (string \<times> string) list \<Rightarrow> dev_call" where
  "asks segs q = (fetches segs)\<lparr>dc_query := q\<rparr>"

definition changes :: "string \<Rightarrow> string list \<Rightarrow> (string \<times> json) list option \<Rightarrow> string \<Rightarrow> dev_call" where
  "changes verb segs body csrf =
     \<lparr> dc_method = verb, dc_segs = segs, dc_query = [], dc_body = map_option JObj body, dc_csrf = Some csrf \<rparr>"

definition named :: "string \<Rightarrow> (string \<times> json) list option" where "named n = Some [(''name'', JStr n)]"

definition archived_query :: "bool \<Rightarrow> (string \<times> string) list" where
  "archived_query b = (if b then [(''include_archived'', ''true'')] else [])"

section \<open>Accounts and workspaces\<close>

datatype account_op =
    RequestOtp string
  | Verify string string
  | Me
  | SetName string
  | Logout
  | Sessions
  | RevokeOtherSessions
  | AcceptInvite string
  | WalletAccountPurposes

fun account_call :: "account_op \<Rightarrow> string \<Rightarrow> dev_call" where
  "account_call (RequestOtp email) csrf =
     (changes ''POST'' [''auth'', ''request-otp''] (Some [(''email'', JStr email)]) csrf)\<lparr>dc_csrf := None\<rparr>"
| "account_call (Verify email code) csrf =
     (changes ''POST'' [''auth'', ''verify''] (Some [(''email'', JStr email), (''code'', JStr code)]) csrf)\<lparr>dc_csrf := None\<rparr>"
| "account_call Me csrf = fetches [''auth'', ''me'']"
| "account_call (SetName name) csrf = changes ''POST'' [''auth'', ''me''] (named name) csrf"
| "account_call Logout csrf = changes ''POST'' [''auth'', ''logout''] None csrf"
| "account_call Sessions csrf = fetches [''auth'', ''sessions'']"
| "account_call RevokeOtherSessions csrf = changes ''POST'' [''auth'', ''sessions'', ''revoke-others''] None csrf"
| "account_call (AcceptInvite token) csrf = changes ''POST'' [''invites'', ''accept''] (Some [(''token'', JStr token)]) csrf"
| "account_call WalletAccountPurposes csrf = fetches [''wallet-account-purposes'']"

datatype workspace_op =
    ListWorkspaces bool
  | CreateWorkspace string
  | RenameWorkspace string string
  | WorkspaceFootprint string
  | DeleteWorkspace string string
  | ArchiveWorkspace string string
  | LeaveWorkspace string
  | ListMembers string
  | WorkspaceActivity string "string option" "string option"
  | Invite string string string
  | ListInvites string
  | SetRole string string string
  | RemoveMember string string
  | RevokeInvite string string
  | ListProjects string bool
  | CreateProject string string

fun workspace_call :: "workspace_op \<Rightarrow> string \<Rightarrow> dev_call" where
  "workspace_call (ListWorkspaces archived) csrf = asks [''workspaces''] (archived_query archived)"
| "workspace_call (CreateWorkspace name) csrf = changes ''POST'' [''workspaces''] (named name) csrf"
| "workspace_call (RenameWorkspace ws name) csrf = changes ''PATCH'' [''workspaces'', ws] (named name) csrf"
| "workspace_call (WorkspaceFootprint ws) csrf = fetches [''workspaces'', ws, ''footprint'']"
| "workspace_call (DeleteWorkspace ws name) csrf = changes ''DELETE'' [''workspaces'', ws] (named name) csrf"
| "workspace_call (ArchiveWorkspace ws name) csrf = changes ''POST'' [''workspaces'', ws, ''archive''] (named name) csrf"
| "workspace_call (LeaveWorkspace ws) csrf = changes ''POST'' [''workspaces'', ws, ''leave''] None csrf"
| "workspace_call (ListMembers ws) csrf = fetches [''workspaces'', ws, ''members'']"
| "workspace_call (WorkspaceActivity ws member cursor) csrf =
     asks [''workspaces'', ws, ''activity''] (q_text ''member'' member @ q_text ''cursor'' cursor)"
| "workspace_call (Invite ws email role) csrf =
     changes ''POST'' [''workspaces'', ws, ''members''] (Some [(''email'', JStr email), (''role'', JStr role)]) csrf"
| "workspace_call (ListInvites ws) csrf = fetches [''workspaces'', ws, ''invites'']"
| "workspace_call (SetRole ws user role) csrf = changes ''PATCH'' [''workspaces'', ws, ''members'', user] (Some [(''role'', JStr role)]) csrf"
| "workspace_call (RemoveMember ws user) csrf = changes ''DELETE'' [''workspaces'', ws, ''members'', user] None csrf"
| "workspace_call (RevokeInvite ws invitation) csrf = changes ''DELETE'' [''workspaces'', ws, ''invites'', invitation] None csrf"
| "workspace_call (ListProjects ws archived) csrf = asks [''workspaces'', ws, ''projects''] (archived_query archived)"
| "workspace_call (CreateProject ws name) csrf = changes ''POST'' [''workspaces'', ws, ''projects''] (named name) csrf"

section \<open>Projects, keys and money\<close>

datatype key_kind = PUBLISHABLE | SECRET

record wallet_account_input =
  wa_label :: string
  wa_purpose :: string
  wa_reference_type :: "string option"
  wa_reference_id :: "string option"

record log_query =
  lq_limit :: "int option"
  lq_source :: "string option"
  lq_method :: "string option"
  lq_request_id :: "string option"
  lq_status :: "int option"
  lq_error_code :: "string option"
  lq_path :: "string option"
  lq_since :: "string option"
  lq_until :: "string option"

datatype project_op =
    RenameProject string string
  | ProjectFootprint string
  | DeleteProject string string
  | ArchiveProject string string
  | ListKeys string
  | CreateKey string key_kind string "string list"
  | ListBalances string "int option" "string option"
  | ListTransactions string "(string \<times> json) list"

datatype money_op =
    CreateWalletAccount string wallet_account_input
  | RefundCapability string
  | RefundPayment string string int string string

datatype log_op =
    ListApiRequestLogs string log_query
  | RotateKey string
  | RevokeKey string

definition log_params :: "log_query \<Rightarrow> (string \<times> string) list" where
  "log_params q =
     q_num ''limit'' (lq_limit q) @ q_text ''request_id'' (lq_request_id q) @ q_num ''status'' (lq_status q) @
     q_text ''error_code'' (lq_error_code q) @ q_text ''path'' (lq_path q) @ q_text ''source'' (lq_source q) @
     q_text ''method'' (lq_method q) @ q_text ''since'' (lq_since q) @ q_text ''until'' (lq_until q)"

fun project_call :: "project_op \<Rightarrow> string \<Rightarrow> dev_call" where
  "project_call (RenameProject p name) csrf = changes ''PATCH'' [''projects'', p] (named name) csrf"
| "project_call (ProjectFootprint p) csrf = fetches [''projects'', p, ''footprint'']"
| "project_call (DeleteProject p name) csrf = changes ''DELETE'' [''projects'', p] (named name) csrf"
| "project_call (ArchiveProject p name) csrf = changes ''POST'' [''projects'', p, ''archive''] (named name) csrf"
| "project_call (ListKeys p) csrf = fetches [''projects'', p, ''keys'']"
| "project_call (CreateKey p kind name scopes) csrf =
     changes ''POST'' [''projects'', p, ''keys'']
       (Some [(''kind'', JStr (case kind of PUBLISHABLE \<Rightarrow> ''PUBLISHABLE'' | SECRET \<Rightarrow> ''SECRET'')), (''name'', JStr name), (''scopes'', jstrs scopes)]) csrf"
| "project_call (ListBalances p limit cursor) csrf =
     asks [''projects'', p, ''balances''] (q_num ''limit'' limit @ q_text ''cursor'' cursor)"
| "project_call (ListTransactions p opts) csrf = asks [''projects'', p, ''transactions''] (opts_query opts)"

fun money_call :: "money_op \<Rightarrow> string \<Rightarrow> dev_call" where
  "money_call (CreateWalletAccount p a) csrf =
     changes ''POST'' [''projects'', p, ''wallet-accounts'']
       (Some ([(''label'', JStr (wa_label a)), (''purpose'', JStr (wa_purpose a))] @
         opt_member ''reference_type'' JStr (wa_reference_type a) @ opt_member ''reference_id'' JStr (wa_reference_id a))) csrf"
| "money_call (RefundCapability p) csrf = fetches [''projects'', p, ''refund-capability'']"
| "money_call (RefundPayment p payment amount reason key) csrf =
     changes ''POST'' [''projects'', p, ''payments'', payment, ''refund'']
       (Some [(''amount_minor'', jint amount), (''reason'', JStr reason), (''idempotency_key'', JStr key)]) csrf"

fun log_call :: "log_op \<Rightarrow> string \<Rightarrow> dev_call" where
  "log_call (ListApiRequestLogs p q) csrf = asks [''projects'', p, ''logs''] (log_params q)"
| "log_call (RotateKey k) csrf = changes ''POST'' [''keys'', k, ''rotate''] None csrf"
| "log_call (RevokeKey k) csrf = changes ''DELETE'' [''keys'', k] None csrf"

section \<open>Financial setup\<close>

datatype use_case = STANDARD | APPLICATION

definition use_case_member :: "use_case \<Rightarrow> string \<times> json" where
  "use_case_member u = (''use_case'', JStr (case u of STANDARD \<Rightarrow> ''STANDARD'' | APPLICATION \<Rightarrow> ''APPLICATION''))"

datatype setup_op =
    FinancialSetup string
  | SetUpSandboxBusiness string use_case "string option"
  | ChangeSandboxUseCase string use_case
  | StartSandboxBusinessContact string string
  | CreateSandboxBusinessVerified string use_case string string
  | StartBusinessLinkByHandle string string
  | ConfirmBusinessLinkByHandle string string string
  | StartBusinessContactEnrolment string string
  | ConfirmBusinessContactEnrolment string string string
  | ShareSandboxBusiness string
  | ResetSandbox string
  | SubmitFinancialApplication string "(string \<times> json) list" string
  | LinkExistingBusiness string string
  | ExplorerOperations string
  | RunExplorerRequest string "(string \<times> json) list"

fun setup_call :: "setup_op \<Rightarrow> string \<Rightarrow> dev_call" where
  "setup_call (FinancialSetup p) csrf = fetches [''projects'', p, ''financial-setup'']"
| "setup_call (SetUpSandboxBusiness p u handle) csrf =
     changes ''POST'' [''projects'', p, ''financial-setup'']
       (Some (use_case_member u # (case handle of Some h \<Rightarrow> if h = [] then [] else [(''desired_handle'', JStr h)] | None \<Rightarrow> []))) csrf"
| "setup_call (ChangeSandboxUseCase p u) csrf = changes ''PUT'' [''projects'', p, ''financial-setup'', ''use-case''] (Some [use_case_member u]) csrf"
| "setup_call (StartSandboxBusinessContact p email) csrf =
     changes ''POST'' [''projects'', p, ''financial-setup'', ''contact'', ''start''] (Some [(''email'', JStr email)]) csrf"
| "setup_call (CreateSandboxBusinessVerified p u handle code) csrf =
     changes ''POST'' [''projects'', p, ''financial-setup'', ''create'']
       (Some [use_case_member u, (''desired_handle'', JStr handle), (''code'', JStr code)]) csrf"
| "setup_call (StartBusinessLinkByHandle p handle) csrf =
     changes ''POST'' [''projects'', p, ''financial-onboarding'', ''link-by-handle'', ''start''] (Some [(''handle'', JStr handle)]) csrf"
| "setup_call (ConfirmBusinessLinkByHandle p handle code) csrf =
     changes ''POST'' [''projects'', p, ''financial-onboarding'', ''link-by-handle'', ''confirm'']
       (Some [(''handle'', JStr handle), (''code'', JStr code)]) csrf"
| "setup_call (StartBusinessContactEnrolment p handle) csrf =
     changes ''POST'' [''projects'', p, ''financial-onboarding'', ''contact'', ''start''] (Some [(''handle'', JStr handle)]) csrf"
| "setup_call (ConfirmBusinessContactEnrolment p handle code) csrf =
     changes ''POST'' [''projects'', p, ''financial-onboarding'', ''contact'', ''confirm'']
       (Some [(''handle'', JStr handle), (''code'', JStr code)]) csrf"
| "setup_call (ShareSandboxBusiness p) csrf = changes ''POST'' [''projects'', p, ''financial-setup'', ''share-code''] None csrf"
| "setup_call (ResetSandbox p) csrf = changes ''POST'' [''projects'', p, ''sandbox'', ''reset''] (Some [(''confirm'', JStr ''RESET'')]) csrf"
| "setup_call (SubmitFinancialApplication p body key) csrf =
     changes ''POST'' [''projects'', p, ''financial-onboarding'', ''applications'']
       (Some (spread_with ''idempotency_key'' (JStr key) body)) csrf"
| "setup_call (LinkExistingBusiness p code) csrf =
     changes ''POST'' [''projects'', p, ''financial-onboarding'', ''link''] (Some [(''code'', JStr code)]) csrf"
| "setup_call (ExplorerOperations p) csrf = fetches [''projects'', p, ''explorer'', ''operations'']"
| "setup_call (RunExplorerRequest p body) csrf = changes ''POST'' [''projects'', p, ''explorer'', ''requests''] (Some body) csrf"

section \<open>Webhooks\<close>

datatype hook_op =
    ListWebhookEndpoints string
  | ListWebhookEvents string int
  | ListWebhookDeliveries string string
  | CreateWebhookEndpoint string string "string list"
  | RotateWebhookSecret string string
  | SetWebhookEndpointActive string string bool
  | ReplayWebhookDelivery string string
  | DeleteWebhookEndpoint string string

fun hook_call :: "hook_op \<Rightarrow> string \<Rightarrow> dev_call" where
  "hook_call (ListWebhookEndpoints p) csrf = fetches [''projects'', p, ''webhooks'', ''endpoints'']"
| "hook_call (ListWebhookEvents p limit) csrf = asks [''projects'', p, ''webhooks'', ''events''] [(''limit'', int_str limit)]"
| "hook_call (ListWebhookDeliveries p event) csrf = fetches [''projects'', p, ''webhooks'', ''events'', event, ''deliveries'']"
| "hook_call (CreateWebhookEndpoint p url events) csrf =
     changes ''POST'' [''projects'', p, ''webhooks'', ''endpoints''] (Some [(''url'', JStr url), (''events'', jstrs events)]) csrf"
| "hook_call (RotateWebhookSecret p e) csrf = changes ''POST'' [''projects'', p, ''webhooks'', ''endpoints'', e, ''rotate-secret''] None csrf"
| "hook_call (SetWebhookEndpointActive p e active) csrf =
     changes ''PATCH'' [''projects'', p, ''webhooks'', ''endpoints'', e] (Some [(''active'', JBool active)]) csrf"
| "hook_call (ReplayWebhookDelivery p d) csrf = changes ''POST'' [''projects'', p, ''webhooks'', ''deliveries'', d, ''replay''] None csrf"
| "hook_call (DeleteWebhookEndpoint p e) csrf = changes ''DELETE'' [''projects'', p, ''webhooks'', ''endpoints'', e] None csrf"

datatype dev_op = Account account_op | Workspace workspace_op | Project project_op | Money money_op | Log log_op | Setup setup_op | Hook hook_op

definition developerApi :: "dev_op \<Rightarrow> string \<Rightarrow> dev_call" where
  "developerApi op csrf =
     (case op of
        Account a \<Rightarrow> account_call a csrf
      | Workspace w \<Rightarrow> workspace_call w csrf
      | Project p \<Rightarrow> project_call p csrf
      | Money m \<Rightarrow> money_call m csrf
      | Log l \<Rightarrow> log_call l csrf
      | Setup s \<Rightarrow> setup_call s csrf
      | Hook h \<Rightarrow> hook_call h csrf)"

section \<open>Sending and reading\<close>

record dev_fetch =
  df_url :: string
  df_method :: string
  df_headers :: "(string \<times> string) list"
  df_body :: "string option"

definition dev_base :: "string option \<Rightarrow> string" where
  "dev_base configured = drop_slashes (case configured of Some u \<Rightarrow> if u = [] then ''https://developer-api.banzami.com'' else u
     | None \<Rightarrow> ''https://developer-api.banzami.com'')"

definition dev_send :: "string \<Rightarrow> dev_call \<Rightarrow> dev_fetch" where
  "dev_send base c =
     \<lparr> df_url = base @ dc_path c, df_method = dc_method c,
       df_headers = (if dc_body c = None then [] else [(''Content-Type'', ''application/json'')]) @
         (case dc_csrf c of Some t \<Rightarrow> if t = [] then [] else [(''X-CSRF-Token'', t)] | None \<Rightarrow> []),
       df_body = map_option stringify (dc_body c) \<rparr>"

text \<open>The code of a refusal: the server's own when it names one, otherwise by the status.\<close>

definition status_code :: "nat \<Rightarrow> string" where
  "status_code n =
     (if n = 400 then ''VALIDATION'' else if n = 401 then ''UNAUTHENTICATED'' else if n = 403 then ''FORBIDDEN''
      else if n = 404 then ''NOT_FOUND'' else if n = 409 then ''CONFLICT'' else if n = 410 then ''INVITE_INVALID''
      else if n = 429 then ''RATE_LIMITED'' else ''UNAVAILABLE'')"

definition codeFor :: "nat \<Rightarrow> json option \<Rightarrow> json" where
  "codeFor n api = (if json_truthy api then the api else JStr (status_code n))"

text \<open>The codes this client has words of its own for.\<close>

definition MESSAGES :: "string list" where
  "MESSAGES =
     [''UNAUTHENTICATED'', ''FORBIDDEN'', ''RATE_LIMITED'', ''CONFLICT'', ''LAST_OWNER'', ''VALIDATION'', ''INVALID_EMAIL'', ''INVITE_INVALID'',
      ''NOT_FOUND'', ''UNAVAILABLE'', ''CODE_NOT_SENT'', ''NETWORK'', ''INVALID_NAME'', ''WORKSPACE_NOT_EMPTY'', ''PROJECT_NOT_EMPTY'',
      ''WORKSPACE_LIMIT_REACHED'', ''PROJECT_LIMIT_REACHED'', ''ENDPOINT_HAS_DELIVERIES'', ''WEBHOOK_TEST_RATE_LIMITED'', ''DELIVERY_ALREADY_SUCCEEDED'']"

datatype shown = Words string | ServerWords json

datatype dev_result = DevAnswer "json option" | ApiError json nat shown "json option"

definition shown_for :: "json \<Rightarrow> json option \<Rightarrow> shown" where
  "shown_for code message =
     (case code of
        JStr c \<Rightarrow> if c \<in> set MESSAGES then Words c else (case message of Some m \<Rightarrow> if m = JNull then Words ''UNAVAILABLE'' else ServerWords m | None \<Rightarrow> Words ''UNAVAILABLE'')
      | _ \<Rightarrow> (case message of Some m \<Rightarrow> if m = JNull then Words ''UNAVAILABLE'' else ServerWords m | None \<Rightarrow> Words ''UNAVAILABLE''))"

definition dev_read :: "web_reply option \<Rightarrow> dev_result" where
  "dev_read reply =
     (case reply of
        None \<Rightarrow> ApiError (JStr ''NETWORK'') 0 (Words ''NETWORK'') None
      | Some r \<Rightarrow>
          if wy_status r = 204 then DevAnswer None
          else (let data = (case wy_body r of Some j \<Rightarrow> j | None \<Rightarrow> JNull)
                in if reply_ok r then DevAnswer (Some data)
                   else (let err = jget ''error'' data;
                             member = (\<lambda>k. case err of Some e \<Rightarrow> jget k e | None \<Rightarrow> None);
                             code = codeFor (wy_status r) (member ''code'')
                         in ApiError code (wy_status r) (shown_for code (member ''message'')) (member ''details''))))"

definition dev_req :: "(dev_fetch \<Rightarrow> web_reply option) \<Rightarrow> string \<Rightarrow> dev_call \<Rightarrow> dev_result" where
  "dev_req net base c = dev_read (net (dev_send base c))"

section \<open>Properties of every operation\<close>

definition before_session :: "dev_op \<Rightarrow> bool" where
  "before_session op \<longleftrightarrow> (case op of Account (RequestOtp e) \<Rightarrow> True | Account (Verify e c) \<Rightarrow> True | _ \<Rightarrow> False)"

lemmas call_defs = fetches_def asks_def changes_def named_def

text \<open>C0. Every operation of the Console that changes something carries the token: a request with another verb than GET
  sends the caller's token as its header, but for the two that open a session; a GET sends neither a token nor a body, and
  a body always says that it is JSON.\<close>

theorem developer_changes_carry_token:
  assumes "csrf \<noteq> []"
  shows "(dc_method (developerApi op csrf) \<noteq> ''GET'' \<and> \<not> before_session op \<longrightarrow>
      (''X-CSRF-Token'', csrf) \<in> set (df_headers (dev_send base (developerApi op csrf)))) \<and>
    (dc_method (developerApi op csrf) = ''GET'' \<longrightarrow>
      df_headers (dev_send base (developerApi op csrf)) = [] \<and> df_body (dev_send base (developerApi op csrf)) = None) \<and>
    (df_body (dev_send base (developerApi op csrf)) \<noteq> None \<longrightarrow>
      (''Content-Type'', ''application/json'') \<in> set (df_headers (dev_send base (developerApi op csrf))))"
proof -
  have "(dc_csrf (developerApi op csrf) = Some csrf \<or> before_session op) \<and> dc_method (developerApi op csrf) \<noteq> ''GET'' \<or>
      dc_method (developerApi op csrf) = ''GET'' \<and> dc_csrf (developerApi op csrf) = None \<and> dc_body (developerApi op csrf) = None"
  proof (cases op)
    case (Account a) then show ?thesis by (cases a) (simp_all add: developerApi_def call_defs before_session_def)
  next
    case (Workspace w) then show ?thesis by (cases w) (simp_all add: developerApi_def call_defs)
  next
    case (Project p) then show ?thesis by (cases p) (simp_all add: developerApi_def call_defs)
  next
    case (Money m) then show ?thesis by (cases m) (simp_all add: developerApi_def call_defs)
  next
    case (Log l) then show ?thesis by (cases l) (simp_all add: developerApi_def call_defs)
  next
    case (Setup s) then show ?thesis by (cases s) (simp_all add: developerApi_def call_defs)
  next
    case (Hook h) then show ?thesis by (cases h) (simp_all add: developerApi_def call_defs)
  qed
  then show ?thesis
    using assms by (cases "dc_method (developerApi op csrf) = ''GET''"; cases "before_session op") (simp_all add: dev_send_def)
qed

text \<open>A segment that an address keeps as it is.\<close>

definition plain_segment :: "string \<Rightarrow> bool" where
  "plain_segment x \<longleftrightarrow> \<not> single_dot x \<and> \<not> double_dot x \<and> list_all (\<lambda>c. c \<notin> set [CHR ''/'', CHR 0x5C, CHR ''?'', CHR ''#'']) x"

lemma url_segs_plain:
  assumes "list_all plain_segment xs" "xs \<noteq> []"
  shows "url_segs (seg_path xs @ (if q = [] then [] else ''?'' @ q)) = xs"
proof -
  have chars: "c \<in> set (seg_path ys) \<Longrightarrow> c \<noteq> CHR ''?'' \<and> c \<noteq> CHR ''#'' \<and> c \<noteq> CHR 0x5C" if "list_all plain_segment ys" for c ys
    using that by (induction ys) (auto simp: seg_path_def plain_segment_def list_all_iff)
  have cut: "takeWhile (\<lambda>c. c \<noteq> CHR ''#'' \<and> c \<noteq> CHR ''?'') (seg_path xs @ (if q = [] then [] else ''?'' @ q)) = seg_path xs"
    using chars [OF assms(1)] by (subst takeWhile_append2) auto
  have same: "map (\<lambda>c. if c = CHR 0x5C then CHR ''/'' else c) (seg_path xs) = seg_path xs"
    using chars [OF assms(1)] by (auto intro: map_idI)
  have "split_on (CHR ''/'') (seg_path ys) = [] # ys" if "list_all plain_segment ys" "ys \<noteq> []" for ys
    using that
  proof (induction ys)
    case (Cons y ys)
    have y: "CHR ''/'' \<notin> set y" using Cons.prems(1) by (auto simp: plain_segment_def list_all_iff)
    show ?case
    proof (cases "ys = []")
      case True
      then show ?thesis using y by (simp add: seg_path_def)
    next
      case False
      then obtain z zs where z: "seg_path ys = CHR ''/'' # z" by (cases ys) (auto simp: seg_path_def)
      then have "split_on (CHR ''/'') z = ys" using Cons.IH Cons.prems(1) False by simp
      then show ?thesis using split_on_append [OF y, of z] z by (simp add: seg_path_def)
    qed
  qed simp
  then show ?thesis using cut same assms by (simp add: url_segs_def)
qed

lemma fetch_segments:
  assumes "list_all plain_segment (dc_segs c)" "dc_segs c \<noteq> []"
  shows "fetch_path (dc_path c) = seg_path (dc_segs c)"
proof -
  have "resolve_segs [] (dc_segs c) = dc_segs c"
    using assms(1) by (simp add: resolve_plain plain_segment_def list_all_iff)
  then show ?thesis
    using url_segs_plain [OF assms, of "query_string (dc_query c)"] by (simp add: dc_path_def fetch_path_def seg_path_def)
qed

text \<open>C0. An identifier goes into the path as it is. An operation whose identifiers are plain segments asks for the path it
  names; but the deletion of a project whose identifier leads out of the projects is, request for request, the deletion
  of a workspace.\<close>

theorem developer_identifiers_unencoded:
  "(list_all plain_segment (dc_segs (developerApi op csrf)) \<longrightarrow>
      fetch_path (dc_path (developerApi op csrf)) = seg_path (dc_segs (developerApi op csrf))) \<and>
   (plain_segment w \<longrightarrow>
      fetch_path (dc_path (developerApi (Project (DeleteProject (''../workspaces/'' @ w) name)) csrf)) =
        fetch_path (dc_path (developerApi (Workspace (DeleteWorkspace w name)) csrf)) \<and>
      (\<lambda>c. (dc_method c, dc_body c, dc_csrf c)) (developerApi (Project (DeleteProject (''../workspaces/'' @ w) name)) csrf) =
        (\<lambda>c. (dc_method c, dc_body c, dc_csrf c)) (developerApi (Workspace (DeleteWorkspace w name)) csrf))"
proof (intro conjI impI)
  have segs: "dc_segs (developerApi op csrf) \<noteq> []"
  proof (cases op)
    case (Account a) then show ?thesis by (cases a) (simp_all add: developerApi_def call_defs)
  next
    case (Workspace w) then show ?thesis by (cases w) (simp_all add: developerApi_def call_defs)
  next
    case (Project p) then show ?thesis by (cases p) (simp_all add: developerApi_def call_defs)
  next
    case (Money m) then show ?thesis by (cases m) (simp_all add: developerApi_def call_defs)
  next
    case (Log l) then show ?thesis by (cases l) (simp_all add: developerApi_def call_defs)
  next
    case (Setup s) then show ?thesis by (cases s) (simp_all add: developerApi_def call_defs)
  next
    case (Hook h) then show ?thesis by (cases h) (simp_all add: developerApi_def call_defs)
  qed
  show "fetch_path (dc_path (developerApi op csrf)) = seg_path (dc_segs (developerApi op csrf))" if "list_all plain_segment (dc_segs (developerApi op csrf))"
    by (rule fetch_segments [OF that segs])
  let ?p = "developerApi (Project (DeleteProject (''../workspaces/'' @ w) name)) csrf"
  let ?w = "developerApi (Workspace (DeleteWorkspace w name)) csrf"
  show "(\<lambda>c. (dc_method c, dc_body c, dc_csrf c)) ?p = (\<lambda>c. (dc_method c, dc_body c, dc_csrf c)) ?w"
    by (simp add: developerApi_def call_defs)
  have words: "plain_segment ''projects''" "plain_segment ''workspaces''" by code_simp+
  have dots: "double_dot ''..''" "\<not> double_dot ''projects''" "\<not> single_dot ''projects''" by code_simp+
  show "fetch_path (dc_path ?p) = fetch_path (dc_path ?w)" if w: "plain_segment w"
  proof -
    have "list_all (\<lambda>x. CHR ''/'' \<notin> set x \<and> CHR 0x5C \<notin> set x \<and> CHR ''?'' \<notin> set x \<and> CHR ''#'' \<notin> set x) [w]"
      using w by (auto simp: plain_segment_def list_all_iff)
    then have clean: "CHR ''/'' \<notin> set w" "takeWhile (\<lambda>c. c \<noteq> CHR ''#'' \<and> c \<noteq> CHR ''?'') w = w"
      "map (\<lambda>c. if c = CHR 0x5C then CHR ''/'' else c) w = w"
      by (auto simp: takeWhile_eq_all_conv intro!: map_idI)
    have "split_on (CHR ''/'') (map (\<lambda>c. if c = CHR 0x5C then CHR ''/'' else c) (takeWhile (\<lambda>c. c \<noteq> CHR ''#'' \<and> c \<noteq> CHR ''?'') w)) = [w]"
      by (subst clean(2), subst clean(3)) (simp add: clean(1))
    then have "url_segs (dc_path ?p) = [''projects'', ''..'', ''workspaces'', w]"
      by (simp add: developerApi_def call_defs dc_path_def seg_path_def url_segs_def)
    then have "fetch_path (dc_path ?p) = seg_path [''workspaces'', w]"
      using dots words(2) w by (simp add: fetch_path_def seg_path_def plain_segment_def)
    moreover have "fetch_path (dc_path ?w) = seg_path [''workspaces'', w]"
      using fetch_segments [of ?w] words w by (simp add: developerApi_def call_defs)
    ultimately show ?thesis by simp
  qed
qed

text \<open>What a refusal is called: a request that fails ends as one error, named by the server's own code when the answer
  carries one and by the status otherwise; without an answer it is a failure of the network. Any success is an answer,
  also one that cannot be read, which comes as \<open>null\<close>.\<close>

lemma developer_refusals_named:
  "(\<exists>code n m det. dev_req net base c = ApiError code n m det) \<longleftrightarrow> (\<forall>r. net (dev_send base c) = Some r \<longrightarrow> \<not> reply_ok r)"
  "net (dev_send base c) = None \<Longrightarrow> \<exists>m. dev_req net base c = ApiError (JStr ''NETWORK'') 0 m None"
  "net (dev_send base c) = Some r \<Longrightarrow> \<not> reply_ok r \<Longrightarrow>
     \<exists>m det. dev_req net base c = ApiError (case wy_body r of Some (JObj ms) \<Rightarrow> codeFor (wy_status r) (case jget ''error'' (JObj ms) of Some e \<Rightarrow> jget ''code'' e | None \<Rightarrow> None)
        | _ \<Rightarrow> JStr (status_code (wy_status r))) (wy_status r) m det"
  "net (dev_send base c) = Some r \<Longrightarrow> reply_ok r \<Longrightarrow> wy_status r \<noteq> 204 \<Longrightarrow> wy_body r = None \<Longrightarrow> dev_req net base c = DevAnswer (Some JNull)"
  by (auto simp: dev_req_def dev_read_def Let_def reply_ok_def codeFor_def json_truthy_def jget_def split: option.splits json.splits)

lemma developer_changes_carry_token_witness:
  "(''X-CSRF-Token'', ''t'') \<in> set (df_headers (dev_send [] (developerApi (Log (RevokeKey ''k1'')) ''t''))) \<and>
   df_headers (dev_send [] (developerApi (Account Me) ''t'')) = []"
  using developer_changes_carry_token [of "''t''" "Log (RevokeKey ''k1'')" "[]"] developer_changes_carry_token [of "''t''" "Account Me" "[]"]
  by (simp add: developerApi_def call_defs before_session_def)

lemma developer_identifiers_unencoded_witness:
  "fetch_path (dc_path (developerApi (Project (DeleteProject ''../workspaces/w1'' ''n'')) ''t'')) =
     fetch_path (dc_path (developerApi (Workspace (DeleteWorkspace ''w1'' ''n'')) ''t''))"
proof -
  have "plain_segment ''w1''" by code_simp
  then show ?thesis using developer_identifiers_unencoded [where w = "''w1''" and name = "''n''" and csrf = "''t''"] by simp
qed

end
