(* ===== verification/Spec2Isabelle.thy ===== *)
theory Spec2Isabelle
  imports SdkEndpoints SdkWebhooks CheckoutWeb NodePlugin Realtime VsMatrix AppSecurity Highlight RunLoop WebProof WebDevelopers AdminClient AdminLib PayPage DbAuthority WebOnboarding WebDeveloperApi
begin

text \<open>
  A model of the TypeScript code of the Banzami repository. The header is completed as the
  components are.
\<close>

end
